(* ===== verification/CTN_Prelude.thy ===== *)
theory CTN_Prelude
  imports Complex_Main "HOL-Library.Word" "HOL-Library.List_Lexorder" "HOL-Library.Multiset"
begin

text \<open>
  Shared vocabulary of the development.

  \<^item> JavaScript values: a string is the list of its UTF-16 code units (\<open>jstr\<close>), a
    \<open>Uint8Array\<close> is a list of bytes, a \<open>Map\<close> (and a SQL table keyed by its primary key) is an
    association list in insertion order, and \<open>Array.prototype.sort\<close> with a comparator is a
    stable insertion sort.
  \<^item> \<open>runtime\<close> collects the functions the sources call but do not define: the Unicode tables
    of the JavaScript engine, IEEE rounding, collation, and the hash and signature primitives
    of the \<^verbatim>\<open>@noble\<close> packages. Every definition that needs one takes a \<open>runtime\<close> argument.
  \<^item> Three collections of facts: \<open>store_simps\<close> for maps and tables, \<open>json_simps\<close> for the
    serialisation layer and \<open>eval_simps\<close>, the definitions to unfold when a closed term is
    evaluated by the simplifier.
\<close>

named_theorems store_simps
named_theorems json_simps
named_theorems eval_simps

section \<open>Strings and bytes\<close>

type_synonym jstr = "nat list"
type_synonym byte = "8 word"

definition lit :: "string \<Rightarrow> jstr" where
  "lit s = map of_char s"

lemma lit_inject [simp]: "lit s = lit t \<longleftrightarrow> s = t"
  by (simp add: lit_def inj_map_eq_map inj_on_def)

lemma lit_Nil [simp]: "lit [] = []"
  by (simp add: lit_def)

lemma lit_eq_Nil [simp]: "lit s = [] \<longleftrightarrow> s = []" "[] = lit s \<longleftrightarrow> s = []"
  by (auto simp: lit_def)

lemma length_lit [simp]: "length (lit s) = length s"
  by (simp add: lit_def)

text \<open>A JavaScript string seen as code points: surrogate pairs are joined, a lone surrogate
  stands for itself (this is how a regular expression with the \<^verbatim>\<open>u\<close> flag reads the string).\<close>

definition high_surrogate :: "nat \<Rightarrow> bool" where
  "high_surrogate c \<longleftrightarrow> 55296 \<le> c \<and> c < 56320"

definition low_surrogate :: "nat \<Rightarrow> bool" where
  "low_surrogate c \<longleftrightarrow> 56320 \<le> c \<and> c < 57344"

fun code_points :: "jstr \<Rightarrow> nat list" where
  "code_points [] = []"
| "code_points [a] = [a]"
| "code_points (a # b # s) =
     (if high_surrogate a \<and> low_surrogate b
      then ((a - 55296) * 1024 + (b - 56320) + 65536) # code_points s
      else a # code_points (b # s))"

definition units_of :: "nat \<Rightarrow> jstr" where
  "units_of c = (if c < 65536 then [c]
                 else [55296 + (c - 65536) div 1024, 56320 + (c - 65536) mod 1024])"

definition code_units :: "nat list \<Rightarrow> jstr" where
  "code_units cs = concat (map units_of cs)"

lemma code_points_bmp:
  "\<forall>c \<in> set s. \<not> high_surrogate c \<Longrightarrow> code_points s = s"
  by (induction s rule: code_points.induct) auto

lemma code_units_bmp:
  "\<forall>c \<in> set s. c < 65536 \<Longrightarrow> code_units s = s"
  by (induction s) (auto simp: code_units_def units_of_def)

section \<open>String operations of the JavaScript library\<close>

definition starts_with :: "'a list \<Rightarrow> 'a list \<Rightarrow> bool" where
  "starts_with n s \<longleftrightarrow> take (length n) s = n"

fun includes_str :: "'a list \<Rightarrow> 'a list \<Rightarrow> bool" where
  "includes_str n [] = (n = [])"
| "includes_str n (x # xs) = (starts_with n (x # xs) \<or> includes_str n xs)"

fun split_on :: "'a \<Rightarrow> 'a list \<Rightarrow> 'a list list" where
  "split_on c [] = [[]]"
| "split_on c (x # xs) =
     (if x = c then [] # split_on c xs
      else (case split_on c xs of [] \<Rightarrow> [[x]] | w # ws \<Rightarrow> (x # w) # ws))"

fun join :: "'a list \<Rightarrow> 'a list list \<Rightarrow> 'a list" where
  "join sep [] = []"
| "join sep [w] = w"
| "join sep (w # v # ws) = w @ sep @ join sep (v # ws)"

definition replace_all :: "'a \<Rightarrow> 'a \<Rightarrow> 'a list \<Rightarrow> 'a list" where
  "replace_all c d s = map (\<lambda>x. if x = c then d else x) s"

text \<open>The character class \<^verbatim>\<open>\s\<close>: white space and line terminators.\<close>

definition js_space :: "nat \<Rightarrow> bool" where
  "js_space c \<longleftrightarrow> (9 \<le> c \<and> c \<le> 13) \<or> c = 32 \<or> c = 160 \<or> c = 5760 \<or> (8192 \<le> c \<and> c \<le> 8202)
     \<or> c = 8232 \<or> c = 8233 \<or> c = 8239 \<or> c = 8287 \<or> c = 12288 \<or> c = 65279"

definition trim :: "jstr \<Rightarrow> jstr" where
  "trim s = rev (dropWhile js_space (rev (dropWhile js_space s)))"

lemma starts_with_iff: "starts_with n s \<longleftrightarrow> (\<exists>t. s = n @ t)"
  by (auto simp: starts_with_def) (metis append_take_drop_id)

lemma includes_str_iff: "includes_str n s \<longleftrightarrow> (\<exists>a b. s = a @ n @ b)"
proof (induction s)
  case IH: (Cons x xs)
  show ?case
  proof
    assume "includes_str n (x # xs)"
    then consider "starts_with n (x # xs)" | a b where "xs = a @ n @ b"
      using IH.IH by auto
    then show "\<exists>a b. x # xs = a @ n @ b"
    proof cases
      case 1
      then obtain t where "x # xs = [] @ n @ t" by (auto simp: starts_with_iff)
      then show ?thesis by blast
    next
      case 2
      then have "x # xs = (x # a) @ n @ b" by simp
      then show ?thesis by blast
    qed
  next
    assume "\<exists>a b. x # xs = a @ n @ b"
    then obtain a b where ab: "x # xs = a @ n @ b" by blast
    show "includes_str n (x # xs)"
    proof (cases a)
      case Nil
      with ab have "starts_with n (x # xs)" by (auto simp: starts_with_iff)
      then show ?thesis by simp
    next
      case (Cons y ys)
      with ab IH.IH show ?thesis by auto
    qed
  qed
qed simp

lemma includes_str_trans: "includes_str a b \<Longrightarrow> includes_str b c \<Longrightarrow> includes_str a c"
  unfolding includes_str_iff by (metis append.assoc)

lemma includes_str_filter: "includes_str n s \<Longrightarrow> includes_str (filter P n) (filter P s)"
  unfolding includes_str_iff by (metis filter_append)

lemma split_on_not_Nil [simp]: "split_on c s \<noteq> []"
  by (induction s) (auto split: list.splits)

lemma split_on_no_sep: "w \<in> set (split_on c s) \<Longrightarrow> c \<notin> set w"
  by (induction s arbitrary: w) (auto split: if_splits list.splits)

lemma concat_split_on: "concat (split_on c s) = filter (\<lambda>x. x \<noteq> c) s"
  by (induction s) (auto split: list.splits)

lemma join_Nil_concat: "join [] ws = concat ws"
  by (induction "[] :: 'a list" ws rule: join.induct) auto

lemma split_on_hd_prefix: "split_on c xs = v # vs \<Longrightarrow> starts_with v xs"
  by (induction xs arbitrary: v vs) (auto simp: starts_with_def split: if_splits list.splits)

lemma split_on_mem_includes: "w \<in> set (split_on c s) \<Longrightarrow> includes_str w s"
proof (induction s arbitrary: w)
  case (Cons x xs)
  show ?case
  proof (cases "x = c")
    case True
    with Cons show ?thesis by (auto simp: starts_with_def)
  next
    case False
    obtain v vs where sp: "split_on c xs = v # vs" by (cases "split_on c xs") auto
    from False Cons.prems sp have "w = x # v \<or> w \<in> set vs" by auto
    then show ?thesis
      using Cons.IH sp split_on_hd_prefix [OF sp] by (auto simp: starts_with_def)
  qed
qed simp

lemma js_space_32 [simp]: "js_space 32"
  by (simp add: js_space_def)

section \<open>Insertion-ordered maps\<close>

text \<open>A JavaScript \<open>Map\<close>, and a SQL table by primary key: setting an existing key replaces the
  value in place, a new key goes to the end, deletion keeps the order of the rest.\<close>

fun map_put :: "'k \<Rightarrow> 'v \<Rightarrow> ('k \<times> 'v) list \<Rightarrow> ('k \<times> 'v) list" where
  "map_put k v [] = [(k, v)]"
| "map_put k v ((a, b) # m) = (if a = k then (k, v) # m else (a, b) # map_put k v m)"

definition map_del :: "'k \<Rightarrow> ('k \<times> 'v) list \<Rightarrow> ('k \<times> 'v) list" where
  "map_del k m = filter (\<lambda>(a, _). a \<noteq> k) m"

definition map_wf :: "('k \<times> 'v) list \<Rightarrow> bool" where
  "map_wf m \<longleftrightarrow> distinct (map fst m)"

lemma map_wf_Nil [simp]: "map_wf []"
  by (simp add: map_wf_def)

lemma map_of_put [store_simps]: "map_of (map_put k v m) = (map_of m)(k \<mapsto> v)"
  by (induction m) (auto simp: fun_eq_iff)

lemma map_of_del [store_simps]: "map_of (map_del k m) = (map_of m)(k := None)"
  by (induction m) (auto simp: map_del_def fun_eq_iff)

lemma keys_put [store_simps]: "fst ` set (map_put k v m) = insert k (fst ` set m)"
proof (induction m)
  case (Cons p m)
  then show ?case by (cases p) auto
qed simp

lemma keys_del [store_simps]: "fst ` set (map_del k m) = fst ` set m - {k}"
  by (auto simp: map_del_def)

lemma wf_put: "map_wf m \<Longrightarrow> map_wf (map_put k v m)"
  unfolding map_wf_def
proof (induction m)
  case (Cons p m)
  obtain a b where p: "p = (a, b)" by fastforce
  have "fst ` set (map_put k v m) = insert k (fst ` set m)" by (rule keys_put)
  with Cons p show ?case by auto
qed simp

lemma distinct_keys_filter: "distinct (map fst m) \<Longrightarrow> distinct (map fst (filter P m))"
  by (induction m) auto

lemma wf_del: "map_wf m \<Longrightarrow> map_wf (map_del k m)"
  by (simp add: map_wf_def map_del_def distinct_keys_filter)

lemma length_put [store_simps]:
  "length (map_put k v m) = (if k \<in> fst ` set m then length m else Suc (length m))"
proof (induction m)
  case (Cons p m)
  then show ?case by (cases p) auto
qed simp

lemma length_del_le: "length (map_del k m) \<le> length m"
  by (simp add: map_del_def)

lemma set_put_subset: "set (map_put k v m) \<subseteq> insert (k, v) (set m)"
proof (induction m)
  case (Cons p m)
  then show ?case by (cases p) (simp, blast)
qed simp

lemma put_in_set: "(k, v) \<in> set (map_put k v m)"
  by (induction m) auto

lemma set_del [store_simps]: "set (map_del k m) = {e \<in> set m. fst e \<noteq> k}"
  by (auto simp: map_del_def)

lemma wf_map_of_mem: "map_wf m \<Longrightarrow> (k, v) \<in> set m \<Longrightarrow> map_of m k = Some v"
  by (simp add: map_wf_def)

text \<open>The contract a keyed store gives its clients, and what follows from it for runs of
  writes. The sources rely on it for \<open>Map\<close>s and for table rows alike.\<close>

locale key_store =
  fixes get :: "'s \<Rightarrow> 'k \<Rightarrow> 'v option"
    and put :: "'k \<Rightarrow> 'v \<Rightarrow> 's \<Rightarrow> 's"
    and del :: "'k \<Rightarrow> 's \<Rightarrow> 's"
    and wf :: "'s \<Rightarrow> bool"
  assumes get_put: "get (put k v s) = (get s)(k \<mapsto> v)"
    and get_del: "get (del k s) = (get s)(k := None)"
    and wf_put': "wf s \<Longrightarrow> wf (put k v s)"
    and wf_del': "wf s \<Longrightarrow> wf (del k s)"
begin

lemma get_fold_put:
  "get (fold (\<lambda>(k, v). put k v) kvs s) = get s ++ map_of (rev kvs)"
proof (induction kvs arbitrary: s)
  case (Cons p kvs)
  obtain a b where p: "p = (a, b)" by fastforce
  show ?case
    by (auto simp: p Cons.IH get_put fun_eq_iff map_add_def split: option.splits)
qed simp

lemma wf_fold_put: "wf s \<Longrightarrow> wf (fold (\<lambda>(k, v). put k v) kvs s)"
  by (induction kvs arbitrary: s) (auto simp: wf_put')

lemma get_fold_other:
  "k \<notin> fst ` set kvs \<Longrightarrow> get (fold (\<lambda>(k, v). put k v) kvs s) k = get s k"
  by (simp add: get_fold_put map_add_def map_of_eq_None_iff [of "rev kvs", THEN iffD2])

lemma get_del_put: "get (del k (put k v s)) = (get s)(k := None)"
  by (simp add: get_put get_del)

end

interpretation jsm: key_store "map_of" "map_put" "map_del" "map_wf"
  by unfold_locales (simp_all add: map_of_put map_of_del wf_put wf_del)

text \<open>\<open>UPDATE t SET ... WHERE id = k\<close>: every row of that key is rewritten, the others stay.\<close>

definition row_update :: "'k \<Rightarrow> ('v \<Rightarrow> 'v) \<Rightarrow> ('k \<times> 'v) list \<Rightarrow> ('k \<times> 'v) list" where
  "row_update k f m = map (\<lambda>(a, b). (a, if a = k then f b else b)) m"

lemma keys_row_update [store_simps]: "map fst (row_update k f m) = map fst m"
  by (auto simp: row_update_def)

lemma wf_row_update: "map_wf m \<Longrightarrow> map_wf (row_update k f m)"
  by (simp add: map_wf_def keys_row_update)

lemma map_of_row_update [store_simps]:
  "map_of (row_update k f m) a = (if a = k then map_option f (map_of m a) else map_of m a)"
  by (induction m) (auto simp: row_update_def)

lemma row_update_absent: "map_of m k = None \<Longrightarrow> row_update k f m = m"
  by (induction m) (auto simp: row_update_def split: if_splits)

section \<open>Step relations\<close>

text \<open>A predicate that every step of a machine keeps holds in every state reachable from one where it
  holds. The invariants and the terminal states of the development are instances.\<close>

locale stable =
  fixes step :: "'s \<Rightarrow> 's \<Rightarrow> bool"
    and good :: "'s \<Rightarrow> bool"
  assumes step_keeps: "step s t \<Longrightarrow> good s \<Longrightarrow> good t"
begin

lemma reachable_keeps: "step\<^sup>*\<^sup>* s t \<Longrightarrow> good s \<Longrightarrow> good t"
  by (induction rule: rtranclp_induct) (auto intro: step_keeps)

end

section \<open>Stable sorting with a comparator\<close>

fun insort_cmp :: "('a \<Rightarrow> 'a \<Rightarrow> int) \<Rightarrow> 'a \<Rightarrow> 'a list \<Rightarrow> 'a list" where
  "insort_cmp cmp x [] = [x]"
| "insort_cmp cmp x (y # ys) =
     (if cmp x y \<le> 0 then x # y # ys else y # insort_cmp cmp x ys)"

definition js_sort :: "('a \<Rightarrow> 'a \<Rightarrow> int) \<Rightarrow> 'a list \<Rightarrow> 'a list" where
  "js_sort cmp xs = foldr (insort_cmp cmp) xs []"

text \<open>What \<open>Array.prototype.sort\<close> asks of a comparator.\<close>

definition consistent_cmp :: "('a \<Rightarrow> 'a \<Rightarrow> int) \<Rightarrow> bool" where
  "consistent_cmp cmp \<longleftrightarrow>
     (\<forall>x y. cmp x y \<le> 0 \<or> cmp y x \<le> 0) \<and>
     (\<forall>x y z. cmp x y \<le> 0 \<longrightarrow> cmp y z \<le> 0 \<longrightarrow> cmp x z \<le> 0)"

lemma mset_insort_cmp: "mset (insort_cmp cmp x xs) = add_mset x (mset xs)"
  by (induction xs) auto

lemma mset_js_sort [simp]: "mset (js_sort cmp xs) = mset xs"
  by (induction xs) (auto simp: js_sort_def mset_insort_cmp)

lemma set_js_sort [simp]: "set (js_sort cmp xs) = set xs"
  by (metis mset_js_sort set_mset_mset)

lemma length_js_sort [simp]: "length (js_sort cmp xs) = length xs"
  by (metis mset_js_sort size_mset)

lemma distinct_map_js_sort: "distinct (map f (js_sort cmp xs)) = distinct (map f xs)"
  by (metis mset_js_sort mset_map distinct_count_atmost_1 set_mset_mset count_mset)

lemma sorted_insort_cmp:
  assumes "consistent_cmp cmp" "sorted_wrt (\<lambda>x y. cmp x y \<le> 0) xs"
  shows "sorted_wrt (\<lambda>x y. cmp x y \<le> 0) (insort_cmp cmp x xs)"
  using assms(2)
proof (induction xs)
  case (Cons y ys)
  have set_ins: "set (insort_cmp cmp x ys) = insert x (set ys)"
    by (metis mset_insort_cmp set_mset_add_mset_insert set_mset_mset)
  show ?case
  proof (cases "cmp x y \<le> 0")
    case True
    with Cons.prems assms(1) show ?thesis
      by (auto simp: consistent_cmp_def)
  next
    case False
    with assms(1) have "cmp y x \<le> 0" by (meson consistent_cmp_def)
    with False Cons show ?thesis by (auto simp: set_ins)
  qed
qed simp

lemma sorted_js_sort:
  "consistent_cmp cmp \<Longrightarrow> sorted_wrt (\<lambda>x y. cmp x y \<le> 0) (js_sort cmp xs)"
  by (induction xs) (auto simp: js_sort_def sorted_insort_cmp)

section \<open>Decimal text\<close>

definition digit :: "nat \<Rightarrow> nat" where
  "digit d = (if d < 10 then 48 + d else 87 + d)"

fun nat_digits :: "nat \<Rightarrow> jstr" where
  "nat_digits n = (if n < 10 then [digit n] else nat_digits (n div 10) @ [digit (n mod 10)])"

declare nat_digits.simps [simp del]

definition int_digits :: "int \<Rightarrow> jstr" where
  "int_digits i = (if i < 0 then 45 # nat_digits (nat (- i)) else nat_digits (nat i))"

section \<open>The platform the sources run on\<close>

text \<open>
  \<open>dbl\<close> is the rounding of an exact result to the nearest IEEE double, \<open>num_str\<close> the text of a
  double, \<open>parse_url\<close> the protocol, host name and port of \<open>new URL\<close> (\<open>None\<close> when it throws); the Unicode entries are
  \<open>String.prototype.normalize\<close>, \<open>toLowerCase\<close>, \<open>toUpperCase\<close>, the property escapes \<^verbatim>\<open>\p{P}\<close>/\<^verbatim>\<open>\p{S}\<close> and
  \<open>localeCompare\<close>; \<open>sha256\<close>, \<open>ed_sign\<close>, \<open>ed_verify\<close> are the \<^verbatim>\<open>@noble\<close> primitives, where
  \<open>ed_verify\<close> answers \<open>None\<close> when the library throws.
\<close>

record runtime =
  nfc :: "jstr \<Rightarrow> jstr"
  nfkc :: "jstr \<Rightarrow> jstr"
  to_lower :: "jstr \<Rightarrow> jstr"
  to_upper :: "jstr \<Rightarrow> jstr"
  punct_or_symbol :: "nat \<Rightarrow> bool"
  locale_compare :: "jstr \<Rightarrow> jstr \<Rightarrow> int"
  dbl :: "rat \<Rightarrow> rat"
  num_str :: "rat \<Rightarrow> jstr"
  parse_url :: "jstr \<Rightarrow> (jstr \<times> jstr \<times> jstr) option"
  sha256 :: "byte list \<Rightarrow> byte list"
  ed_sign :: "byte list \<Rightarrow> byte list \<Rightarrow> byte list"
  ed_public :: "byte list \<Rightarrow> byte list"
  ed_verify :: "byte list \<Rightarrow> byte list \<Rightarrow> byte list \<Rightarrow> bool option"

text \<open>A concrete platform for evaluating examples: the ASCII fragment of the Unicode functions,
  exact arithmetic, and injective stand-ins for the cryptographic primitives.\<close>

definition ascii_lower :: "nat \<Rightarrow> nat" where
  "ascii_lower c = (if 65 \<le> c \<and> c \<le> 90 then c + 32 else c)"

definition ascii_upper :: "nat \<Rightarrow> nat" where
  "ascii_upper c = (if 97 \<le> c \<and> c \<le> 122 then c - 32 else c)"

definition ascii_punct :: "nat \<Rightarrow> bool" where
  "ascii_punct c \<longleftrightarrow> (33 \<le> c \<and> c \<le> 47) \<or> (58 \<le> c \<and> c \<le> 64) \<or> (91 \<le> c \<and> c \<le> 96) \<or> (123 \<le> c \<and> c \<le> 126)"

fun unit_compare :: "jstr \<Rightarrow> jstr \<Rightarrow> int" where
  "unit_compare [] [] = 0"
| "unit_compare [] (_ # _) = -1"
| "unit_compare (_ # _) [] = 1"
| "unit_compare (a # s) (b # t) = (if a < b then -1 else if b < a then 1 else unit_compare s t)"

text \<open>Protocol, host name and port of the URLs \<^verbatim>\<open>https://host/path\<close> and \<^verbatim>\<open>http://host/path\<close>.\<close>

definition sample_parse_url :: "jstr \<Rightarrow> (jstr \<times> jstr \<times> jstr) option" where
  "sample_parse_url u =
     (if starts_with (lit ''https://'') u then Some (lit ''https:'', takeWhile (\<lambda>c. c \<noteq> 47) (drop 8 u), [])
      else if starts_with (lit ''http://'') u then Some (lit ''http:'', takeWhile (\<lambda>c. c \<noteq> 47) (drop 7 u), [])
      else None)"

definition sample_runtime :: runtime where
  "sample_runtime =
     \<lparr> nfc = (\<lambda>s. s), nfkc = (\<lambda>s. s), to_lower = map ascii_lower, to_upper = map ascii_upper, punct_or_symbol = ascii_punct,
       locale_compare = unit_compare, dbl = (\<lambda>q. q), num_str = (\<lambda>q. int_digits (floor q)),
       parse_url = sample_parse_url, sha256 = (\<lambda>b. b),
       ed_sign = (\<lambda>m k. k @ m), ed_public = (\<lambda>k. k),
       ed_verify = (\<lambda>sg m pk. Some (sg = pk @ m)) \<rparr>"

lemma sample_runtime_simps [simp]:
  "nfc sample_runtime = (\<lambda>s. s)" "nfkc sample_runtime = (\<lambda>s. s)"
  "to_lower sample_runtime = map ascii_lower" "to_upper sample_runtime = map ascii_upper" "punct_or_symbol sample_runtime = ascii_punct"
  "locale_compare sample_runtime = unit_compare" "dbl sample_runtime = (\<lambda>q. q)"
  "num_str sample_runtime = (\<lambda>q. int_digits (floor q))" "parse_url sample_runtime = sample_parse_url"
  "sha256 sample_runtime = (\<lambda>b. b)" "ed_sign sample_runtime = (\<lambda>m k. k @ m)"
  "ed_public sample_runtime = (\<lambda>k. k)"
  "ed_verify sample_runtime = (\<lambda>sg m pk. Some (sg = pk @ m))"
  by (simp_all add: sample_runtime_def)

declare
  lit_def [eval_simps] ascii_lower_def [eval_simps] ascii_upper_def [eval_simps] ascii_punct_def [eval_simps]
  replace_all_def [eval_simps] trim_def [eval_simps] js_space_def [eval_simps]
  high_surrogate_def [eval_simps] low_surrogate_def [eval_simps] code_units_def [eval_simps]
  units_of_def [eval_simps] starts_with_def [eval_simps] Let_def [eval_simps]
  map_del_def [eval_simps] row_update_def [eval_simps] js_sort_def [eval_simps]

end
