(* ===== verification/Canonical.thy ===== *)
theory Canonical
  imports CTN_Prelude
begin

text \<open>
  Canonicalisation and digests (\<^verbatim>\<open>packages/protocol/src/canonical.ts\<close> and the hashing part of
  \<^verbatim>\<open>packages/protocol/src/crypto.ts\<close>): JSON values, the canonical serialisation every signature and
  hash is taken over, the canonical form of a request, the hexadecimal codec, and the
  domain-separated digests. A thrown \<open>CanonicalizationError\<close> (or the \<open>TypeError\<close> of reading a
  property of \<open>null\<close>) is a value of an error type. Lemmas: the serialisation does not depend on
  key order, the canonical form is a fixed point of canonicalisation and lies in the documented
  ranges, hexadecimal decoding inverts encoding, and the digests bind their inputs and keep the
  four domains apart.
\<close>

section \<open>JSON values\<close>

datatype jsnum = Fin rat | NaN | PosInf | NegInf

datatype json =
    JNull
  | JUndef
  | JBool bool
  | JNum jsnum
  | JStr jstr
  | JArr "json list"
  | JObj "(jstr \<times> json) list"

abbreviation JInt :: "int \<Rightarrow> json" where
  "JInt n \<equiv> JNum (Fin (of_int n))"

definition is_integral :: "rat \<Rightarrow> bool" where
  "is_integral q \<longleftrightarrow> of_int (floor q) = q"

text \<open>\<open>Number.isSafeInteger\<close>, with \<open>2^53 - 1\<close> as the bound.\<close>

definition MAX_SAFE :: int where
  "MAX_SAFE = 9007199254740991"

fun isSafeInteger :: "jsnum \<Rightarrow> bool" where
  "isSafeInteger (Fin q) = (is_integral q \<and> \<bar>floor q\<bar> \<le> MAX_SAFE)"
| "isSafeInteger _ = False"

fun num_int :: "jsnum \<Rightarrow> int" where
  "num_int (Fin q) = floor q"
| "num_int _ = 0"

lemma is_integral_int [simp]: "is_integral (of_int n)"
  by (simp add: is_integral_def)

lemma isSafeInteger_int [simp]: "isSafeInteger (Fin (of_int n)) \<longleftrightarrow> \<bar>n\<bar> \<le> MAX_SAFE"
  by (simp add: is_integral_def)

text \<open>\<open>v[k]\<close>: reading a property of \<open>null\<close> or \<open>undefined\<close> throws, of a primitive or an array it
  is \<open>undefined\<close> for the property names the sources read.\<close>

fun get_prop :: "json \<Rightarrow> string \<Rightarrow> json option" where
  "get_prop JNull k = None"
| "get_prop JUndef k = None"
| "get_prop (JObj kvs) k = Some (case map_of kvs (lit k) of Some v \<Rightarrow> v | None \<Rightarrow> JUndef)"
| "get_prop _ k = Some JUndef"

section \<open>Printing\<close>

text \<open>\<open>JSON.stringify\<close> of a string: short escapes, \<^verbatim>\<open>\u\<close> escapes for the other control characters and
  for lone surrogates.\<close>

definition u_escape :: "nat \<Rightarrow> jstr" where
  "u_escape c = [92, 117, digit (c div 4096), digit (c div 256 mod 16), digit (c div 16 mod 16), digit (c mod 16)]"

definition escape_unit :: "nat \<Rightarrow> jstr" where
  "escape_unit c =
     (if c = 34 then [92, 34] else if c = 92 then [92, 92]
      else if c = 8 then [92, 98] else if c = 12 then [92, 102] else if c = 10 then [92, 110]
      else if c = 13 then [92, 114] else if c = 9 then [92, 116]
      else if c < 32 then u_escape c else [c])"

fun escape_str :: "jstr \<Rightarrow> jstr" where
  "escape_str [] = []"
| "escape_str [a] = (if high_surrogate a \<or> low_surrogate a then u_escape a else escape_unit a)"
| "escape_str (a # b # s) =
     (if high_surrogate a \<and> low_surrogate b then a # b # escape_str s
      else (if high_surrogate a \<or> low_surrogate a then u_escape a else escape_unit a) @ escape_str (b # s))"

definition quote :: "jstr \<Rightarrow> jstr" where
  "quote s = 34 # escape_str s @ [34]"

section \<open>canonicalJson\<close>

lemma size_json_obj: "(k, v) \<in> set kvs \<Longrightarrow> size v < size (JObj kvs)"
  by (induction kvs) auto

text \<open>The object case sorts the keys by code units, drops the keys whose value is \<open>undefined\<close> and
  serialises the rest; \<open>None\<close> is a thrown \<open>CanonicalizationError\<close>.\<close>

function (sequential) canonicalJson :: "runtime \<Rightarrow> json \<Rightarrow> jstr option" where
  "canonicalJson rt JNull = Some (lit ''null'')"
| "canonicalJson rt (JBool b) = Some (if b then lit ''true'' else lit ''false'')"
| "canonicalJson rt (JNum x) = (if isSafeInteger x then Some (int_digits (num_int x)) else None)"
| "canonicalJson rt (JStr s) = Some (quote (nfc rt s))"
| "canonicalJson rt (JArr vs) =
     map_option (\<lambda>parts. 91 # join [44] parts @ [93]) (those (map (canonicalJson rt) vs))"
| "canonicalJson rt (JObj kvs) =
     map_option (\<lambda>parts. 123 # join [44] parts @ [125])
       (those (map (\<lambda>(k, v). map_option (\<lambda>t. quote k @ [58] @ t) (canonicalJson rt v))
         (filter (\<lambda>(k, v). v \<noteq> JUndef) (sort_key fst kvs))))"
| "canonicalJson rt JUndef = None"
  by pat_completeness auto
termination
  by (relation "measure (size \<circ> snd)") (auto dest: size_json_obj elim: size_list_estimation' intro: le_imp_less_Suc)

section \<open>The canonical request\<close>

datatype role = System | User | Assistant

record CanonicalMessage =
  msg_role :: role
  msg_content :: jstr

record CanonicalRequest =
  req_model :: jstr
  req_messages :: "CanonicalMessage list"
  temperature_millis :: int
  max_tokens :: int

datatype canon_error = CanonicalizationError jstr | TypeError

fun parse_role :: "json \<Rightarrow> role option" where
  "parse_role (JStr s) =
     (if s = lit ''system'' then Some System else if s = lit ''user'' then Some User
      else if s = lit ''assistant'' then Some Assistant else None)"
| "parse_role _ = None"

fun role_str :: "role \<Rightarrow> jstr" where
  "role_str System = lit ''system''"
| "role_str User = lit ''user''"
| "role_str Assistant = lit ''assistant''"

fun assertSafeInteger :: "json \<Rightarrow> string \<Rightarrow> canon_error + int" where
  "assertSafeInteger (JNum x) field =
     (if isSafeInteger x then Inr (num_int x) else Inl (CanonicalizationError (lit field)))"
| "assertSafeInteger _ field = Inl (CanonicalizationError (lit field))"

fun nfc_field :: "runtime \<Rightarrow> json \<Rightarrow> string \<Rightarrow> canon_error + jstr" where
  "nfc_field rt (JStr s) field = Inr (nfc rt s)"
| "nfc_field rt _ field = Inl (CanonicalizationError (lit field))"

definition canon_message :: "runtime \<Rightarrow> json \<Rightarrow> canon_error + CanonicalMessage" where
  "canon_message rt m =
     (case get_prop m ''role'' of
        None \<Rightarrow> Inl TypeError
      | Some r \<Rightarrow>
          (case parse_role r of
             None \<Rightarrow> Inl (CanonicalizationError (lit ''role''))
           | Some role \<Rightarrow>
               (case nfc_field rt (case get_prop m ''content'' of Some c \<Rightarrow> c | None \<Rightarrow> JUndef) ''content'' of
                  Inl e \<Rightarrow> Inl e
                | Inr c \<Rightarrow> Inr \<lparr> msg_role = role, msg_content = c \<rparr>)))"

fun collect :: "('e + 'a) list \<Rightarrow> 'e + 'a list" where
  "collect [] = Inr []"
| "collect (Inl e # rs) = Inl e"
| "collect (Inr x # rs) = (case collect rs of Inl e \<Rightarrow> Inl e | Inr xs \<Rightarrow> Inr (x # xs))"

text \<open>\<open>Math.round\<close>: the nearest integer, halves towards plus infinity.\<close>

definition js_round :: "rat \<Rightarrow> int" where
  "js_round q = floor (q + 1/2)"

definition canon_temperature :: "runtime \<Rightarrow> json \<Rightarrow> json \<Rightarrow> canon_error + int" where
  "canon_temperature rt millis temp =
     (if millis \<noteq> JUndef then assertSafeInteger millis ''temperature_millis''
      else if temp \<noteq> JUndef then
        (case temp of
           JNum (Fin t) \<Rightarrow> if t < 0 \<or> 2 < t then Inl (CanonicalizationError (lit ''temperature''))
                          else Inr (js_round (dbl rt (t * 1000)))
         | _ \<Rightarrow> Inl (CanonicalizationError (lit ''temperature'')))
      else Inr 1000)"

definition toCanonicalRequest :: "runtime \<Rightarrow> json \<Rightarrow> canon_error + CanonicalRequest" where
  "toCanonicalRequest rt input =
     (case get_prop input ''model'' of
        None \<Rightarrow> Inl TypeError
      | Some modelv \<Rightarrow>
     (case nfc_field rt modelv ''model'' of Inl e \<Rightarrow> Inl e | Inr model \<Rightarrow>
      if model = [] then Inl (CanonicalizationError (lit ''model is required'')) else
     (case the (get_prop input ''messages'') of
        JArr ms \<Rightarrow>
          if ms = [] then Inl (CanonicalizationError (lit ''messages must be a non-empty array'')) else
     (case collect (map (canon_message rt) ms) of Inl e \<Rightarrow> Inl e | Inr messages \<Rightarrow>
     (case canon_temperature rt (the (get_prop input ''temperature_millis'')) (the (get_prop input ''temperature'')) of
        Inl e \<Rightarrow> Inl e
      | Inr tm \<Rightarrow>
          if tm < 0 \<or> 2000 < tm then Inl (CanonicalizationError (lit ''temperature_millis must be within [0, 2000]'')) else
     (case assertSafeInteger (case the (get_prop input ''max_tokens'') of
            JNull \<Rightarrow> JInt 1024 | JUndef \<Rightarrow> JInt 1024 | v \<Rightarrow> v) ''max_tokens'' of
        Inl e \<Rightarrow> Inl e
      | Inr mt \<Rightarrow>
          if mt < 1 \<or> 128000 < mt then Inl (CanonicalizationError (lit ''max_tokens must be within [1, 128000]''))
          else Inr \<lparr> req_model = model, req_messages = messages, temperature_millis = tm, max_tokens = mt \<rparr>)))
      | _ \<Rightarrow> Inl (CanonicalizationError (lit ''messages must be a non-empty array'')))))"

text \<open>The canonical request as the object the sources serialise.\<close>

definition message_json :: "CanonicalMessage \<Rightarrow> json" where
  "message_json m = JObj [(lit ''role'', JStr (role_str (msg_role m))), (lit ''content'', JStr (msg_content m))]"

definition request_json :: "CanonicalRequest \<Rightarrow> json" where
  "request_json r =
     JObj [(lit ''model'', JStr (req_model r)), (lit ''messages'', JArr (map message_json (req_messages r))),
           (lit ''temperature_millis'', JInt (temperature_millis r)), (lit ''max_tokens'', JInt (max_tokens r))]"

section \<open>Bytes, hexadecimal, digests\<close>

text \<open>\<open>TextEncoder.encode\<close>: UTF-8 of the code points, U+FFFD for a lone surrogate.\<close>

definition utf8_point :: "nat \<Rightarrow> byte list" where
  "utf8_point c0 =
     (let c = (if high_surrogate c0 \<or> low_surrogate c0 then 65533 else c0) in
      if c < 128 then [of_nat c]
      else if c < 2048 then [of_nat (192 + c div 64), of_nat (128 + c mod 64)]
      else if c < 65536 then [of_nat (224 + c div 4096), of_nat (128 + c div 64 mod 64), of_nat (128 + c mod 64)]
      else [of_nat (240 + c div 262144), of_nat (128 + c div 4096 mod 64),
            of_nat (128 + c div 64 mod 64), of_nat (128 + c mod 64)])"

definition utf8 :: "jstr \<Rightarrow> byte list" where
  "utf8 s = concat (map utf8_point (code_points s))"

definition toHex :: "byte list \<Rightarrow> jstr" where
  "toHex bs = concat (map (\<lambda>b. [digit (unat b div 16), digit (unat b mod 16)]) bs)"

fun hex_value :: "nat \<Rightarrow> nat option" where
  "hex_value c = (if 48 \<le> c \<and> c \<le> 57 then Some (c - 48)
                  else if 97 \<le> c \<and> c \<le> 102 then Some (c - 87)
                  else if 65 \<le> c \<and> c \<le> 70 then Some (c - 55) else None)"

text \<open>The odd-length and bad-digit checks of \<open>fromHex\<close> come first in the source; here they are the
  \<open>None\<close> branches of the pairwise decoder, so \<open>None\<close> is the thrown \<open>invalid hex\<close>.\<close>

fun hex_pairs :: "jstr \<Rightarrow> byte list option" where
  "hex_pairs [] = Some []"
| "hex_pairs [_] = None"
| "hex_pairs (a # b # s) =
     (case (hex_value a, hex_value b, hex_pairs s) of
        (Some x, Some y, Some bs) \<Rightarrow> Some (of_nat (16 * x + y) # bs)
      | _ \<Rightarrow> None)"

definition fromHex :: "jstr \<Rightarrow> byte list option" where
  "fromHex hex = hex_pairs (if starts_with (lit ''0x'') hex then drop 2 hex else hex)"

definition sha256Hex :: "runtime \<Rightarrow> byte list \<Rightarrow> jstr" where
  "sha256Hex rt bs = toHex (sha256 rt bs)"

definition canonicalHash :: "runtime \<Rightarrow> json \<Rightarrow> jstr option" where
  "canonicalHash rt v = map_option (\<lambda>t. sha256Hex rt (utf8 t)) (canonicalJson rt v)"

definition COMMITMENT_DOMAIN :: string where
  "COMMITMENT_DOMAIN = ''CTN_REQUEST_V1''"

definition INTENT_DOMAIN :: string where
  "INTENT_DOMAIN = ''CTN_INTENT_V1''"

definition ZK_RECEIPT_DOMAIN :: string where
  "ZK_RECEIPT_DOMAIN = ''CTN_ZK_RECEIPT_V1''"

definition DECISION_RECEIPT_DOMAIN :: string where
  "DECISION_RECEIPT_DOMAIN = ''CTN_DECISION_RECEIPT_V1''"

text \<open>\<open>"0x" + toHex(sha256(domain || material))\<close>, the shape all four digests share.\<close>

definition domain_digest :: "runtime \<Rightarrow> string \<Rightarrow> byte list \<Rightarrow> jstr" where
  "domain_digest rt domain material = lit ''0x'' @ toHex (sha256 rt (utf8 (lit domain) @ material))"

definition requestCommitment :: "runtime \<Rightarrow> byte list \<Rightarrow> jstr \<Rightarrow> jstr option" where
  "requestCommitment rt canonical nonceHex =
     (case fromHex nonceHex of
        None \<Rightarrow> None
      | Some nonce \<Rightarrow>
          if length nonce \<noteq> 32 then None
          else Some (domain_digest rt COMMITMENT_DOMAIN (canonical @ nonce)))"

definition canonicalBytes :: "runtime \<Rightarrow> CanonicalRequest \<Rightarrow> byte list option" where
  "canonicalBytes rt r = map_option utf8 (canonicalJson rt (request_json r))"

definition zkArtifactDigest :: "runtime \<Rightarrow> byte list \<Rightarrow> jstr" where
  "zkArtifactDigest rt receiptBytes = domain_digest rt ZK_RECEIPT_DOMAIN receiptBytes"

definition decisionReceiptDigest :: "runtime \<Rightarrow> json \<Rightarrow> jstr option" where
  "decisionReceiptDigest rt receipt =
     map_option (\<lambda>t. domain_digest rt DECISION_RECEIPT_DOMAIN (utf8 t)) (canonicalJson rt receipt)"

section \<open>Signatures over canonical JSON\<close>

definition signDigestHex :: "runtime \<Rightarrow> jstr \<Rightarrow> byte list \<Rightarrow> jstr option" where
  "signDigestHex rt digestHex key = map_option (\<lambda>d. toHex (ed_sign rt d key)) (fromHex digestHex)"

definition verifyDigestHex :: "runtime \<Rightarrow> jstr \<Rightarrow> jstr \<Rightarrow> jstr \<Rightarrow> bool" where
  "verifyDigestHex rt digestHex signatureHex publicKeyHex =
     (case (fromHex signatureHex, fromHex digestHex, fromHex publicKeyHex) of
        (Some sg, Some d, Some pk) \<Rightarrow> (case ed_verify rt sg d pk of Some b \<Rightarrow> b | None \<Rightarrow> False)
      | _ \<Rightarrow> False)"

definition signCanonical :: "runtime \<Rightarrow> json \<Rightarrow> byte list \<Rightarrow> jstr option" where
  "signCanonical rt v key =
     (case canonicalHash rt v of None \<Rightarrow> None | Some h \<Rightarrow> signDigestHex rt h key)"

text \<open>\<open>None\<close>: \<open>canonicalHash\<close> threw before the signature was looked at.\<close>

definition verifyCanonical :: "runtime \<Rightarrow> json \<Rightarrow> jstr \<Rightarrow> jstr \<Rightarrow> bool option" where
  "verifyCanonical rt v signatureHex publicKeyHex =
     map_option (\<lambda>h. verifyDigestHex rt h signatureHex publicKeyHex) (canonicalHash rt v)"

section \<open>The hexadecimal codec\<close>

text \<open>A codec: what an encoder and a decoder promise each other, and what their clients use.\<close>

locale codec =
  fixes enc :: "'a \<Rightarrow> 'b"
    and dec :: "'b \<Rightarrow> 'a option"
  assumes dec_enc: "dec (enc x) = Some x"
begin

lemma enc_inject: "enc x = enc y \<longleftrightarrow> x = y"
  by (metis dec_enc option.inject)

lemma dec_Some_enc: "dec (enc x) = Some y \<longleftrightarrow> y = x"
  by (auto simp: dec_enc)

end

lemma byte_lt: "unat (b :: byte) < 256"
proof -
  have "unat b < 2 ^ LENGTH(8)" by (rule unsigned_less)
  then show ?thesis by simp
qed

lemma hex_value_digit: "n < 16 \<Longrightarrow> hex_value (digit n) = Some n"
  by (auto simp: digit_def)

lemma hex_pairs_toHex: "hex_pairs (toHex bs) = Some bs"
proof (induction bs)
  case (Cons b bs)
  have lt: "unat b < 256" by (rule byte_lt)
  have v: "hex_value (digit (unat b div 16)) = Some (unat b div 16)"
    "hex_value (digit (unat b mod 16)) = Some (unat b mod 16)"
    by (rule hex_value_digit, use lt in simp)+
  have "(of_nat (16 * (unat b div 16) + unat b mod 16) :: byte) = b" by simp
  with Cons v show ?case
    by (simp add: toHex_def del: hex_value.simps)
qed (simp add: toHex_def)

lemma toHex_no_prefix: "\<not> starts_with (lit ''0x'') (toHex bs)"
proof -
  have "c \<noteq> 120" if "c \<in> set (toHex bs)" for c
  proof -
    have "digit n \<noteq> 120" if "n < 16" for n using that by (simp add: digit_def)
    moreover have "unat b div 16 < 16" "unat b mod 16 < 16" for b :: byte
      using byte_lt [of b] by auto
    ultimately show ?thesis using that by (force simp: toHex_def)
  qed
  then have "120 \<notin> set (toHex bs)" by blast
  then show ?thesis
    by (auto simp: starts_with_iff lit_def)
qed

interpretation hexc: codec toHex fromHex
  by unfold_locales (simp add: fromHex_def toHex_no_prefix hex_pairs_toHex)

interpretation hex0x: codec "\<lambda>bs. lit ''0x'' @ toHex bs" fromHex
  by unfold_locales (simp add: fromHex_def starts_with_def hex_pairs_toHex lit_def)

text \<open>Hexadecimal round trip: decoding what was encoded gives the bytes back, with and without
  the \<open>0x\<close> prefix, so distinct byte strings never share a hexadecimal form.\<close>

theorem hex_roundtrip:
  "fromHex (toHex bs) = Some bs \<and> fromHex (lit ''0x'' @ toHex bs) = Some bs
   \<and> (toHex bs = toHex cs \<longleftrightarrow> bs = cs)"
  by (simp add: hexc.dec_enc hex0x.dec_enc hexc.enc_inject)

section \<open>The canonical request is a fixed point in range\<close>

lemma collect_map_Inr [simp]: "collect (map Inr xs) = Inr xs"
  by (induction xs) auto

lemma collect_InrD: "collect rs = Inr xs \<Longrightarrow> rs = map Inr xs"
  by (induction rs arbitrary: xs rule: collect.induct) (auto split: sum.splits)

lemma collect_Inr: "collect rs = Inr xs \<longleftrightarrow> rs = map Inr xs"
  using collect_InrD by fastforce

lemma nfc_field_Inr: "nfc_field rt v f = Inr t \<longleftrightarrow> (\<exists>s. v = JStr s \<and> t = nfc rt s)"
  by (cases v) auto

lemma parse_role_str [simp]: "parse_role (JStr (role_str r)) = Some r"
  by (cases r) auto

lemma map_of_lit_Cons [json_simps]:
  "map_of ((lit a, v) # kvs) (lit b) = (if a = b then Some v else map_of kvs (lit b))"
  by simp

lemma assertSafeInteger_Inr:
  "assertSafeInteger v f = Inr n \<Longrightarrow> \<bar>n\<bar> \<le> MAX_SAFE"
  by (induction v f rule: assertSafeInteger.induct)
    (auto split: if_splits elim: isSafeInteger.elims num_int.elims)

lemma assertSafeInteger_int [simp]:
  "\<bar>n\<bar> \<le> MAX_SAFE \<Longrightarrow> assertSafeInteger (JInt n) f = Inr n"
  by simp

lemma canon_message_Inr:
  assumes "canon_message rt m = Inr c"
  obtains s where "msg_content c = nfc rt s"
  using assms by (auto simp: canon_message_def nfc_field_Inr split: option.splits sum.splits)

lemma canon_message_json:
  "canon_message rt (message_json c) = Inr \<lparr> msg_role = msg_role c, msg_content = nfc rt (msg_content c) \<rparr>"
  by (simp add: canon_message_def message_json_def del: parse_role.simps)

lemma toCanonicalRequest_Inr:
  assumes "toCanonicalRequest rt input = Inr r"
  obtains m ms where "req_model r = nfc rt m" "req_model r \<noteq> []"
    "ms \<noteq> []" "map (canon_message rt) ms = map Inr (req_messages r)"
    "0 \<le> temperature_millis r" "temperature_millis r \<le> 2000"
    "1 \<le> max_tokens r" "max_tokens r \<le> 128000"
  using assms
  by (auto simp: toCanonicalRequest_def nfc_field_Inr collect_Inr split: option.splits sum.splits if_splits json.splits)

lemma canonical_messages_fixed:
  assumes "\<And>s. nfc rt (nfc rt s) = nfc rt s" "map (canon_message rt) ms = map Inr cs"
  shows "collect (map (canon_message rt \<circ> message_json) cs) = Inr cs"
proof -
  have "canon_message rt (message_json c) = Inr c" if "c \<in> set cs" for c
  proof -
    from that assms(2) obtain m where "canon_message rt m = Inr c"
      by (metis (no_types, opaque_lifting) image_iff list.set_map)
    with assms(1) show ?thesis
      by (metis canon_message_Inr canon_message_json CanonicalMessage.surjective unit.exhaust)
  qed
  then show ?thesis by (simp add: collect_Inr)
qed

lemma canonical_again:
  assumes nfc_idem: "\<And>s. nfc rt (nfc rt s) = nfc rt s"
    and ok: "toCanonicalRequest rt input = Inr r"
  shows "toCanonicalRequest rt (request_json r) = Inr r \<and> req_model r \<noteq> [] \<and> req_messages r \<noteq> []
    \<and> temperature_millis r \<in> {0..2000} \<and> max_tokens r \<in> {1..128000}"
proof -
  obtain m ms where r: "req_model r = nfc rt m" "req_model r \<noteq> []" "ms \<noteq> []"
    "map (canon_message rt) ms = map Inr (req_messages r)"
    "0 \<le> temperature_millis r" "temperature_millis r \<le> 2000" "1 \<le> max_tokens r" "max_tokens r \<le> 128000"
    using ok by (rule toCanonicalRequest_Inr)
  from r have ne: "req_messages r \<noteq> []" by auto
  from nfc_idem r(4) have c: "collect (map (canon_message rt \<circ> message_json) (req_messages r)) = Inr (req_messages r)"
    by (rule canonical_messages_fixed)
  from nfc_idem r(1) have n: "nfc rt (req_model r) = req_model r" by simp
  show ?thesis
    using r ne c n
    by (simp add: toCanonicalRequest_def request_json_def canon_temperature_def MAX_SAFE_def)
qed

text \<open>What \<open>toCanonicalRequest\<close> accepts is canonical: the model and the message list are not empty,
  the temperature and the token limit are in the documented ranges, and canonicalising the result
  again changes nothing. Unicode normalisation being idempotent is the only thing used of the
  platform.\<close>

theorem canonical_request_fixed_point:
  assumes nfc_idem: "\<And>s. nfc rt (nfc rt s) = nfc rt s"
    and ok: "toCanonicalRequest rt input = Inr r"
  shows "toCanonicalRequest rt (request_json r) = Inr r \<and> req_model r \<noteq> [] \<and> req_messages r \<noteq> []
    \<and> temperature_millis r \<in> {0..2000} \<and> max_tokens r \<in> {1..128000}"
  using assms by (rule canonical_again)

definition sample_body :: json where
  "sample_body = JObj [(lit ''model'', JStr (lit ''gpt-4o-mini'')),
     (lit ''messages'', JArr [JObj [(lit ''role'', JStr (lit ''user'')), (lit ''content'', JStr (lit ''hi''))]]),
     (lit ''temperature'', JNum (Fin (1/2)))]"

definition sample_request :: CanonicalRequest where
  "sample_request = \<lparr> req_model = lit ''gpt-4o-mini'',
     req_messages = [\<lparr> msg_role = User, msg_content = lit ''hi'' \<rparr>], temperature_millis = 500, max_tokens = 1024 \<rparr>"

lemma sample_body_canonical: "toCanonicalRequest sample_runtime sample_body = Inr sample_request"
proof -
  have "is_integral 1024" "floor (1024 :: rat) = 1024" "js_round 500 = 500"
    by (simp_all add: is_integral_def js_round_def floor_eq_iff)
  then show ?thesis
    by (simp add: toCanonicalRequest_def sample_body_def sample_request_def canon_message_def
        canon_temperature_def MAX_SAFE_def)
qed

theorem canonical_request_fixed_point_witness:
  "toCanonicalRequest sample_runtime sample_body = Inr sample_request
   \<and> toCanonicalRequest sample_runtime (request_json sample_request) = Inr sample_request"
  using canonical_request_fixed_point [of sample_runtime sample_body sample_request] sample_body_canonical
  by simp

section \<open>What the digests bind\<close>

lemma utf8_ascii: "\<forall>c \<in> set s. c < 128 \<Longrightarrow> utf8 s = map of_nat s"
proof -
  assume a: "\<forall>c \<in> set s. c < 128"
  then have cp: "code_points s = s"
    by (intro code_points_bmp) (auto simp: high_surrogate_def)
  from a show ?thesis
    unfolding utf8_def cp
    by (induction s) (auto simp: utf8_point_def Let_def high_surrogate_def low_surrogate_def)
qed

definition digest_domains :: "string list" where
  "digest_domains = [COMMITMENT_DOMAIN, INTENT_DOMAIN, ZK_RECEIPT_DOMAIN, DECISION_RECEIPT_DOMAIN]"

lemma utf8_domain:
  assumes "d \<in> set digest_domains"
  shows "utf8 (lit d) = map of_char d" "4 < length d"
proof -
  from assms have "\<forall>c \<in> set (lit d). c < 128" "4 < length d"
    by (auto simp: digest_domains_def COMMITMENT_DOMAIN_def INTENT_DOMAIN_def ZK_RECEIPT_DOMAIN_def
        DECISION_RECEIPT_DOMAIN_def lit_def)
  then show "utf8 (lit d) = map of_char d" "4 < length d"
    by (simp_all add: utf8_ascii) (simp add: lit_def of_char_def comp_def)
qed

lemma digest_domains_fifth:
  "d \<in> set digest_domains \<Longrightarrow> e \<in> set digest_domains \<Longrightarrow> (of_char (d ! 4) :: byte) = of_char (e ! 4) \<Longrightarrow> d = e"
  by (auto simp: digest_domains_def COMMITMENT_DOMAIN_def INTENT_DOMAIN_def ZK_RECEIPT_DOMAIN_def
      DECISION_RECEIPT_DOMAIN_def)

lemma digest_domains_prefix_free:
  assumes "d \<in> set digest_domains" "e \<in> set digest_domains" "utf8 (lit d) @ x = utf8 (lit e) @ y"
  shows "d = e \<and> x = y"
proof -
  from assms(3) have "(utf8 (lit d) @ x) ! 4 = (utf8 (lit e) @ y) ! 4" by simp
  then have "(of_char (d ! 4) :: byte) = of_char (e ! 4)"
    using assms(1,2) by (simp add: utf8_domain nth_append)
  with assms(1,2) have "d = e" by (rule digest_domains_fifth)
  with assms(3) show ?thesis by simp
qed

lemma domain_digest_eq:
  assumes "domain_digest rt d x = domain_digest rt e y"
    and "inj_on (sha256 rt) {utf8 (lit d) @ x, utf8 (lit e) @ y}"
    and "d \<in> set digest_domains" "e \<in> set digest_domains"
  shows "d = e \<and> x = y"
proof -
  from assms(1) have "sha256 rt (utf8 (lit d) @ x) = sha256 rt (utf8 (lit e) @ y)"
    by (simp add: domain_digest_def hexc.enc_inject)
  then have "utf8 (lit d) @ x = utf8 (lit e) @ y" by (rule inj_onD [OF assms(2)]) simp_all
  with assms(3,4) show ?thesis by (rule digest_domains_prefix_free)
qed

text \<open>The request commitment binds the request and the nonce: with a hash that does not collide
  on the two inputs, equal commitments come from the same canonical bytes and the same 32-byte
  nonce, although the two are concatenated without a length field; and a request commitment is
  never equal to an intent, proof-artifact or decision-receipt digest.\<close>

theorem commitment_binding:
  assumes c1: "requestCommitment rt bytes nonce = Some d"
    and no_collision: "\<And>domain m. d = domain_digest rt domain m \<Longrightarrow>
      inj_on (sha256 rt) {utf8 (lit COMMITMENT_DOMAIN) @ bytes @ the (fromHex nonce), utf8 (lit domain) @ m}"
  shows "(requestCommitment rt bytes' nonce' = Some d \<longrightarrow> bytes = bytes' \<and> fromHex nonce = fromHex nonce')
    \<and> (domain \<in> set digest_domains \<longrightarrow> domain \<noteq> COMMITMENT_DOMAIN \<longrightarrow> d \<noteq> domain_digest rt domain m)"
proof -
  have mem: "COMMITMENT_DOMAIN \<in> set digest_domains" by (simp add: digest_domains_def)
  from c1 obtain n where n: "fromHex nonce = Some n" "length n = 32"
    "d = domain_digest rt COMMITMENT_DOMAIN (bytes @ n)"
    by (auto simp: requestCommitment_def split: option.splits if_splits)
  have eq: "domain = COMMITMENT_DOMAIN \<and> m = bytes @ n"
    if "d = domain_digest rt domain m" "domain \<in> set digest_domains" for domain m
  proof -
    have "inj_on (sha256 rt) {utf8 (lit COMMITMENT_DOMAIN) @ (bytes @ n), utf8 (lit domain) @ m}"
      using no_collision [OF that(1)] n(1) by simp
    from domain_digest_eq [OF _ this mem that(2)] show ?thesis using n(3) that(1) by metis
  qed
  have 1: "bytes = bytes' \<and> fromHex nonce = fromHex nonce'" if "requestCommitment rt bytes' nonce' = Some d"
  proof -
    from that obtain n' where n': "fromHex nonce' = Some n'" "length n' = 32"
      "d = domain_digest rt COMMITMENT_DOMAIN (bytes' @ n')"
      by (auto simp: requestCommitment_def split: option.splits if_splits)
    from eq [OF n'(3) mem] n n' show ?thesis by simp
  qed
  have 2: "d \<noteq> domain_digest rt domain m" if "domain \<in> set digest_domains" "domain \<noteq> COMMITMENT_DOMAIN"
    using eq [OF _ that(1)] that(2) by blast
  from 1 2 show ?thesis by blast
qed

definition sample_nonce :: jstr where
  "sample_nonce = toHex (replicate 32 7)"

theorem commitment_binding_witness:
  "requestCommitment sample_runtime [1, 2] sample_nonce
     = Some (domain_digest sample_runtime COMMITMENT_DOMAIN ([1, 2] @ replicate 32 7))
   \<and> requestCommitment sample_runtime [1, 2] sample_nonce \<noteq> requestCommitment sample_runtime [1, 3] sample_nonce
   \<and> requestCommitment sample_runtime [1, 2] sample_nonce \<noteq> Some (zkArtifactDigest sample_runtime [1, 2])"
proof -
  have c: "requestCommitment sample_runtime [1, 2] sample_nonce
     = Some (domain_digest sample_runtime COMMITMENT_DOMAIN ([1, 2] @ replicate 32 7))"
    by (simp add: requestCommitment_def sample_nonce_def hexc.dec_enc)
  have z: "ZK_RECEIPT_DOMAIN \<in> set digest_domains" "ZK_RECEIPT_DOMAIN \<noteq> COMMITMENT_DOMAIN"
    by (simp_all add: digest_domains_def ZK_RECEIPT_DOMAIN_def COMMITMENT_DOMAIN_def)
  from commitment_binding [OF c, of "[1, 3]" sample_nonce ZK_RECEIPT_DOMAIN "[1, 2]"] c z
  show ?thesis by (auto simp: zkArtifactDigest_def)
qed

text \<open>A signature made by \<open>signCanonical\<close> verifies under the signer's public key for every value
  with the same canonical form, and verification reads the value only through that form. The law
  used of the signature library is the one Ed25519 states for an honest signature.\<close>

theorem signature_roundtrip:
  assumes honest: "\<And>m. ed_verify rt (ed_sign rt m key) m (ed_public rt key) = Some True"
    and signed: "signCanonical rt v key = Some sg"
    and same: "canonicalJson rt w = canonicalJson rt v"
  shows "verifyCanonical rt w sg (toHex (ed_public rt key)) = Some True"
proof -
  from signed obtain t where t: "canonicalJson rt v = Some t"
    "sg = toHex (ed_sign rt (sha256 rt (utf8 t)) key)"
    by (auto simp: signCanonical_def canonicalHash_def signDigestHex_def sha256Hex_def hexc.dec_enc
        split: option.splits)
  with same honest show ?thesis
    by (simp add: verifyCanonical_def canonicalHash_def verifyDigestHex_def sha256Hex_def hexc.dec_enc)
qed

theorem signature_roundtrip_witness:
  "signCanonical sample_runtime (JBool True) [1] = Some (toHex (1 # utf8 (lit ''true'')))
   \<and> verifyCanonical sample_runtime (JBool True) (toHex (1 # utf8 (lit ''true''))) (toHex [1]) = Some True"
proof -
  have s: "signCanonical sample_runtime (JBool True) [1] = Some (toHex (1 # utf8 (lit ''true'')))"
    by (simp add: signCanonical_def canonicalHash_def signDigestHex_def sha256Hex_def hexc.dec_enc)
  from signature_roundtrip [OF _ s, of "JBool True"] s show ?thesis by simp
qed

end
