(* ===== verification/Protocol_Types.thy ===== *)
theory Protocol_Types
  imports Canonical Policy_Engine
begin

text \<open>
  The shared protocol types (\<^verbatim>\<open>packages/protocol/src/types.ts\<close>): the sealed request envelope, the
  contributor's intent and the capability derived from it, the decision and compute receipts, the
  proof artifact and its binding, and the status vocabularies of requests, proofs and credentials.
  Every record that is signed or hashed comes with the JSON object the sources serialise. Field
  names carry a short prefix per record. The base64 codec of \<^verbatim>\<open>crypto.ts\<close> and the wire form of a
  proof artifact are here too, with their round trip.
\<close>

section \<open>Envelopes\<close>

record Aad =
  aad_apiVersion :: jstr
  aad_requestedPolicy :: jstr
  aad_model :: jstr

record SecureRequestEnvelope =
  env_version :: jstr
  env_requestId :: jstr
  env_enclaveKeyId :: jstr
  env_enc :: jstr
  env_ciphertext :: jstr
  env_aad :: Aad

definition aad_json :: "Aad \<Rightarrow> json" where
  "aad_json a = JObj [(lit ''apiVersion'', JStr (aad_apiVersion a)),
     (lit ''requestedPolicy'', JStr (aad_requestedPolicy a)), (lit ''model'', JStr (aad_model a))]"

record SecurePayload =
  pl_request :: CanonicalRequest
  pl_requestNonce :: jstr
  pl_responsePublicKey :: jstr

record SecureResponse =
  resp_enc :: jstr
  resp_ciphertext :: jstr

section \<open>Intents and capabilities\<close>

record CredentialIntentV1 =
  int_credentialId :: jstr
  int_secret :: jstr
  int_provider :: jstr
  int_allowedModels :: "jstr list"
  int_allowedPolicies :: "jstr list"
  int_contributorId :: jstr
  int_intentNonce :: jstr

record CredentialCapability =
  cap_credentialId :: jstr
  cap_provider :: jstr
  cap_allowedModels :: "jstr list"
  cap_allowedPolicyIds :: "jstr list"
  cap_contributorId :: jstr
  cap_createdAt :: int
  cap_version :: int
  cap_blobDigest :: jstr
  cap_intentDigest :: jstr

definition strs_json :: "jstr list \<Rightarrow> json" where
  "strs_json ss = JArr (map JStr ss)"

definition capability_json :: "CredentialCapability \<Rightarrow> json" where
  "capability_json c = JObj [(lit ''credentialId'', JStr (cap_credentialId c)),
     (lit ''provider'', JStr (cap_provider c)), (lit ''allowedModels'', strs_json (cap_allowedModels c)),
     (lit ''allowedPolicyIds'', strs_json (cap_allowedPolicyIds c)),
     (lit ''contributorId'', JStr (cap_contributorId c)), (lit ''createdAt'', JInt (cap_createdAt c)),
     (lit ''version'', JInt (cap_version c)), (lit ''blobDigest'', JStr (cap_blobDigest c)),
     (lit ''intentDigest'', JStr (cap_intentDigest c))]"

text \<open>\<open>intentDigest\<close> hashes the intent without its secret.\<close>

definition public_intent_json :: "CredentialIntentV1 \<Rightarrow> json" where
  "public_intent_json i = JObj [(lit ''version'', JInt 1), (lit ''credentialId'', JStr (int_credentialId i)),
     (lit ''provider'', JStr (int_provider i)), (lit ''allowedModels'', strs_json (int_allowedModels i)),
     (lit ''allowedPolicies'', strs_json (int_allowedPolicies i)),
     (lit ''contributorId'', JStr (int_contributorId i)), (lit ''intentNonce'', JStr (int_intentNonce i))]"

definition intentDigest :: "runtime \<Rightarrow> CredentialIntentV1 \<Rightarrow> jstr option" where
  "intentDigest rt i =
     map_option (\<lambda>t. domain_digest rt INTENT_DOMAIN (utf8 t)) (canonicalJson rt (public_intent_json i))"

section \<open>Receipts, journals, artifacts, bindings\<close>

fun decision_str :: "PolicyDecision \<Rightarrow> jstr" where
  "decision_str ALLOW = lit ''ALLOW''"
| "decision_str DENY = lit ''DENY''"

record PolicyDecisionReceiptV1 =
  dr_requestId :: jstr
  dr_requestCommitment :: jstr
  dr_policyId :: jstr
  dr_decision :: PolicyDecision
  dr_imageId :: jstr
  dr_gateWallMs :: int

definition decision_receipt_json :: "PolicyDecisionReceiptV1 \<Rightarrow> json" where
  "decision_receipt_json r = JObj [(lit ''requestId'', JStr (dr_requestId r)),
     (lit ''requestCommitment'', JStr (dr_requestCommitment r)), (lit ''policyId'', JStr (dr_policyId r)),
     (lit ''decision'', JStr (decision_str (dr_decision r))), (lit ''imageId'', JStr (dr_imageId r)),
     (lit ''timing'', JObj [(lit ''gateWallMs'', JInt (dr_gateWallMs r))])]"

record SignedPolicyDecisionReceiptV1 =
  sdr_receipt :: PolicyDecisionReceiptV1
  sdr_enclaveSignature :: jstr

record PolicyJournal =
  jr_protocolVersion :: int
  jr_requestCommitment :: jstr
  jr_policyId :: jstr
  jr_decision :: PolicyDecision
  jr_proofNonce :: jstr

record ProofArtifactV1 =
  art_risc0Version :: jstr
  art_receiptBytes :: "byte list"
  art_imageId :: jstr
  art_journalVersion :: int
  art_decodedJournal :: PolicyJournal

record ProofArtifactWireV1 =
  wire_risc0Version :: jstr
  wire_receiptB64 :: jstr
  wire_imageId :: jstr
  wire_journalVersion :: int
  wire_decodedJournal :: PolicyJournal

record ProofBindingV2 =
  bind_decisionReceiptDigest :: jstr
  bind_artifactDigest :: jstr
  bind_imageId :: jstr
  bind_policyId :: jstr
  bind_decision :: PolicyDecision
  bind_proofVerified :: bool

definition binding_json :: "ProofBindingV2 \<Rightarrow> json" where
  "binding_json b = JObj [(lit ''decisionReceiptDigest'', JStr (bind_decisionReceiptDigest b)),
     (lit ''artifactDigest'', JStr (bind_artifactDigest b)), (lit ''imageId'', JStr (bind_imageId b)),
     (lit ''policyId'', JStr (bind_policyId b)), (lit ''decision'', JStr (decision_str (bind_decision b))),
     (lit ''proofVerified'', JBool (bind_proofVerified b))]"

record SignedProofBindingV2 =
  sb_binding :: ProofBindingV2
  sb_enclaveSignature :: jstr

text \<open>The compute receipt; absent optional fields are \<open>None\<close> and are left out of the JSON object.\<close>

record ComputeReceipt =
  cr_requestId :: jstr
  cr_requestCommitment :: jstr
  cr_teeMode :: jstr
  cr_buildId :: jstr
  cr_attestationDigest :: jstr
  cr_policyId :: jstr
  cr_decision :: PolicyDecision
  cr_zkReceiptDigest :: jstr
  cr_provider :: jstr
  cr_model :: jstr
  cr_credentialId :: jstr
  cr_contributorId :: jstr
  cr_attempt :: int
  cr_inputTokens :: "int option"
  cr_outputTokens :: "int option"
  cr_estimatedCostMicroUsd :: "int option"
  cr_pricingTableDigest :: "jstr option"
  cr_receivedAt :: jstr
  cr_policyMs :: int
  cr_proofMs :: "int option"
  cr_providerTotalMs :: int
  cr_upstreamRequestHash :: jstr
  cr_upstreamResponseHash :: jstr

definition opt_json :: "('a \<Rightarrow> json) \<Rightarrow> 'a option \<Rightarrow> json" where
  "opt_json f x = (case x of None \<Rightarrow> JUndef | Some v \<Rightarrow> f v)"

definition compute_receipt_json :: "ComputeReceipt \<Rightarrow> json" where
  "compute_receipt_json r = JObj [(lit ''version'', JStr (lit ''ctn-receipt-1'')),
     (lit ''requestId'', JStr (cr_requestId r)), (lit ''requestCommitment'', JStr (cr_requestCommitment r)),
     (lit ''tee'', JObj [(lit ''mode'', JStr (cr_teeMode r)), (lit ''buildId'', JStr (cr_buildId r)),
        (lit ''attestationDigest'', JStr (cr_attestationDigest r))]),
     (lit ''policy'', JObj [(lit ''policyId'', JStr (cr_policyId r)),
        (lit ''decision'', JStr (decision_str (cr_decision r))), (lit ''zkReceiptDigest'', JStr (cr_zkReceiptDigest r))]),
     (lit ''route'', JObj [(lit ''provider'', JStr (cr_provider r)), (lit ''model'', JStr (cr_model r)),
        (lit ''credentialId'', JStr (cr_credentialId r)), (lit ''contributorId'', JStr (cr_contributorId r)),
        (lit ''attempt'', JInt (cr_attempt r))]),
     (lit ''usage'', JObj [(lit ''inputTokens'', opt_json JInt (cr_inputTokens r)),
        (lit ''outputTokens'', opt_json JInt (cr_outputTokens r)),
        (lit ''estimatedCostMicroUsd'', opt_json JInt (cr_estimatedCostMicroUsd r)),
        (lit ''pricingTableDigest'', opt_json JStr (cr_pricingTableDigest r))]),
     (lit ''timing'', JObj [(lit ''receivedAt'', JStr (cr_receivedAt r)), (lit ''policyMs'', JInt (cr_policyMs r)),
        (lit ''proofMs'', opt_json JInt (cr_proofMs r)), (lit ''providerTotalMs'', JInt (cr_providerTotalMs r))]),
     (lit ''upstreamRequestHash'', JStr (cr_upstreamRequestHash r)),
     (lit ''upstreamResponseHash'', JStr (cr_upstreamResponseHash r))]"

record SignedComputeReceipt =
  scr_receipt :: ComputeReceipt
  scr_enclaveSignature :: jstr

section \<open>Statuses, codes, events\<close>

datatype ProofStatus = NOT_REQUIRED | QUEUED | PROVING | GENERATED | VERIFIED | PROOF_FAILED

datatype RequestStatus =
    RECEIVED | DECRYPTED | POLICY_EVALUATING | DENIED | AUTHORIZED | ROUTING
  | PROVIDER_PENDING | PROVIDER_RUNNING | FAILED | COMPLETE

datatype TrustStatus =
    CONFIDENTIAL_VERIFIED | CONFIDENTIAL_PROOF_PENDING | CONFIDENTIAL_PROOF_FAILED | SIMULATED | COMPATIBILITY

datatype CtnErrorCode =
    CTN_POLICY_DENIED | CTN_NO_CAPACITY | CTN_PROVIDER_RATE_LIMITED | CTN_PROVIDER_AUTH_FAILED
  | CTN_PROVIDER_ERROR | CTN_INVALID_ENVELOPE | CTN_INTENT_MISMATCH | CTN_INTENT_REPLAY
  | CTN_ATTESTATION_REQUIRED | CTN_ENCLAVE_UNAVAILABLE | CTN_PROVER_UNAVAILABLE
  | CTN_CAPABILITY_IMMUTABLE | CTN_INVALID_STATUS | CTN_CREDENTIAL_DELETED | CTN_INTERNAL

datatype CtnEventType =
    request_received | tee_verified | policy_started | policy_allowed | policy_denied | request_failed
  | proof_queued | proof_started | proof_generated | proof_completed | proof_failed
  | route_selected | provider_started | provider_failed | provider_completed
  | receipt_created | credential_created | credential_updated | contributor_created

fun event_str :: "CtnEventType \<Rightarrow> jstr" where
  "event_str request_received = lit ''request.received''"
| "event_str tee_verified = lit ''tee.verified''"
| "event_str policy_started = lit ''policy.started''"
| "event_str policy_allowed = lit ''policy.allowed''"
| "event_str policy_denied = lit ''policy.denied''"
| "event_str request_failed = lit ''request.failed''"
| "event_str proof_queued = lit ''proof.queued''"
| "event_str proof_started = lit ''proof.started''"
| "event_str proof_generated = lit ''proof.generated''"
| "event_str proof_completed = lit ''proof.completed''"
| "event_str proof_failed = lit ''proof.failed''"
| "event_str route_selected = lit ''route.selected''"
| "event_str provider_started = lit ''provider.started''"
| "event_str provider_failed = lit ''provider.failed''"
| "event_str provider_completed = lit ''provider.completed''"
| "event_str receipt_created = lit ''receipt.created''"
| "event_str credential_created = lit ''credential.created''"
| "event_str credential_updated = lit ''credential.updated''"
| "event_str contributor_created = lit ''contributor.created''"

datatype GraphNodeType =
    N_Contributor | N_Credential | N_Request | N_Policy | N_Proof | N_TEEWorker | N_Provider | N_Model
  | N_ProviderAttempt | N_Response | N_ComputeReceipt

section \<open>Base64 and the wire form of an artifact\<close>

definition b64_char :: "nat \<Rightarrow> nat" where
  "b64_char n = (if n < 26 then 65 + n else if n < 52 then 71 + n else if n < 62 then n - 4
                 else if n = 62 then 43 else 47)"

fun toB64 :: "byte list \<Rightarrow> jstr" where
  "toB64 [] = []"
| "toB64 [a] = [b64_char (unat a div 4), b64_char (unat a mod 4 * 16), 61, 61]"
| "toB64 [a, b] = [b64_char (unat a div 4), b64_char (unat a mod 4 * 16 + unat b div 16),
                   b64_char (unat b mod 16 * 4), 61]"
| "toB64 (a # b # c # bs) =
     b64_char (unat a div 4) # b64_char (unat a mod 4 * 16 + unat b div 16)
     # b64_char (unat b mod 16 * 4 + unat c div 64) # b64_char (unat c mod 64) # toB64 bs"

text \<open>\<open>Buffer.from(s, "base64")\<close>: both alphabets are accepted, padding ends the input, every other
  character is skipped, and left-over bits are dropped.\<close>

definition b64_value :: "nat \<Rightarrow> nat option" where
  "b64_value c = (if 65 \<le> c \<and> c \<le> 90 then Some (c - 65) else if 97 \<le> c \<and> c \<le> 122 then Some (c - 71)
     else if 48 \<le> c \<and> c \<le> 57 then Some (c + 4) else if c = 43 \<or> c = 45 then Some 62
     else if c = 47 \<or> c = 95 then Some 63 else None)"

fun b64_groups :: "nat list \<Rightarrow> byte list" where
  "b64_groups (p # q # r # s # xs) =
     of_nat (p * 4 + q div 16) # of_nat (q mod 16 * 16 + r div 4) # of_nat (r mod 4 * 64 + s) # b64_groups xs"
| "b64_groups [p, q, r] = [of_nat (p * 4 + q div 16), of_nat (q mod 16 * 16 + r div 4)]"
| "b64_groups [p, q] = [of_nat (p * 4 + q div 16)]"
| "b64_groups _ = []"

definition fromB64 :: "jstr \<Rightarrow> byte list" where
  "fromB64 s = b64_groups (List.map_filter b64_value (takeWhile (\<lambda>c. c \<noteq> 61) s))"

definition artifactToWire :: "ProofArtifactV1 \<Rightarrow> ProofArtifactWireV1" where
  "artifactToWire a = \<lparr> wire_risc0Version = art_risc0Version a, wire_receiptB64 = toB64 (art_receiptBytes a),
     wire_imageId = art_imageId a, wire_journalVersion = art_journalVersion a,
     wire_decodedJournal = art_decodedJournal a \<rparr>"

definition artifactFromWire :: "ProofArtifactWireV1 \<Rightarrow> ProofArtifactV1" where
  "artifactFromWire w = \<lparr> art_risc0Version = wire_risc0Version w, art_receiptBytes = fromB64 (wire_receiptB64 w),
     art_imageId = wire_imageId w, art_journalVersion = wire_journalVersion w,
     art_decodedJournal = wire_decodedJournal w \<rparr>"

lemma b64_value_char: "n < 64 \<Longrightarrow> b64_value (b64_char n) = Some n"
  by (auto simp: b64_value_def b64_char_def)

lemma b64_char_no_pad: "b64_char n \<noteq> 61" if "n < 64"
  using that by (auto simp: b64_char_def)

lemma byte_split_bounds:
  fixes a b :: byte
  shows "unat a div 4 < 64" "unat a mod 4 * 16 < 64" "unat a mod 4 * 16 + unat b div 16 < 64"
    "unat a mod 16 * 4 < 64" "unat a mod 16 * 4 + unat b div 64 < 64" "unat a mod 64 < 64"
  using byte_lt [of a] byte_lt [of b] by auto

lemma six_bit_split:
  fixes m k r :: nat
  shows "k < 16 \<Longrightarrow> (m * 16 + k) div 16 = m" "k < 16 \<Longrightarrow> (m * 16 + k) mod 16 = k mod 16"
    "k < 4 \<Longrightarrow> (m * 4 + k) div 4 = m" "k < 4 \<Longrightarrow> (m * 4 + k) mod 4 = k"
  by simp_all

lemma byte_parts:
  fixes b :: byte
  shows "unat b div 16 < 16" "unat b div 64 < 4" "of_nat (unat b div 4 * 4 + unat b mod 4) = b"
    "of_nat (unat b div 16 * 16 + unat b mod 16) = b" "of_nat (unat b div 64 * 64 + unat b mod 64) = b"
  using byte_lt [of b] by (auto simp: div_mult_mod_eq simp del: of_nat_add of_nat_mult)

lemma fromB64_toB64: "fromB64 (toB64 bs) = bs"
  unfolding fromB64_def
  by (induction bs rule: toB64.induct)
    (simp_all add: List.map_filter_simps b64_value_char b64_char_no_pad byte_split_bounds six_bit_split byte_parts
      div_mult_mod_eq del: of_nat_add of_nat_mult)

interpretation b64c: codec toB64 "\<lambda>s. Some (fromB64 s)"
  by unfold_locales (simp add: fromB64_toB64)

text \<open>A proof artifact survives its transport: base64 decoding inverts encoding on every byte
  string, and turning an artifact into its wire form and back gives the same artifact, so the digest
  recomputed from the wire form is the digest of the original receipt bytes.\<close>

theorem artifact_wire_roundtrip:
  "artifactFromWire (artifactToWire a) = a
   \<and> zkArtifactDigest rt (fromB64 (wire_receiptB64 (artifactToWire a))) = zkArtifactDigest rt (art_receiptBytes a)
   \<and> (toB64 bs = toB64 cs \<longleftrightarrow> bs = cs)"
  by (simp add: artifactToWire_def artifactFromWire_def fromB64_toB64 b64c.enc_inject)

end
