(* ===== verification/Coordinator_Db.thy ===== *)
theory Coordinator_Db
  imports Protocol_Types
begin

text \<open>
  The coordinator's operational state (\<^verbatim>\<open>services/coordinator/src/db.ts\<close>): one record per table row
  and one record for the database, with the statements the handlers run on it. A table is the list
  of its rows by primary key in insertion order; \<open>INSERT\<close> fails on a duplicate key and on a missing
  parent row (foreign keys are switched on). Time stamps are milliseconds since the epoch instead of
  ISO strings, days are \<open>ms div 86400000\<close>, dollar amounts are IEEE doubles seen as rationals, and a
  \<open>*_json\<close> column holds the value its text parses to.
\<close>

section \<open>Rows\<close>

datatype cred_status = ACTIVE | DISABLED | DELETED

datatype privacy_mode = secure | compatibility

record contributor_row =
  ct_display_name :: jstr
  ct_status :: jstr
  ct_created_at :: int

record CredentialRow =
  contributor_id :: jstr
  provider :: jstr
  label :: jstr
  encrypted_blob :: jstr
  capability :: CredentialCapability
  capability_signature :: jstr
  key_fingerprint :: jstr
  status :: cred_status
  weight :: int
  created_at :: int
  last_used_at :: "int option"
  requests_today :: int
  estimated_cost_today_usd :: rat
  usage_day :: "int option"
  failure_count :: int
  cooldown_until :: "int option"
  operational_daily_usd_limit :: "rat option"
  operational_daily_request_limit :: "int option"

record request_row =
  rq_request_commitment :: "jstr option"
  rq_policy_id :: "jstr option"
  rq_policy_result :: "PolicyDecision option"
  rq_selected_credential_id :: "jstr option"
  rq_provider :: "jstr option"
  rq_model :: jstr
  rq_status :: RequestStatus
  rq_privacy_mode :: privacy_mode
  rq_trust_status :: "TrustStatus option"
  rq_proof_status :: ProofStatus
  rq_error_code :: "jstr option"
  rq_created_at :: int
  rq_completed_at :: "int option"
  rq_policy_ms :: "int option"
  rq_proof_ms :: "int option"
  rq_provider_ms :: "int option"
  rq_total_ms :: "int option"
  rq_input_tokens :: "int option"
  rq_output_tokens :: "int option"

datatype attempt_status = SUCCESS | ATTEMPT_FAILED

record provider_attempt_row =
  pa_request_id :: jstr
  pa_credential_id :: jstr
  pa_contributor_id :: jstr
  pa_attempt_number :: int
  pa_status :: attempt_status
  pa_http_status :: int
  pa_classification :: "jstr option"
  pa_latency_ms :: int
  pa_created_at :: int
  pa_upstream_outcome_unknown :: bool
  pa_assumed_spend_micro_usd :: "int option"

record proof_row =
  pf_request_id :: jstr
  pf_guest_image_id :: jstr
  pf_receipt_blob :: "ProofArtifactWireV1 option"
  pf_receipt_digest :: "jstr option"
  pf_binding_json :: "SignedProofBindingV2 option"
  pf_verified :: bool
  pf_status :: ProofStatus
  pf_error :: "jstr option"
  pf_proof_ms :: "int option"
  pf_created_at :: int
  pf_completed_at :: "int option"

record decision_receipt_row =
  dc_policy_id :: jstr
  dc_decision :: PolicyDecision
  dc_image_id :: jstr
  dc_commitment :: jstr
  dc_gate_wall_ms :: int
  dc_receipt :: PolicyDecisionReceiptV1
  dc_signature :: jstr
  dc_created_at :: int

record compute_receipt_row =
  cp_request_id :: jstr
  cp_receipt :: ComputeReceipt
  cp_signature :: jstr
  cp_created_at :: int

record usage_row =
  us_request_id :: jstr
  us_credential_id :: jstr
  us_contributor_id :: jstr
  us_input_tokens :: int
  us_output_tokens :: int
  us_estimated_cost_usd :: rat
  us_created_at :: int

record outbox_row =
  ob_event_type :: CtnEventType
  ob_aggregate_id :: jstr
  ob_payload :: json
  ob_created_at :: int
  ob_processed_at :: "int option"

record graph_node_row =
  gn_type :: GraphNodeType
  gn_label :: jstr
  gn_status :: "jstr option"
  gn_meta :: "(jstr \<times> json) list"
  gn_created_at :: int
  gn_updated_at :: int

record graph_link_row =
  gl_source :: jstr
  gl_target :: jstr
  gl_type :: jstr
  gl_created_at :: int

record database =
  contributors :: "(jstr \<times> contributor_row) list"
  credentials :: "(jstr \<times> CredentialRow) list"
  requests :: "(jstr \<times> request_row) list"
  provider_attempts :: "(jstr \<times> provider_attempt_row) list"
  proofs :: "(jstr \<times> proof_row) list"
  decision_receipts :: "(jstr \<times> decision_receipt_row) list"
  compute_receipts :: "(jstr \<times> compute_receipt_row) list"
  usage :: "(jstr \<times> usage_row) list"
  outbox_events :: "(nat \<times> outbox_row) list"
  graph_nodes :: "(jstr \<times> graph_node_row) list"
  graph_links :: "(jstr \<times> graph_link_row) list"

definition empty_db :: database where
  "empty_db = \<lparr> contributors = [], credentials = [], requests = [], provider_attempts = [], proofs = [],
     decision_receipts = [], compute_receipts = [], usage = [], outbox_events = [], graph_nodes = [],
     graph_links = [] \<rparr>"

section \<open>Clock and statements\<close>

definition day_of :: "int \<Rightarrow> int" where
  "day_of now = now div 86400000"

datatype sql_error = UNIQUE_VIOLATION | FOREIGN_KEY_VIOLATION

definition has_row :: "'k \<Rightarrow> ('k \<times> 'v) list \<Rightarrow> bool" where
  "has_row k t \<longleftrightarrow> map_of t k \<noteq> None"

text \<open>\<open>INSERT INTO t\<close>, with \<open>parent_ok\<close> telling whether the referenced parent row exists.\<close>

definition insert_row :: "bool \<Rightarrow> 'k \<Rightarrow> 'v \<Rightarrow> ('k \<times> 'v) list \<Rightarrow> sql_error + ('k \<times> 'v) list" where
  "insert_row parent_ok k v t =
     (if has_row k t then Inl UNIQUE_VIOLATION
      else if \<not> parent_ok then Inl FOREIGN_KEY_VIOLATION
      else Inr (t @ [(k, v)]))"

lemma insert_row_Inr:
  "insert_row p k v t = Inr t' \<longleftrightarrow> \<not> has_row k t \<and> p \<and> t' = t @ [(k, v)]"
  by (auto simp: insert_row_def)

lemma has_row_iff [store_simps]: "has_row k t \<longleftrightarrow> k \<in> fst ` set t"
  by (simp add: has_row_def map_of_eq_None_iff)

lemma insert_row_wf: "map_wf t \<Longrightarrow> insert_row p k v t = Inr t' \<Longrightarrow> map_wf t'"
  by (auto simp: insert_row_Inr map_wf_def has_row_iff)

lemma insert_row_lookup [store_simps]:
  "insert_row p k v t = Inr t' \<Longrightarrow> map_of t' = (map_of t)(k \<mapsto> v)"
  by (auto simp: insert_row_Inr has_row_def map_add_def fun_eq_iff split: option.splits)

text \<open>\<open>UPDATE t SET ... WHERE p\<close> for a condition on the row.\<close>

definition update_where :: "('v \<Rightarrow> bool) \<Rightarrow> ('v \<Rightarrow> 'v) \<Rightarrow> ('k \<times> 'v) list \<Rightarrow> ('k \<times> 'v) list" where
  "update_where p f t = map (\<lambda>(k, v). (k, if p v then f v else v)) t"

lemma keys_update_where [store_simps]: "map fst (update_where p f t) = map fst t"
  by (auto simp: update_where_def)

lemma map_of_update_where [store_simps]:
  "map_of (update_where p f t) k = map_option (\<lambda>v. if p v then f v else v) (map_of t k)"
  by (induction t) (auto simp: update_where_def)

definition update_credential :: "jstr \<Rightarrow> (CredentialRow \<Rightarrow> CredentialRow) \<Rightarrow> database \<Rightarrow> database" where
  "update_credential k f db = db\<lparr> credentials := row_update k f (credentials db) \<rparr>"

definition update_request :: "jstr \<Rightarrow> (request_row \<Rightarrow> request_row) \<Rightarrow> database \<Rightarrow> database" where
  "update_request k f db = db\<lparr> requests := row_update k f (requests db) \<rparr>"

lemma update_credential_sel [simp]:
  "credentials (update_credential k f db) = row_update k f (credentials db)"
  "requests (update_credential k f db) = requests db" "usage (update_credential k f db) = usage db"
  "contributors (update_credential k f db) = contributors db"
  "outbox_events (update_credential k f db) = outbox_events db"
  "decision_receipts (update_credential k f db) = decision_receipts db"
  "proofs (update_credential k f db) = proofs db"
  "compute_receipts (update_credential k f db) = compute_receipts db"
  "provider_attempts (update_credential k f db) = provider_attempts db"
  "graph_nodes (update_credential k f db) = graph_nodes db"
  "graph_links (update_credential k f db) = graph_links db"
  by (simp_all add: update_credential_def)

lemma update_request_sel [simp]:
  "requests (update_request k f db) = row_update k f (requests db)"
  "credentials (update_request k f db) = credentials db" "usage (update_request k f db) = usage db"
  "contributors (update_request k f db) = contributors db"
  "outbox_events (update_request k f db) = outbox_events db"
  "decision_receipts (update_request k f db) = decision_receipts db"
  "proofs (update_request k f db) = proofs db"
  "compute_receipts (update_request k f db) = compute_receipts db"
  "provider_attempts (update_request k f db) = provider_attempts db"
  "graph_nodes (update_request k f db) = graph_nodes db"
  "graph_links (update_request k f db) = graph_links db"
  by (simp_all add: update_request_def)

end
