(* ===== verification/Safe_Log.thy ===== *)
theory Safe_Log
  imports Canonical
begin

text \<open>
  The coordinator's logger (\<^verbatim>\<open>services/coordinator/src/safe-log.ts\<close>): forbidden key names, secret
  value patterns and the length cap, over JSON values. The regular expressions are written out as
  recognisers on code units. Shown: which strings of a log call can reach the output, and in what
  form.
\<close>

section \<open>Keys\<close>

definition alnum_lower :: "nat \<Rightarrow> bool" where
  "alnum_lower c \<longleftrightarrow> (48 \<le> c \<and> c \<le> 57) \<or> (97 \<le> c \<and> c \<le> 122)"

definition normalizeKey :: "runtime \<Rightarrow> jstr \<Rightarrow> jstr" where
  "normalizeKey rt key = filter alnum_lower (to_lower rt key)"

definition FORBIDDEN_KEYS :: "jstr list" where
  "FORBIDDEN_KEYS = map lit [''messages'', ''prompt'', ''prompttext'', ''input'', ''output'', ''content'',
     ''response'', ''responsebody'', ''body'', ''authorization'', ''xapikey'', ''apikey'', ''key'', ''secret'',
     ''encryptedsecret'', ''ciphertext'', ''enc'', ''plaintext'', ''sharedsecret'', ''dek'', ''privatekey'',
     ''encryptedblob'']"

definition forbidden_key :: "runtime \<Rightarrow> jstr \<Rightarrow> bool" where
  "forbidden_key rt k \<longleftrightarrow> normalizeKey rt k \<in> set FORBIDDEN_KEYS"

section \<open>Secret-looking values\<close>

definition word_char :: "nat \<Rightarrow> bool" where
  "word_char c \<longleftrightarrow> (48 \<le> c \<and> c \<le> 57) \<or> (65 \<le> c \<and> c \<le> 90) \<or> (97 \<le> c \<and> c \<le> 122) \<or> c = 95"

text \<open>A pattern that starts with a word character, after \<^verbatim>\<open>\b\<close>: it may match at the start or after a
  character that is not a word character.\<close>

fun at_boundary :: "(jstr \<Rightarrow> bool) \<Rightarrow> bool \<Rightarrow> jstr \<Rightarrow> bool" where
  "at_boundary p after_word [] = False"
| "at_boundary p after_word (c # s) = ((\<not> after_word \<and> p (c # s)) \<or> at_boundary p (word_char c) s)"

definition prefixed :: "string \<Rightarrow> (jstr \<Rightarrow> bool) \<Rightarrow> jstr \<Rightarrow> bool" where
  "prefixed pre p s \<longleftrightarrow> starts_with (lit pre) s \<and> p (drop (length pre) s)"

definition at_least :: "nat \<Rightarrow> (nat \<Rightarrow> bool) \<Rightarrow> jstr \<Rightarrow> bool" where
  "at_least n cls s \<longleftrightarrow> n \<le> length (takeWhile cls s)"

definition sk_pattern :: "jstr \<Rightarrow> bool" where
  "sk_pattern = prefixed ''sk-'' (at_least 8 (\<lambda>c. word_char c \<or> c = 45))"

definition bearer_pattern :: "jstr \<Rightarrow> bool" where
  "bearer_pattern s \<longleftrightarrow> map ascii_lower (take 6 s) = lit ''bearer'' \<and> at_least 1 js_space (drop 6 s)
     \<and> dropWhile js_space (drop 6 s) \<noteq> []"

definition mock_key_pattern :: "jstr \<Rightarrow> bool" where
  "mock_key_pattern = prefixed ''mock-provider-key-'' (at_least 1 (\<lambda>c. \<not> js_space c))"

definition sk_live_pattern :: "jstr \<Rightarrow> bool" where
  "sk_live_pattern = prefixed ''sk_live_'' (at_least 1 (\<lambda>c. \<not> js_space c))"

definition ghp_pattern :: "jstr \<Rightarrow> bool" where
  "ghp_pattern = prefixed ''ghp_'' (at_least 20 (\<lambda>c. word_char c \<and> c \<noteq> 95))"

definition SECRET_VALUE_PATTERNS :: "(jstr \<Rightarrow> bool) list" where
  "SECRET_VALUE_PATTERNS = [sk_pattern, bearer_pattern, mock_key_pattern, sk_live_pattern, ghp_pattern]"

definition looks_secret :: "jstr \<Rightarrow> bool" where
  "looks_secret s \<longleftrightarrow> list_ex (\<lambda>p. at_boundary p False s) SECRET_VALUE_PATTERNS"

section \<open>Redaction\<close>

definition REDACTED :: jstr where
  "REDACTED = lit ''[redacted-by-safeLog]''"

definition TRUNCATED :: jstr where
  "TRUNCATED = lit ''[truncated-by-safeLog]''"

definition MAX_STRING_LENGTH :: nat where
  "MAX_STRING_LENGTH = 200"

definition truncate_string :: "jstr \<Rightarrow> jstr" where
  "truncate_string v = take 64 v @ [8230, 32] @ TRUNCATED @ lit '' ('' @ nat_digits (length v) @ lit '' chars)''"

definition scrubString :: "jstr \<Rightarrow> jstr" where
  "scrubString v =
     (if looks_secret v then REDACTED
      else if MAX_STRING_LENGTH < length v then truncate_string v
      else v)"

definition depth_marker :: jstr where
  "depth_marker = lit ''[depth-limit]''"

function (sequential) redact :: "runtime \<Rightarrow> nat \<Rightarrow> json \<Rightarrow> json" where
  "redact rt depth (JArr vs) = (if 8 < depth then JStr depth_marker else JArr (map (redact rt (depth + 1)) vs))"
| "redact rt depth (JObj kvs) =
     (if 8 < depth then JStr depth_marker
      else JObj (map (\<lambda>(k, v). (k, if forbidden_key rt k then JStr REDACTED else redact rt (depth + 1) v)) kvs))"
| "redact rt depth (JStr s) = JStr (if 8 < depth then depth_marker else scrubString s)"
| "redact rt depth v = (if 8 < depth then JStr depth_marker else v)"
  by pat_completeness auto
termination
  by (relation "measure (\<lambda>(_, _, v). size v)")
    (auto dest: size_json_obj elim: size_list_estimation' intro: le_imp_less_Suc)

datatype LogLevel = Info | Warn | Error_level

text \<open>The line written, with its channel; later fields replace earlier ones as in an object spread.\<close>

definition spread :: "(jstr \<times> json) list \<Rightarrow> (jstr \<times> json) list \<Rightarrow> (jstr \<times> json) list" where
  "spread xs m = fold (\<lambda>(k, v). map_put k v) xs m"

definition level_str :: "LogLevel \<Rightarrow> jstr" where
  "level_str l = (case l of Info \<Rightarrow> lit ''info'' | Warn \<Rightarrow> lit ''warn'' | Error_level \<Rightarrow> lit ''error'')"

definition safeLog :: "runtime \<Rightarrow> int \<Rightarrow> LogLevel \<Rightarrow> jstr \<Rightarrow> (jstr \<times> json) list \<Rightarrow> LogLevel \<times> json" where
  "safeLog rt now level event flds =
     (level, JObj (spread (case redact rt 0 (JObj flds) of JObj kvs \<Rightarrow> kvs | _ \<Rightarrow> [])
        [(lit ''at'', JInt now), (lit ''level'', JStr (level_str level)), (lit ''event'', JStr event)]))"

section \<open>What can reach a log line\<close>

text \<open>\<open>json_str P s v\<close>: the string \<open>s\<close> is a value of \<open>v\<close> that is reached through keys satisfying
  \<open>P\<close> only.\<close>

inductive json_str :: "(jstr \<Rightarrow> bool) \<Rightarrow> jstr \<Rightarrow> json \<Rightarrow> bool" for P :: "jstr \<Rightarrow> bool" and s :: jstr where
  here: "json_str P s (JStr s)"
| arr: "v \<in> set vs \<Longrightarrow> json_str P s v \<Longrightarrow> json_str P s (JArr vs)"
| obj: "(k, v) \<in> set kvs \<Longrightarrow> P k \<Longrightarrow> json_str P s v \<Longrightarrow> json_str P s (JObj kvs)"

inductive_cases json_str_ArrE: "json_str P s (JArr vs)"
inductive_cases json_str_ObjE: "json_str P s (JObj kvs)"
inductive_simps json_str_simps [simp]: "json_str P s (JStr t)" "json_str P s JNull" "json_str P s JUndef"
  "json_str P s (JBool b)" "json_str P s (JNum n)"

text \<open>What the logger may print for an input string \<open>u\<close>.\<close>

definition printable_form :: "jstr \<Rightarrow> jstr \<Rightarrow> bool" where
  "printable_form u t \<longleftrightarrow> \<not> looks_secret u \<and>
     (if length u \<le> MAX_STRING_LENGTH then t = u else t = truncate_string u)"

definition log_markers :: "jstr set" where
  "log_markers = {REDACTED, depth_marker}"

lemma scrub_cases: "scrubString u \<in> log_markers \<or> printable_form u (scrubString u)"
  by (auto simp: scrubString_def printable_form_def log_markers_def)

lemma redact_strings:
  "json_str (\<lambda>_. True) t (redact rt d v) \<Longrightarrow>
   t \<in> log_markers \<or> (\<exists>u. json_str (\<lambda>k. \<not> forbidden_key rt k) u v \<and> printable_form u t)"
proof (induction rt d v rule: redact.induct)
  case (1 rt depth vs)
  show ?case
  proof (cases "8 < depth")
    case False
    with 1(2) obtain v where "v \<in> set vs" "json_str (\<lambda>_. True) t (redact rt (depth + 1) v)"
      by (auto elim!: json_str_ArrE simp del: redact.simps simp add: redact.simps(1))
    with 1(1) [OF False] show ?thesis by (blast intro: json_str.arr)
  qed (use 1(2) in \<open>simp add: log_markers_def\<close>)
next
  case (2 rt depth kvs)
  show ?case
  proof (cases "8 < depth")
    case False
    with 2(2) obtain k v where kv: "(k, v) \<in> set kvs"
      "json_str (\<lambda>_. True) t (if forbidden_key rt k then JStr REDACTED else redact rt (depth + 1) v)"
      by (auto elim!: json_str_ObjE simp del: redact.simps simp add: redact.simps(2))
    show ?thesis
    proof (cases "forbidden_key rt k")
      case True
      with kv show ?thesis by (simp add: log_markers_def)
    next
      case nf: False
      with kv 2(1) [OF False kv(1) refl] show ?thesis by (auto intro: json_str.obj)
    qed
  qed (use 2(2) in \<open>simp add: log_markers_def\<close>)
next
  case (3 rt depth s)
  then show ?case
    using scrub_cases [of s] by (auto simp: log_markers_def split: if_splits)
qed (auto simp: log_markers_def split: if_splits)

lemma json_str_spread:
  assumes "json_str P t (JObj (spread xs m))"
  shows "json_str P t (JObj xs) \<or> json_str P t (JObj m)"
proof -
  have "set (spread xs m) \<subseteq> set xs \<union> set m"
    unfolding spread_def
  proof (induction xs arbitrary: m)
    case (Cons p xs)
    obtain a b where p: "p = (a, b)" by fastforce
    from Cons.IH [of "map_put a b m"] set_put_subset [of a b m] show ?case by (auto simp: p)
  qed simp
  with assms show ?thesis by (auto elim!: json_str_ObjE intro: json_str.obj)
qed

text \<open>C20. Nothing sensitive rides out in a log line: every string value of the line is the event name,
  the level, one of the two redaction markers, or the printable form of an input string that stands
  under no forbidden key (whatever its case and separators) and matches none of the five secret
  patterns; printable means at most 200 units, a longer string being cut to its first 64.\<close>

theorem safeLog_no_leak:
  assumes "json_str (\<lambda>_. True) t (snd (safeLog rt now level event flds))"
  shows "t \<in> log_markers \<or> t = event \<or> t = level_str level
    \<or> (\<exists>u. json_str (\<lambda>k. \<not> forbidden_key rt k) u (JObj flds) \<and> printable_form u t)"
proof -
  from assms have "json_str (\<lambda>_. True) t (redact rt 0 (JObj flds))
    \<or> json_str (\<lambda>_. True) t (JObj [(lit ''at'', JInt now), (lit ''level'', JStr (level_str level)), (lit ''event'', JStr event)])"
    unfolding safeLog_def snd_conv by (auto dest!: json_str_spread)
  then show ?thesis
  proof
    assume "json_str (\<lambda>_. True) t (redact rt 0 (JObj flds))"
    from redact_strings [OF this] show ?thesis by blast
  qed (auto elim!: json_str_ObjE)
qed

lemma sample_secret: "looks_secret (lit ''sk-ant-api03-abcdef'')"
  by (simp add: looks_secret_def SECRET_VALUE_PATTERNS_def sk_pattern_def prefixed_def at_least_def word_char_def eval_simps)

definition sample_line :: "LogLevel \<times> json" where
  "sample_line = safeLog sample_runtime 0 Warn (lit ''x'') [(lit ''X-Api-Key'', JStr (lit ''k1'')),
     (lit ''detail'', JStr (lit ''sk-ant-api03-abcdef'')), (lit ''code'', JStr (lit ''c''))]"

lemma sample_line_value:
  "sample_line = (Warn, JObj [(lit ''at'', JInt 0), (lit ''level'', JStr (lit ''warn'')), (lit ''event'', JStr (lit ''x'')),
     (lit ''X-Api-Key'', JStr REDACTED), (lit ''detail'', JStr REDACTED), (lit ''code'', JStr (lit ''c''))])"
proof -
  have "forbidden_key sample_runtime (lit ''X-Api-Key'')" "\<not> forbidden_key sample_runtime (lit ''detail'')"
    "\<not> forbidden_key sample_runtime (lit ''code'')"
    by (simp_all add: forbidden_key_def normalizeKey_def FORBIDDEN_KEYS_def alnum_lower_def eval_simps)
  moreover have "\<not> looks_secret (lit ''c'')"
    by (simp add: looks_secret_def SECRET_VALUE_PATTERNS_def sk_pattern_def bearer_pattern_def mock_key_pattern_def
        sk_live_pattern_def ghp_pattern_def prefixed_def at_least_def eval_simps)
  ultimately show ?thesis
    by (simp add: sample_line_def safeLog_def level_str_def spread_def scrubString_def MAX_STRING_LENGTH_def sample_secret)
qed

theorem safeLog_no_leak_witness:
  "json_str (\<lambda>_. True) (lit ''c'') (snd sample_line)
   \<and> (lit ''c'' \<in> log_markers \<or> lit ''c'' = lit ''x'' \<or> lit ''c'' = level_str Warn
      \<or> (\<exists>u. json_str (\<lambda>k. \<not> forbidden_key sample_runtime k) u
            (JObj [(lit ''X-Api-Key'', JStr (lit ''k1'')), (lit ''detail'', JStr (lit ''sk-ant-api03-abcdef'')),
              (lit ''code'', JStr (lit ''c''))]) \<and> printable_form u (lit ''c'')))"
proof -
  have "json_str (\<lambda>_. True) (lit ''c'') (snd sample_line)"
    unfolding sample_line_value snd_conv
    by (rule json_str.obj [of "lit ''code''" "JStr (lit ''c'')"]) simp_all
  with safeLog_no_leak [OF this [unfolded sample_line_def]] show ?thesis by simp
qed

end
