(* ===== verification/Events.thy ===== *)
theory Events
  imports Coordinator_Db Safe_Log
begin

text \<open>
  Outbox events and the graph projection (\<^verbatim>\<open>services/coordinator/src/events.ts\<close>): the forbidden-field
  guard, \<open>emitEvent\<close>, the projection of every event type, and the drain loop. \<open>emitEvent\<close> runs the
  projector synchronously, as the listener installed by \<open>startProjector\<close> does. Shown: the guard is
  exact for nine levels of nesting, each event is projected once and in order, and the status of a
  request node is the one its last event names. What the projection puts on the bus is in \<open>Live_Graph\<close>.
\<close>

section \<open>The guard\<close>

definition BANNED_EVENT_FIELDS :: "jstr list" where
  "BANNED_EVENT_FIELDS = map lit [''messages'', ''message'', ''prompt'', ''prompttext'', ''content'', ''input'',
     ''output'', ''response'', ''responsebody'', ''secret'', ''apikey'', ''key'', ''authorization'',
     ''ciphertext'', ''encryptedblob'', ''encryptedsecret'', ''plaintext'']"

definition banned_field :: "runtime \<Rightarrow> jstr \<Rightarrow> bool" where
  "banned_field rt k \<longleftrightarrow> normalizeKey rt k \<in> set BANNED_EVENT_FIELDS"

text \<open>\<open>True\<close>: returns; \<open>False\<close>: throws.\<close>

function (sequential) assertNoForbiddenFields :: "runtime \<Rightarrow> nat \<Rightarrow> json \<Rightarrow> bool" where
  "assertNoForbiddenFields rt depth (JArr vs) =
     (8 < depth \<or> (\<forall>v \<in> set vs. assertNoForbiddenFields rt (depth + 1) v))"
| "assertNoForbiddenFields rt depth (JObj kvs) =
     (8 < depth \<or> (\<forall>kv \<in> set kvs. \<not> banned_field rt (fst kv) \<and> assertNoForbiddenFields rt (depth + 1) (snd kv)))"
| "assertNoForbiddenFields rt depth v = True"
  by pat_completeness auto
termination
  by (relation "measure (\<lambda>(_, _, v). size v)")
    (auto dest: size_json_obj elim: size_list_estimation' intro: le_imp_less_Suc)

section \<open>Emitting\<close>

text \<open>What \<open>JSON.parse(JSON.stringify(v))\<close> keeps: \<open>undefined\<close> members disappear, \<open>undefined\<close> in an
  array and non-finite numbers become \<open>null\<close>.\<close>

function (sequential) json_text :: "json \<Rightarrow> json" where
  "json_text (JArr vs) = JArr (map (\<lambda>v. if v = JUndef then JNull else json_text v) vs)"
| "json_text (JObj kvs) = JObj (map (\<lambda>(k, v). (k, json_text v)) (filter (\<lambda>(k, v). v \<noteq> JUndef) kvs))"
| "json_text (JNum x) = (case x of Fin q \<Rightarrow> JNum (Fin q) | _ \<Rightarrow> JNull)"
| "json_text v = v"
  by pat_completeness auto
termination
  by (relation "measure size") (auto dest: size_json_obj elim: size_list_estimation' intro: le_imp_less_Suc)

definition next_outbox_id :: "database \<Rightarrow> nat" where
  "next_outbox_id db = Suc (foldr max (map fst (outbox_events db)) 0)"

definition outbox_entry :: "int \<Rightarrow> CtnEventType \<Rightarrow> jstr \<Rightarrow> (jstr \<times> json) list \<Rightarrow> outbox_row" where
  "outbox_entry now ty agg payload =
     \<lparr> ob_event_type = ty, ob_aggregate_id = agg,
       ob_payload = json_text (JObj (map_put (lit ''timestamp'') (JInt now)
          (map_put (lit ''event'') (JStr (event_str ty)) payload))),
       ob_created_at = now, ob_processed_at = None \<rparr>"

definition append_outbox :: "int \<Rightarrow> CtnEventType \<Rightarrow> jstr \<Rightarrow> (jstr \<times> json) list \<Rightarrow> database \<Rightarrow> database" where
  "append_outbox now ty agg payload db =
     db\<lparr> outbox_events := outbox_events db @ [(next_outbox_id db, outbox_entry now ty agg payload)] \<rparr>"

section \<open>Graph upserts\<close>

definition upsertNode :: "int \<Rightarrow> jstr \<Rightarrow> GraphNodeType \<Rightarrow> jstr \<Rightarrow> jstr option \<Rightarrow> (jstr \<times> json) list
    \<Rightarrow> database \<Rightarrow> database" where
  "upsertNode now nid type lbl st meta db =
     (case map_of (graph_nodes db) nid of
        Some existing \<Rightarrow>
          db\<lparr> graph_nodes := row_update nid (\<lambda>r. r\<lparr> gn_label := lbl,
                gn_status := (case st of None \<Rightarrow> gn_status r | Some x \<Rightarrow> Some x),
                gn_meta := spread meta (gn_meta existing), gn_updated_at := now \<rparr>) (graph_nodes db) \<rparr>
      | None \<Rightarrow>
          db\<lparr> graph_nodes := graph_nodes db @ [(nid, \<lparr> gn_type = type, gn_label = lbl, gn_status = st,
                gn_meta = meta, gn_created_at = now, gn_updated_at = now \<rparr>)] \<rparr>)"

definition link_id :: "jstr \<Rightarrow> jstr \<Rightarrow> jstr \<Rightarrow> jstr" where
  "link_id source target type = source @ lit ''|'' @ type @ lit ''|'' @ target"

definition upsertLink :: "int \<Rightarrow> jstr \<Rightarrow> jstr \<Rightarrow> string \<Rightarrow> database \<Rightarrow> database" where
  "upsertLink now source target type db =
     (if has_row (link_id source target (lit type)) (graph_links db) then db
      else db\<lparr> graph_links := graph_links db @ [(link_id source target (lit type),
             \<lparr> gl_source = source, gl_target = target, gl_type = lit type, gl_created_at = now \<rparr>)] \<rparr>)"

section \<open>The projection\<close>

definition p_str :: "json \<Rightarrow> string \<Rightarrow> jstr option" where
  "p_str payload k = (case get_prop payload k of Some (JStr s) \<Rightarrow> Some s | _ \<Rightarrow> None)"

definition p_num :: "json \<Rightarrow> string \<Rightarrow> int option" where
  "p_num payload k = (case get_prop payload k of Some (JNum x) \<Rightarrow> Some (num_int x) | _ \<Rightarrow> None)"

definition p_bool :: "json \<Rightarrow> string \<Rightarrow> bool" where
  "p_bool payload k = (get_prop payload k = Some (JBool True))"

definition p_strs :: "json \<Rightarrow> string \<Rightarrow> jstr list option" where
  "p_strs payload k = (case get_prop payload k of
     Some (JArr vs) \<Rightarrow> Some (map (\<lambda>v. case v of JStr s \<Rightarrow> s | _ \<Rightarrow> []) vs) | _ \<Rightarrow> None)"

definition or_else :: "'a option \<Rightarrow> 'a \<Rightarrow> 'a" where
  "or_else x d = (case x of Some v \<Rightarrow> v | None \<Rightarrow> d)"

text \<open>\<open>`${x}`\<close> of a value that may be \<open>undefined\<close>.\<close>

definition tpl :: "jstr option \<Rightarrow> jstr" where
  "tpl x = or_else x (lit ''undefined'')"

definition node_ref :: "string \<Rightarrow> jstr option \<Rightarrow> jstr" where
  "node_ref prefix x = lit prefix @ tpl x"

definition last_n :: "nat \<Rightarrow> 'a list \<Rightarrow> 'a list" where
  "last_n n s = drop (length s - n) s"

definition shortId :: "jstr \<Rightarrow> jstr" where
  "shortId s = last_n 6 s"

definition modelLabel :: "jstr \<Rightarrow> jstr" where
  "modelLabel m = (if starts_with (lit ''ctn/'') m then drop 4 m else m)"

definition shortHash :: "jstr option \<Rightarrow> jstr" where
  "shortHash h = (case h of
      Some s \<Rightarrow> if starts_with (lit ''0x'') s then take 6 (drop 2 s) else take 6 s
    | None \<Rightarrow> [])"

definition meta_str :: "json \<Rightarrow> string \<Rightarrow> string \<Rightarrow> jstr \<times> json" where
  "meta_str p name k = (lit name, JStr (or_else (p_str p k) []))"

definition meta_num :: "json \<Rightarrow> string \<Rightarrow> string \<Rightarrow> int \<Rightarrow> jstr \<times> json" where
  "meta_num p name k d = (lit name, JInt (or_else (p_num p k) d))"

definition req_ref :: "json \<Rightarrow> jstr" where
  "req_ref p = node_ref ''req:'' (p_str p ''request_id'')"

definition req_label :: "json \<Rightarrow> jstr" where
  "req_label p = lit ''Request '' @ shortHash (case p_str p ''commitment'' of Some c \<Rightarrow> Some c | None \<Rightarrow> p_str p ''request_id'')"

definition proj_contributor_created :: "int \<Rightarrow> json \<Rightarrow> database \<Rightarrow> database" where
  "proj_contributor_created now p =
     upsertNode now (node_ref ''contrib:'' (p_str p ''contributor_id'')) N_Contributor
       (or_else (p_str p ''display_name'') (lit ''Contributor'')) (Some (lit ''ACTIVE'')) []"

definition joined_models :: "json \<Rightarrow> jstr" where
  "joined_models p = (case p_strs p ''allowed_models'' of Some ms \<Rightarrow> join (lit '', '') ms | None \<Rightarrow> [])"

text \<open>A missing provider makes \<open>toUpperCase\<close> throw after the credential node is written; a missing
  id with a missing label throws before it.\<close>

definition proj_credential_created :: "runtime \<Rightarrow> int \<Rightarrow> json \<Rightarrow> database \<Rightarrow> database" where
  "proj_credential_created rt now p db =
     (if p_str p ''label'' = None \<and> p_str p ''credential_id'' = None then db else
      let cred = node_ref ''cred:'' (p_str p ''credential_id'');
          prov = node_ref ''provider:'' (p_str p ''provider'');
          db1 = upsertNode now cred N_Credential
                  (or_else (p_str p ''label'') (lit ''Credential '' @ shortId (tpl (p_str p ''credential_id''))))
                  (Some (lit ''ACTIVE''))
                  [meta_str p ''provider'' ''provider'', (lit ''allowedModels'', JStr (joined_models p)),
                   meta_str p ''policyId'' ''policy_id'', meta_str p ''keyFingerprint'' ''key_fingerprint'',
                   (lit ''rawCredential'', JStr (lit ''INACCESSIBLE'' @ [32, 8212] @ lit '' held only inside the enclave vault''))] db
      in (case p_str p ''provider'' of
            None \<Rightarrow> db1
          | Some provider_name \<Rightarrow>
              let db2 = upsertNode now prov N_Provider (to_upper rt provider_name) None [] db1;
                  db3 = upsertLink now (node_ref ''contrib:'' (p_str p ''contributor_id'')) cred ''CONTRIBUTED'' db2;
                  db4 = upsertLink now cred prov ''CONNECTS_TO'' db3
              in fold (\<lambda>m d. upsertLink now prov (lit ''model:'' @ m) ''SERVES''
                        (upsertNode now (lit ''model:'' @ m) N_Model (modelLabel m) None [] d))
                   (or_else (p_strs p ''allowed_models'') []) db4))"

definition proj_credential_updated :: "int \<Rightarrow> json \<Rightarrow> database \<Rightarrow> database" where
  "proj_credential_updated now p db =
     (if p_str p ''label'' = None \<and> p_str p ''credential_id'' = None then db else
      upsertNode now (node_ref ''cred:'' (p_str p ''credential_id'')) N_Credential
        (or_else (p_str p ''label'') (lit ''Credential '' @ shortId (tpl (p_str p ''credential_id''))))
        (p_str p ''status'') [(lit ''allowedModels'', JStr (joined_models p))] db)"

definition proj_request_received :: "int \<Rightarrow> json \<Rightarrow> database \<Rightarrow> database" where
  "proj_request_received now p db =
     (let db1 = upsertNode now (req_ref p) N_Request (req_label p) (Some (lit ''RECEIVED''))
            [meta_str p ''privacyMode'' ''privacy_mode'', meta_str p ''model'' ''model'',
             (lit ''prompt'', JStr (lit ''PRIVATE'' @ [32, 8212] @ lit '' encrypted to the enclave ingress key''))] db
      in (case p_str p ''model'' of
            None \<Rightarrow> db1
          | Some m \<Rightarrow>
              if m = [] then db1
              else upsertLink now (req_ref p) (lit ''model:'' @ m) ''REQUESTED_MODEL''
                     (upsertNode now (lit ''model:'' @ m) N_Model (modelLabel m) None [] db1)))"

definition proj_tee_verified :: "int \<Rightarrow> json \<Rightarrow> database \<Rightarrow> database" where
  "proj_tee_verified now p db =
     upsertLink now (req_ref p) (node_ref ''tee:'' (p_str p ''build_id'')) ''EXECUTED_IN''
       (upsertNode now (node_ref ''tee:'' (p_str p ''build_id'')) N_TEEWorker
          (lit ''TEE '' @ take 6 (or_else (p_str p ''build_id'') []))
          (Some (if p_str p ''mode'' = Some (lit ''nitro'') then lit ''NITRO_VERIFIED'' else lit ''SIMULATED''))
          [meta_str p ''buildId'' ''build_id'', meta_str p ''attestationDigest'' ''attestation_digest'',
           meta_str p ''mode'' ''mode'', (lit ''verified'', JBool True)] db)"

definition proj_policy_started :: "int \<Rightarrow> json \<Rightarrow> database \<Rightarrow> database" where
  "proj_policy_started now p db =
     upsertLink now (req_ref p) (node_ref ''policy:'' (p_str p ''policy_id'')) ''EVALUATED_UNDER''
       (upsertNode now (node_ref ''policy:'' (p_str p ''policy_id'')) N_Policy (lit ''Safety v1'') (Some (lit ''ACTIVE''))
          [meta_str p ''policyId'' ''policy_id'', (lit ''version'', JStr (lit ''1.0.0''))] db)"

definition proj_policy_verdict :: "string \<Rightarrow> string \<Rightarrow> int \<Rightarrow> json \<Rightarrow> database \<Rightarrow> database" where
  "proj_policy_verdict st verdict now p =
     upsertNode now (req_ref p) N_Request (lit ''Request '' @ shortHash (p_str p ''commitment'')) (Some (lit st))
       [meta_str p ''commitment'' ''commitment'', (lit ''policyResult'', JStr (lit verdict)),
        meta_num p ''policyMs'' ''policy_ms'' 0]"

definition proj_request_failed :: "int \<Rightarrow> json \<Rightarrow> database \<Rightarrow> database" where
  "proj_request_failed now p =
     upsertNode now (req_ref p) N_Request (req_label p) (Some (lit ''FAILED''))
       [meta_str p ''errorCode'' ''error_code'', meta_num p ''attempts'' ''attempts'' 0,
        meta_num p ''totalLatencyMs'' ''total_ms'' 0]"

definition proof_ref :: "json \<Rightarrow> jstr" where
  "proof_ref p = node_ref ''proof:'' (p_str p ''request_id'')"

definition proof_node :: "int \<Rightarrow> json \<Rightarrow> string \<Rightarrow> (jstr \<times> json) list \<Rightarrow> database \<Rightarrow> database" where
  "proof_node now p st meta = upsertNode now (proof_ref p) N_Proof (lit ''Policy Proof'') (Some (lit st)) meta"

definition proj_proof_pending :: "string \<Rightarrow> int \<Rightarrow> json \<Rightarrow> database \<Rightarrow> database" where
  "proj_proof_pending st now p db =
     upsertLink now (req_ref p) (proof_ref p) ''HAS_PROOF''
       (proof_node now p st [meta_str p ''proofSystem'' ''proof_system'', meta_str p ''policyId'' ''policy_id''] db)"

definition proj_proof_generated :: "int \<Rightarrow> json \<Rightarrow> database \<Rightarrow> database" where
  "proj_proof_generated now p =
     proof_node now p ''GENERATED'' [meta_str p ''proofSystem'' ''proof_system'', (lit ''verified'', JBool False),
       meta_str p ''guestImageId'' ''guest_image_id'', meta_str p ''artifactDigest'' ''artifact_digest'']"

definition proj_proof_completed :: "int \<Rightarrow> json \<Rightarrow> database \<Rightarrow> database" where
  "proj_proof_completed now p =
     proof_node now p (if p_bool p ''verified'' then ''VERIFIED'' else ''GENERATED'')
       [meta_str p ''proofSystem'' ''proof_system'', (lit ''verified'', JBool (p_bool p ''verified'')),
        meta_num p ''durationMs'' ''proof_ms'' 0, meta_str p ''guestImageId'' ''guest_image_id'',
        meta_str p ''artifactDigest'' ''artifact_digest'', meta_str p ''decisionReceiptDigest'' ''decision_receipt_digest'']"

definition proj_proof_failed :: "int \<Rightarrow> json \<Rightarrow> database \<Rightarrow> database" where
  "proj_proof_failed now p =
     proof_node now p ''FAILED'' [(lit ''verified'', JBool False), meta_str p ''error'' ''error'',
       meta_num p ''durationMs'' ''proof_ms'' 0]"

definition proj_route_selected :: "int \<Rightarrow> json \<Rightarrow> database \<Rightarrow> database" where
  "proj_route_selected now p db =
     upsertNode now (req_ref p) N_Request (req_label p) (Some (lit ''ROUTING''))
       [meta_str p ''contributorId'' ''contributor_id'', meta_str p ''credentialId'' ''credential_id'']
       (upsertLink now (node_ref ''cred:'' (p_str p ''credential_id'')) (node_ref ''provider:'' (p_str p ''provider'')) ''CONNECTS_TO''
         (upsertLink now (req_ref p) (node_ref ''cred:'' (p_str p ''credential_id'')) ''ROUTED_THROUGH'' db))"

definition proj_provider_started :: "int \<Rightarrow> json \<Rightarrow> database \<Rightarrow> database" where
  "proj_provider_started now p db =
     upsertLink now (req_ref p) (node_ref ''provider:'' (p_str p ''provider'')) ''CALLED''
       (upsertNode now (req_ref p) N_Request (req_label p) (Some (lit ''PROVIDER_RUNNING'')) [] db)"

definition num_tpl :: "int option \<Rightarrow> jstr" where
  "num_tpl x = (case x of Some i \<Rightarrow> int_digits i | None \<Rightarrow> lit ''undefined'')"

definition attempt_ref :: "json \<Rightarrow> jstr" where
  "attempt_ref p = node_ref ''attempt:'' (p_str p ''request_id'') @ lit '':'' @ num_tpl (p_num p ''attempt_number'')"

definition attempt_links :: "int \<Rightarrow> json \<Rightarrow> database \<Rightarrow> database" where
  "attempt_links now p db =
     upsertLink now (attempt_ref p) (node_ref ''cred:'' (p_str p ''credential_id'')) ''USED''
       (upsertLink now (req_ref p) (attempt_ref p) ''HAS_ATTEMPT'' db)"

definition proj_provider_failed :: "int \<Rightarrow> json \<Rightarrow> database \<Rightarrow> database" where
  "proj_provider_failed now p db =
     attempt_links now p
       (upsertNode now (attempt_ref p) N_ProviderAttempt
          (lit ''Attempt '' @ num_tpl (p_num p ''attempt_number'') @ [32, 183, 32] @ or_else (p_str p ''classification'') (lit ''failed''))
          (Some (lit ''FAILED''))
          [meta_num p ''httpStatus'' ''http_status'' 0, meta_str p ''classification'' ''classification'',
           meta_num p ''latencyMs'' ''latency_ms'' 0, meta_str p ''action'' ''action''] db)"

definition proj_provider_completed :: "int \<Rightarrow> json \<Rightarrow> database \<Rightarrow> database" where
  "proj_provider_completed now p db =
     (let resp = node_ref ''resp:'' (p_str p ''request_id'');
          db1 = attempt_links now p
            (upsertNode now (attempt_ref p) N_ProviderAttempt
               (lit ''Attempt '' @ num_tpl (p_num p ''attempt_number'') @ [32, 183] @ lit '' ok'') (Some (lit ''SUCCESS''))
               [meta_num p ''httpStatus'' ''http_status'' 200, meta_num p ''latencyMs'' ''latency_ms'' 0] db);
          db2 = upsertLink now (req_ref p) resp ''PRODUCED''
            (upsertNode now resp N_Response (lit ''Response'') (Some (lit ''COMPLETE''))
               [meta_num p ''inputTokens'' ''input_tokens'' 0, meta_num p ''outputTokens'' ''output_tokens'' 0,
                meta_num p ''providerMs'' ''latency_ms'' 0,
                (lit ''body'', JStr (lit ''PRIVATE'' @ [32, 8212] @ lit '' sealed to the client'' @ [39] @ lit ''s ephemeral key''))] db1)
      in upsertNode now (req_ref p) N_Request (req_label p) (Some (lit ''COMPLETE''))
           [meta_num p ''totalLatencyMs'' ''total_ms'' 0] db2)"

definition proj_receipt_created :: "int \<Rightarrow> json \<Rightarrow> database \<Rightarrow> database" where
  "proj_receipt_created now p db =
     upsertLink now (req_ref p) (node_ref ''receipt:'' (p_str p ''request_id'')) ''HAS_RECEIPT''
       (upsertNode now (node_ref ''receipt:'' (p_str p ''request_id'')) N_ComputeReceipt (lit ''Compute Receipt'')
          (Some (lit ''SIGNED'')) [meta_str p ''receiptId'' ''receipt_id'', meta_str p ''commitment'' ''commitment'',
            (lit ''signatureVerified'', JBool True)] db)"

fun project :: "runtime \<Rightarrow> int \<Rightarrow> CtnEventType \<Rightarrow> json \<Rightarrow> database \<Rightarrow> database" where
  "project rt now contributor_created p db = proj_contributor_created now p db"
| "project rt now credential_created p db = proj_credential_created rt now p db"
| "project rt now credential_updated p db = proj_credential_updated now p db"
| "project rt now request_received p db = proj_request_received now p db"
| "project rt now tee_verified p db = proj_tee_verified now p db"
| "project rt now policy_started p db = proj_policy_started now p db"
| "project rt now policy_allowed p db = proj_policy_verdict ''AUTHORIZED'' ''ALLOW'' now p db"
| "project rt now policy_denied p db = proj_policy_verdict ''DENIED'' ''DENY'' now p db"
| "project rt now request_failed p db = proj_request_failed now p db"
| "project rt now proof_queued p db = proj_proof_pending ''QUEUED'' now p db"
| "project rt now proof_started p db = proj_proof_pending ''PROVING'' now p db"
| "project rt now proof_generated p db = proj_proof_generated now p db"
| "project rt now proof_completed p db = proj_proof_completed now p db"
| "project rt now proof_failed p db = proj_proof_failed now p db"
| "project rt now route_selected p db = proj_route_selected now p db"
| "project rt now provider_started p db = proj_provider_started now p db"
| "project rt now provider_failed p db = proj_provider_failed now p db"
| "project rt now provider_completed p db = proj_provider_completed now p db"
| "project rt now receipt_created p db = proj_receipt_created now p db"

definition mark_processed :: "int \<Rightarrow> nat \<Rightarrow> database \<Rightarrow> database" where
  "mark_processed now i db =
     db\<lparr> outbox_events := row_update i (\<lambda>r. r\<lparr> ob_processed_at := Some now \<rparr>) (outbox_events db) \<rparr>"

definition pending_events :: "database \<Rightarrow> (nat \<times> outbox_row) list" where
  "pending_events db = sort_key fst (filter (\<lambda>(_, r). ob_processed_at r = None) (outbox_events db))"

definition drain_step :: "runtime \<Rightarrow> int \<Rightarrow> nat \<times> outbox_row \<Rightarrow> database \<Rightarrow> database" where
  "drain_step rt now e db =
     mark_processed now (fst e) (project rt now (ob_event_type (snd e)) (ob_payload (snd e)) db)"

definition drainOutbox :: "runtime \<Rightarrow> int \<Rightarrow> nat \<Rightarrow> database \<Rightarrow> database \<times> nat" where
  "drainOutbox rt now limit db =
     (let rows = take limit (pending_events db) in (fold (drain_step rt now) rows db, length rows))"

text \<open>\<open>emitEvent\<close> with the projector listening: \<open>None\<close> is the throw of the guard, before any write.\<close>

definition emitEvent :: "runtime \<Rightarrow> int \<Rightarrow> CtnEventType \<Rightarrow> jstr \<Rightarrow> (jstr \<times> json) list \<Rightarrow> database \<Rightarrow> database option" where
  "emitEvent rt now ty agg payload db =
     (if assertNoForbiddenFields rt 0 (JObj payload)
      then Some (fst (drainOutbox rt now 500 (append_outbox now ty agg payload db)))
      else None)"

definition graphSnapshot :: "database \<Rightarrow> (jstr \<times> graph_node_row) list \<times> (jstr \<times> graph_link_row) list" where
  "graphSnapshot db = (sort_key (gn_created_at \<circ> snd) (graph_nodes db), sort_key (gl_created_at \<circ> snd) (graph_links db))"

section \<open>How far the guard looks\<close>

text \<open>\<open>key_at d k v\<close>: \<open>k\<close> is a key of an object nested \<open>d\<close> levels below \<open>v\<close>.\<close>

inductive key_at :: "nat \<Rightarrow> jstr \<Rightarrow> json \<Rightarrow> bool" where
  top: "k \<in> fst ` set kvs \<Longrightarrow> key_at 0 k (JObj kvs)"
| member: "kv \<in> set kvs \<Longrightarrow> key_at d k (snd kv) \<Longrightarrow> key_at (Suc d) k (JObj kvs)"
| element: "v \<in> set vs \<Longrightarrow> key_at d k v \<Longrightarrow> key_at (Suc d) k (JArr vs)"

inductive_simps key_at_obj: "key_at d k (JObj kvs)"
inductive_simps key_at_arr: "key_at d k (JArr vs)"
lemma key_at_depths:
  "key_at 0 k (JObj kvs) \<longleftrightarrow> k \<in> fst ` set kvs"
  "key_at (Suc d) k (JObj kvs) \<longleftrightarrow> (\<exists>kv \<in> set kvs. key_at d k (snd kv))"
  "\<not> key_at 0 k (JArr vs)" "key_at (Suc d) k (JArr vs) \<longleftrightarrow> (\<exists>v \<in> set vs. key_at d k v)"
  unfolding key_at_obj key_at_arr by (simp_all add: Bex_def)

lemma all_depths: "(\<forall>d :: nat. P d) \<longleftrightarrow> P 0 \<and> (\<forall>d. P (Suc d))"
  by (metis nat.exhaust)

inductive_simps key_at_leaf [simp]: "key_at d k JNull" "key_at d k JUndef" "key_at d k (JBool b)"
  "key_at d k (JNum x)" "key_at d k (JStr s)"

lemma guard_at_depth:
  "assertNoForbiddenFields rt e v \<longleftrightarrow> (\<forall>d k. key_at d k v \<longrightarrow> e + d \<le> 8 \<longrightarrow> \<not> banned_field rt k)"
proof (induction rt e v rule: assertNoForbiddenFields.induct)
  case (1 rt depth vs)
  show ?case
  proof (cases "8 < depth")
    case False
    have "assertNoForbiddenFields rt depth (JArr vs)
      \<longleftrightarrow> (\<forall>v \<in> set vs. \<forall>d k. key_at d k v \<longrightarrow> Suc depth + d \<le> 8 \<longrightarrow> \<not> banned_field rt k)"
      using 1 False by simp
    also have "\<dots> \<longleftrightarrow> (\<forall>d k. key_at d k (JArr vs) \<longrightarrow> depth + d \<le> 8 \<longrightarrow> \<not> banned_field rt k)"
      by (subst (2) all_depths) (auto simp: key_at_depths)
    finally show ?thesis .
  qed (simp add: key_at_arr)
next
  case (2 rt depth kvs)
  show ?case
  proof (cases "8 < depth")
    case False
    have "assertNoForbiddenFields rt depth (JObj kvs)
      \<longleftrightarrow> (\<forall>kv \<in> set kvs. \<not> banned_field rt (fst kv)
            \<and> (\<forall>d k. key_at d k (snd kv) \<longrightarrow> Suc depth + d \<le> 8 \<longrightarrow> \<not> banned_field rt k))"
      using 2 False by simp
    also have "\<dots> \<longleftrightarrow> (\<forall>d k. key_at d k (JObj kvs) \<longrightarrow> depth + d \<le> 8 \<longrightarrow> \<not> banned_field rt k)"
      using False by (subst (2) all_depths) (auto simp: key_at_depths)
    finally show ?thesis .
  qed (simp add: key_at_obj)
qed simp_all

text \<open>The guard is exact: \<open>emitEvent\<close> throws, writing nothing, if and only if some key within nine
  levels of objects and arrays (depths 0 to 8) is a forbidden name in any spelling.\<close>

theorem emit_guard_exact:
  "emitEvent rt now ty agg payload db = None
   \<longleftrightarrow> (\<exists>d k. key_at d k (JObj payload) \<and> d \<le> 8 \<and> banned_field rt k)"
  by (auto simp: emitEvent_def guard_at_depth)

text \<open>A forbidden name one level deeper passes the guard.\<close>

fun nest :: "nat \<Rightarrow> json \<Rightarrow> json" where
  "nest 0 v = v"
| "nest (Suc n) v = JObj [(lit ''meta'', nest n v)]"

lemma guard_misses_depth_nine:
  "banned_field sample_runtime (lit ''prompt'')
   \<and> key_at 9 (lit ''prompt'') (nest 9 (JObj [(lit ''prompt'', JStr (lit ''private''))]))
   \<and> assertNoForbiddenFields sample_runtime 0 (nest 9 (JObj [(lit ''prompt'', JStr (lit ''private''))]))"
proof -
  have "banned_field sample_runtime (lit ''prompt'')" "\<not> banned_field sample_runtime (lit ''meta'')"
    by (simp_all add: banned_field_def normalizeKey_def BANNED_EVENT_FIELDS_def alnum_lower_def eval_simps)
  then show ?thesis by (simp add: eval_nat_numeral key_at_obj)
qed

section \<open>The projector touches the graph only\<close>

text \<open>Everything but the two graph tables.\<close>

definition non_graph :: "database \<Rightarrow> database" where
  "non_graph db = db\<lparr> graph_nodes := [], graph_links := [] \<rparr>"

lemma non_graph_upserts [simp]:
  "non_graph (upsertNode now i ty l st meta db) = non_graph db"
  "non_graph (upsertLink now a b t db) = non_graph db"
  by (simp_all add: non_graph_def upsertNode_def upsertLink_def split: option.splits)

lemma non_graph_fold:
  "(\<And>x d. non_graph (f x d) = non_graph d) \<Longrightarrow> non_graph (fold f xs db) = non_graph db"
  by (induction xs arbitrary: db) auto

lemmas proj_defs = proj_contributor_created_def proj_credential_created_def proj_credential_updated_def
  proj_request_received_def proj_tee_verified_def proj_policy_started_def proj_policy_verdict_def
  proj_request_failed_def proj_proof_pending_def proj_proof_generated_def proj_proof_completed_def
  proj_proof_failed_def proj_route_selected_def proj_provider_started_def proj_provider_failed_def
  proj_provider_completed_def proj_receipt_created_def proof_node_def attempt_links_def

lemma non_graph_project [simp]: "non_graph (project rt now ty p db) = non_graph db"
  by (cases ty) (simp_all add: proj_defs Let_def non_graph_fold split: option.splits)

lemma project_tables [simp]:
  "outbox_events (project rt now ty p db) = outbox_events db"
  "credentials (project rt now ty p db) = credentials db"
  "requests (project rt now ty p db) = requests db"
  "usage (project rt now ty p db) = usage db"
  "proofs (project rt now ty p db) = proofs db"
  "decision_receipts (project rt now ty p db) = decision_receipts db"
  "compute_receipts (project rt now ty p db) = compute_receipts db"
  "provider_attempts (project rt now ty p db) = provider_attempts db"
  "contributors (project rt now ty p db) = contributors db"
  using non_graph_project [of rt now ty p db]
  by (cases "project rt now ty p db"; cases db; simp add: non_graph_def)+

text \<open>The tables the inference path reads and writes.\<close>

definition operational :: "database \<Rightarrow> database" where
  "operational db = db\<lparr> graph_nodes := [], graph_links := [], outbox_events := [] \<rparr>"

lemma operational_non_graph: "non_graph a = non_graph b \<Longrightarrow> operational a = operational b"
  by (cases a; cases b) (simp add: operational_def non_graph_def)

lemma operational_drain_step [simp]: "operational (drain_step rt now e db) = operational db"
proof -
  have "operational (mark_processed now i d) = operational d" for i d
    by (simp add: operational_def mark_processed_def)
  then show ?thesis
    unfolding drain_step_def using operational_non_graph [OF non_graph_project] by metis
qed

lemma operational_fold_drain [simp]: "operational (fold (drain_step rt now) rows db) = operational db"
  by (induction rows arbitrary: db) auto

lemma operational_drain [simp]: "operational (fst (drainOutbox rt now limit db)) = operational db"
  by (simp add: drainOutbox_def Let_def)

lemma operational_append [simp]: "operational (append_outbox now ty agg payload db) = operational db"
  by (simp add: operational_def append_outbox_def)

lemma emitEvent_operational: "emitEvent rt now ty agg payload db = Some db' \<Longrightarrow> operational db' = operational db"
  by (auto simp: emitEvent_def split: if_splits)

lemma operational_tables:
  "operational a = operational b \<Longrightarrow> credentials a = credentials b \<and> requests a = requests b \<and> usage a = usage b
    \<and> proofs a = proofs b \<and> decision_receipts a = decision_receipts b \<and> compute_receipts a = compute_receipts b
    \<and> provider_attempts a = provider_attempts b \<and> contributors a = contributors b"
  by (cases a; cases b) (simp add: operational_def)

section \<open>Each event is projected once\<close>

lemma outbox_drain_step:
  "outbox_events (drain_step rt now e db) = row_update (fst e) (\<lambda>r. r\<lparr> ob_processed_at := Some now \<rparr>) (outbox_events db)"
  by (simp add: drain_step_def mark_processed_def)

lemma outbox_fold_drain:
  "outbox_events (fold (drain_step rt now) rows db) =
   map (\<lambda>(i, r). (i, if i \<in> fst ` set rows then r\<lparr> ob_processed_at := Some now \<rparr> else r)) (outbox_events db)"
  by (induction rows arbitrary: db) (auto simp: outbox_drain_step row_update_def)

lemma pending_mem: "(i, r) \<in> set (pending_events db) \<longleftrightarrow> (i, r) \<in> set (outbox_events db) \<and> ob_processed_at r = None"
  by (auto simp: pending_events_def)

lemma pending_Nil: "pending_events db = [] \<longleftrightarrow> (\<forall>(i, r) \<in> set (outbox_events db). ob_processed_at r \<noteq> None)"
proof -
  have "sort_key f xs = [] \<longleftrightarrow> xs = []" for f :: "nat \<times> outbox_row \<Rightarrow> nat" and xs
    by (metis length_0_conv length_sort)
  then show ?thesis by (auto simp: pending_events_def filter_empty_conv)
qed

lemma drain_clears:
  assumes "length (pending_events db) \<le> limit"
  shows "pending_events (fst (drainOutbox rt now limit db)) = []"
proof -
  have "ob_processed_at r \<noteq> None" if "(i, r) \<in> set (outbox_events db)" "i \<notin> fst ` set (pending_events db)" for i r
    using that pending_mem [of i r db] by force
  with assms show ?thesis
    by (auto simp: drainOutbox_def Let_def pending_Nil outbox_fold_drain)
qed

text \<open>The projection reads and writes the graph tables only, so it commutes with the marks on the outbox.\<close>

lemma upsert_set_outbox:
  "upsertNode now i ty l st meta (db\<lparr> outbox_events := ob \<rparr>) = (upsertNode now i ty l st meta db)\<lparr> outbox_events := ob \<rparr>"
  "upsertLink now a b t (db\<lparr> outbox_events := ob \<rparr>) = (upsertLink now a b t db)\<lparr> outbox_events := ob \<rparr>"
  by (simp_all add: upsertNode_def upsertLink_def split: option.splits)

lemma fold_set_outbox:
  "(\<And>x d. f x (d\<lparr> outbox_events := ob \<rparr>) = (f x d)\<lparr> outbox_events := ob \<rparr>)
   \<Longrightarrow> fold f xs (db\<lparr> outbox_events := ob \<rparr>) = (fold f xs db)\<lparr> outbox_events := ob \<rparr>"
  by (induction xs arbitrary: db) auto

lemma project_set_outbox:
  "project rt now ty p (db\<lparr> outbox_events := ob \<rparr>) = (project rt now ty p db)\<lparr> outbox_events := ob \<rparr>"
  by (cases ty) (simp_all add: proj_defs Let_def upsert_set_outbox fold_set_outbox split: option.splits)

text \<open>What a batch of events does to the graph, with no bookkeeping at all.\<close>

definition project_all :: "runtime \<Rightarrow> int \<Rightarrow> (nat \<times> outbox_row) list \<Rightarrow> database \<Rightarrow> database" where
  "project_all rt now rows = fold (\<lambda>(i, r). project rt now (ob_event_type r) (ob_payload r)) rows"

lemma project_all_set_outbox:
  "project_all rt now rows (db\<lparr> outbox_events := ob \<rparr>) = (project_all rt now rows db)\<lparr> outbox_events := ob \<rparr>"
  unfolding project_all_def by (rule fold_set_outbox) (simp add: project_set_outbox split: prod.split)

lemma fold_drain_graph:
  "\<exists>ob. fold (drain_step rt now) rows db = (project_all rt now rows db)\<lparr> outbox_events := ob \<rparr>"
proof (induction rows arbitrary: db)
  case Nil
  show ?case by (intro exI [of _ "outbox_events db"]) (simp add: project_all_def)
next
  case (Cons e rows)
  obtain i r where e: "e = (i, r)" by (cases e)
  let ?d = "project rt now (ob_event_type r) (ob_payload r) db"
  obtain ob where "fold (drain_step rt now) rows (drain_step rt now e db)
      = (project_all rt now rows (drain_step rt now e db))\<lparr> outbox_events := ob \<rparr>"
    using Cons.IH by blast
  moreover have "project_all rt now (e # rows) db = project_all rt now rows ?d"
    by (simp add: project_all_def e)
  ultimately show ?case
    by (intro exI [of _ ob])
      (simp add: drain_step_def [of rt now "(i, r)"] e mark_processed_def project_all_set_outbox)
qed

lemma filter_not_taken: "distinct p \<Longrightarrow> filter (\<lambda>x. x \<notin> set (take n p)) p = drop n p"
proof -
  assume d: "distinct p"
  have "filter (\<lambda>x. x \<notin> set (take n p)) (take n p) = []" by (simp add: filter_empty_conv)
  moreover have "filter (\<lambda>x. x \<notin> set (take n p)) (drop n p) = drop n p"
    using set_take_disj_set_drop_if_distinct [OF d order_refl, of n] by (auto simp: filter_id_conv)
  ultimately show ?thesis using filter_append [of "\<lambda>x. x \<notin> set (take n p)" "take n p" "drop n p"] by simp
qed

lemma pending_distinct: "distinct (map fst (outbox_events db)) \<Longrightarrow> distinct (pending_events db)"
  unfolding pending_events_def by (auto simp: distinct_map)

lemma drained_outbox:
  assumes "distinct (map fst (outbox_events db))" "set rows \<subseteq> set (outbox_events db)"
  shows "outbox_events (fold (drain_step rt now) rows db) =
    map (\<lambda>e. if e \<in> set rows then (fst e, (snd e)\<lparr> ob_processed_at := Some now \<rparr>) else e) (outbox_events db)"
proof -
  have "i \<in> fst ` set rows \<longleftrightarrow> (i, r) \<in> set rows" if "(i, r) \<in> set (outbox_events db)" for i r
    using that assms by (force dest: eq_key_imp_eq_value)
  then show ?thesis unfolding outbox_fold_drain by (intro map_cong) auto
qed

lemma drained_pending:
  assumes "distinct (map fst (outbox_events db))"
  shows "pending_events (fold (drain_step rt now) (take limit (pending_events db)) db) = drop limit (pending_events db)"
proof -
  let ?t = "take limit (pending_events db)"
  have sub: "set ?t \<subseteq> set (outbox_events db)"
    by (rule subset_trans [OF set_take_subset]) (auto simp: pending_events_def)
  have new: "filter (\<lambda>(_, r). ob_processed_at r = None)
      (map (\<lambda>e. if e \<in> set ?t then (fst e, (snd e)\<lparr> ob_processed_at := Some now \<rparr>) else e) xs)
    = filter (\<lambda>e. e \<notin> set ?t) (filter (\<lambda>(_, r). ob_processed_at r = None) xs)" for xs
    by (induction xs) auto
  have "pending_events (fold (drain_step rt now) ?t db) = filter (\<lambda>e. e \<notin> set ?t) (pending_events db)"
    unfolding pending_events_def [of "fold (drain_step rt now) ?t db"] drained_outbox [OF assms sub] new
    by (simp only: filter_sort pending_events_def)
  with filter_not_taken [OF pending_distinct [OF assms]] show ?thesis by simp
qed

lemma append_outbox_ids:
  assumes "distinct (map fst (outbox_events db))"
  shows "distinct (map fst (outbox_events (append_outbox now ty agg payload db)))"
proof -
  have "i \<in> set xs \<Longrightarrow> i \<le> foldr max xs (0::nat)" for i xs by (induction xs) auto
  then have "next_outbox_id db \<notin> set (map fst (outbox_events db))"
    unfolding next_outbox_id_def by fastforce
  with assms show ?thesis by (simp add: append_outbox_def)
qed

text \<open>C21. One drain with limit \<open>limit\<close> takes the first \<open>limit\<close> waiting events in id order (the
  waiting events are the unprocessed rows of the outbox) and projects each of them once, in that order:
  the graph is the one the projections of exactly these events give, exactly these rows are marked
  processed, and what waits afterwards is the rest. With at most \<open>limit\<close> events waiting nothing is left
  and a second drain at any later time does nothing. The tables of the inference path are the same
  before and after, whatever the events contain (a projection error is swallowed). Row ids are distinct,
  as \<open>append_outbox\<close> keeps them.\<close>

theorem drain_exactly_once:
  assumes "distinct (map fst (outbox_events db))"
    and "rows = take limit (pending_events db)" and "(db', n) = drainOutbox rt now limit db"
  shows "mset (pending_events db) = filter_mset (\<lambda>(_, r). ob_processed_at r = None) (mset (outbox_events db))
    \<and> sorted (map fst (pending_events db))
    \<and> n = length rows
    \<and> graph_nodes db' = graph_nodes (project_all rt now rows db)
    \<and> graph_links db' = graph_links (project_all rt now rows db)
    \<and> outbox_events db' =
        map (\<lambda>e. if e \<in> set rows then (fst e, (snd e)\<lparr> ob_processed_at := Some now \<rparr>) else e) (outbox_events db)
    \<and> pending_events db' = drop limit (pending_events db)
    \<and> (length (pending_events db) \<le> limit \<longrightarrow> drainOutbox rt' now' limit' db' = (db', 0))
    \<and> operational db' = operational db"
proof -
  have db': "db' = fold (drain_step rt now) rows db" and n: "n = length rows"
    using assms(2,3) by (simp_all add: drainOutbox_def)
  obtain ob where g: "db' = (project_all rt now rows db)\<lparr> outbox_events := ob \<rparr>"
    using fold_drain_graph db' by blast
  have p: "pending_events db' = drop limit (pending_events db)"
    unfolding db' assms(2) by (rule drained_pending [OF assms(1)])
  have o: "outbox_events db' =
      map (\<lambda>e. if e \<in> set rows then (fst e, (snd e)\<lparr> ob_processed_at := Some now \<rparr>) else e) (outbox_events db)"
    unfolding db' by (rule drained_outbox [OF assms(1)])
      (unfold assms(2), rule subset_trans [OF set_take_subset], auto simp: pending_events_def)
  have s: "mset (pending_events db) = filter_mset (\<lambda>(_, r). ob_processed_at r = None) (mset (outbox_events db))"
    "sorted (map fst (pending_events db))"
    by (simp_all add: pending_events_def)
  have "length (pending_events db) \<le> limit \<Longrightarrow> drainOutbox rt' now' limit' db' = (db', 0)"
    by (simp add: drainOutbox_def p)
  moreover have "operational db' = operational db" unfolding db' by simp
  ultimately show ?thesis using s n o p by (simp add: g)
qed

definition sample_outbox :: database where
  "sample_outbox = append_outbox 5 request_failed (lit ''r1'') [(lit ''request_id'', JStr (lit ''r1''))] empty_db"

definition sample_backlog :: database where
  "sample_backlog = append_outbox 6 policy_started (lit ''r1'') [(lit ''request_id'', JStr (lit ''r1''))]
     (append_outbox 5 request_received (lit ''r1'') [(lit ''request_id'', JStr (lit ''r1''))] empty_db)"

lemma sample_backlog_rows:
  "distinct (map fst (outbox_events sample_backlog))"
  "map fst (pending_events sample_backlog) = [1, 2]"
  by (simp_all add: pending_events_def sample_backlog_def append_outbox_def next_outbox_id_def outbox_entry_def empty_db_def)

theorem drain_exactly_once_witness:
  "map fst (pending_events sample_backlog) = [1, 2]
   \<and> map fst (pending_events (fst (drainOutbox sample_runtime 7 1 sample_backlog))) = [2]
   \<and> graph_nodes (fst (drainOutbox sample_runtime 7 1 sample_backlog))
     = graph_nodes (project_all sample_runtime 7 (take 1 (pending_events sample_backlog)) sample_backlog)"
  using drain_exactly_once [OF sample_backlog_rows(1) refl prod.collapse, where limit = 1 and rt = sample_runtime and now = 7]
    sample_backlog_rows(2)
  by (simp add: drop_map [symmetric])

section \<open>The status of a request node\<close>

definition node_status :: "database \<Rightarrow> jstr \<Rightarrow> jstr option" where
  "node_status db i = (case map_of (graph_nodes db) i of None \<Rightarrow> None | Some r \<Rightarrow> gn_status r)"

lemma node_status_upserts [simp]:
  "node_status (upsertNode now i ty l st meta db) x =
     (if x = i then (case st of Some s \<Rightarrow> Some s | None \<Rightarrow> node_status db i) else node_status db x)"
  "node_status (upsertLink now a b t db) x = node_status db x"
  by (auto simp: node_status_def upsertNode_def upsertLink_def store_simps map_add_def split: option.splits)

text \<open>The status an event gives the node of its request.\<close>

fun event_status :: "CtnEventType \<Rightarrow> jstr option" where
  "event_status request_received = Some (lit ''RECEIVED'')"
| "event_status policy_allowed = Some (lit ''AUTHORIZED'')"
| "event_status policy_denied = Some (lit ''DENIED'')"
| "event_status request_failed = Some (lit ''FAILED'')"
| "event_status route_selected = Some (lit ''ROUTING'')"
| "event_status provider_started = Some (lit ''PROVIDER_RUNNING'')"
| "event_status provider_completed = Some (lit ''COMPLETE'')"
| "event_status _ = None"

lemma req_node_apart [simp]:
  "lit ''req:'' @ x \<noteq> node_ref ''contrib:'' y" "lit ''req:'' @ x \<noteq> node_ref ''cred:'' y"
  "lit ''req:'' @ x \<noteq> node_ref ''provider:'' y" "lit ''req:'' @ x \<noteq> node_ref ''tee:'' y"
  "lit ''req:'' @ x \<noteq> node_ref ''policy:'' y" "lit ''req:'' @ x \<noteq> node_ref ''resp:'' y"
  "lit ''req:'' @ x \<noteq> node_ref ''receipt:'' y" "lit ''req:'' @ x \<noteq> lit ''model:'' @ z"
  "lit ''req:'' @ x \<noteq> proof_ref p" "lit ''req:'' @ x \<noteq> attempt_ref p"
  by (simp_all add: node_ref_def proof_ref_def attempt_ref_def lit_def)

lemma node_status_fold:
  "(\<And>x d. node_status (f x d) i = node_status d i) \<Longrightarrow> node_status (fold f xs db) i = node_status db i"
  by (induction xs arbitrary: db) auto

lemma project_req_status:
  assumes "p_str p ''request_id'' = Some rid"
  shows "node_status (project rt now ty p db) (lit ''req:'' @ x) =
     (if x = rid \<and> event_status ty \<noteq> None then event_status ty else node_status db (lit ''req:'' @ x))"
proof -
  have r: "req_ref p = lit ''req:'' @ rid" using assms by (simp add: req_ref_def node_ref_def tpl_def or_else_def)
  show ?thesis
    by (cases ty) (auto simp add: proj_defs Let_def r node_status_fold split: option.splits)
qed

lemma project_req_status_other:
  assumes "ty \<in> {contributor_created, credential_created, credential_updated}"
  shows "node_status (project rt now ty p db) (lit ''req:'' @ x) = node_status db (lit ''req:'' @ x)"
  using assms by (auto simp: proj_defs Let_def node_status_fold split: option.splits)

text \<open>With an outbox that is otherwise drained, \<open>emitEvent\<close> projects its own event, and leaves the
  outbox drained.\<close>

lemma pending_append:
  assumes "pending_events db = []"
  shows "pending_events (append_outbox now ty agg payload db) = [(next_outbox_id db, outbox_entry now ty agg payload)]"
proof -
  from assms have "filter (\<lambda>(_, r). ob_processed_at r = None) (outbox_events db) = []"
    by (auto simp: pending_Nil filter_empty_conv)
  then show ?thesis by (simp add: pending_events_def append_outbox_def outbox_entry_def)
qed

lemma emitEvent_drained:
  assumes "emitEvent rt now ty agg payload db = Some db'" "pending_events db = []"
  shows "pending_events db' = []"
  using assms(1) drain_clears [of "append_outbox now ty agg payload db" 500 rt now]
  by (auto simp: emitEvent_def pending_append [OF assms(2)] split: if_splits)

lemma node_status_bookkeeping [simp]:
  "node_status (mark_processed now j d) i = node_status d i"
  "node_status (append_outbox now ty agg payload d) i = node_status d i"
  by (simp_all add: mark_processed_def append_outbox_def node_status_def)

lemma emitEvent_projects:
  assumes "emitEvent rt now ty agg payload db = Some db'" "pending_events db = []"
  shows "node_status db' i =
    node_status (project rt now ty (ob_payload (outbox_entry now ty agg payload)) (append_outbox now ty agg payload db)) i"
proof -
  have "db' = fst (drainOutbox rt now 500 (append_outbox now ty agg payload db))"
    using assms(1) by (simp add: emitEvent_def split: if_splits)
  moreover have "ob_event_type (outbox_entry now ty agg payload) = ty" by (simp add: outbox_entry_def)
  ultimately show ?thesis
    by (simp add: drainOutbox_def pending_append [OF assms(2)] drain_step_def)
qed

lemma map_of_text:
  "map_of (map (\<lambda>(k, v). (k, json_text v)) (filter (\<lambda>(k, v). v \<noteq> JUndef) kvs)) k = Some (json_text v)"
  if "map_of kvs k = Some v" "v \<noteq> JUndef" "distinct (map fst kvs)"
proof -
  have "(k, v) \<in> set kvs" using that(1) by (rule map_of_SomeD)
  with that(2) have "(k, json_text v) \<in> set (map (\<lambda>(k, v). (k, json_text v)) (filter (\<lambda>(k, v). v \<noteq> JUndef) kvs))"
    by force
  moreover have "distinct (map fst (map (\<lambda>(k, v). (k, json_text v)) (filter (\<lambda>(k, v). v \<noteq> JUndef) kvs)))"
    using distinct_keys_filter [OF that(3)] by (simp add: case_prod_beta' comp_def)
  ultimately show ?thesis by simp
qed

lemma payload_request_id:
  assumes "map_of payload (lit ''request_id'') = Some (JStr rid)" "map_wf payload"
  shows "p_str (ob_payload (outbox_entry now ty agg payload)) ''request_id'' = Some rid"
proof -
  let ?m = "map_put (lit ''timestamp'') (JInt now) (map_put (lit ''event'') (JStr (event_str ty)) payload)"
  have "map_of ?m (lit ''request_id'') = Some (JStr rid)" using assms(1) by (simp add: store_simps)
  moreover have "distinct (map fst ?m)" using wf_put [OF wf_put [OF assms(2)]] by (simp add: map_wf_def)
  ultimately have "map_of (map (\<lambda>(k, v). (k, json_text v)) (filter (\<lambda>(k, v). v \<noteq> JUndef) ?m)) (lit ''request_id'')
      = Some (json_text (JStr rid))"
    by (intro map_of_text) simp_all
  then show ?thesis
    unfolding p_str_def outbox_entry_def outbox_row.select_convs json_text.simps get_prop.simps by simp
qed

lemma emitEvent_req_status:
  assumes "emitEvent rt now ty agg payload db = Some db'" "pending_events db = []"
    and "map_of payload (lit ''request_id'') = Some (JStr rid)" "map_wf payload"
  shows "node_status db' (lit ''req:'' @ x) =
     (if x = rid \<and> event_status ty \<noteq> None then event_status ty else node_status db (lit ''req:'' @ x))"
  by (simp only: emitEvent_projects [OF assms(1,2)] project_req_status [OF payload_request_id [OF assms(3,4)]]
      node_status_bookkeeping)

end
