(* ===== verification/Tee_Client.thy ===== *)
theory Tee_Client
  imports Routing
begin

text \<open>
  The coordinator's channel into the enclave (\<^verbatim>\<open>services/coordinator/src/tee-client.ts\<close>): how an HTTP
  exchange becomes a result, a rejection or an outage, and the shapes of the enclave's answers. The
  network is a parameter: a handler takes the outcome of each call it makes.
\<close>

datatype 'a tee_result =
    TeeOk 'a
  | EnclaveRejection (rej_code: jstr) (rej_message: jstr) (rej_httpStatus: int)
  | EnclaveUnavailable

text \<open>What \<open>fetch\<close> and \<open>res.json()\<close> give: no answer, or a status with a parsed or unparseable body.\<close>

datatype http_outcome = Unreachable | Answered int "json option"

fun truthy :: "json \<Rightarrow> bool" where
  "truthy JNull = False"
| "truthy JUndef = False"
| "truthy (JBool b) = b"
| "truthy (JNum x) = (x \<noteq> Fin 0 \<and> x \<noteq> NaN)"
| "truthy (JStr s) = (s \<noteq> [])"
| "truthy _ = True"

text \<open>\<open>x ?? d\<close> for a string property.\<close>

definition str_or :: "json option \<Rightarrow> string \<Rightarrow> jstr" where
  "str_or v d = (case v of Some (JStr s) \<Rightarrow> s | _ \<Rightarrow> lit d)"

definition error_of :: "json \<Rightarrow> json" where
  "error_of body = (case get_prop body ''error'' of Some e \<Rightarrow> e | None \<Rightarrow> JUndef)"

fun call :: "http_outcome \<Rightarrow> json tee_result" where
  "call Unreachable = EnclaveUnavailable"
| "call (Answered st None) = EnclaveUnavailable"
| "call (Answered st (Some body)) =
     (if 200 \<le> st \<and> st < 300 then TeeOk body
      else if truthy (error_of body) then
        EnclaveRejection (str_or (get_prop (error_of body) ''code'') ''CTN_INVALID_ENVELOPE'')
          (str_or (get_prop (error_of body) ''message'') ''the enclave refused the request'') st
      else EnclaveUnavailable)"

text \<open>Only a successful status yields a result, whatever the body says, and a rejection always
  carries the status of the answer.\<close>

lemma call_ok_iff: "call h = TeeOk v \<longleftrightarrow> (\<exists>st. h = Answered st (Some v) \<and> 200 \<le> st \<and> st < 300)"
  by (cases h rule: call.cases) auto

lemma call_rejection_status:
  "call h = EnclaveRejection c m st \<Longrightarrow> (\<exists>b. h = Answered st (Some b) \<and> truthy (error_of b)) \<and> \<not> (200 \<le> st \<and> st < 300)"
  by (cases h rule: call.cases) (auto split: if_splits)

section \<open>Answers\<close>

record AttemptResult =
  ar_credentialId :: jstr
  ar_contributorId :: jstr
  ar_attemptNumber :: int
  ar_status :: attempt_status
  ar_httpStatus :: int
  ar_latencyMs :: int
  ar_classification :: "jstr option"
  ar_upstreamOutcomeUnknown :: bool
  ar_assumedSpendMicroUsd :: "int option"

record GateResult =
  gr_decision :: PolicyDecision
  gr_commitment :: jstr
  gr_policyId :: jstr
  gr_imageId :: jstr
  gr_decisionReceipt :: SignedPolicyDecisionReceiptV1
  gr_proofStarted :: bool
  gr_gateWallMs :: int

record Selected =
  sel_credentialId :: jstr
  sel_contributorId :: jstr
  sel_provider :: jstr
  sel_model :: jstr
  sel_attempt :: int

datatype execute_status = EX_COMPLETE | EX_DENIED | EX_FAILED | EX_UNKNOWN

record ExecuteResult =
  er_status :: execute_status
  er_commitment :: jstr
  er_policyId :: jstr
  er_policyMs :: int
  er_encryptedResponse :: "SecureResponse option"
  er_receipt :: "SignedComputeReceipt option"
  er_attempts :: "AttemptResult list"
  er_selected :: "Selected option"
  er_inputTokens :: "int option"
  er_outputTokens :: "int option"
  er_estimatedCostMicroUsd :: "int option"
  er_providerTotalMs :: "int option"
  er_error :: "(jstr \<times> jstr) option"

record ProofResponse =
  pr_status :: ProofStatus
  pr_proofVerified :: bool
  pr_proofMs :: "int option"
  pr_error :: "jstr option"
  pr_imageId :: "jstr option"
  pr_artifactDigest :: "jstr option"
  pr_decisionReceiptDigest :: "jstr option"
  pr_artifact :: "ProofArtifactWireV1 option"
  pr_binding :: "SignedProofBindingV2 option"

record Ingested =
  ing_encryptedBlob :: jstr
  ing_capability :: CredentialCapability
  ing_capabilitySignature :: jstr
  ing_keyFingerprint :: jstr
  ing_policyId :: jstr

end
