(* ===== verification/Credentials.thy ===== *)
theory Credentials
  imports Tee_Client
begin

text \<open>
  Contributors and credential onboarding in the coordinator
  (\<^verbatim>\<open>services/coordinator/src/index.ts\<close>, the \<^verbatim>\<open>/v1/contributors\<close>, \<^verbatim>\<open>/v1/credentials\<close> and \<^verbatim>\<open>/v1/models\<close>
  handlers). A handler returns its HTTP reply and the database. \<open>during\<close> stands for whatever other
  handlers did to the database while this one awaited the enclave. Shown: revocation is terminal
  under every operation on credentials, in any order, and a stored credential carries exactly the
  capability the enclave signed.
\<close>

datatype reply = Reply (reply_code: int) (reply_body: json)

definition err_json :: "string \<Rightarrow> string \<Rightarrow> json" where
  "err_json code message = JObj [(lit ''error'', JObj [(lit ''code'', JStr (lit code)), (lit ''message'', JStr (lit message))])]"

text \<open>The error handler of the server: a throw becomes a 500.\<close>

definition internal_error :: reply where
  "internal_error = Reply 500 (err_json ''CTN_INTERNAL'' ''internal error'')"

definition enclave_unavailable :: reply where
  "enclave_unavailable = Reply 503 (err_json ''CTN_ENCLAVE_UNAVAILABLE'' ''The confidential service is unavailable.'')"

section \<open>Contributors\<close>

definition postContributors :: "runtime \<Rightarrow> int \<Rightarrow> jstr \<Rightarrow> jstr \<Rightarrow> database \<Rightarrow> reply \<times> database" where
  "postContributors rt now newId displayName db =
     (case insert_row True newId \<lparr> ct_display_name = displayName, ct_status = lit ''ACTIVE'', ct_created_at = now \<rparr> (contributors db) of
        Inl e \<Rightarrow> (internal_error, db)
      | Inr t \<Rightarrow>
          let db1 = db\<lparr> contributors := t \<rparr> in
          (case emitEvent rt now contributor_created newId
              [(lit ''contributor_id'', JStr newId), (lit ''display_name'', JStr displayName)] db1 of
             None \<Rightarrow> (internal_error, db1)
           | Some db2 \<Rightarrow> (Reply 200 (JObj [(lit ''id'', JStr newId), (lit ''displayName'', JStr displayName),
                (lit ''status'', JStr (lit ''ACTIVE''))]), db2)))"

section \<open>Contributing a credential\<close>

record CredentialBody =
  cb_contributorId :: jstr
  cb_label :: jstr
  cb_weight :: "int option"
  cb_dailyUsd :: "rat option"
  cb_dailyRequests :: "int option"
  cb_credentialId :: jstr

text \<open>\<^verbatim>\<open>/^cred_[0-9a-f]{12}$/\<close>\<close>

definition valid_credential_id :: "jstr \<Rightarrow> bool" where
  "valid_credential_id s \<longleftrightarrow> length s = 17 \<and> starts_with (lit ''cred_'') s
     \<and> (\<forall>c \<in> set (drop 5 s). (48 \<le> c \<and> c \<le> 57) \<or> (97 \<le> c \<and> c \<le> 102))"

definition checkCredentialBody :: "CredentialBody \<Rightarrow> database \<Rightarrow> reply option" where
  "checkCredentialBody body db =
     (if \<not> has_row (cb_contributorId body) (contributors db) then Some (Reply 404 (err_json ''CTN_INTERNAL'' ''unknown contributor''))
      else if \<not> valid_credential_id (cb_credentialId body) then
        Some (Reply 400 (err_json ''CTN_INVALID_ENVELOPE'' ''credentialId must be cred_ + 12 hex chars''))
      else if has_row (cb_credentialId body) (credentials db) then
        Some (Reply 409 (err_json ''CTN_INTENT_REPLAY'' ''this credential id has already been contributed''))
      else None)"

definition new_credential_row :: "int \<Rightarrow> CredentialBody \<Rightarrow> Ingested \<Rightarrow> CredentialRow" where
  "new_credential_row now body ing = \<lparr> contributor_id = cb_contributorId body,
     provider = cap_provider (ing_capability ing), label = cb_label body, encrypted_blob = ing_encryptedBlob ing,
     capability = ing_capability ing, capability_signature = ing_capabilitySignature ing,
     key_fingerprint = ing_keyFingerprint ing, status = ACTIVE,
     weight = (case cb_weight body of Some w \<Rightarrow> w | None \<Rightarrow> 1), created_at = now, last_used_at = None,
     requests_today = 0, estimated_cost_today_usd = 0, usage_day = Some (day_of now), failure_count = 0,
     cooldown_until = None, operational_daily_usd_limit = cb_dailyUsd body,
     operational_daily_request_limit = cb_dailyRequests body \<rparr>"

definition storeCredential :: "runtime \<Rightarrow> int \<Rightarrow> CredentialBody \<Rightarrow> Ingested \<Rightarrow> database \<Rightarrow> reply \<times> database" where
  "storeCredential rt now body ing db =
     (if cap_contributorId (ing_capability ing) \<noteq> cb_contributorId body then
        (Reply 400 (err_json ''CTN_INTENT_MISMATCH'' ''sealed intent names a different contributor''), db)
      else
        (case insert_row (has_row (cb_contributorId body) (contributors db)) (cb_credentialId body)
            (new_credential_row now body ing) (credentials db) of
           Inl e \<Rightarrow> (internal_error, db)
         | Inr t \<Rightarrow>
             let db1 = db\<lparr> credentials := t \<rparr> in
             (case emitEvent rt now credential_created (cb_credentialId body)
                [(lit ''credential_id'', JStr (cb_credentialId body)), (lit ''contributor_id'', JStr (cb_contributorId body)),
                 (lit ''provider'', JStr (cap_provider (ing_capability ing))), (lit ''label'', JStr (cb_label body)),
                 (lit ''allowed_models'', strs_json (cap_allowedModels (ing_capability ing))),
                 (lit ''policy_id'', JStr (ing_policyId ing)), (lit ''key_fingerprint'', JStr (ing_keyFingerprint ing))] db1 of
                None \<Rightarrow> (internal_error, db1)
              | Some db2 \<Rightarrow> (Reply 200 (JObj [(lit ''id'', JStr (cb_credentialId body)), (lit ''status'', JStr (lit ''ACTIVE'')),
                   (lit ''capability'', capability_json (ing_capability ing)),
                   (lit ''capabilitySignature'', JStr (ing_capabilitySignature ing)),
                   (lit ''keyFingerprint'', JStr (ing_keyFingerprint ing)), (lit ''rawCredential'', JStr (lit ''HIDDEN''))]), db2))))"

definition postCredentials :: "runtime \<Rightarrow> int \<Rightarrow> CredentialBody \<Rightarrow> Ingested tee_result \<Rightarrow> (database \<Rightarrow> database)
    \<Rightarrow> database \<Rightarrow> reply \<times> database" where
  "postCredentials rt now body enclave during db =
     (case checkCredentialBody body db of
        Some r \<Rightarrow> (r, db)
      | None \<Rightarrow>
          let db1 = during db in
          (case enclave of
             EnclaveRejection code msg st \<Rightarrow>
               (Reply (if st = 409 then 409 else 400)
                 (JObj [(lit ''error'', JObj [(lit ''code'', JStr code), (lit ''message'', JStr msg)])]), db1)
           | EnclaveUnavailable \<Rightarrow> (enclave_unavailable, db1)
           | TeeOk ing \<Rightarrow> storeCredential rt now body ing db1))"

section \<open>Updating and revoking\<close>

record PatchBody =
  pb_status :: json
  pb_weight :: "int option"
  pb_limits :: "(rat option \<times> int option) option"
  pb_has_allowedModels :: bool

fun settable_status :: "json \<Rightarrow> cred_status option" where
  "settable_status (JStr s) = (if s = lit ''ACTIVE'' then Some ACTIVE else if s = lit ''DISABLED'' then Some DISABLED else None)"
| "settable_status _ = None"

definition patch_row :: "PatchBody \<Rightarrow> CredentialRow \<Rightarrow> CredentialRow" where
  "patch_row body r =
     (let r1 = (case settable_status (pb_status body) of
                  Some st \<Rightarrow> r\<lparr> status := st, cooldown_until := None \<rparr>
                | None \<Rightarrow> r);
          r2 = (case pb_weight body of Some w \<Rightarrow> r1\<lparr> weight := w \<rparr> | None \<Rightarrow> r1)
      in (case pb_limits body of
            Some (usd, reqs) \<Rightarrow> r2\<lparr> operational_daily_usd_limit := usd, operational_daily_request_limit := reqs \<rparr>
          | None \<Rightarrow> r2))"

definition patchCredential :: "runtime \<Rightarrow> int \<Rightarrow> jstr \<Rightarrow> PatchBody \<Rightarrow> database \<Rightarrow> reply \<times> database" where
  "patchCredential rt now cid body db =
     (if pb_has_allowedModels body then
        (Reply 400 (err_json ''CTN_CAPABILITY_IMMUTABLE'' ''Capabilities are immutable. Revoke this credential and contribute a new one.''), db)
      else (case map_of (credentials db) cid of
        None \<Rightarrow> (Reply 404 (err_json ''CTN_INTERNAL'' ''unknown credential''), db)
      | Some row \<Rightarrow>
          if pb_status body \<noteq> JUndef \<and> settable_status (pb_status body) = None then
            (Reply 400 (err_json ''CTN_INVALID_STATUS'' ''status must be ACTIVE or DISABLED; use DELETE to revoke a credential''), db)
          else if pb_status body \<noteq> JUndef \<and> status row = DELETED then
            (Reply 409 (JObj [(lit ''error'', JObj [(lit ''code'', JStr (lit ''CTN_CREDENTIAL_DELETED'')), (lit ''message'',
               JStr (lit ''This credential was revoked. Revocation is terminal '' @ [8212] @ lit '' contribute a new credential.''))])]), db)
          else
            let db1 = update_credential cid (patch_row body) db; row1 = patch_row body row in
            (case emitEvent rt now credential_updated cid
               [(lit ''credential_id'', JStr cid), (lit ''status'', JStr (cred_status_str (status row1))),
                (lit ''label'', JStr (label row1)), (lit ''allowed_models'', strs_json (cap_allowedModels (capability row1)))] db1 of
               None \<Rightarrow> (internal_error, db1)
             | Some db2 \<Rightarrow> (Reply 200 (JObj [(lit ''id'', JStr cid), (lit ''status'', JStr (cred_status_str (status row1))),
                  (lit ''capability'', capability_json (capability row1)),
                  (lit ''capabilitySignature'', JStr (capability_signature row1))]), db2))))"

definition deleteCredential :: "runtime \<Rightarrow> int \<Rightarrow> jstr \<Rightarrow> database \<Rightarrow> reply \<times> database" where
  "deleteCredential rt now cid db =
     (let db1 = update_credential cid (\<lambda>r. r\<lparr> status := DELETED \<rparr>) db in
      (case emitEvent rt now credential_updated cid
         [(lit ''credential_id'', JStr cid), (lit ''status'', JStr (lit ''DELETED''))] db1 of
         None \<Rightarrow> (internal_error, db1)
       | Some db2 \<Rightarrow> (Reply 200 (JObj [(lit ''id'', JStr cid), (lit ''status'', JStr (lit ''DELETED''))]), db2)))"

section \<open>Models on offer\<close>

fun count_model :: "jstr \<Rightarrow> (jstr \<times> int) list \<Rightarrow> (jstr \<times> int) list" where
  "count_model m counts = map_put m ((case map_of counts m of Some n \<Rightarrow> n | None \<Rightarrow> 0) + 1) counts"

definition availableModels :: "database \<Rightarrow> (jstr \<times> int) list" where
  "availableModels db = fold count_model
     (concat (map (\<lambda>(_, r). cap_allowedModels (capability r)) (filter (\<lambda>(_, r). status r = ACTIVE) (credentials db)))) []"

definition getModels :: "jstr list tee_result \<Rightarrow> database \<Rightarrow> (jstr \<times> int) list" where
  "getModels catalog db =
     (let available = availableModels db;
          ids = (case catalog of TeeOk ms \<Rightarrow> ms | _ \<Rightarrow> sort (map fst available))
      in map (\<lambda>m. (m, case map_of available m of Some n \<Rightarrow> n | None \<Rightarrow> 0)) ids)"

section \<open>Revocation is terminal\<close>

text \<open>The operations on the credentials table, as steps. \<open>store\<close> is the part of the contribution handler
  after its await, so any interleaving of handlers is a sequence of these steps.\<close>

inductive cred_step :: "database \<Rightarrow> database \<Rightarrow> bool" where
  discover: "cred_step db (snd (discoverCandidates rt now model policyId db))"
| outcome: "cred_step db (snd (applyAttemptOutcome now cid st cls db))"
| book: "recordUsage rt now a db = Inr db' \<Longrightarrow> cred_step db db'"
| assume_spend: "cred_step db (snd (recordAssumedUsage rt now rid cid uid spend db))"
| register: "cred_step db (snd (postContributors rt now i nm db))"
| store: "cred_step db (snd (storeCredential rt now body ing db))"
| patch: "cred_step db (snd (patchCredential rt now cid pbody db))"
| revoke: "cred_step db (snd (deleteCredential rt now cid db))"

text \<open>What no operation changes in a row, and the one-way door of its status.\<close>

definition evolves :: "CredentialRow \<Rightarrow> CredentialRow \<Rightarrow> bool" where
  "evolves r r' \<longleftrightarrow> capability r' = capability r \<and> capability_signature r' = capability_signature r
     \<and> encrypted_blob r' = encrypted_blob r \<and> contributor_id r' = contributor_id r \<and> provider r' = provider r
     \<and> (status r = DELETED \<longrightarrow> status r' = DELETED)"

definition table_evolves :: "database \<Rightarrow> database \<Rightarrow> bool" where
  "table_evolves db db' \<longleftrightarrow> (map_wf (credentials db) \<longrightarrow> map_wf (credentials db'))
     \<and> (map_wf (credentials db) \<longrightarrow> (\<forall>k r. map_of (credentials db) k = Some r \<longrightarrow>
          (\<exists>r'. map_of (credentials db') k = Some r' \<and> evolves r r')))"

lemma evolves_refl [simp]: "evolves r r"
  by (simp add: evolves_def)

lemma table_evolves_same: "credentials db' = credentials db \<Longrightarrow> table_evolves db db'"
  by (auto simp: table_evolves_def)

lemma table_evolves_update:
  assumes "credentials db' = row_update k f (credentials db)"
    and "\<And>r. map_of (credentials db) k = Some r \<Longrightarrow> evolves r (f r)"
  shows "table_evolves db db'"
  using assms by (auto simp: table_evolves_def store_simps wf_row_update)

lemma table_evolves_insert:
  assumes "insert_row p k v (credentials db) = Inr t" "credentials db' = t"
  shows "table_evolves db db'"
  using assms insert_row_wf [OF _ assms(1)] insert_row_lookup [OF assms(1)]
  by (auto simp: table_evolves_def insert_row_Inr has_row_def)

lemma emit_credentials: "emitEvent rt now ty agg payload db = Some db' \<Longrightarrow> credentials db' = credentials db"
  using operational_tables [OF emitEvent_operational] by blast

lemma discover_evolves: "table_evolves db (snd (discoverCandidates rt now model policyId db))"
proof -
  have "map fst (credentials (snd (discoverCandidates rt now model policyId db))) = map fst (credentials db)"
    using roll_rows_keys [of now "credentials db" db] by (simp add: discoverCandidates_def Let_def case_prod_beta)
  moreover have "evolves r (rolled now r)" for r by (simp add: evolves_def rolled_def)
  ultimately show ?thesis
    by (auto simp: table_evolves_def map_wf_def discover_db_lookup)
qed

lemma outcome_evolves: "table_evolves db (snd (applyAttemptOutcome now cid st cls db))"
  by (auto simp: applyAttemptOutcome_def evolves_def intro!: table_evolves_update)

lemma book_evolves: "recordUsage rt now a db = Inr db' \<Longrightarrow> table_evolves db db'"
  by (auto simp: recordUsage_def evolves_def bump_counters_def split: sum.splits dest!: insert_usage_Inr(4)
      intro!: table_evolves_update)

lemma assume_evolves: "table_evolves db (snd (recordAssumedUsage rt now rid cid uid spend db))"
proof -
  have "credentials (snd (recordAssumedUsage rt now rid cid uid spend db)) = credentials db
      \<or> (\<exists>cost. credentials (snd (recordAssumedUsage rt now rid cid uid spend db)) = row_update cid (bump_counters rt now cost) (credentials db))"
    by (auto simp: recordAssumedUsage_def Let_def split: sum.splits dest!: insert_usage_Inr(4))
  then show ?thesis
    by (auto simp: evolves_def bump_counters_def intro: table_evolves_same table_evolves_update)
qed

lemma register_evolves: "table_evolves db (snd (postContributors rt now i nm db))"
  by (auto simp: postContributors_def Let_def split: sum.splits option.splits dest!: emit_credentials
      intro!: table_evolves_same)

lemma store_credentials:
  "credentials (snd (storeCredential rt now body ing db)) = credentials db
   \<or> insert_row (has_row (cb_contributorId body) (contributors db)) (cb_credentialId body)
        (new_credential_row now body ing) (credentials db) = Inr (credentials (snd (storeCredential rt now body ing db)))"
  by (auto simp: storeCredential_def Let_def split: sum.splits option.splits dest!: emit_credentials)

lemma store_evolves: "table_evolves db (snd (storeCredential rt now body ing db))"
  using store_credentials [of rt now body ing db] by (metis table_evolves_same table_evolves_insert)

lemma settable_not_deleted: "settable_status v \<noteq> Some DELETED"
  by (cases v) auto

lemma patch_row_evolves:
  "pb_status body = JUndef \<or> status r \<noteq> DELETED \<Longrightarrow> evolves r (patch_row body r)"
  by (auto simp: evolves_def patch_row_def Let_def settable_not_deleted split: option.splits)

lemma patch_credentials:
  "credentials (snd (patchCredential rt now cid body db)) = credentials db
   \<or> (\<exists>r. map_of (credentials db) cid = Some r \<and> (pb_status body = JUndef \<or> status r \<noteq> DELETED)
        \<and> credentials (snd (patchCredential rt now cid body db)) = row_update cid (patch_row body) (credentials db))"
  by (auto simp: patchCredential_def Let_def split: option.splits dest!: emit_credentials)

lemma patch_evolves: "table_evolves db (snd (patchCredential rt now cid pbody db))"
proof -
  consider "credentials (snd (patchCredential rt now cid pbody db)) = credentials db"
    | r where "map_of (credentials db) cid = Some r" "pb_status pbody = JUndef \<or> status r \<noteq> DELETED"
      "credentials (snd (patchCredential rt now cid pbody db)) = row_update cid (patch_row pbody) (credentials db)"
    using patch_credentials [of rt now cid pbody db] by blast
  then show ?thesis
  proof cases
    case 2
    from table_evolves_update [OF 2(3)] 2(1,2) show ?thesis by (simp add: patch_row_evolves)
  qed (rule table_evolves_same)
qed

lemma revoke_evolves: "table_evolves db (snd (deleteCredential rt now cid db))"
  by (auto simp: deleteCredential_def evolves_def Let_def split: option.splits dest!: emit_credentials
      intro!: table_evolves_update)

lemmas cred_ops_evolve = discover_evolves outcome_evolves book_evolves assume_evolves register_evolves
  store_evolves patch_evolves revoke_evolves

lemma cred_step_evolves: "cred_step db db' \<Longrightarrow> table_evolves db db'"
  by (induction rule: cred_step.induct) (auto intro: cred_ops_evolve)

lemma evolves_trans: "evolves a b \<Longrightarrow> evolves b c \<Longrightarrow> evolves a c"
  by (auto simp: evolves_def)

text \<open>The invariant of a table that holds, under \<open>k\<close>, some descendant of the row \<open>r\<close>.\<close>

definition descends :: "jstr \<Rightarrow> CredentialRow \<Rightarrow> database \<Rightarrow> bool" where
  "descends k r db \<longleftrightarrow> map_wf (credentials db) \<and> (\<exists>r'. map_of (credentials db) k = Some r' \<and> evolves r r')"

interpretation cred_rows: stable cred_step "descends k r" for k r
proof unfold_locales
  fix db db' assume s: "cred_step db db'" and d: "descends k r db"
  from d obtain q where q: "map_wf (credentials db)" "map_of (credentials db) k = Some q" "evolves r q"
    by (auto simp: descends_def)
  from cred_step_evolves [OF s] q(1,2) obtain q' where
    "map_wf (credentials db')" "map_of (credentials db') k = Some q'" "evolves q q'"
    by (auto simp: table_evolves_def)
  with evolves_trans [OF q(3)] show "descends k r db'" by (auto simp: descends_def)
qed

lemma delete_sets_status:
  assumes "map_of (credentials db) k = Some r"
  shows "map_of (credentials (snd (deleteCredential rt now k db))) k = Some (r\<lparr> status := DELETED \<rparr>)"
  using assms
  by (auto simp: deleteCredential_def Let_def store_simps split: option.splits dest!: emit_credentials)

lemma delete_wf: "map_wf (credentials db) \<Longrightarrow> map_wf (credentials (snd (deleteCredential rt now k db)))"
  using revoke_evolves by (simp add: table_evolves_def)

text \<open>C24. Revocation is terminal. After \<open>DELETE\<close> of a contributed credential, no sequence of operations
  in any order (contributing, patching, booking, provider outcomes of dispatches still in flight,
  discovery itself) makes it ACTIVE again or has discovery offer it; and its capability, signature,
  ciphertext and owner are those it had.\<close>

theorem revocation_terminal:
  assumes wf: "map_wf (credentials db)" and row: "map_of (credentials db) k = Some r"
    and run: "cred_step\<^sup>*\<^sup>* (snd (deleteCredential rt now k db)) db'"
  shows "(\<exists>r'. map_of (credentials db') k = Some r' \<and> status r' = DELETED \<and> capability r' = capability r
      \<and> capability_signature r' = capability_signature r \<and> encrypted_blob r' = encrypted_blob r)
    \<and> k \<notin> cd_credentialId ` set (candidates (fst (discoverCandidates rt' now' model policyId db')))"
proof -
  have "descends k (r\<lparr> status := DELETED \<rparr>) (snd (deleteCredential rt now k db))"
    using wf row by (simp add: descends_def delete_sets_status delete_wf)
  with run have "descends k (r\<lparr> status := DELETED \<rparr>) db'" by (rule cred_rows.reachable_keeps)
  then obtain r' where r': "map_wf (credentials db')" "map_of (credentials db') k = Some r'" "status r' = DELETED"
    "capability r' = capability r" "capability_signature r' = capability_signature r" "encrypted_blob r' = encrypted_blob r"
    by (auto simp: descends_def evolves_def)
  have "k \<notin> cd_credentialId ` set (candidates (fst (discoverCandidates rt' now' model policyId db')))"
  proof
    assume "k \<in> cd_credentialId ` set (candidates (fst (discoverCandidates rt' now' model policyId db')))"
    then obtain q where "(k, q) \<in> set (credentials db')" "may_serve now' model policyId (rolled now' q)"
      using offered_iff [OF r'(1)] by (auto simp: to_candidate_def)
    moreover from this(1) r'(1,2) have "q = r'" by (simp add: wf_map_of_mem)
    ultimately show False using r'(3) by (simp add: may_serve_def rolled_def split: if_splits)
  qed
  with r' show ?thesis by blast
qed

theorem revocation_terminal_witness:
  "map_wf (credentials sample_db) \<and> map_of (credentials sample_db) (lit ''cred_0a1b2c3d4e5f'') = Some sample_cred
   \<and> (let db1 = snd (deleteCredential sample_runtime 5 (lit ''cred_0a1b2c3d4e5f'') sample_db);
          db2 = snd (patchCredential sample_runtime 6 (lit ''cred_0a1b2c3d4e5f'')
                  \<lparr> pb_status = JStr (lit ''ACTIVE''), pb_weight = None, pb_limits = None, pb_has_allowedModels = False \<rparr> db1)
      in \<exists>r'. map_of (credentials db2) (lit ''cred_0a1b2c3d4e5f'') = Some r' \<and> status r' = DELETED)"
proof -
  let ?k = "lit ''cred_0a1b2c3d4e5f''"
  let ?db1 = "snd (deleteCredential sample_runtime 5 ?k sample_db)"
  let ?db2 = "snd (patchCredential sample_runtime 6 ?k
                  \<lparr> pb_status = JStr (lit ''ACTIVE''), pb_weight = None, pb_limits = None, pb_has_allowedModels = False \<rparr> ?db1)"
  have row: "map_of (credentials sample_db) ?k = Some sample_cred" by (simp add: sample_db_def)
  have "cred_step\<^sup>*\<^sup>* ?db1 ?db2" by (rule r_into_rtranclp, rule cred_step.patch)
  from revocation_terminal [OF sample_db_wf row this, of sample_runtime 6 "[]" "[]"]
  have "\<exists>r'. map_of (credentials ?db2) ?k = Some r' \<and> status r' = DELETED" by blast
  with sample_db_wf row show ?thesis unfolding Let_def by blast
qed

section \<open>What a contribution stores\<close>

lemma store_reply:
  assumes "storeCredential rt now body ing db = (r, db')"
  shows "reply_code r = 200 \<Longrightarrow> cap_contributorId (ing_capability ing) = cb_contributorId body
      \<and> (\<exists>p. insert_row p (cb_credentialId body) (new_credential_row now body ing) (credentials db) = Inr (credentials db'))"
    and "reply_code r \<notin> {200, 500} \<Longrightarrow> credentials db' = credentials db"
  using assms
  by (auto simp: storeCredential_def internal_error_def Let_def split: if_splits sum.splits option.splits dest!: emit_credentials)

lemma check_passed:
  "checkCredentialBody body db = None \<Longrightarrow> valid_credential_id (cb_credentialId body)"
  by (auto simp: checkCredentialBody_def split: if_splits)

lemma check_refused: "checkCredentialBody body db = Some r \<Longrightarrow> reply_code r \<in> {404, 400, 409}"
  by (auto simp: checkCredentialBody_def split: if_splits)

text \<open>The coordinator adds nothing to what the enclave signed. When the contribution handler answers
  200, the id had the documented form and was new, the sealed intent named the same contributor, and
  the stored row carries the enclave's capability, signature and ciphertext, ACTIVE and unused; every
  answer but 200 and 500 leaves the credentials as they were.\<close>

theorem contribution_faithful:
  assumes "postCredentials rt now body enclave during db = (r, db')"
  shows "(reply_code r = 200 \<longrightarrow> (\<exists>ing row. enclave = TeeOk ing \<and> valid_credential_id (cb_credentialId body)
        \<and> map_of (credentials (during db)) (cb_credentialId body) = None
        \<and> map_of (credentials db') = (map_of (credentials (during db)))(cb_credentialId body \<mapsto> row)
        \<and> cap_contributorId (capability row) = contributor_id row
        \<and> capability row = ing_capability ing \<and> capability_signature row = ing_capabilitySignature ing
        \<and> encrypted_blob row = ing_encryptedBlob ing \<and> status row = ACTIVE \<and> requests_today row = 0))
    \<and> (reply_code r \<notin> {200, 500} \<longrightarrow> credentials db' = credentials db \<or> credentials db' = credentials (during db))"
proof (cases "checkCredentialBody body db")
  case (Some q)
  with assms check_refused [OF Some] show ?thesis by (auto simp: postCredentials_def)
next
  case None
  show ?thesis
  proof (cases enclave)
    case (TeeOk ing)
    with None assms have st: "storeCredential rt now body ing (during db) = (r, db')"
      by (simp add: postCredentials_def)
    have 200: "\<exists>ing row. enclave = TeeOk ing \<and> valid_credential_id (cb_credentialId body)
        \<and> map_of (credentials (during db)) (cb_credentialId body) = None
        \<and> map_of (credentials db') = (map_of (credentials (during db)))(cb_credentialId body \<mapsto> row)
        \<and> cap_contributorId (capability row) = contributor_id row
        \<and> capability row = ing_capability ing \<and> capability_signature row = ing_capabilitySignature ing
        \<and> encrypted_blob row = ing_encryptedBlob ing \<and> status row = ACTIVE \<and> requests_today row = 0"
      if "reply_code r = 200"
    proof -
      from store_reply(1) [OF st that] obtain p where
        own: "cap_contributorId (ing_capability ing) = cb_contributorId body" and
        ins: "insert_row p (cb_credentialId body) (new_credential_row now body ing) (credentials (during db)) = Inr (credentials db')"
        by blast
      have "map_of (credentials (during db)) (cb_credentialId body) = None"
        using ins by (simp add: insert_row_Inr has_row_def)
      with own insert_row_lookup [OF ins] check_passed [OF None] TeeOk show ?thesis
        by (intro exI [of _ ing] exI [of _ "new_credential_row now body ing"]) (simp add: new_credential_row_def)
    qed
    with store_reply(2) [OF st] show ?thesis by blast
  qed (use None assms in \<open>auto simp: postCredentials_def enclave_unavailable_def split: if_splits\<close>)
qed

definition sample_cred_body :: CredentialBody where
  "sample_cred_body = \<lparr> cb_contributorId = lit ''contrib_1'', cb_label = lit ''second'', cb_weight = None, cb_dailyUsd = None,
     cb_dailyRequests = None, cb_credentialId = lit ''cred_00000000000a'' \<rparr>"

definition sample_ingested :: Ingested where
  "sample_ingested = \<lparr> ing_encryptedBlob = lit ''b2'', ing_capability = sample_capability\<lparr> cap_credentialId := lit ''cred_00000000000a'' \<rparr>,
     ing_capabilitySignature = lit ''s2'', ing_keyFingerprint = lit ''f2'', ing_policyId = lit ''p'' \<rparr>"

lemma sample_id_valid: "valid_credential_id (lit ''cred_00000000000a'')"
  by (simp add: valid_credential_id_def starts_with_def lit_def)

lemma sample_contribution_200:
  "reply_code (fst (postCredentials sample_runtime 5 sample_cred_body (TeeOk sample_ingested) (\<lambda>d. d) sample_db)) = 200"
proof -
  have "\<not> banned_field sample_runtime (lit k)"
    if "k \<in> {''credential_id'', ''contributor_id'', ''provider'', ''label'', ''allowed_models'', ''policy_id'', ''key_fingerprint''}" for k
    using that by (auto simp: banned_field_def normalizeKey_def BANNED_EVENT_FIELDS_def alnum_lower_def eval_simps)
  then show ?thesis
    by (simp add: postCredentials_def checkCredentialBody_def storeCredential_def insert_row_def has_row_def emitEvent_def
        sample_db_def sample_cred_body_def sample_ingested_def sample_capability_def sample_id_valid strs_json_def Let_def)
qed

theorem contribution_faithful_witness:
  "reply_code (fst (postCredentials sample_runtime 5 sample_cred_body (TeeOk sample_ingested) (\<lambda>d. d) sample_db)) = 200
   \<and> (\<exists>row. map_of (credentials (snd (postCredentials sample_runtime 5 sample_cred_body (TeeOk sample_ingested) (\<lambda>d. d) sample_db)))
         (lit ''cred_00000000000a'') = Some row \<and> status row = ACTIVE)"
  using contribution_faithful [of sample_runtime 5 sample_cred_body "TeeOk sample_ingested" "\<lambda>d. d" sample_db
      "fst (postCredentials sample_runtime 5 sample_cred_body (TeeOk sample_ingested) (\<lambda>d. d) sample_db)"
      "snd (postCredentials sample_runtime 5 sample_cred_body (TeeOk sample_ingested) (\<lambda>d. d) sample_db)"] sample_contribution_200
  by (auto simp: sample_cred_body_def)

lemma availableModels_count:
  "map_of (availableModels db) m =
     (let n = count_list (concat (map (\<lambda>(_, r). cap_allowedModels (capability r)) (filter (\<lambda>(_, r). status r = ACTIVE) (credentials db)))) m
      in if n = 0 then None else Some (int n))"
proof -
  have "map_of (fold count_model ms counts) m =
      (if count_list ms m = 0 then map_of counts m
       else Some ((case map_of counts m of Some n \<Rightarrow> n | None \<Rightarrow> 0) + int (count_list ms m)))" for ms counts
    by (induction ms arbitrary: counts) (auto simp: store_simps split: option.splits)
  then show ?thesis by (simp add: availableModels_def Let_def)
qed

end
