(* ===== verification/Coordinator.thy ===== *)
theory Coordinator
  imports Credentials
begin

text \<open>
  The request path of the coordinator (\<open>runSecureRequest\<close> and \<open>watchProof\<close> of
  \<^verbatim>\<open>services/coordinator/src/index.ts\<close>). A handler runs undisturbed between two awaits, so \<open>runSecureRequest\<close> is
  cut at its three calls into the enclave: \<open>begin_request\<close>, \<open>on_gate\<close>, \<open>on_attestation\<close> and \<open>on_execute\<close>, which
  \<open>runSecureRequest\<close> composes with whatever other handlers did meanwhile as arguments. Each segment reads the clock
  once (\<open>now\<close> for time stamps, \<open>ms\<close> for the rounded time since the request arrived), the source several times within
  the same millisecond or so. The enclave's answers are arguments. A statement that throws ends the handler: \<open>Inl\<close>
  carries the database as the throw left it and the server answers 500. Log lines have no effect on the state and are
  left out. \<open>watchProof\<close> is a timer of its own: \<open>watch_tick\<close> and \<open>watch_answer\<close> are the two ends of one poll.
\<close>

section \<open>Statements that may throw\<close>

definition and_then :: "'e + 'a \<Rightarrow> ('a \<Rightarrow> 'e + 'b) \<Rightarrow> 'e + 'b" where
  "and_then r k = (case r of Inl e \<Rightarrow> Inl e | Inr x \<Rightarrow> k x)"

lemma and_then_simps [simp]: "and_then (Inl e) k = Inl e" "and_then (Inr x) k = k x"
  by (simp_all add: and_then_def)

lemma and_then_Inr: "and_then r k = Inr y \<longleftrightarrow> (\<exists>x. r = Inr x \<and> k x = Inr y)"
  by (auto simp: and_then_def split: sum.splits)

definition emit :: "runtime \<Rightarrow> int \<Rightarrow> CtnEventType \<Rightarrow> jstr \<Rightarrow> (jstr \<times> json) list \<Rightarrow> database \<Rightarrow> database + database" where
  "emit rt now ty agg payload db = (case emitEvent rt now ty agg payload db of None \<Rightarrow> Inl db | Some db1 \<Rightarrow> Inr db1)"

definition inserting :: "(sql_error + 't) \<Rightarrow> ('t \<Rightarrow> database) \<Rightarrow> database \<Rightarrow> database + database" where
  "inserting r f db = (case r of Inl e \<Rightarrow> Inl db | Inr t \<Rightarrow> Inr (f t))"

text \<open>\<open>INSERT OR REPLACE\<close>: a replaced row moves to the end of its table.\<close>

definition replace_row :: "bool \<Rightarrow> 'k \<Rightarrow> 'v \<Rightarrow> ('k \<times> 'v) list \<Rightarrow> sql_error + ('k \<times> 'v) list" where
  "replace_row parent_ok k v t = (if parent_ok then Inr (map_del k t @ [(k, v)]) else Inl FOREIGN_KEY_VIOLATION)"

section \<open>Replies\<close>

definition error_reply :: "int \<Rightarrow> jstr \<Rightarrow> jstr \<Rightarrow> jstr \<Rightarrow> (jstr \<times> json) list \<Rightarrow> (jstr \<times> json) list \<Rightarrow> reply" where
  "error_reply code err message requestId extra more_fields = Reply code (JObj ((lit ''error'',
     JObj ([(lit ''code'', JStr err), (lit ''message'', JStr message), (lit ''request_id'', JStr requestId)] @ extra)) # more_fields))"

text \<open>The way a request ends: its row is closed, the graph is told, the reply is sent.\<close>

definition closing ::
  "runtime \<Rightarrow> int \<Rightarrow> jstr \<Rightarrow> (request_row \<Rightarrow> request_row) \<Rightarrow> CtnEventType \<Rightarrow> (jstr \<times> json) list \<Rightarrow> reply \<Rightarrow> database \<Rightarrow> reply \<times> database" where
  "closing rt now requestId upd ty payload r db =
     (case emit rt now ty requestId payload (update_request requestId upd db) of
        Inl db1 \<Rightarrow> (internal_error, db1)
      | Inr db1 \<Rightarrow> (r, db1))"

definition failed_row :: "int \<Rightarrow> jstr \<Rightarrow> int option \<Rightarrow> request_row \<Rightarrow> request_row" where
  "failed_row now code ms r = r\<lparr> rq_status := FAILED, rq_error_code := Some code, rq_completed_at := Some now,
     rq_total_ms := (case ms of Some m \<Rightarrow> Some m | None \<Rightarrow> rq_total_ms r) \<rparr>"

definition failed_event :: "jstr \<Rightarrow> (jstr \<times> json) list \<Rightarrow> jstr \<Rightarrow> int \<Rightarrow> int \<Rightarrow> (jstr \<times> json) list" where
  "failed_event requestId middle code attempts ms = [(lit ''request_id'', JStr requestId)] @ middle
     @ [(lit ''error_code'', JStr code), (lit ''attempts'', JInt attempts), (lit ''total_ms'', JInt ms)]"

definition ENCLAVE_DOWN :: jstr where
  "ENCLAVE_DOWN = lit ''CTN_ENCLAVE_UNAVAILABLE''"

text \<open>A refusal of the enclave becomes the client's status when it is a 4xx, and 400 otherwise.\<close>

definition refusal_code :: "int \<Rightarrow> int" where
  "refusal_code st = (if 400 \<le> st \<and> st < 500 then st else 400)"

section \<open>Receiving a request\<close>

definition new_request_row :: "int \<Rightarrow> jstr \<Rightarrow> privacy_mode \<Rightarrow> request_row" where
  "new_request_row now model mode = \<lparr> rq_request_commitment = None, rq_policy_id = None, rq_policy_result = None,
     rq_selected_credential_id = None, rq_provider = None, rq_model = model, rq_status = RECEIVED, rq_privacy_mode = mode,
     rq_trust_status = None, rq_proof_status = NOT_REQUIRED, rq_error_code = None, rq_created_at = now, rq_completed_at = None,
     rq_policy_ms = None, rq_proof_ms = None, rq_provider_ms = None, rq_total_ms = None, rq_input_tokens = None, rq_output_tokens = None \<rparr>"

fun mode_str :: "privacy_mode \<Rightarrow> jstr" where
  "mode_str secure = lit ''secure''"
| "mode_str compatibility = lit ''compatibility''"

definition begin_request :: "runtime \<Rightarrow> int \<Rightarrow> SecureRequestEnvelope \<Rightarrow> privacy_mode \<Rightarrow> database \<Rightarrow> database + database" where
  "begin_request rt now env mode db =
     and_then (inserting (insert_row True (env_requestId env) (new_request_row now (aad_model (env_aad env)) mode) (requests db))
                 (\<lambda>t. db\<lparr> requests := t \<rparr>) db)
       (emit rt now request_received (env_requestId env)
          [(lit ''request_id'', JStr (env_requestId env)), (lit ''model'', JStr (aad_model (env_aad env))),
           (lit ''privacy_mode'', JStr (mode_str mode)), (lit ''requested_policy'', JStr (aad_requestedPolicy (env_aad env)))])"

section \<open>The gate answered\<close>

definition gate_refused :: "runtime \<Rightarrow> int \<Rightarrow> int \<Rightarrow> jstr \<Rightarrow> jstr \<Rightarrow> jstr \<Rightarrow> int \<Rightarrow> database \<Rightarrow> reply \<times> database" where
  "gate_refused rt now ms requestId code message st db =
     (if code = lit ''PROVER_UNAVAILABLE'' then
        closing rt now requestId (failed_row now (lit ''CTN_PROVER_UNAVAILABLE'') (Some ms)) request_failed
          [(lit ''request_id'', JStr requestId), (lit ''error_code'', JStr (lit ''CTN_PROVER_UNAVAILABLE'')),
           (lit ''system_failure'', JBool True), (lit ''attempts'', JInt 0), (lit ''total_ms'', JInt ms)]
          (error_reply 503 (lit ''CTN_PROVER_UNAVAILABLE'')
             (lit ''The policy gate is unavailable. The request was not evaluated and no provider was called.'') requestId [] []) db
      else
        closing rt now requestId (failed_row now code (Some ms)) request_failed (failed_event requestId [] code 0 ms)
          (error_reply (refusal_code st) code message requestId [] []) db)"

definition enclave_down :: "runtime \<Rightarrow> int \<Rightarrow> int \<Rightarrow> jstr \<Rightarrow> (jstr \<times> json) list \<Rightarrow> database \<Rightarrow> reply \<times> database" where
  "enclave_down rt now ms requestId middle db =
     closing rt now requestId (failed_row now ENCLAVE_DOWN None) request_failed (failed_event requestId middle ENCLAVE_DOWN 0 ms)
       (error_reply 503 ENCLAVE_DOWN (lit ''The confidential service is unavailable.'') requestId [] []) db"

definition decision_row :: "int \<Rightarrow> SignedPolicyDecisionReceiptV1 \<Rightarrow> decision_receipt_row" where
  "decision_row now dr = \<lparr> dc_policy_id = dr_policyId (sdr_receipt dr), dc_decision = dr_decision (sdr_receipt dr),
     dc_image_id = dr_imageId (sdr_receipt dr), dc_commitment = dr_requestCommitment (sdr_receipt dr),
     dc_gate_wall_ms = dr_gateWallMs (sdr_receipt dr), dc_receipt = sdr_receipt dr, dc_signature = sdr_enclaveSignature dr, dc_created_at = now \<rparr>"

definition record_verdict :: "int \<Rightarrow> jstr \<Rightarrow> GateResult \<Rightarrow> database \<Rightarrow> database + database" where
  "record_verdict now requestId gate db =
     (let db1 = update_request requestId (\<lambda>r. r\<lparr> rq_policy_id := Some (gr_policyId gate), rq_request_commitment := Some (gr_commitment gate) \<rparr>) db in
      inserting (replace_row (has_row requestId (requests db1)) requestId (decision_row now (gr_decisionReceipt gate)) (decision_receipts db1))
        (\<lambda>t. db1\<lparr> decision_receipts := t \<rparr>) db1)"

text \<open>\<open>Inr\<close>: the handler goes on to ask for the attestation.\<close>

definition on_gate ::
  "runtime \<Rightarrow> int \<Rightarrow> int \<Rightarrow> jstr \<Rightarrow> GateResult tee_result \<Rightarrow> database \<Rightarrow> (reply + GateResult) \<times> database" where
  "on_gate rt now ms requestId answer db =
     (case answer of
        EnclaveRejection code message st \<Rightarrow> (case gate_refused rt now ms requestId code message st db of (r, db1) \<Rightarrow> (Inl r, db1))
      | EnclaveUnavailable \<Rightarrow> (case enclave_down rt now ms requestId [] db of (r, db1) \<Rightarrow> (Inl r, db1))
      | TeeOk gate \<Rightarrow> (case record_verdict now requestId gate db of
            Inl db1 \<Rightarrow> (Inl internal_error, db1)
          | Inr db1 \<Rightarrow> (Inr gate, db1)))"

section \<open>The verdict\<close>

definition proof_id :: "jstr \<Rightarrow> jstr" where
  "proof_id requestId = lit ''proof_'' @ requestId"

definition queued_proof :: "int \<Rightarrow> jstr \<Rightarrow> jstr \<Rightarrow> proof_row" where
  "queued_proof now requestId imageId = \<lparr> pf_request_id = requestId, pf_guest_image_id = imageId, pf_receipt_blob = None, pf_receipt_digest = None,
     pf_binding_json = None, pf_verified = False, pf_status = QUEUED, pf_error = None, pf_proof_ms = None, pf_created_at = now, pf_completed_at = None \<rparr>"

definition enqueue_proof :: "runtime \<Rightarrow> int \<Rightarrow> jstr \<Rightarrow> GateResult \<Rightarrow> database \<Rightarrow> database + database" where
  "enqueue_proof rt now requestId gate db =
     (let db1 = update_request requestId (\<lambda>r. r\<lparr> rq_proof_status := QUEUED \<rparr>) db in
      and_then (inserting (insert_row (has_row requestId (requests db1)) (proof_id requestId) (queued_proof now requestId (gr_imageId gate)) (proofs db1))
                  (\<lambda>t. db1\<lparr> proofs := t \<rparr>) db1)
        (emit rt now proof_queued requestId
           [(lit ''request_id'', JStr requestId), (lit ''policy_id'', JStr (gr_policyId gate)), (lit ''proof_system'', JStr (lit ''risc0'')),
            (lit ''guest_image_id'', JStr (gr_imageId gate))]))"

text \<open>The attestation as far as the coordinator reads it: build id, mode and digest.\<close>

definition verdict_events ::
  "runtime \<Rightarrow> int \<Rightarrow> jstr \<Rightarrow> GateResult \<Rightarrow> (jstr \<times> jstr \<times> jstr) option \<Rightarrow> database \<Rightarrow> database + database" where
  "verdict_events rt now requestId gate att db =
     and_then (case att of
         None \<Rightarrow> Inr db
       | Some (buildId, mode, dig) \<Rightarrow> emit rt now tee_verified requestId
           [(lit ''request_id'', JStr requestId), (lit ''build_id'', JStr buildId), (lit ''mode'', JStr mode), (lit ''attestation_digest'', JStr dig)] db)
       (emit rt now policy_started requestId [(lit ''request_id'', JStr requestId), (lit ''policy_id'', JStr (gr_policyId gate))])"

definition verdict_event :: "jstr \<Rightarrow> GateResult \<Rightarrow> (jstr \<times> json) list" where
  "verdict_event requestId gate = [(lit ''request_id'', JStr requestId), (lit ''commitment'', JStr (gr_commitment gate)),
     (lit ''policy_id'', JStr (gr_policyId gate)), (lit ''policy_ms'', JInt (gr_gateWallMs gate))]"

definition deny_request :: "runtime \<Rightarrow> int \<Rightarrow> int \<Rightarrow> jstr \<Rightarrow> privacy_mode \<Rightarrow> GateResult \<Rightarrow> database \<Rightarrow> reply \<times> database" where
  "deny_request rt now ms requestId mode gate db =
     closing rt now requestId
       (\<lambda>r. r\<lparr> rq_status := DENIED, rq_policy_result := Some DENY, rq_policy_ms := Some (gr_gateWallMs gate),
           rq_trust_status := Some (if mode = secure then SIMULATED else COMPATIBILITY),
           rq_error_code := Some (lit ''CTN_POLICY_DENIED''), rq_completed_at := Some now, rq_total_ms := Some ms \<rparr>)
       policy_denied (verdict_event requestId gate)
       (error_reply 403 (lit ''CTN_POLICY_DENIED'') (lit ''Request was not eligible under Safety Policy v1.'') requestId
          [(lit ''policy_id'', JStr (gr_policyId gate))] [(lit ''request_commitment'', JStr (gr_commitment gate))]) db"

fun reason_str :: "ExclusionReason \<Rightarrow> jstr" where
  "reason_str disabled = lit ''disabled''"
| "reason_str cooldown = lit ''cooldown''"
| "reason_str model_not_allowed = lit ''model_not_allowed''"
| "reason_str policy_not_allowed = lit ''policy_not_allowed''"
| "reason_str daily_request_limit = lit ''daily_request_limit''"
| "reason_str daily_usd_limit = lit ''daily_usd_limit''"

definition no_capacity ::
  "runtime \<Rightarrow> int \<Rightarrow> int \<Rightarrow> jstr \<Rightarrow> GateResult \<Rightarrow> Exclusion list \<Rightarrow> database \<Rightarrow> reply \<times> database" where
  "no_capacity rt now ms requestId gate excl db =
     closing rt now requestId
       (\<lambda>r. r\<lparr> rq_status := FAILED, rq_policy_result := Some ALLOW, rq_policy_ms := Some (gr_gateWallMs gate),
           rq_error_code := Some (lit ''CTN_NO_CAPACITY''), rq_completed_at := Some now, rq_total_ms := Some ms \<rparr>)
       request_failed (failed_event requestId [(lit ''commitment'', JStr (gr_commitment gate))] (lit ''CTN_NO_CAPACITY'') 0 ms)
       (error_reply 503 (lit ''CTN_NO_CAPACITY'') (lit ''No eligible contributed capacity is available for this model and policy.'') requestId
          [(lit ''excluded'', strs_json (map (reason_str \<circ> ex_reason) excl))] []) db"

text \<open>The verdict is acted on: DENY ends here; ALLOW goes on to dispatch with the candidates discovered (\<open>Inr\<close>).\<close>

definition act_on_verdict ::
  "runtime \<Rightarrow> int \<Rightarrow> int \<Rightarrow> SecureRequestEnvelope \<Rightarrow> privacy_mode \<Rightarrow> GateResult \<Rightarrow> database \<Rightarrow> (reply + Candidate list) \<times> database" where
  "act_on_verdict rt now ms env mode gate db =
     (let requestId = env_requestId env in
      if gr_decision gate = DENY then (case deny_request rt now ms requestId mode gate db of (r, db1) \<Rightarrow> (Inl r, db1))
      else (case emit rt now policy_allowed requestId (verdict_event requestId gate) db of
              Inl db1 \<Rightarrow> (Inl internal_error, db1)
            | Inr db1 \<Rightarrow>
                (case discoverCandidates rt now (aad_model (env_aad env)) (gr_policyId gate) db1 of (discovery, db2) \<Rightarrow>
                   if candidates discovery = []
                   then (case no_capacity rt now ms requestId gate (excluded discovery) db2 of (r, db3) \<Rightarrow> (Inl r, db3))
                   else (Inr (candidates discovery), db2))))"

text \<open>The middle component tells whether \<open>watchProof\<close> was called.\<close>

definition on_attestation ::
  "runtime \<Rightarrow> int \<Rightarrow> int \<Rightarrow> SecureRequestEnvelope \<Rightarrow> privacy_mode \<Rightarrow> GateResult \<Rightarrow> (jstr \<times> jstr \<times> jstr) option \<Rightarrow> database
   \<Rightarrow> (reply + Candidate list) \<times> bool \<times> database" where
  "on_attestation rt now ms env mode gate att db =
     (case verdict_events rt now (env_requestId env) gate att db of
        Inl db1 \<Rightarrow> (Inl internal_error, False, db1)
      | Inr db1 \<Rightarrow>
          if \<not> gr_proofStarted gate then (case act_on_verdict rt now ms env mode gate db1 of (r, db2) \<Rightarrow> (r, False, db2))
          else (case enqueue_proof rt now (env_requestId env) gate db1 of
                  Inl db2 \<Rightarrow> (Inl internal_error, False, db2)
                | Inr db2 \<Rightarrow> (case act_on_verdict rt now ms env mode gate db2 of (r, db3) \<Rightarrow> (r, True, db3))))"

section \<open>The dispatch answered\<close>

definition attempt_id :: "jstr \<Rightarrow> int \<Rightarrow> jstr" where
  "attempt_id requestId n = lit ''att_'' @ requestId @ lit ''_'' @ int_digits n"

definition attempt_row :: "int \<Rightarrow> jstr \<Rightarrow> AttemptResult \<Rightarrow> provider_attempt_row" where
  "attempt_row now requestId a = \<lparr> pa_request_id = requestId, pa_credential_id = ar_credentialId a, pa_contributor_id = ar_contributorId a,
     pa_attempt_number = ar_attemptNumber a, pa_status = ar_status a, pa_http_status = ar_httpStatus a, pa_classification = ar_classification a,
     pa_latency_ms = ar_latencyMs a, pa_created_at = now, pa_upstream_outcome_unknown = ar_upstreamOutcomeUnknown a,
     pa_assumed_spend_micro_usd = ar_assumedSpendMicroUsd a \<rparr>"

fun action_str :: "attempt_action \<Rightarrow> jstr" where
  "action_str no_action = lit ''none''"
| "action_str disabled_action = lit ''disabled''"
| "action_str cooldown_action = lit ''cooldown''"

definition book_assumed :: "runtime \<Rightarrow> int \<Rightarrow> jstr \<Rightarrow> AttemptResult \<Rightarrow> database \<Rightarrow> database" where
  "book_assumed rt now requestId a db =
     (if ar_upstreamOutcomeUnknown a
      then snd (recordAssumedUsage rt now requestId (ar_credentialId a) (ar_contributorId a)
                  (case ar_assumedSpendMicroUsd a of Some n \<Rightarrow> n | None \<Rightarrow> 0) db)
      else db)"

definition persist_attempt :: "runtime \<Rightarrow> int \<Rightarrow> jstr \<Rightarrow> AttemptResult \<Rightarrow> database \<Rightarrow> database + database" where
  "persist_attempt rt now requestId a db =
     (case applyAttemptOutcome now (ar_credentialId a) (ar_status a) (ar_classification a) db of (action, db1) \<Rightarrow>
        and_then (inserting (insert_row (has_row requestId (requests db1)) (attempt_id requestId (ar_attemptNumber a)) (attempt_row now requestId a) (provider_attempts db1))
                    (\<lambda>t. book_assumed rt now requestId a (db1\<lparr> provider_attempts := t \<rparr>)) db1)
          (\<lambda>db2. if ar_status a = SUCCESS then Inr db2
             else emit rt now provider_failed requestId
               [(lit ''request_id'', JStr requestId), (lit ''credential_id'', JStr (ar_credentialId a)), (lit ''contributor_id'', JStr (ar_contributorId a)),
                (lit ''attempt_number'', JInt (ar_attemptNumber a)), (lit ''http_status'', JInt (ar_httpStatus a)),
                (lit ''classification'', JStr (case ar_classification a of Some c \<Rightarrow> c | None \<Rightarrow> lit ''unknown'')),
                (lit ''latency_ms'', JInt (ar_latencyMs a)), (lit ''action'', JStr (action_str action))] db2))"

fun persist_attempts :: "runtime \<Rightarrow> int \<Rightarrow> jstr \<Rightarrow> AttemptResult list \<Rightarrow> database \<Rightarrow> database + database" where
  "persist_attempts rt now requestId [] db = Inr db"
| "persist_attempts rt now requestId (a # attempts) db =
     and_then (persist_attempt rt now requestId a db) (persist_attempts rt now requestId attempts)"

definition dispatch_failed ::
  "runtime \<Rightarrow> int \<Rightarrow> int \<Rightarrow> jstr \<Rightarrow> ExecuteResult \<Rightarrow> database \<Rightarrow> reply \<times> database" where
  "dispatch_failed rt now ms requestId result db =
     (let errorCode = (case er_error result of Some (c, m) \<Rightarrow> c | None \<Rightarrow> lit ''CTN_PROVIDER_ERROR'');
          message = (case er_error result of Some (c, m) \<Rightarrow> m | None \<Rightarrow> lit ''The request could not be completed.'');
          n = int (length (er_attempts result)) in
      closing rt now requestId
        (\<lambda>r. r\<lparr> rq_status := FAILED, rq_request_commitment := Some (er_commitment result), rq_policy_result := Some ALLOW,
            rq_policy_ms := Some (er_policyMs result), rq_error_code := Some errorCode, rq_completed_at := Some now, rq_total_ms := Some ms \<rparr>)
        request_failed (failed_event requestId [(lit ''commitment'', JStr (er_commitment result))] errorCode n ms)
        (error_reply 502 errorCode message requestId [] [(lit ''attempts'', JInt n)]) db)"

definition receipt_id :: "jstr \<Rightarrow> jstr" where
  "receipt_id requestId = lit ''rcpt_'' @ (if starts_with (lit ''req_'') requestId then drop 4 requestId else requestId)"

definition or_zero :: "int option \<Rightarrow> int" where
  "or_zero n = (case n of Some k \<Rightarrow> k | None \<Rightarrow> 0)"

definition complete_row :: "int \<Rightarrow> int \<Rightarrow> privacy_mode \<Rightarrow> ExecuteResult \<Rightarrow> Selected \<Rightarrow> request_row \<Rightarrow> request_row" where
  "complete_row now ms mode result sel r = r\<lparr> rq_status := COMPLETE, rq_request_commitment := Some (er_commitment result), rq_policy_result := Some ALLOW,
     rq_selected_credential_id := Some (sel_credentialId sel), rq_provider := Some (sel_provider sel), rq_model := sel_model sel,
     rq_policy_ms := Some (er_policyMs result), rq_provider_ms := er_providerTotalMs result, rq_total_ms := Some ms,
     rq_input_tokens := Some (or_zero (er_inputTokens result)), rq_output_tokens := Some (or_zero (er_outputTokens result)),
     rq_trust_status := Some (if mode = secure then CONFIDENTIAL_PROOF_PENDING else COMPATIBILITY), rq_completed_at := Some now \<rparr>"

definition route_event :: "jstr \<Rightarrow> ExecuteResult \<Rightarrow> Selected \<Rightarrow> (jstr \<times> json) list" where
  "route_event requestId result sel = [(lit ''request_id'', JStr requestId), (lit ''commitment'', JStr (er_commitment result)),
     (lit ''credential_id'', JStr (sel_credentialId sel)), (lit ''contributor_id'', JStr (sel_contributorId sel)),
     (lit ''provider'', JStr (sel_provider sel)), (lit ''model'', JStr (sel_model sel))]"

definition started_event :: "jstr \<Rightarrow> ExecuteResult \<Rightarrow> Selected \<Rightarrow> (jstr \<times> json) list" where
  "started_event requestId result sel = [(lit ''request_id'', JStr requestId), (lit ''commitment'', JStr (er_commitment result)),
     (lit ''provider'', JStr (sel_provider sel)), (lit ''model'', JStr (sel_model sel))]"

definition completed_event :: "int \<Rightarrow> jstr \<Rightarrow> ExecuteResult \<Rightarrow> Selected \<Rightarrow> (jstr \<times> json) list" where
  "completed_event ms requestId result sel = [(lit ''request_id'', JStr requestId), (lit ''commitment'', JStr (er_commitment result)),
     (lit ''credential_id'', JStr (sel_credentialId sel)), (lit ''contributor_id'', JStr (sel_contributorId sel)),
     (lit ''provider'', JStr (sel_provider sel)), (lit ''attempt_number'', JInt (sel_attempt sel)), (lit ''http_status'', JInt 200),
     (lit ''latency_ms'', JInt (or_zero (er_providerTotalMs result))), (lit ''input_tokens'', JInt (or_zero (er_inputTokens result))),
     (lit ''output_tokens'', JInt (or_zero (er_outputTokens result))), (lit ''total_ms'', JInt ms)]"

definition served_usage :: "runtime \<Rightarrow> jstr \<Rightarrow> ExecuteResult \<Rightarrow> Selected \<Rightarrow> usage_args" where
  "served_usage rt requestId result sel = \<lparr> ua_requestId = requestId, ua_credentialId = sel_credentialId sel, ua_contributorId = sel_contributorId sel,
     ua_inputTokens = or_zero (er_inputTokens result), ua_outputTokens = or_zero (er_outputTokens result),
     ua_estimatedCostUsd = dbl rt (of_int (or_zero (er_estimatedCostMicroUsd result)) / 1000000) \<rparr>"

text \<open>The relayed timings are the provider's total and the coordinator's own.\<close>

definition complete_reply :: "int \<Rightarrow> jstr \<Rightarrow> ExecuteResult \<Rightarrow> Selected \<Rightarrow> SignedComputeReceipt \<Rightarrow> reply" where
  "complete_reply ms requestId result sel receipt = Reply 200 (JObj [(lit ''request_id'', JStr requestId),
     (lit ''encrypted_response'', opt_json (\<lambda>b. JObj [(lit ''enc'', JStr (resp_enc b)), (lit ''ciphertext'', JStr (resp_ciphertext b))]) (er_encryptedResponse result)),
     (lit ''receipt'', JObj [(lit ''receipt_id'', JStr (receipt_id requestId)), (lit ''request_commitment'', JStr (er_commitment result)),
        (lit ''policy'', JStr (lit ''safety-v1'')), (lit ''policy_id'', JStr (er_policyId result)), (lit ''proof_status'', JStr (lit ''QUEUED'')),
        (lit ''signed_receipt'', JObj [(lit ''receipt'', compute_receipt_json (scr_receipt receipt)), (lit ''enclaveSignature'', JStr (scr_enclaveSignature receipt))])]),
     (lit ''route'', JObj [(lit ''provider'', JStr (sel_provider sel)), (lit ''model'', JStr (sel_model sel)),
        (lit ''contributor_id'', JStr (sel_contributorId sel)), (lit ''credential_id'', JStr (sel_credentialId sel)), (lit ''attempt'', JInt (sel_attempt sel))]),
     (lit ''usage'', JObj [(lit ''inputTokens'', opt_json JInt (er_inputTokens result)), (lit ''outputTokens'', opt_json JInt (er_outputTokens result)),
        (lit ''estimatedCostMicroUsd'', opt_json JInt (er_estimatedCostMicroUsd result))]),
     (lit ''timings'', JObj [(lit ''providerTotalMs'', opt_json JInt (er_providerTotalMs result)), (lit ''coordinatorTotalMs'', JInt ms)]),
     (lit ''trust_status'', JStr (lit ''CONFIDENTIAL_PROOF_PENDING''))])"

definition book_served :: "runtime \<Rightarrow> int \<Rightarrow> jstr \<Rightarrow> ExecuteResult \<Rightarrow> Selected \<Rightarrow> database \<Rightarrow> database + database" where
  "book_served rt now requestId result sel db = inserting (recordUsage rt now (served_usage rt requestId result sel) db) (\<lambda>d. d) db"

definition store_receipt :: "int \<Rightarrow> jstr \<Rightarrow> SignedComputeReceipt \<Rightarrow> database \<Rightarrow> database + database" where
  "store_receipt now requestId receipt db =
     inserting (insert_row (has_row requestId (requests db)) (receipt_id requestId)
         \<lparr> cp_request_id = requestId, cp_receipt = scr_receipt receipt, cp_signature = scr_enclaveSignature receipt, cp_created_at = now \<rparr>
         (compute_receipts db)) (\<lambda>t. db\<lparr> compute_receipts := t \<rparr>) db"

definition complete_request ::
  "runtime \<Rightarrow> int \<Rightarrow> int \<Rightarrow> jstr \<Rightarrow> privacy_mode \<Rightarrow> ExecuteResult \<Rightarrow> Selected \<Rightarrow> SignedComputeReceipt \<Rightarrow> database \<Rightarrow> database + database" where
  "complete_request rt now ms requestId mode result sel receipt db =
     and_then (emit rt now route_selected requestId (route_event requestId result sel) db) (\<lambda>db1.
     and_then (emit rt now provider_started requestId (started_event requestId result sel) db1) (\<lambda>db2.
     and_then (book_served rt now requestId result sel db2) (\<lambda>db3.
     and_then (emit rt now provider_completed requestId (completed_event ms requestId result sel)
                 (update_request requestId (complete_row now ms mode result sel) db3)) (\<lambda>db4.
     and_then (store_receipt now requestId receipt db4)
       (emit rt now receipt_created requestId [(lit ''request_id'', JStr requestId), (lit ''receipt_id'', JStr (receipt_id requestId)),
          (lit ''commitment'', JStr (er_commitment result))])))))"

definition on_result ::
  "runtime \<Rightarrow> int \<Rightarrow> int \<Rightarrow> jstr \<Rightarrow> privacy_mode \<Rightarrow> ExecuteResult \<Rightarrow> database \<Rightarrow> reply \<times> database" where
  "on_result rt now ms requestId mode result db =
     (case persist_attempts rt now requestId (er_attempts result) db of
        Inl db1 \<Rightarrow> (internal_error, db1)
      | Inr db1 \<Rightarrow>
          (case (er_status result, er_selected result, er_receipt result) of
             (EX_COMPLETE, Some sel, Some receipt) \<Rightarrow>
               (case complete_request rt now ms requestId mode result sel receipt db1 of
                  Inl db2 \<Rightarrow> (internal_error, db2)
                | Inr db2 \<Rightarrow> (complete_reply ms requestId result sel receipt, db2))
           | _ \<Rightarrow> dispatch_failed rt now ms requestId result db1))"

definition on_execute ::
  "runtime \<Rightarrow> int \<Rightarrow> int \<Rightarrow> jstr \<Rightarrow> privacy_mode \<Rightarrow> GateResult \<Rightarrow> ExecuteResult tee_result \<Rightarrow> database \<Rightarrow> reply \<times> database" where
  "on_execute rt now ms requestId mode gate answer db =
     (let middle = [(lit ''commitment'', JStr (gr_commitment gate))] in
      case answer of
        EnclaveRejection code message st \<Rightarrow>
          closing rt now requestId (failed_row now code (Some ms)) request_failed (failed_event requestId middle code 0 ms)
            (error_reply (refusal_code st) code message requestId [] []) db
      | EnclaveUnavailable \<Rightarrow> enclave_down rt now ms requestId middle db
      | TeeOk result \<Rightarrow>
          if er_status result \<noteq> EX_COMPLETE \<and> er_status result \<noteq> EX_FAILED then
            closing rt now requestId (failed_row now (lit ''CTN_INTERNAL'') None) request_failed (failed_event requestId middle (lit ''CTN_INTERNAL'') 0 ms)
              (error_reply 502 (lit ''CTN_INTERNAL'') (lit ''The confidential service returned an unrecognized result.'') requestId [] []) db
          else on_result rt now ms requestId mode result db)"

section \<open>runSecureRequest\<close>

text \<open>What the handler sees of the world: the clock at each segment, the enclave's three answers, and what other
  handlers did to the database during the three awaits.\<close>

record request_world =
  rw_now :: "nat \<Rightarrow> int"
  rw_ms :: "nat \<Rightarrow> int"
  rw_gate :: "GateResult tee_result"
  rw_attestation :: "(jstr \<times> jstr \<times> jstr) option"
  rw_execute :: "Candidate list \<Rightarrow> jstr \<Rightarrow> ExecuteResult tee_result"
  rw_during :: "nat \<Rightarrow> database \<Rightarrow> database"

definition runSecureRequest ::
  "runtime \<Rightarrow> request_world \<Rightarrow> SecureRequestEnvelope \<Rightarrow> privacy_mode \<Rightarrow> database \<Rightarrow> reply \<times> database" where
  "runSecureRequest rt w env mode db =
     (let requestId = env_requestId env in
      case begin_request rt (rw_now w 0) env mode db of
        Inl db1 \<Rightarrow> (internal_error, db1)
      | Inr db1 \<Rightarrow>
          (case on_gate rt (rw_now w 1) (rw_ms w 1) requestId (rw_gate w) (rw_during w 0 db1) of
             (Inl r, db2) \<Rightarrow> (r, db2)
           | (Inr gate, db2) \<Rightarrow>
               (case on_attestation rt (rw_now w 2) (rw_ms w 2) env mode gate (rw_attestation w) (rw_during w 1 db2) of
                  (Inl r, watching, db3) \<Rightarrow> (r, db3)
                | (Inr cands, watching, db3) \<Rightarrow>
                    on_execute rt (rw_now w 3) (rw_ms w 3) requestId mode gate (rw_execute w cands (gr_commitment gate)) (rw_during w 2 db3))))"

text \<open>\<^verbatim>\<open>POST /v1/secure/chat/completions\<close>: empty members are falsy.\<close>

definition envelope_complete :: "SecureRequestEnvelope option \<Rightarrow> bool" where
  "envelope_complete envelope = (case envelope of None \<Rightarrow> False
     | Some env \<Rightarrow> env_requestId env \<noteq> [] \<and> env_ciphertext env \<noteq> [] \<and> aad_model (env_aad env) \<noteq> [])"

definition check_envelope :: "SecureRequestEnvelope option \<Rightarrow> database \<Rightarrow> reply option" where
  "check_envelope envelope db =
     (if \<not> envelope_complete envelope then Some (Reply 400 (err_json ''CTN_INVALID_ENVELOPE'' ''envelope, ciphertext and aad.model are required''))
      else if has_row (env_requestId (the envelope)) (requests db)
      then Some (error_reply 409 (lit ''CTN_INVALID_ENVELOPE'') (lit ''requestId already used'') (env_requestId (the envelope)) [] [])
      else None)"

definition postSecure :: "runtime \<Rightarrow> request_world \<Rightarrow> SecureRequestEnvelope option \<Rightarrow> database \<Rightarrow> reply \<times> database" where
  "postSecure rt w envelope db =
     (case check_envelope envelope db of
        Some r \<Rightarrow> (r, db)
      | None \<Rightarrow> runSecureRequest rt w (the envelope) secure db)"

section \<open>watchProof\<close>

definition PROOF_ABSOLUTE_CEILING_MS :: int where
  "PROOF_ABSOLUTE_CEILING_MS = 15 * 60 * 1000"

record watcher =
  wt_requestId :: jstr
  wt_ceiling :: int
  wt_lastStatus :: ProofStatus

definition new_watcher :: "int \<Rightarrow> jstr \<Rightarrow> watcher" where
  "new_watcher now requestId = \<lparr> wt_requestId = requestId, wt_ceiling = now + PROOF_ABSOLUTE_CEILING_MS, wt_lastStatus = QUEUED \<rparr>"

definition update_proof :: "jstr \<Rightarrow> (proof_row \<Rightarrow> proof_row) \<Rightarrow> database \<Rightarrow> database" where
  "update_proof requestId f db = db\<lparr> proofs := update_where (\<lambda>p. pf_request_id p = requestId) f (proofs db) \<rparr>"

text \<open>A throw of \<open>emitEvent\<close> inside a poll rejects a promise nobody awaits: the watcher ends with what it wrote.\<close>

definition wrote :: "database + database \<Rightarrow> database" where
  "wrote r = (case r of Inl db \<Rightarrow> db | Inr db \<Rightarrow> db)"

definition markFailed :: "runtime \<Rightarrow> int \<Rightarrow> jstr \<Rightarrow> jstr \<Rightarrow> int option \<Rightarrow> database \<Rightarrow> database" where
  "markFailed rt now requestId err proofMs db =
     (let db1 = update_request requestId (\<lambda>r. r\<lparr> rq_proof_status := PROOF_FAILED, rq_proof_ms := proofMs \<rparr>) db;
          db2 = update_proof requestId (\<lambda>p. p\<lparr> pf_status := PROOF_FAILED, pf_error := Some err, pf_proof_ms := proofMs, pf_completed_at := Some now \<rparr>) db1;
          db3 = update_request requestId (\<lambda>r. if rq_privacy_mode r = secure then r\<lparr> rq_trust_status := Some CONFIDENTIAL_PROOF_FAILED \<rparr> else r) db2
      in wrote (emit rt now proof_failed requestId
           [(lit ''request_id'', JStr requestId), (lit ''error'', JStr err), (lit ''proof_ms'', JInt (or_zero proofMs))] db3))"

text \<open>The top of a poll: past the ceiling the proof is given up, otherwise the enclave is asked.\<close>

definition watch_tick :: "runtime \<Rightarrow> int \<Rightarrow> watcher \<Rightarrow> database \<Rightarrow> database option" where
  "watch_tick rt now w db =
     (if wt_ceiling w < now then Some (markFailed rt now (wt_requestId w) (lit ''proving exceeded the 15-minute absolute ceiling'') None db) else None)"

definition str_opt :: "jstr option \<Rightarrow> json" where
  "str_opt s = JStr (case s of Some t \<Rightarrow> t | None \<Rightarrow> [])"

definition transition_event :: "runtime \<Rightarrow> int \<Rightarrow> watcher \<Rightarrow> ProofResponse \<Rightarrow> database \<Rightarrow> database + database" where
  "transition_event rt now w res db =
     (if pr_status res = wt_lastStatus w then Inr db
      else if pr_status res = PROVING then
        emit rt now proof_started (wt_requestId w) [(lit ''request_id'', JStr (wt_requestId w)), (lit ''proof_system'', JStr (lit ''risc0'')),
          (lit ''guest_image_id'', str_opt (pr_imageId res))] db
      else if pr_status res = GENERATED then
        emit rt now proof_generated (wt_requestId w) [(lit ''request_id'', JStr (wt_requestId w)), (lit ''proof_system'', JStr (lit ''risc0'')),
          (lit ''guest_image_id'', str_opt (pr_imageId res)), (lit ''artifact_digest'', str_opt (pr_artifactDigest res))] db
      else Inr db)"

definition watch_progress :: "runtime \<Rightarrow> int \<Rightarrow> watcher \<Rightarrow> ProofResponse \<Rightarrow> database \<Rightarrow> watcher option \<times> database" where
  "watch_progress rt now w res db =
     (let db1 = update_request (wt_requestId w) (\<lambda>r. r\<lparr> rq_proof_status := pr_status res \<rparr>) db;
          db2 = update_proof (wt_requestId w) (\<lambda>p. p\<lparr> pf_status := pr_status res,
                  pf_receipt_digest := (case pr_artifactDigest res of Some d \<Rightarrow> Some d | None \<Rightarrow> pf_receipt_digest p) \<rparr>) db1
      in case transition_event rt now w res db2 of
           Inl db3 \<Rightarrow> (None, db3)
         | Inr db3 \<Rightarrow> (Some (w\<lparr> wt_lastStatus := pr_status res \<rparr>), db3))"

definition watch_settled :: "runtime \<Rightarrow> int \<Rightarrow> watcher \<Rightarrow> ProofResponse \<Rightarrow> database \<Rightarrow> database" where
  "watch_settled rt now w res db =
     (let verified = (pr_status res = VERIFIED \<and> pr_proofVerified res);
          st = (if verified then VERIFIED else GENERATED);
          db1 = update_request (wt_requestId w) (\<lambda>r. r\<lparr> rq_proof_status := st, rq_proof_ms := pr_proofMs res \<rparr>) db;
          db2 = update_proof (wt_requestId w) (\<lambda>p. p\<lparr> pf_status := st, pf_verified := verified, pf_receipt_blob := pr_artifact res,
                  pf_receipt_digest := pr_artifactDigest res, pf_binding_json := pr_binding res, pf_proof_ms := pr_proofMs res, pf_completed_at := Some now \<rparr>) db1;
          db3 = (if verified then update_request (wt_requestId w) (\<lambda>r. if rq_privacy_mode r = secure \<and> rq_status r = COMPLETE
                    then r\<lparr> rq_trust_status := Some CONFIDENTIAL_VERIFIED \<rparr> else r) db2 else db2)
      in wrote (emit rt now proof_completed (wt_requestId w)
           [(lit ''request_id'', JStr (wt_requestId w)), (lit ''proof_system'', JStr (lit ''risc0'')), (lit ''guest_image_id'', str_opt (pr_imageId res)),
            (lit ''artifact_digest'', str_opt (pr_artifactDigest res)), (lit ''decision_receipt_digest'', str_opt (pr_decisionReceiptDigest res)),
            (lit ''proof_ms'', JInt (or_zero (pr_proofMs res))), (lit ''verified'', JBool verified)] db3))"

text \<open>The bottom of a poll: \<open>Some\<close> watcher polls again.\<close>

definition watch_answer :: "runtime \<Rightarrow> int \<Rightarrow> watcher \<Rightarrow> ProofResponse tee_result \<Rightarrow> database \<Rightarrow> watcher option \<times> database" where
  "watch_answer rt now w answer db =
     (case answer of
        EnclaveRejection code message st \<Rightarrow>
          if code = lit ''PROVER_UNAVAILABLE'' then (None, markFailed rt now (wt_requestId w) (lit ''PROVER_UNAVAILABLE during proving'') None db)
          else (Some w, db)
      | EnclaveUnavailable \<Rightarrow> (Some w, db)
      | TeeOk res \<Rightarrow>
          if pr_status res \<in> {QUEUED, PROVING, GENERATED} then watch_progress rt now w res db
          else if pr_status res = PROOF_FAILED then
            (None, markFailed rt now (wt_requestId w) (case pr_error res of Some e \<Rightarrow> e | None \<Rightarrow> lit ''unknown'') (pr_proofMs res) db)
          else (None, watch_settled rt now w res db))"

end
