(* ===== verification/Coordinator_System.thy ===== *)
theory Coordinator_System
  imports Coordinator
begin

text \<open>
  All requests and all proof watchers of the coordinator at once: a step relation whose steps are the segments of
  \<open>runSecureRequest\<close>, the polls of \<open>watchProof\<close> and the credential handlers, in any order. The state is the database
  with the requests in flight (each with what its handler holds across its await), the running watchers and the
  replies sent. Shown: what a request row says once its reply is out, and what has to have happened before it says
  that the proof was verified.
\<close>

section \<open>Steps\<close>

datatype stage = AwaitGate | AwaitAttestation GateResult | AwaitExecute GateResult

record in_flight =
  fl_env :: SecureRequestEnvelope
  fl_mode :: privacy_mode
  fl_stage :: stage

record coordinator =
  co_db :: database
  co_flights :: "in_flight list"
  co_watchers :: "watcher list"
  co_replies :: "(jstr \<times> reply) list"

abbreviation flight_id :: "in_flight \<Rightarrow> jstr" where
  "flight_id f \<equiv> env_requestId (fl_env f)"

definition coordinator_boot :: "database \<Rightarrow> coordinator" where
  "coordinator_boot db = \<lparr> co_db = db, co_flights = [], co_watchers = [], co_replies = [] \<rparr>"

text \<open>\<open>answers rid res\<close>: the enclave may answer \<open>res\<close> when asked for the proof of \<open>rid\<close>.\<close>

inductive coord_step :: "runtime \<Rightarrow> (jstr \<Rightarrow> ProofResponse tee_result \<Rightarrow> bool) \<Rightarrow> coordinator \<Rightarrow> coordinator \<Rightarrow> bool"
  for rt :: runtime and answers :: "jstr \<Rightarrow> ProofResponse tee_result \<Rightarrow> bool" where
  accept:
    "mode = compatibility \<or> check_envelope (Some env) (co_db s) = None \<Longrightarrow> begin_request rt now env mode (co_db s) = Inr db
     \<Longrightarrow> coord_step rt answers s (s\<lparr> co_db := db, co_flights := \<lparr> fl_env = env, fl_mode = mode, fl_stage = AwaitGate \<rparr> # co_flights s \<rparr>)"
| accept_threw:
    "mode = compatibility \<or> check_envelope (Some env) (co_db s) = None \<Longrightarrow> begin_request rt now env mode (co_db s) = Inl db
     \<Longrightarrow> coord_step rt answers s (s\<lparr> co_db := db, co_replies := (env_requestId env, internal_error) # co_replies s \<rparr>)"
| gate:
    "co_flights s = fs @ f # gs \<Longrightarrow> fl_stage f = AwaitGate \<Longrightarrow> on_gate rt now ms (flight_id f) answer (co_db s) = (Inr g, db)
     \<Longrightarrow> coord_step rt answers s (s\<lparr> co_db := db, co_flights := fs @ f\<lparr> fl_stage := AwaitAttestation g \<rparr> # gs \<rparr>)"
| gate_ends:
    "co_flights s = fs @ f # gs \<Longrightarrow> fl_stage f = AwaitGate \<Longrightarrow> on_gate rt now ms (flight_id f) answer (co_db s) = (Inl r, db)
     \<Longrightarrow> coord_step rt answers s (s\<lparr> co_db := db, co_flights := fs @ gs, co_replies := (flight_id f, r) # co_replies s \<rparr>)"
| attested:
    "co_flights s = fs @ f # gs \<Longrightarrow> fl_stage f = AwaitAttestation g \<Longrightarrow> on_attestation rt now ms (fl_env f) (fl_mode f) g att (co_db s) = (Inr cands, watching, db)
     \<Longrightarrow> coord_step rt answers s (s\<lparr> co_db := db, co_flights := fs @ f\<lparr> fl_stage := AwaitExecute g \<rparr> # gs,
           co_watchers := (if watching then [new_watcher now (flight_id f)] else []) @ co_watchers s \<rparr>)"
| attested_ends:
    "co_flights s = fs @ f # gs \<Longrightarrow> fl_stage f = AwaitAttestation g \<Longrightarrow> on_attestation rt now ms (fl_env f) (fl_mode f) g att (co_db s) = (Inl r, watching, db)
     \<Longrightarrow> coord_step rt answers s (s\<lparr> co_db := db, co_flights := fs @ gs,
           co_watchers := (if watching then [new_watcher now (flight_id f)] else []) @ co_watchers s, co_replies := (flight_id f, r) # co_replies s \<rparr>)"
| executed:
    "co_flights s = fs @ f # gs \<Longrightarrow> fl_stage f = AwaitExecute g \<Longrightarrow> on_execute rt now ms (flight_id f) (fl_mode f) g answer (co_db s) = (r, db)
     \<Longrightarrow> coord_step rt answers s (s\<lparr> co_db := db, co_flights := fs @ gs, co_replies := (flight_id f, r) # co_replies s \<rparr>)"
| ceiling_hit:
    "co_watchers s = ws @ w # vs \<Longrightarrow> watch_tick rt now w (co_db s) = Some db
     \<Longrightarrow> coord_step rt answers s (s\<lparr> co_db := db, co_watchers := ws @ vs \<rparr>)"
| polled:
    "co_watchers s = ws @ w # vs \<Longrightarrow> answers (wt_requestId w) answer \<Longrightarrow> watch_answer rt now w answer (co_db s) = (w', db)
     \<Longrightarrow> coord_step rt answers s (s\<lparr> co_db := db, co_watchers := ws @ (case w' of Some v \<Rightarrow> [v] | None \<Rightarrow> []) @ vs \<rparr>)"
| credential:
    "cred_step (co_db s) db \<Longrightarrow> coord_step rt answers s (s\<lparr> co_db := db \<rparr>)"

section \<open>What each segment leaves alone\<close>

lemma emit_Inl: "emit rt now ty agg payload db = Inl d \<Longrightarrow> d = db"
  by (auto simp: emit_def split: option.splits)

lemma emit_Inr: "emit rt now ty agg payload db = Inr d \<Longrightarrow> requests d = requests db \<and> proofs d = proofs db \<and> usage d = usage db
    \<and> decision_receipts d = decision_receipts db \<and> compute_receipts d = compute_receipts db \<and> provider_attempts d = provider_attempts db
    \<and> credentials d = credentials db \<and> contributors d = contributors db"
  using operational_tables [OF emitEvent_operational] by (auto simp: emit_def split: option.splits)

lemma wrote_emit [simp]:
  "requests (wrote (emit rt now ty agg payload db)) = requests db" "proofs (wrote (emit rt now ty agg payload db)) = proofs db"
  "usage (wrote (emit rt now ty agg payload db)) = usage db"
  by (cases "emit rt now ty agg payload db"; auto simp: wrote_def dest: emit_Inl emit_Inr)+

lemma closing_eq: "closing rt now rid upd ty payload r db =
    (if emit rt now ty rid payload (update_request rid upd db) = Inl (update_request rid upd db) then internal_error else r,
     wrote (emit rt now ty rid payload (update_request rid upd db)))"
  by (cases "emit rt now ty rid payload (update_request rid upd db)") (auto simp: closing_def wrote_def dest: emit_Inl)

lemma update_proof_sel [simp]:
  "requests (update_proof rid f db) = requests db" "proofs (update_proof rid f db) = update_where (\<lambda>p. pf_request_id p = rid) f (proofs db)"
  "usage (update_proof rid f db) = usage db"
  by (simp_all add: update_proof_def)

section \<open>What each segment does to the row of its request\<close>

lemma row_update_id: "row_update k (\<lambda>v. v) m = m"
  by (induction m) (auto simp: row_update_def)

lemma row_update_twice: "row_update k g (row_update k f m) = row_update k (g \<circ> f) m"
  by (induction m) (auto simp: row_update_def)

text \<open>The error code a reply names, and what the row of a request says once the reply is out.\<close>

definition reply_error :: "reply \<Rightarrow> jstr option" where
  "reply_error r = (case get_prop (reply_body r) ''error'' of
     Some e \<Rightarrow> (case get_prop e ''code'' of Some (JStr c) \<Rightarrow> Some c | _ \<Rightarrow> None)
   | None \<Rightarrow> None)"

definition answered :: "reply \<Rightarrow> request_row \<Rightarrow> bool" where
  "answered rep r \<longleftrightarrow> (if reply_code rep = 200 then rq_status r = COMPLETE
     else rq_status r \<in> {FAILED, DENIED} \<and> rq_error_code r = reply_error rep)"

definition closes :: "reply \<Rightarrow> request_row \<Rightarrow> bool" where
  "closes rep r \<longleftrightarrow> rep = internal_error \<or> answered rep r"

lemma reply_error_reply [simp]: "reply_error (error_reply code err msg rid extra mf) = Some err" "reply_code (error_reply code err msg rid extra mf) = code"
  by (simp_all add: reply_error_def error_reply_def)

lemma refusal_not_200 [simp]: "refusal_code st \<noteq> 200"
  by (simp add: refusal_code_def)

text \<open>The columns no segment but the last writes, and the ones the watcher owns.\<close>

definition same_trust :: "request_row \<Rightarrow> request_row \<Rightarrow> bool" where
  "same_trust r r' \<longleftrightarrow> rq_trust_status r' = rq_trust_status r \<and> rq_privacy_mode r' = rq_privacy_mode r"

lemma failed_row_sel [simp]:
  "rq_status (failed_row now code ms r) = FAILED" "rq_error_code (failed_row now code ms r) = Some code"
  "rq_policy_result (failed_row now code ms r) = rq_policy_result r" "same_trust r (failed_row now code ms r)"
  by (simp_all add: failed_row_def same_trust_def)

lemma closing_row:
  assumes "closing rt now rid upd ty payload rep db = (r, db')"
  shows "requests db' = row_update rid upd (requests db)" "proofs db' = proofs db" "r = internal_error \<or> r = rep"
  using assms by (auto simp: closing_eq)

lemma gate_refused_row:
  assumes "gate_refused rt now ms rid code message st db = (rep, db')"
  shows "\<exists>c m. requests db' = row_update rid (failed_row now c m) (requests db) \<and> proofs db' = proofs db
     \<and> (rep = internal_error \<or> (reply_code rep \<noteq> 200 \<and> reply_error rep = Some c))"
proof (cases "code = lit ''PROVER_UNAVAILABLE''")
  case True
  then show ?thesis using closing_row [of rt now rid] assms unfolding gate_refused_def by fastforce
next
  case False
  then show ?thesis using closing_row [of rt now rid] assms unfolding gate_refused_def by fastforce
qed

lemma enclave_down_row:
  assumes "enclave_down rt now ms rid middle db = (rep, db')"
  shows "requests db' = row_update rid (failed_row now ENCLAVE_DOWN None) (requests db) \<and> proofs db' = proofs db
     \<and> (rep = internal_error \<or> (reply_code rep \<noteq> 200 \<and> reply_error rep = Some ENCLAVE_DOWN))"
  using closing_row [of rt now rid] assms unfolding enclave_down_def by fastforce

lemma record_verdict_row:
  assumes "record_verdict now rid g db = Inl db' \<or> record_verdict now rid g db = Inr db'"
  shows "requests db' = row_update rid (\<lambda>r. r\<lparr> rq_policy_id := Some (gr_policyId g), rq_request_commitment := Some (gr_commitment g) \<rparr>) (requests db)
     \<and> proofs db' = proofs db"
  using assms by (auto simp: record_verdict_def inserting_def Let_def split: sum.splits)

text \<open>A function that only closes a row: it may fail it, and touches neither trust nor a verdict.\<close>

definition may_fail :: "reply \<Rightarrow> (request_row \<Rightarrow> request_row) \<Rightarrow> bool" where
  "may_fail rep f \<longleftrightarrow> (\<forall>r. same_trust r (f r) \<and> rq_proof_status (f r) = rq_proof_status r \<and> closes rep (f r) \<and> rq_status (f r) \<in> {rq_status r, FAILED})"

lemma may_fail_failed: "reply_code rep \<noteq> 200 \<and> reply_error rep = Some c \<or> rep = internal_error \<Longrightarrow> may_fail rep (failed_row now c m)"
  by (auto simp: may_fail_def closes_def answered_def) (simp_all add: failed_row_def)

lemma on_gate_row:
  assumes "on_gate rt now ms rid answer db = (x, db')"
  shows "proofs db' = proofs db \<and> (case x of
     Inr g \<Rightarrow> requests db' = row_update rid (\<lambda>r. r\<lparr> rq_policy_id := Some (gr_policyId g), rq_request_commitment := Some (gr_commitment g) \<rparr>) (requests db)
   | Inl rep \<Rightarrow> \<exists>f. requests db' = row_update rid f (requests db) \<and> may_fail rep f)"
proof (cases answer)
  case (TeeOk g)
  have "may_fail internal_error (\<lambda>r. r\<lparr> rq_policy_id := a, rq_request_commitment := b \<rparr>)" for a b
    by (simp add: may_fail_def same_trust_def closes_def)
  then show ?thesis using assms TeeOk record_verdict_row [of now rid g db db']
    by (auto simp: on_gate_def split: sum.splits)
next
  case (EnclaveRejection code message st)
  then obtain rep where "gate_refused rt now ms rid code message st db = (rep, db')" "x = Inl rep"
    using assms by (auto simp: on_gate_def split: prod.splits)
  with gate_refused_row obtain c m where "requests db' = row_update rid (failed_row now c m) (requests db)" "proofs db' = proofs db"
    "rep = internal_error \<or> (reply_code rep \<noteq> 200 \<and> reply_error rep = Some c)" by blast
  with \<open>x = Inl rep\<close> may_fail_failed [of rep c now m] show ?thesis by auto
next
  case EnclaveUnavailable
  then obtain rep where "enclave_down rt now ms rid [] db = (rep, db')" "x = Inl rep"
    using assms by (auto simp: on_gate_def split: prod.splits)
  with enclave_down_row [of rt now ms rid "[]" db rep db'] may_fail_failed [of rep ENCLAVE_DOWN now None] show ?thesis by auto
qed

lemma wrote_and_then [simp]: "wrote (and_then r k) = (case r of Inl d \<Rightarrow> d | Inr d \<Rightarrow> wrote (k d))"
  by (cases r) (simp_all add: wrote_def)

lemma wrote_simps [simp]: "wrote (Inl d) = d" "wrote (Inr d) = d"
  by (simp_all add: wrote_def)

text \<open>Two databases that agree on requests and proofs.\<close>

definition agrees :: "database \<Rightarrow> database \<Rightarrow> bool" where
  "agrees db db' \<longleftrightarrow> requests db' = requests db \<and> proofs db' = proofs db"

lemma agrees_refl [simp]: "agrees db db"
  by (simp add: agrees_def)

lemma agrees_trans: "agrees a b \<Longrightarrow> agrees b c \<Longrightarrow> agrees a c"
  by (simp add: agrees_def)

lemma agrees_emit: "agrees db (wrote (emit rt now ty agg payload db))"
  by (simp add: agrees_def)

lemma agrees_then:
  assumes "agrees db (wrote r)" "\<And>d. r = Inr d \<Longrightarrow> agrees d (wrote (k d))"
  shows "agrees db (wrote (and_then r k))"
  using assms by (cases r) (auto intro: agrees_trans)

lemma verdict_events_agrees: "agrees db (wrote (verdict_events rt now rid g att db))"
  unfolding verdict_events_def by (rule agrees_then) (auto simp: agrees_emit split: option.splits)

lemma verdict_events_tables:
  "verdict_events rt now rid g att db = Inl db' \<or> verdict_events rt now rid g att db = Inr db' \<Longrightarrow> requests db' = requests db \<and> proofs db' = proofs db"
  using verdict_events_agrees [of db rt now rid g att] by (auto simp: agrees_def)

lemma enqueue_proof_rows:
  assumes "enqueue_proof rt now rid g db = x"
  shows "\<exists>db'. (x = Inl db' \<or> x = Inr db') \<and> requests db' = row_update rid (\<lambda>r. r\<lparr> rq_proof_status := QUEUED \<rparr>) (requests db)
     \<and> (x = Inl db' \<and> proofs db' = proofs db
        \<or> map_of (proofs db) (proof_id rid) = None \<and> proofs db' = proofs db @ [(proof_id rid, queued_proof now rid (gr_imageId g))])"
proof -
  let ?db1 = "update_request rid (\<lambda>r. r\<lparr> rq_proof_status := QUEUED \<rparr>) db"
  show ?thesis
  proof (cases "insert_row (has_row rid (requests ?db1)) (proof_id rid) (queued_proof now rid (gr_imageId g)) (proofs ?db1)")
    case (Inl e)
    then show ?thesis using assms by (auto simp: enqueue_proof_def Let_def inserting_def)
  next
    case (Inr t)
    then have t: "t = proofs db @ [(proof_id rid, queued_proof now rid (gr_imageId g))]" "map_of (proofs db) (proof_id rid) = None"
      by (auto simp: insert_row_Inr has_row_def)
    show ?thesis using assms Inr t
      by (cases x) (auto simp: enqueue_proof_def Let_def inserting_def dest!: emit_Inl emit_Inr)
  qed
qed

lemma discover_tables: "requests (snd (discoverCandidates rt now m p db)) = requests db" "proofs (snd (discoverCandidates rt now m p db)) = proofs db"
proof -
  have "proofs (snd (roll_rows now rows d)) = proofs d" for rows d by (induction rows arbitrary: d) (auto simp: rollUsageDay_def)
  then show "requests (snd (discoverCandidates rt now m p db)) = requests db" "proofs (snd (discoverCandidates rt now m p db)) = proofs db"
    by (simp_all add: discoverCandidates_def Let_def case_prod_beta roll_rows_tables)
qed

text \<open>A function that ends a request without completing it: trust stays, or becomes the mark of a denial.\<close>

definition may_end :: "reply \<Rightarrow> (request_row \<Rightarrow> request_row) \<Rightarrow> bool" where
  "may_end rep f \<longleftrightarrow> (\<forall>r. rq_privacy_mode (f r) = rq_privacy_mode r \<and> rq_trust_status (f r) \<in> {rq_trust_status r, Some SIMULATED, Some COMPATIBILITY}
     \<and> closes rep (f r) \<and> rq_status (f r) \<in> {rq_status r, FAILED, DENIED})"

lemma may_end_compose:
  assumes "may_end rep f" "\<And>r. rq_privacy_mode (g r) = rq_privacy_mode r \<and> rq_trust_status (g r) = rq_trust_status r \<and> rq_status (g r) = rq_status r"
  shows "may_end rep (f \<circ> g)"
  unfolding may_end_def
proof
  fix r show "rq_privacy_mode ((f \<circ> g) r) = rq_privacy_mode r \<and> rq_trust_status ((f \<circ> g) r) \<in> {rq_trust_status r, Some SIMULATED, Some COMPATIBILITY}
     \<and> closes rep ((f \<circ> g) r) \<and> rq_status ((f \<circ> g) r) \<in> {rq_status r, FAILED, DENIED}"
    using assms(1) [unfolded may_end_def, rule_format, of "g r"] assms(2) [of r] by simp
qed

lemma act_on_verdict_row:
  assumes "act_on_verdict rt now ms env mode g db = (x, db')"
  shows "proofs db' = proofs db \<and> (case x of
     Inr cands \<Rightarrow> requests db' = requests db
   | Inl rep \<Rightarrow> \<exists>f. requests db' = row_update (env_requestId env) f (requests db) \<and> may_end rep f)"
proof -
  have ie: "\<exists>f. requests db = row_update (env_requestId env) f (requests db) \<and> may_end internal_error f"
    by (rule exI [of _ "\<lambda>r. r"]) (simp add: row_update_id may_end_def closes_def)
  show ?thesis
  proof (cases "gr_decision g = DENY")
    case True
    then obtain rep where d: "deny_request rt now ms (env_requestId env) mode g db = (rep, db')" "x = Inl rep"
      using assms by (auto simp: act_on_verdict_def Let_def split: prod.splits)
    from closing_row [OF d(1) [unfolded deny_request_def]] d(2) show ?thesis
      by (fastforce simp: may_end_def closes_def answered_def)
  next
    case False
    show ?thesis
    proof (cases "emit rt now policy_allowed (env_requestId env) (verdict_event (env_requestId env) g) db")
      case (Inl d)
      with False assms have "x = Inl internal_error" "db' = db" using emit_Inl by (auto simp: act_on_verdict_def Let_def)
      with ie show ?thesis by simp
    next
      case (Inr d)
      note e = emit_Inr [OF Inr]
      let ?dis = "discoverCandidates rt now (aad_model (env_aad env)) (gr_policyId g) d"
      show ?thesis
      proof (cases "candidates (fst ?dis) = []")
        case True
        then obtain rep where n: "no_capacity rt now ms (env_requestId env) g (excluded (fst ?dis)) (snd ?dis) = (rep, db')" "x = Inl rep"
          using False Inr assms by (auto simp: act_on_verdict_def Let_def split: prod.splits)
        from closing_row [OF n(1) [unfolded no_capacity_def]] n(2) e discover_tables show ?thesis
          by (fastforce simp: may_end_def closes_def answered_def)
      next
        case ne: False
        then show ?thesis using False Inr assms e discover_tables
          by (auto simp: act_on_verdict_def Let_def split: prod.splits) (metis snd_conv)+
      qed
    qed
  qed
qed

text \<open>After the attestation the proof of the request may have been queued, and is when its watcher was started.\<close>

definition queued_in :: "jstr \<Rightarrow> database \<Rightarrow> database \<Rightarrow> bool" where
  "queued_in rid db db' \<longleftrightarrow> map_of (proofs db) (proof_id rid) = None
     \<and> (\<exists>p. proofs db' = proofs db @ [(proof_id rid, p)] \<and> pf_request_id p = rid \<and> \<not> pf_verified p)"

lemma on_attestation_row:
  assumes "on_attestation rt now ms env mode g att db = (x, watching, db')"
  shows "(if watching then queued_in (env_requestId env) db db' else proofs db' = proofs db \<or> queued_in (env_requestId env) db db')
   \<and> (case x of
        Inr cands \<Rightarrow> \<exists>f. requests db' = row_update (env_requestId env) f (requests db) \<and> (\<forall>r. same_trust r (f r) \<and> rq_status (f r) = rq_status r)
      | Inl rep \<Rightarrow> \<exists>f. requests db' = row_update (env_requestId env) f (requests db) \<and> may_end rep f)"
proof -
  let ?rid = "env_requestId env"
  have ie: "may_end internal_error f" if "\<And>r. same_trust r (f r) \<and> rq_status (f r) = rq_status r" for f
    using that by (simp add: may_end_def closes_def same_trust_def)
  show ?thesis
  proof (cases "verdict_events rt now ?rid g att db")
    case (Inl d)
    with assms verdict_events_tables [of rt now ?rid g att db d] have "x = Inl internal_error" "\<not> watching" "requests db' = requests db" "proofs db' = proofs db"
      by (auto simp: on_attestation_def)
    with ie [of "\<lambda>r. r"] show ?thesis by (auto simp: same_trust_def intro!: exI [of _ "\<lambda>r. r"] simp: row_update_id)
  next
    case (Inr d)
    note v = verdict_events_tables [of rt now ?rid g att db d, OF disjI2, OF Inr]
    show ?thesis
    proof (cases "gr_proofStarted g")
      case False
      then obtain a where a: "act_on_verdict rt now ms env mode g d = (x, db')" "watching = False"
        using assms Inr by (auto simp: on_attestation_def split: prod.splits)
      note r = act_on_verdict_row [OF a(1)]
      show ?thesis
      proof (cases x)
        case (Inl rep)
        with r a(2) v show ?thesis by simp
      next
        case (Inr cands)
        with r a(2) v show ?thesis by (simp add: same_trust_def) (rule exI [of _ "\<lambda>r. r"], simp add: row_update_id)
      qed
    next
      case True
      obtain e where e: "enqueue_proof rt now ?rid g d = Inl e \<or> enqueue_proof rt now ?rid g d = Inr e"
        "requests e = row_update ?rid (\<lambda>r. r\<lparr> rq_proof_status := QUEUED \<rparr>) (requests d)"
        "enqueue_proof rt now ?rid g d = Inl e \<and> proofs e = proofs d \<or> queued_in ?rid d e"
        using enqueue_proof_rows [OF refl, of rt now ?rid g d] by (auto simp: queued_in_def queued_proof_def)
      show ?thesis
      proof (cases "enqueue_proof rt now ?rid g d")
        case (Inl e')
        then have "x = Inl internal_error" "watching = False" "db' = e" using assms Inr True e(1) by (auto simp: on_attestation_def)
        with e(2,3) v ie [of "\<lambda>r. r\<lparr> rq_proof_status := QUEUED \<rparr>"] show ?thesis by (auto simp: same_trust_def queued_in_def)
      next
        case (Inr e')
        then have a: "act_on_verdict rt now ms env mode g e = (x, db')" "watching" "queued_in ?rid d e"
          using assms \<open>verdict_events rt now ?rid g att db = Inr d\<close> True e(1,3) by (auto simp: on_attestation_def split: prod.splits)
        have q: "queued_in ?rid db db'" using a(3) v act_on_verdict_row [OF a(1)] by (auto simp: queued_in_def)
        show ?thesis
        proof (cases x)
          case (Inr cands)
          then show ?thesis using q a(2) act_on_verdict_row [OF a(1)] e(2) v by (auto simp: same_trust_def)
        next
          case (Inl rep)
          then obtain f where f: "requests db' = row_update ?rid f (requests e)" "may_end rep f" using act_on_verdict_row [OF a(1)] by auto
          have "may_end rep (f \<circ> (\<lambda>r. r\<lparr> rq_proof_status := QUEUED \<rparr>))" by (rule may_end_compose [OF f(2)]) simp
          with f(1) e(2) v q a(2) Inl show ?thesis by (auto simp: row_update_twice)
        qed
      qed
    qed
  qed
qed

lemma agrees_outcome: "agrees db (snd (applyAttemptOutcome now cid st cls db))"
  by (simp add: agrees_def applyAttemptOutcome_def)

lemma agrees_insert_usage: "insert_usage now a db = Inr d \<Longrightarrow> agrees db d"
  by (auto simp: agrees_def insert_usage_def split: sum.splits)

lemma agrees_assumed: "agrees db (snd (recordAssumedUsage rt now rid cid uid spend db))"
  by (auto simp: recordAssumedUsage_def Let_def agrees_def split: sum.splits dest!: agrees_insert_usage)

lemma agrees_recorded: "recordUsage rt now a db = Inr d \<Longrightarrow> agrees db d"
  by (auto simp: recordUsage_def agrees_def split: sum.splits dest!: agrees_insert_usage)

lemma agrees_attempt: "agrees db (wrote (persist_attempt rt now rid a db))"
proof -
  obtain act d where o: "applyAttemptOutcome now (ar_credentialId a) (ar_status a) (ar_classification a) db = (act, d)" by fastforce
  then have d: "agrees db d" using agrees_outcome by (metis snd_conv)
  have "agrees d (wrote (inserting x (\<lambda>t. book_assumed rt now rid a (d\<lparr> provider_attempts := t \<rparr>)) d))" for x :: "sql_error + (jstr \<times> provider_attempt_row) list"
  proof (cases x)
    case (Inr t)
    have "agrees d (d\<lparr> provider_attempts := t \<rparr>)" by (simp add: agrees_def)
    with agrees_assumed Inr show ?thesis by (auto simp: inserting_def book_assumed_def intro: agrees_trans)
  qed (simp add: inserting_def)
  then have "agrees d (wrote (persist_attempt rt now rid a db))"
    unfolding persist_attempt_def o prod.case by (intro agrees_then) (auto simp: agrees_emit)
  with d show ?thesis by (rule agrees_trans)
qed

lemma agrees_attempts: "agrees db (wrote (persist_attempts rt now rid as db))"
proof (induction as arbitrary: db)
  case (Cons a as)
  show ?case unfolding persist_attempts.simps by (rule agrees_then [OF agrees_attempt Cons.IH])
qed simp

text \<open>What completing a request does to its row: nothing if it throws early, the completed row otherwise.\<close>

lemma complete_request_row:
  assumes "complete_request rt now ms rid mode result sel receipt db = x"
  shows "proofs (wrote x) = proofs db \<and> (requests (wrote x) = row_update rid (complete_row now ms mode result sel) (requests db)
     \<or> (\<exists>d. x = Inl d) \<and> requests (wrote x) = requests db)"
proof -
  have bk: "agrees d (wrote (book_served rt now rid result sel d))" for d
    using agrees_recorded by (auto simp: book_served_def inserting_def split: sum.splits)
  have sr: "agrees d (wrote (store_receipt now rid receipt d))" for d
    by (auto simp: store_receipt_def inserting_def agrees_def split: sum.splits)
  have tail: "agrees (update_request rid (complete_row now ms mode result sel) d3)
      (wrote (and_then (emit rt now provider_completed rid pl (update_request rid (complete_row now ms mode result sel) d3)) (\<lambda>db4.
         and_then (store_receipt now rid receipt db4) (emit rt now receipt_created rid pl2))))" for d3 pl pl2
    by (intro agrees_then agrees_emit sr)
  consider d where "x = Inl d" "agrees db d"
    | d3 where "agrees db d3" "agrees (update_request rid (complete_row now ms mode result sel) d3) (wrote x)"
  proof -
    have x: "x = and_then (emit rt now route_selected rid (route_event rid result sel) db) (\<lambda>db1.
       and_then (emit rt now provider_started rid (started_event rid result sel) db1) (\<lambda>db2.
       and_then (book_served rt now rid result sel db2) (\<lambda>db3.
       and_then (emit rt now provider_completed rid (completed_event ms rid result sel) (update_request rid (complete_row now ms mode result sel) db3)) (\<lambda>db4.
       and_then (store_receipt now rid receipt db4) (emit rt now receipt_created rid [(lit ''request_id'', JStr rid), (lit ''receipt_id'', JStr (receipt_id rid)),
          (lit ''commitment'', JStr (er_commitment result))])))))"
      using assms by (simp add: complete_request_def)
    show ?thesis
    proof (cases "emit rt now route_selected rid (route_event rid result sel) db")
      case (Inl d)
      then show ?thesis using that(1) [of d] x emit_Inl [OF Inl] by simp
    next
      case i1: (Inr d1)
      show ?thesis
      proof (cases "emit rt now provider_started rid (started_event rid result sel) d1")
        case (Inl d)
        then show ?thesis using that(1) [of d] x i1 emit_Inl [OF Inl] emit_Inr [OF i1] by (simp add: agrees_def)
      next
        case i2: (Inr d2)
        have a2: "agrees db d2" using emit_Inr [OF i1] emit_Inr [OF i2] by (simp add: agrees_def)
        have a3: "agrees db (wrote (book_served rt now rid result sel d2))" by (rule agrees_trans [OF a2 bk])
        show ?thesis
        proof (cases "book_served rt now rid result sel d2")
          case (Inl d)
          then show ?thesis using that(1) [of d] x i1 i2 a3 by simp
        next
          case i3: (Inr d3)
          have "agrees (update_request rid (complete_row now ms mode result sel) d3) (wrote x)"
            unfolding x i1 i2 i3 and_then_simps by (rule tail)
          with that(2) [of d3] a3 i3 show ?thesis by simp
        qed
      qed
    qed
  qed
  then show ?thesis by cases (auto simp: agrees_def)
qed

definition may_finish :: "reply \<Rightarrow> (request_row \<Rightarrow> request_row) \<Rightarrow> bool" where
  "may_finish rep f \<longleftrightarrow> (\<forall>r. rq_privacy_mode (f r) = rq_privacy_mode r \<and> rq_trust_status (f r) \<in> {rq_trust_status r, Some CONFIDENTIAL_PROOF_PENDING, Some COMPATIBILITY}
     \<and> closes rep (f r) \<and> rq_status (f r) \<in> {rq_status r, FAILED, COMPLETE} \<and> (rq_status (f r) = COMPLETE \<longrightarrow> rq_status r = COMPLETE \<or> rq_policy_result (f r) = Some ALLOW))"

lemma may_finish_failed: "reply_code rep \<noteq> 200 \<and> reply_error rep = Some c \<or> rep = internal_error \<Longrightarrow> may_finish rep (failed_row now c m)"
  using may_fail_failed [of rep c now m] by (auto simp: may_fail_def may_finish_def same_trust_def)

lemma on_result_row:
  assumes "on_result rt now ms rid mode result db = (rep, db')"
  shows "\<exists>f. requests db' = row_update rid f (requests db) \<and> proofs db' = proofs db \<and> may_finish rep f"
proof -
  have id: "\<exists>f. requests db = row_update rid f (requests db) \<and> may_finish internal_error f"
    by (rule exI [of _ "\<lambda>r. r"]) (simp add: row_update_id may_finish_def closes_def)
  note pa = agrees_attempts [of db rt now rid "er_attempts result"]
  show ?thesis
  proof (cases "persist_attempts rt now rid (er_attempts result) db")
    case (Inl d)
    with assms pa id show ?thesis by (auto simp: on_result_def agrees_def)
  next
    case (Inr d)
    with pa have d: "requests d = requests db" "proofs d = proofs db" by (simp_all add: agrees_def)
    show ?thesis
    proof (cases "\<exists>sel receipt. er_status result = EX_COMPLETE \<and> er_selected result = Some sel \<and> er_receipt result = Some receipt")
      case True
      then obtain sel receipt where t: "er_status result = EX_COMPLETE" "er_selected result = Some sel" "er_receipt result = Some receipt" by blast
      have ok: "may_finish r (complete_row now ms mode result sel)" if "r = internal_error \<or> reply_code r = 200" for r
        using that by (auto simp: may_finish_def complete_row_def closes_def answered_def)
      show ?thesis
      proof (cases "complete_request rt now ms rid mode result sel receipt d")
        case (Inl e)
        with complete_request_row [OF this] assms \<open>persist_attempts _ _ _ _ _ = Inr d\<close> t d id ok [of internal_error] show ?thesis
          by (auto simp: on_result_def)
      next
        case (Inr e)
        with complete_request_row [OF this] assms \<open>persist_attempts _ _ _ _ _ = Inr d\<close> t d ok [of rep] show ?thesis
          by (auto simp: on_result_def complete_reply_def)
      qed
    next
      case False
      then have "dispatch_failed rt now ms rid result d = (rep, db')"
        using assms Inr by (auto simp: on_result_def split: execute_status.splits option.splits)
      from closing_row [OF this [unfolded dispatch_failed_def Let_def]] d show ?thesis
        by (auto simp: may_finish_def closes_def answered_def intro!: exI)
    qed
  qed
qed

lemma on_execute_row:
  assumes "on_execute rt now ms rid mode g answer db = (rep, db')"
  shows "\<exists>f. requests db' = row_update rid f (requests db) \<and> proofs db' = proofs db \<and> may_finish rep f"
proof (cases answer)
  case (TeeOk result)
  show ?thesis
  proof (cases "er_status result \<noteq> EX_COMPLETE \<and> er_status result \<noteq> EX_FAILED")
    case True
    with assms TeeOk have "closing rt now rid (failed_row now (lit ''CTN_INTERNAL'') None) request_failed
        (failed_event rid [(lit ''commitment'', JStr (gr_commitment g))] (lit ''CTN_INTERNAL'') 0 ms)
        (error_reply 502 (lit ''CTN_INTERNAL'') (lit ''The confidential service returned an unrecognized result.'') rid [] []) db = (rep, db')"
      by (simp add: on_execute_def)
    from closing_row [OF this] may_finish_failed [of rep "lit ''CTN_INTERNAL''" now None] show ?thesis by auto
  next
    case False
    with assms TeeOk have "on_result rt now ms rid mode result db = (rep, db')" by (auto simp: on_execute_def)
    then show ?thesis by (rule on_result_row)
  qed
next
  case (EnclaveRejection code message st)
  with assms have "closing rt now rid (failed_row now code (Some ms)) request_failed
        (failed_event rid [(lit ''commitment'', JStr (gr_commitment g))] code 0 ms)
        (error_reply (refusal_code st) code message rid [] []) db = (rep, db')" by (simp add: on_execute_def)
  from closing_row [OF this] may_finish_failed [of rep code now "Some ms"] show ?thesis by auto
next
  case EnclaveUnavailable
  with assms have "enclave_down rt now ms rid [(lit ''commitment'', JStr (gr_commitment g))] db = (rep, db')" by (simp add: on_execute_def)
  from enclave_down_row [OF this] may_finish_failed [of rep ENCLAVE_DOWN now None] show ?thesis by auto
qed

section \<open>What a watcher does\<close>

text \<open>The effect of one end of a poll: the request row keeps everything but its proof columns and its trust status, and
  the proof row of the request is rewritten.\<close>

definition watch_effect :: "jstr \<Rightarrow> (request_row \<Rightarrow> request_row) \<Rightarrow> (proof_row \<Rightarrow> proof_row) \<Rightarrow> database \<Rightarrow> database \<Rightarrow> bool" where
  "watch_effect rid f g db db' \<longleftrightarrow> requests db' = row_update rid f (requests db) \<and> proofs db' = update_where (\<lambda>p. pf_request_id p = rid) g (proofs db)
     \<and> (\<forall>r. rq_privacy_mode (f r) = rq_privacy_mode r \<and> rq_status (f r) = rq_status r \<and> rq_error_code (f r) = rq_error_code r \<and> rq_policy_result (f r) = rq_policy_result r)
     \<and> (\<forall>p. pf_request_id (g p) = pf_request_id p)"

definition unverifying :: "(request_row \<Rightarrow> request_row) \<Rightarrow> (proof_row \<Rightarrow> proof_row) \<Rightarrow> bool" where
  "unverifying f g \<longleftrightarrow> (\<forall>r. rq_trust_status (f r) \<in> {rq_trust_status r, Some CONFIDENTIAL_PROOF_FAILED}) \<and> (\<forall>p. pf_verified (g p) \<longrightarrow> pf_verified p)"

lemma markFailed_effect: "\<exists>f g. watch_effect rid f g db (markFailed rt now rid err ms db) \<and> unverifying f g"
proof -
  let ?f1 = "\<lambda>r. r\<lparr> rq_proof_status := PROOF_FAILED, rq_proof_ms := ms \<rparr>"
  let ?f2 = "\<lambda>r. if rq_privacy_mode r = secure then r\<lparr> rq_trust_status := Some CONFIDENTIAL_PROOF_FAILED \<rparr> else r"
  let ?g = "\<lambda>p. p\<lparr> pf_status := PROOF_FAILED, pf_error := Some err, pf_proof_ms := ms, pf_completed_at := Some now \<rparr>"
  have "watch_effect rid (?f2 \<circ> ?f1) ?g db (markFailed rt now rid err ms db)"
    by (simp add: watch_effect_def markFailed_def Let_def row_update_twice)
  moreover have "unverifying (?f2 \<circ> ?f1) ?g" by (simp add: unverifying_def)
  ultimately show ?thesis by blast
qed

lemma watch_progress_effect:
  assumes "watch_progress rt now w res db = (w', db')" "pr_status res \<noteq> VERIFIED"
  shows "\<exists>f g. watch_effect (wt_requestId w) f g db db' \<and> unverifying f g \<and> (\<forall>v. w' = Some v \<longrightarrow> wt_requestId v = wt_requestId w)"
proof -
  let ?f = "\<lambda>r. r\<lparr> rq_proof_status := pr_status res \<rparr>"
  let ?g = "\<lambda>p. p\<lparr> pf_status := pr_status res, pf_receipt_digest := (case pr_artifactDigest res of Some d \<Rightarrow> Some d | None \<Rightarrow> pf_receipt_digest p) \<rparr>"
  let ?db2 = "update_proof (wt_requestId w) ?g (update_request (wt_requestId w) ?f db)"
  have "agrees ?db2 (wrote (transition_event rt now w res ?db2))" by (simp add: transition_event_def agrees_emit)
  with assms(1) have "agrees ?db2 db'" "\<forall>v. w' = Some v \<longrightarrow> wt_requestId v = wt_requestId w"
    by (auto simp: watch_progress_def Let_def split: sum.splits)
  then have "watch_effect (wt_requestId w) ?f ?g db db'" by (simp add: watch_effect_def agrees_def)
  moreover have "unverifying ?f ?g" by (simp add: unverifying_def)
  ultimately show ?thesis using \<open>\<forall>v. w' = Some v \<longrightarrow> _\<close> by blast
qed

text \<open>A settled proof: what a row that says verified was written from.\<close>

definition reported :: "(jstr \<Rightarrow> ProofResponse tee_result \<Rightarrow> bool) \<Rightarrow> proof_row \<Rightarrow> bool" where
  "reported answers p \<longleftrightarrow> (\<exists>res. answers (pf_request_id p) (TeeOk res) \<and> pr_status res = VERIFIED \<and> pr_proofVerified res
     \<and> pf_receipt_blob p = pr_artifact res \<and> pf_receipt_digest p = pr_artifactDigest res \<and> pf_binding_json p = pr_binding res \<and> pf_status p = VERIFIED)"

lemma watch_settled_effect:
  assumes "answers (wt_requestId w) (TeeOk res)"
  shows "\<exists>f g. watch_effect (wt_requestId w) f g db (watch_settled rt now w res db)
     \<and> (\<forall>r. rq_trust_status (f r) = rq_trust_status r \<or> rq_trust_status (f r) = Some CONFIDENTIAL_VERIFIED \<and> rq_privacy_mode r = secure \<and> rq_status r = COMPLETE
           \<and> rq_proof_status (f r) = VERIFIED \<and> (\<forall>p. pf_verified (g p)))
     \<and> (\<forall>p. pf_request_id p = wt_requestId w \<longrightarrow> pf_verified (g p) \<longrightarrow> reported answers (g p))"
proof -
  define st where "st = (if pr_status res = VERIFIED \<and> pr_proofVerified res then VERIFIED else GENERATED)"
  let ?v = "pr_status res = VERIFIED \<and> pr_proofVerified res"
  let ?f1 = "\<lambda>r. r\<lparr> rq_proof_status := st, rq_proof_ms := pr_proofMs res \<rparr>"
  let ?f2 = "\<lambda>r. if ?v \<and> rq_privacy_mode r = secure \<and> rq_status r = COMPLETE then r\<lparr> rq_trust_status := Some CONFIDENTIAL_VERIFIED \<rparr> else r"
  let ?g = "\<lambda>p. p\<lparr> pf_status := st, pf_verified := ?v, pf_receipt_blob := pr_artifact res, pf_receipt_digest := pr_artifactDigest res,
     pf_binding_json := pr_binding res, pf_proof_ms := pr_proofMs res, pf_completed_at := Some now \<rparr>"
  have "watch_effect (wt_requestId w) (?f2 \<circ> ?f1) ?g db (watch_settled rt now w res db)"
    by (auto simp: watch_effect_def watch_settled_def Let_def row_update_twice st_def o_def)
  then show ?thesis using assms
    by (intro exI [of _ "?f2 \<circ> ?f1"] exI [of _ ?g]) (auto simp: reported_def st_def)
qed

lemma watch_answer_effect:
  assumes "watch_answer rt now w answer db = (w', db')" "answers (wt_requestId w) answer"
  shows "(\<exists>f g. watch_effect (wt_requestId w) f g db db' \<and> unverifying f g \<and> (\<forall>v. w' = Some v \<longrightarrow> wt_requestId v = wt_requestId w))
     \<or> w' = None \<and> (\<exists>res. answer = TeeOk res \<and> db' = watch_settled rt now w res db)"
proof -
  have id: "\<exists>f g. watch_effect rid f g db db \<and> unverifying f g" for rid
  proof (intro exI)
    have "update_where P (\<lambda>p. p) t = t" for P and t :: "(jstr \<times> proof_row) list" by (induction t) (auto simp: update_where_def)
    then show "watch_effect rid (\<lambda>r. r) (\<lambda>p. p) db db \<and> unverifying (\<lambda>r. r) (\<lambda>p. p)" by (simp add: watch_effect_def unverifying_def row_update_id)
  qed
  show ?thesis
  proof (cases answer)
    case (TeeOk res)
    consider "pr_status res \<in> {QUEUED, PROVING, GENERATED}" | "pr_status res = PROOF_FAILED" | "pr_status res \<in> {VERIFIED, NOT_REQUIRED}"
      by (cases "pr_status res") auto
    then show ?thesis
    proof cases
      case 1
      then have "watch_progress rt now w res db = (w', db')" using assms(1) TeeOk by (auto simp: watch_answer_def)
      with watch_progress_effect [OF this] 1 show ?thesis by auto
    next
      case 2
      with assms(1) TeeOk markFailed_effect show ?thesis by (auto simp: watch_answer_def)
    next
      case 3
      with assms(1) TeeOk show ?thesis by (auto simp: watch_answer_def)
    qed
  next
    case (EnclaveRejection code message st)
    with assms(1) markFailed_effect id show ?thesis by (auto simp: watch_answer_def split: if_splits)
  next
    case EnclaveUnavailable
    with assms(1) id show ?thesis by (auto simp: watch_answer_def)
  qed
qed

lemma agrees_emitEvent: "emitEvent rt now ty agg payload d = Some e \<Longrightarrow> agrees d e"
  using operational_tables [OF emitEvent_operational] by (auto simp: agrees_def)

lemma cred_step_agrees: "cred_step db db' \<Longrightarrow> agrees db db'"
proof (induction rule: cred_step.induct)
  case (discover db rt now model policyId)
  show ?case by (simp add: agrees_def discover_tables)
next
  case (outcome db now cid st cls)
  show ?case by (rule agrees_outcome)
next
  case (book rt now a db db')
  then show ?case by (rule agrees_recorded)
next
  case (assume_spend db rt now rid cid uid spend)
  show ?case by (rule agrees_assumed)
next
  case (register db rt now i nm)
  show ?case using agrees_emitEvent by (fastforce simp: postContributors_def Let_def agrees_def split: sum.splits option.splits)
next
  case (store db rt now body ing)
  show ?case using agrees_emitEvent by (fastforce simp: storeCredential_def Let_def agrees_def split: sum.splits option.splits)
next
  case (patch db rt now cid pbody)
  show ?case using agrees_emitEvent by (fastforce simp: patchCredential_def Let_def agrees_def split: option.splits)
next
  case (revoke db rt now cid)
  show ?case using agrees_emitEvent by (fastforce simp: deleteCredential_def Let_def agrees_def split: option.splits)
qed

section \<open>The invariant\<close>

text \<open>What holds of one request id, given its row, its proof row, the stages of its handler, whether it is watched, and
  the replies it got.\<close>

definition rid_ok :: "(jstr \<Rightarrow> ProofResponse tee_result \<Rightarrow> bool) \<Rightarrow> request_row option \<Rightarrow> proof_row option \<Rightarrow> stage set \<Rightarrow> bool \<Rightarrow> reply set \<Rightarrow> bool" where
  "rid_ok answers row prf stages watched reps \<longleftrightarrow>
     (stages \<noteq> {} \<longrightarrow> (\<exists>r. row = Some r \<and> rq_status r = RECEIVED))
   \<and> (stages \<inter> ({AwaitGate} \<union> range AwaitAttestation) \<noteq> {} \<longrightarrow> prf = None \<and> \<not> watched)
   \<and> (watched \<longrightarrow> row \<noteq> None \<and> (\<exists>p. prf = Some p \<and> \<not> pf_verified p))
   \<and> (row = None \<longrightarrow> prf = None)
   \<and> (\<forall>p. prf = Some p \<longrightarrow> pf_verified p \<longrightarrow> reported answers p)
   \<and> (\<forall>r. row = Some r \<longrightarrow> rq_trust_status r = Some CONFIDENTIAL_VERIFIED \<longrightarrow>
        rq_privacy_mode r = secure \<and> rq_status r = COMPLETE \<and> rq_proof_status r = VERIFIED \<and> (\<exists>p. prf = Some p \<and> pf_verified p))
   \<and> (\<forall>r. row = Some r \<longrightarrow> rq_status r = COMPLETE \<longrightarrow> rq_policy_result r = Some ALLOW)
   \<and> (\<forall>rep \<in> reps. rep = internal_error \<or> (\<exists>r. row = Some r \<and> answered rep r))
   \<and> (row \<noteq> None \<longrightarrow> stages \<noteq> {} \<or> reps \<noteq> {})"

definition stages_of :: "jstr \<Rightarrow> in_flight list \<Rightarrow> stage set" where
  "stages_of rid fs = fl_stage ` {f \<in> set fs. flight_id f = rid}"

definition replies_to :: "jstr \<Rightarrow> (jstr \<times> reply) list \<Rightarrow> reply set" where
  "replies_to rid rs = {r. (rid, r) \<in> set rs}"

definition id_ok :: "(jstr \<Rightarrow> ProofResponse tee_result \<Rightarrow> bool) \<Rightarrow> coordinator \<Rightarrow> jstr \<Rightarrow> bool" where
  "id_ok answers s rid \<longleftrightarrow> rid_ok answers (map_of (requests (co_db s)) rid) (map_of (proofs (co_db s)) (proof_id rid))
     (stages_of rid (co_flights s)) (rid \<in> wt_requestId ` set (co_watchers s)) (replies_to rid (co_replies s))"

definition coord_inv :: "(jstr \<Rightarrow> ProofResponse tee_result \<Rightarrow> bool) \<Rightarrow> coordinator \<Rightarrow> bool" where
  "coord_inv answers s \<longleftrightarrow> distinct (map flight_id (co_flights s)) \<and> distinct (map wt_requestId (co_watchers s))
     \<and> (\<forall>k p. map_of (proofs (co_db s)) k = Some p \<longrightarrow> k = proof_id (pf_request_id p)) \<and> (\<forall>rid. id_ok answers s rid)"

lemma proof_id_inject [simp]: "proof_id a = proof_id b \<longleftrightarrow> a = b"
  by (simp add: proof_id_def)

lemma stages_of_simps [simp]:
  "stages_of rid [] = {}"
  "stages_of rid (f # fs) = (if flight_id f = rid then {fl_stage f} else {}) \<union> stages_of rid fs"
  "stages_of rid (fs @ gs) = stages_of rid fs \<union> stages_of rid gs"
  by (auto simp: stages_of_def)

lemma stages_of_empty: "rid \<notin> flight_id ` set fs \<Longrightarrow> stages_of rid fs = {}"
  by (auto simp: stages_of_def)

lemma replies_to_Cons [simp]: "replies_to rid ((k, r) # rs) = (if k = rid then {r} else {}) \<union> replies_to rid rs"
  by (auto simp: replies_to_def)

text \<open>Only the entries of one request id change in a step.\<close>

definition elsewhere :: "jstr \<Rightarrow> coordinator \<Rightarrow> coordinator \<Rightarrow> bool" where
  "elsewhere rid s s' \<longleftrightarrow> (\<forall>k. k \<noteq> rid \<longrightarrow> map_of (requests (co_db s')) k = map_of (requests (co_db s)) k
      \<and> map_of (proofs (co_db s')) (proof_id k) = map_of (proofs (co_db s)) (proof_id k) \<and> stages_of k (co_flights s') = stages_of k (co_flights s)
      \<and> (k \<in> wt_requestId ` set (co_watchers s') \<longleftrightarrow> k \<in> wt_requestId ` set (co_watchers s)) \<and> replies_to k (co_replies s') = replies_to k (co_replies s))"

lemma elsewhere_ok: "elsewhere rid s s' \<Longrightarrow> k \<noteq> rid \<Longrightarrow> id_ok answers s k \<Longrightarrow> id_ok answers s' k"
  by (simp add: elsewhere_def id_ok_def)

lemma inv_step:
  assumes "coord_inv answers s" "elsewhere rid s s'" "id_ok answers s' rid" "distinct (map flight_id (co_flights s'))"
    "distinct (map wt_requestId (co_watchers s'))" "\<forall>k p. map_of (proofs (co_db s')) k = Some p \<longrightarrow> k = proof_id (pf_request_id p)"
  shows "coord_inv answers s'"
proof -
  have "id_ok answers s' k" for k using assms(1-3) elsewhere_ok [OF assms(2), of k answers] by (cases "k = rid") (auto simp: coord_inv_def)
  with assms(4-6) show ?thesis by (simp add: coord_inv_def)
qed

text \<open>The request ids of a split list of flights, and of a split list of watchers.\<close>

lemma flight_alone:
  assumes "coord_inv answers s" "co_flights s = fs @ f # gs"
  shows "stages_of (flight_id f) fs = {}" "stages_of (flight_id f) gs = {}" "stages_of (flight_id f) (co_flights s) = {fl_stage f}"
    "distinct (map flight_id (fs @ gs))" "\<And>st. distinct (map flight_id (fs @ f\<lparr> fl_stage := st \<rparr> # gs))"
proof -
  have d: "distinct (map flight_id (fs @ f # gs))" using assms by (simp add: coord_inv_def)
  show e: "stages_of (flight_id f) fs = {}" "stages_of (flight_id f) gs = {}" using d by (auto intro!: stages_of_empty)
  show "stages_of (flight_id f) (co_flights s) = {fl_stage f}" using e by (simp add: assms(2))
  show "distinct (map flight_id (fs @ gs))" "\<And>st. distinct (map flight_id (fs @ f\<lparr> fl_stage := st \<rparr> # gs))" using d by auto
qed

lemma answered_closed: "answered rep r \<Longrightarrow> rq_status r \<noteq> RECEIVED"
  by (auto simp: answered_def split: if_splits)

lemma flight_row:
  assumes "coord_inv answers s" "co_flights s = fs @ f # gs"
  obtains r where "map_of (requests (co_db s)) (flight_id f) = Some r" "rq_status r = RECEIVED" "rq_trust_status r \<noteq> Some CONFIDENTIAL_VERIFIED"
    "\<forall>rep \<in> replies_to (flight_id f) (co_replies s). rep = internal_error"
proof -
  have o: "id_ok answers s (flight_id f)" using assms(1) by (simp add: coord_inv_def)
  note al = flight_alone(3) [OF assms]
  obtain r where r: "map_of (requests (co_db s)) (flight_id f) = Some r" "rq_status r = RECEIVED"
    using o al by (auto simp: id_ok_def rid_ok_def)
  have "rq_trust_status r \<noteq> Some CONFIDENTIAL_VERIFIED" using o r by (auto simp: id_ok_def rid_ok_def)
  moreover have "\<forall>rep \<in> replies_to (flight_id f) (co_replies s). rep = internal_error"
    using o r by (auto simp: id_ok_def rid_ok_def dest!: answered_closed)
  ultimately show thesis using r that by blast
qed

lemma begin_request_db:
  assumes "begin_request rt now env mode db = x"
  shows "x = Inl db \<or> map_of (requests db) (env_requestId env) = None
     \<and> (\<exists>r. rq_status r = RECEIVED \<and> rq_trust_status r = None \<and> map_of (requests (wrote x)) = (map_of (requests db))(env_requestId env \<mapsto> r)) \<and> proofs (wrote x) = proofs db"
proof (cases "insert_row True (env_requestId env) (new_request_row now (aad_model (env_aad env)) mode) (requests db)")
  case (Inl e)
  with assms show ?thesis by (simp add: begin_request_def inserting_def)
next
  case (Inr t)
  have "agrees (db\<lparr> requests := t \<rparr>) (wrote x)"
    unfolding assms [symmetric] begin_request_def Inr inserting_def by (simp add: agrees_emit)
  with insert_row_lookup [OF Inr] Inr show ?thesis
    by (intro disjI2 conjI exI [of _ "new_request_row now (aad_model (env_aad env)) mode"])
       (auto simp: agrees_def new_request_row_def insert_row_Inr has_row_def)
qed

lemma inv_accept:
  assumes i: "coord_inv answers s" and b: "begin_request rt now env mode (co_db s) = Inr db"
  shows "coord_inv answers (s\<lparr> co_db := db, co_flights := \<lparr> fl_env = env, fl_mode = mode, fl_stage = AwaitGate \<rparr> # co_flights s \<rparr>)" (is "coord_inv _ ?s'")
proof -
  obtain r where r: "map_of (requests (co_db s)) (env_requestId env) = None" "rq_status r = RECEIVED" "rq_trust_status r = None"
    "map_of (requests db) = (map_of (requests (co_db s)))(env_requestId env \<mapsto> r)" "proofs db = proofs (co_db s)"
    using begin_request_db [OF b] by auto
  have o: "id_ok answers s (env_requestId env)" using i by (simp add: coord_inv_def)
  then have n: "stages_of (env_requestId env) (co_flights s) = {}" "env_requestId env \<notin> wt_requestId ` set (co_watchers s)"
     "map_of (proofs (co_db s)) (proof_id (env_requestId env)) = None" "\<forall>rep \<in> replies_to (env_requestId env) (co_replies s). rep = internal_error"
    using r(1) by (auto simp: id_ok_def rid_ok_def)
  show ?thesis
  proof (rule inv_step [OF i, of "env_requestId env"])
    show "elsewhere (env_requestId env) s ?s'" using r by (auto simp: elsewhere_def)
    show "id_ok answers ?s' (env_requestId env)" using n r by (auto simp: id_ok_def rid_ok_def)
    show "distinct (map flight_id (co_flights ?s'))" using i n(1) by (auto simp: coord_inv_def stages_of_def)
  qed (use i r in \<open>auto simp: coord_inv_def\<close>)
qed

lemma inv_accept_threw:
  assumes i: "coord_inv answers s" and b: "begin_request rt now env mode (co_db s) = Inl db"
  shows "coord_inv answers (s\<lparr> co_db := db, co_replies := (env_requestId env, internal_error) # co_replies s \<rparr>)" (is "coord_inv _ ?s'")
proof -
  have o: "id_ok answers s (env_requestId env)" using i by (simp add: coord_inv_def)
  consider "db = co_db s" | r where "map_of (requests (co_db s)) (env_requestId env) = None" "rq_status r = RECEIVED" "rq_trust_status r = None"
    "map_of (requests db) = (map_of (requests (co_db s)))(env_requestId env \<mapsto> r)" "proofs db = proofs (co_db s)"
    using begin_request_db [OF b] by auto
  then show ?thesis
  proof cases
    case 1
    show ?thesis
    proof (rule inv_step [OF i, of "env_requestId env"])
      show "id_ok answers ?s' (env_requestId env)" using o 1 by (auto simp: id_ok_def rid_ok_def)
    qed (use i 1 in \<open>auto simp: coord_inv_def elsewhere_def\<close>)
  next
    case (2 r)
    show ?thesis
    proof (rule inv_step [OF i, of "env_requestId env"])
      show "id_ok answers ?s' (env_requestId env)" using o 2 by (auto simp: id_ok_def rid_ok_def)
    qed (use i 2 in \<open>auto simp: coord_inv_def elsewhere_def\<close>)
  qed
qed

lemma inv_gate:
  assumes i: "coord_inv answers s" and f: "co_flights s = fs @ f # gs" "fl_stage f = AwaitGate" and g: "on_gate rt now ms (flight_id f) answer (co_db s) = (x, db)"
  shows "x = Inr g \<Longrightarrow> coord_inv answers (s\<lparr> co_db := db, co_flights := fs @ f\<lparr> fl_stage := AwaitAttestation g \<rparr> # gs \<rparr>)" (is "_ \<Longrightarrow> coord_inv _ ?s1")
    and "x = Inl rep \<Longrightarrow> coord_inv answers (s\<lparr> co_db := db, co_flights := fs @ gs, co_replies := (flight_id f, rep) # co_replies s \<rparr>)" (is "_ \<Longrightarrow> coord_inv _ ?s2")
proof -
  note al = flight_alone [OF i f(1)]
  obtain r where r: "map_of (requests (co_db s)) (flight_id f) = Some r" "rq_status r = RECEIVED" "rq_trust_status r \<noteq> Some CONFIDENTIAL_VERIFIED"
    "\<forall>rep \<in> replies_to (flight_id f) (co_replies s). rep = internal_error" by (rule flight_row [OF i f(1)])
  have o: "id_ok answers s (flight_id f)" using i by (simp add: coord_inv_def)
  note row = on_gate_row [OF g]
  show "coord_inv answers ?s1" if "x = Inr g"
  proof (rule inv_step [OF i, of "flight_id f"])
    show "elsewhere (flight_id f) s ?s1" using row that f by (auto simp: elsewhere_def map_of_row_update)
    show "id_ok answers ?s1 (flight_id f)" using o row that al r f by (auto simp: id_ok_def rid_ok_def map_of_row_update)
  qed (use al i row in \<open>auto simp: coord_inv_def\<close>)
  show "coord_inv answers ?s2" if xl: "x = Inl rep"
  proof -
    obtain h where h: "requests db = row_update (flight_id f) h (requests (co_db s))" "may_fail rep h" using row xl by auto
    note m = h(2) [unfolded may_fail_def, rule_format, of r]
    show ?thesis
    proof (rule inv_step [OF i, of "flight_id f"])
      show "elsewhere (flight_id f) s ?s2" using row h f by (auto simp: elsewhere_def map_of_row_update)
      show "id_ok answers ?s2 (flight_id f)" using o row h(1) m al r f
        by (auto simp: id_ok_def rid_ok_def map_of_row_update same_trust_def closes_def)
    qed (use al i row in \<open>auto simp: coord_inv_def\<close>)
  qed
qed

lemma queued_lookup:
  assumes "queued_in rid db db'"
  obtains p where "map_of (proofs db') = (map_of (proofs db))(proof_id rid \<mapsto> p)" "pf_request_id p = rid" "\<not> pf_verified p"
proof -
  obtain p where p: "map_of (proofs db) (proof_id rid) = None" "proofs db' = proofs db @ [(proof_id rid, p)]" "pf_request_id p = rid" "\<not> pf_verified p"
    using assms by (auto simp: queued_in_def)
  have "map_of (proofs db') k = ((map_of (proofs db))(proof_id rid \<mapsto> p)) k" for k
    using p(1) by (simp add: p(2) map_add_def split: option.splits)
  then show thesis using that p(3,4) by blast
qed

lemma proof_keyed: "coord_inv answers s \<Longrightarrow> map_of (proofs (co_db s)) (proof_id k) = Some p \<Longrightarrow> pf_request_id p = k"
  unfolding coord_inv_def by (metis proof_id_inject)

lemma inv_attested:
  assumes i: "coord_inv answers s" and f: "co_flights s = fs @ f # gs" "fl_stage f = AwaitAttestation g"
    and a: "on_attestation rt now ms (fl_env f) (fl_mode f) g att (co_db s) = (x, watching, db)"
  shows "x = Inr cands \<Longrightarrow> coord_inv answers (s\<lparr> co_db := db, co_flights := fs @ f\<lparr> fl_stage := AwaitExecute g \<rparr> # gs,
           co_watchers := (if watching then [new_watcher now (flight_id f)] else []) @ co_watchers s \<rparr>)" (is "_ \<Longrightarrow> coord_inv _ ?s1")
    and "x = Inl rep \<Longrightarrow> coord_inv answers (s\<lparr> co_db := db, co_flights := fs @ gs,
           co_watchers := (if watching then [new_watcher now (flight_id f)] else []) @ co_watchers s, co_replies := (flight_id f, rep) # co_replies s \<rparr>)" (is "_ \<Longrightarrow> coord_inv _ ?s2")
proof -
  let ?rid = "flight_id f"
  note al = flight_alone [OF i f(1)]
  obtain r where r: "map_of (requests (co_db s)) ?rid = Some r" "rq_status r = RECEIVED" "rq_trust_status r \<noteq> Some CONFIDENTIAL_VERIFIED"
    "\<forall>rep \<in> replies_to ?rid (co_replies s). rep = internal_error" by (rule flight_row [OF i f(1)])
  have o: "id_ok answers s ?rid" using i by (simp add: coord_inv_def)
  then have n: "map_of (proofs (co_db s)) (proof_id ?rid) = None" "?rid \<notin> wt_requestId ` set (co_watchers s)"
    using al(3) f(2) by (auto simp: id_ok_def rid_ok_def)
  note row = on_attestation_row [OF a]
  obtain q where q: "map_of (proofs db) = (map_of (proofs (co_db s)))(proof_id ?rid := q)" "watching \<longrightarrow> q \<noteq> None"
      "\<forall>p. q = Some p \<longrightarrow> pf_request_id p = ?rid \<and> \<not> pf_verified p"
  proof (cases "queued_in ?rid (co_db s) db")
    case True
    then show thesis by (rule queued_lookup) (use that in auto)
  next
    case False
    with row n(1) show thesis by (intro that [of None]) (auto simp: fun_eq_iff split: if_splits)
  qed
  have w: "distinct (map wt_requestId ((if watching then [new_watcher now ?rid] else []) @ co_watchers s))"
    using i n(2) by (auto simp: coord_inv_def new_watcher_def)
  have k: "\<forall>k p. map_of (proofs db) k = Some p \<longrightarrow> k = proof_id (pf_request_id p)" using i q by (auto simp: coord_inv_def)
  show "coord_inv answers ?s1" if xr: "x = Inr cands"
  proof -
    obtain h where h: "requests db = row_update ?rid h (requests (co_db s))" "\<forall>r. same_trust r (h r) \<and> rq_status (h r) = rq_status r" using row xr by auto
    show ?thesis
    proof (rule inv_step [OF i, of ?rid])
      show "elsewhere ?rid s ?s1" using h(1) q(1) f by (auto simp: elsewhere_def map_of_row_update new_watcher_def)
      show "id_ok answers ?s1 ?rid" using h q al r n by (auto simp: id_ok_def rid_ok_def map_of_row_update same_trust_def new_watcher_def)
    qed (use al w k in auto)
  qed
  show "coord_inv answers ?s2" if xl: "x = Inl rep"
  proof -
    obtain h where h: "requests db = row_update ?rid h (requests (co_db s))" "may_end rep h" using row xl by auto
    note m = h(2) [unfolded may_end_def, rule_format, of r]
    show ?thesis
    proof (rule inv_step [OF i, of ?rid])
      show "elsewhere ?rid s ?s2" using h(1) q(1) f by (auto simp: elsewhere_def map_of_row_update new_watcher_def)
      show "id_ok answers ?s2 ?rid" using h(1) m q al r n by (auto simp: id_ok_def rid_ok_def map_of_row_update closes_def new_watcher_def)
    qed (use al w k in auto)
  qed
qed

lemma inv_executed:
  assumes i: "coord_inv answers s" and f: "co_flights s = fs @ f # gs" and e: "on_execute rt now ms (flight_id f) (fl_mode f) g answer (co_db s) = (rep, db)"
  shows "coord_inv answers (s\<lparr> co_db := db, co_flights := fs @ gs, co_replies := (flight_id f, rep) # co_replies s \<rparr>)" (is "coord_inv _ ?s'")
proof -
  note al = flight_alone [OF i f]
  obtain r where r: "map_of (requests (co_db s)) (flight_id f) = Some r" "rq_status r = RECEIVED" "rq_trust_status r \<noteq> Some CONFIDENTIAL_VERIFIED"
    "\<forall>rep \<in> replies_to (flight_id f) (co_replies s). rep = internal_error" by (rule flight_row [OF i f])
  have o: "id_ok answers s (flight_id f)" using i by (simp add: coord_inv_def)
  obtain h where h: "requests db = row_update (flight_id f) h (requests (co_db s))" "proofs db = proofs (co_db s)" "may_finish rep h"
    using on_execute_row [OF e] by blast
  note m = h(3) [unfolded may_finish_def, rule_format, of r]
  show ?thesis
  proof (rule inv_step [OF i, of "flight_id f"])
    show "elsewhere (flight_id f) s ?s'" using h f by (auto simp: elsewhere_def map_of_row_update)
    have "rq_trust_status (h r) \<noteq> Some CONFIDENTIAL_VERIFIED" "rep = internal_error \<or> answered rep (h r)"
      "rq_status (h r) = COMPLETE \<longrightarrow> rq_policy_result (h r) = Some ALLOW" using m r(2,3) by (auto simp: closes_def)
    with o h(1,2) al(1,2) r(1,4) show "id_ok answers ?s' (flight_id f)" unfolding id_ok_def rid_ok_def by (simp add: map_of_row_update)
  qed (use al i h in \<open>auto simp: coord_inv_def\<close>)
qed

lemma answered_kept: "answered rep r \<Longrightarrow> rq_status r' = rq_status r \<Longrightarrow> rq_error_code r' = rq_error_code r \<Longrightarrow> answered rep r'"
  by (auto simp: answered_def split: if_splits)

lemma inv_watched:
  assumes i: "coord_inv answers s" and w: "co_watchers s = ws @ w # vs" and e: "watch_effect (wt_requestId w) f g (co_db s) db"
    and v: "v = [] \<or> (\<exists>w'. v = [w'] \<and> wt_requestId w' = wt_requestId w)"
    and ok: "unverifying f g \<or> v = [] \<and> (\<forall>r. rq_trust_status (f r) = rq_trust_status r \<or> rq_trust_status (f r) = Some CONFIDENTIAL_VERIFIED
          \<and> rq_privacy_mode r = secure \<and> rq_status r = COMPLETE \<and> rq_proof_status (f r) = VERIFIED \<and> (\<forall>p. pf_verified (g p)))
       \<and> (\<forall>p. pf_request_id p = wt_requestId w \<longrightarrow> pf_verified (g p) \<longrightarrow> reported answers (g p))"
  shows "coord_inv answers (s\<lparr> co_db := db, co_watchers := ws @ v @ vs \<rparr>)" (is "coord_inv _ ?s'")
proof -
  let ?rid = "wt_requestId w"
  have o: "id_ok answers s ?rid" and d: "distinct (map wt_requestId (ws @ w # vs))" using i w by (simp_all add: coord_inv_def)
  then obtain r p where r: "map_of (requests (co_db s)) ?rid = Some r" "map_of (proofs (co_db s)) (proof_id ?rid) = Some p" "\<not> pf_verified p"
    using w by (auto simp: id_ok_def rid_ok_def)
  have pid: "pf_request_id p = ?rid" by (rule proof_keyed [OF i r(2)])
  have nt: "rq_trust_status r \<noteq> Some CONFIDENTIAL_VERIFIED" using o r by (auto simp: id_ok_def rid_ok_def)
  have rq: "requests db = row_update ?rid f (requests (co_db s))" "proofs db = update_where (\<lambda>p. pf_request_id p = ?rid) g (proofs (co_db s))"
    and keep: "rq_privacy_mode (f r) = rq_privacy_mode r" "rq_status (f r) = rq_status r" "rq_error_code (f r) = rq_error_code r" "rq_policy_result (f r) = rq_policy_result r"
    and gid: "\<And>p. pf_request_id (g p) = pf_request_id p" using e by (auto simp: watch_effect_def)
  have other: "map_of (proofs db) (proof_id k) = map_of (proofs (co_db s)) (proof_id k)" if "k \<noteq> ?rid" for k
  proof (cases "map_of (proofs (co_db s)) (proof_id k)")
    case (Some q)
    then have "pf_request_id q = k" by (rule proof_keyed [OF i])
    with Some that show ?thesis by (simp add: rq map_of_update_where)
  qed (simp add: rq map_of_update_where)
  have here: "map_of (proofs db) (proof_id ?rid) = Some (g p)" using r(2) pid by (simp add: rq map_of_update_where)
  show ?thesis
  proof (rule inv_step [OF i, of ?rid])
    show "elsewhere ?rid s ?s'" using rq(1) other w v by (auto simp: elsewhere_def map_of_row_update)
    have wd: "?rid \<in> wt_requestId ` set (co_watchers ?s') \<longleftrightarrow> v \<noteq> []" using d v by auto
    show "id_ok answers ?s' ?rid"
    proof (cases "unverifying f g")
      case True
      then have "rq_trust_status (f r) \<noteq> Some CONFIDENTIAL_VERIFIED" "\<not> pf_verified (g p)" using nt r(3) by (auto simp: unverifying_def) (metis TrustStatus.distinct(3) option.inject)
      with o r wd here keep rq(1) show ?thesis by (auto simp: id_ok_def rid_ok_def map_of_row_update dest: answered_kept [OF _ keep(2,3)])
    next
      case False
      with ok have "v = []" "rq_trust_status (f r) = rq_trust_status r \<or> rq_trust_status (f r) = Some CONFIDENTIAL_VERIFIED
          \<and> rq_privacy_mode r = secure \<and> rq_status r = COMPLETE \<and> rq_proof_status (f r) = VERIFIED \<and> pf_verified (g p)" "pf_verified (g p) \<longrightarrow> reported answers (g p)"
        using pid by auto
      with o r wd here keep rq(1) nt show ?thesis by (auto simp: id_ok_def rid_ok_def map_of_row_update dest: answered_kept [OF _ keep(2,3)])
    qed
    show "\<forall>k p. map_of (proofs (co_db ?s')) k = Some p \<longrightarrow> k = proof_id (pf_request_id p)"
    proof (intro allI impI)
      fix k q' assume "map_of (proofs (co_db ?s')) k = Some q'"
      then obtain q where q: "map_of (proofs (co_db s)) k = Some q" "q' = (if pf_request_id q = ?rid then g q else q)" by (auto simp: rq map_of_update_where)
      with i have "k = proof_id (pf_request_id q)" by (simp add: coord_inv_def)
      then show "k = proof_id (pf_request_id q')" using gid q(2) by simp
    qed
    show "distinct (map wt_requestId (co_watchers ?s'))" using v
    proof (elim disjE exE conjE)
      fix w' assume "v = [w']" "wt_requestId w' = wt_requestId w"
      with d show ?thesis by simp
    qed (use d in simp)
  qed (use i in \<open>auto simp: coord_inv_def\<close>)
qed

lemma coord_step_inv:
  assumes "coord_step rt answers s s'" "coord_inv answers s"
  shows "coord_inv answers s'"
  using assms
proof (cases rule: coord_step.cases)
  case (ceiling_hit ws w vs now db)
  have "db = markFailed rt now (wt_requestId w) (lit ''proving exceeded the 15-minute absolute ceiling'') None (co_db s)"
    using ceiling_hit(3) by (auto simp: watch_tick_def split: if_splits)
  then obtain f g where "watch_effect (wt_requestId w) f g (co_db s) db" "unverifying f g" using markFailed_effect by metis
  with inv_watched [OF assms(2) ceiling_hit(2), of f g db "[]" ] ceiling_hit(1) show ?thesis by simp
next
  case (polled ws w vs answer now w' db)
  let ?v = "case w' of Some v \<Rightarrow> [v] | None \<Rightarrow> []"
  from watch_answer_effect [OF polled(4), of answers, OF polled(3)] show ?thesis
  proof (elim disjE exE conjE)
    fix f g assume "watch_effect (wt_requestId w) f g (co_db s) db" "unverifying f g" "\<forall>v. w' = Some v \<longrightarrow> wt_requestId v = wt_requestId w"
    moreover from this(3) have "?v = [] \<or> (\<exists>v. ?v = [v] \<and> wt_requestId v = wt_requestId w)" by (cases w') simp_all
    ultimately show ?thesis unfolding polled(1) by (intro inv_watched [OF assms(2) polled(2)]) blast+
  next
    fix res assume r: "w' = None" "answer = TeeOk res" "db = watch_settled rt now w res (co_db s)"
    have "answers (wt_requestId w) (TeeOk res)" using polled(3) r(2) by simp
    from watch_settled_effect [of answers w res "co_db s" rt now, OF this] obtain f g where
      e: "watch_effect (wt_requestId w) f g (co_db s) db"
        "\<forall>r. rq_trust_status (f r) = rq_trust_status r \<or> rq_trust_status (f r) = Some CONFIDENTIAL_VERIFIED \<and> rq_privacy_mode r = secure \<and> rq_status r = COMPLETE
           \<and> rq_proof_status (f r) = VERIFIED \<and> (\<forall>p. pf_verified (g p))"
        "\<forall>p. pf_request_id p = wt_requestId w \<longrightarrow> pf_verified (g p) \<longrightarrow> reported answers (g p)" unfolding r(3) by blast
    have "coord_inv answers (s\<lparr> co_db := db, co_watchers := ws @ [] @ vs \<rparr>)"
      by (rule inv_watched [OF assms(2) polled(2) e(1)]) (use e(2,3) in blast)+
    then show ?thesis unfolding polled(1) r(1) by simp
  qed
next
  case (credential db)
  from cred_step_agrees [OF this(2)] assms(2) this(1) show ?thesis by (auto simp: coord_inv_def id_ok_def agrees_def)
next
  case (attested fs f gs g now ms att cands watching db)
  show ?thesis unfolding attested(1) by (rule inv_attested(1) [OF assms(2) attested(2,3,4) refl])
next
  case (attested_ends fs f gs g now ms att r watching db)
  show ?thesis unfolding attested_ends(1) by (rule inv_attested(2) [OF assms(2) attested_ends(2,3,4) refl])
qed (auto intro: inv_accept inv_accept_threw inv_gate inv_executed)

interpretation coordinator_states: stable "coord_step rt answers" "coord_inv answers" for rt answers
  by unfold_locales (rule coord_step_inv)

lemma boot_coord_inv: "requests db = [] \<Longrightarrow> proofs db = [] \<Longrightarrow> coord_inv answers (coordinator_boot db)"
  by (simp add: coord_inv_def coordinator_boot_def id_ok_def rid_ok_def replies_to_def)

section \<open>What the ledger says\<close>

text \<open>C9. The badge is earned. In every state the coordinator can reach, through any interleaving of requests, proof
  polls and credential handlers, a request whose trust status reads CONFIDENTIAL_VERIFIED came through the secure
  endpoint, is COMPLETE under an ALLOW verdict, has proof status VERIFIED, and the enclave answered VERIFIED with a
  passed verification for this very request id: the artifact, digest and binding stored for it are those of that answer.\<close>

theorem verified_badge_sound:
  assumes "requests db0 = []" "proofs db0 = []" "(coord_step rt answers)\<^sup>*\<^sup>* (coordinator_boot db0) s"
    and "map_of (requests (co_db s)) rid = Some r" "rq_trust_status r = Some CONFIDENTIAL_VERIFIED"
  shows "rq_privacy_mode r = secure \<and> rq_status r = COMPLETE \<and> rq_policy_result r = Some ALLOW \<and> rq_proof_status r = VERIFIED
     \<and> (\<exists>p res. map_of (proofs (co_db s)) (proof_id rid) = Some p \<and> pf_verified p \<and> answers rid (TeeOk res) \<and> pr_status res = VERIFIED \<and> pr_proofVerified res
          \<and> pf_receipt_blob p = pr_artifact res \<and> pf_receipt_digest p = pr_artifactDigest res \<and> pf_binding_json p = pr_binding res)"
proof -
  have i: "coord_inv answers s" using coordinator_states.reachable_keeps [OF assms(3) boot_coord_inv [OF assms(1,2)]] .
  then have o: "id_ok answers s rid" by (simp add: coord_inv_def)
  then have r: "rq_privacy_mode r = secure" "rq_status r = COMPLETE" "rq_policy_result r = Some ALLOW" "rq_proof_status r = VERIFIED"
    using assms(4,5) by (simp_all add: id_ok_def rid_ok_def)
  obtain p where p: "map_of (proofs (co_db s)) (proof_id rid) = Some p" "pf_verified p" using o assms(4,5) by (auto simp: id_ok_def rid_ok_def)
  then have "reported answers p" using o by (simp add: id_ok_def rid_ok_def)
  with proof_keyed [OF i p(1)] r p show ?thesis by (auto simp: reported_def)
qed

text \<open>C10. Every request ends in the ledger the way its client was told. In every reachable state each request row is
  still in the hands of a running handler (and reads RECEIVED) or has been answered; and whenever the answer was not a
  500, the row reads COMPLETE exactly if the client got a 200, and otherwise FAILED or DENIED with the very error code
  the client got. No interleaving of watchers or other requests changes this afterwards.\<close>

theorem ledger_matches_replies:
  assumes "requests db0 = []" "proofs db0 = []" "(coord_step rt answers)\<^sup>*\<^sup>* (coordinator_boot db0) s"
  shows "(\<forall>rid r. map_of (requests (co_db s)) rid = Some r \<longrightarrow>
            rid \<in> flight_id ` set (co_flights s) \<and> rq_status r = RECEIVED \<or> rid \<in> fst ` set (co_replies s) \<and> rid \<notin> flight_id ` set (co_flights s))
     \<and> (\<forall>(rid, rep) \<in> set (co_replies s). rep = internal_error \<or> (\<exists>r. map_of (requests (co_db s)) rid = Some r
          \<and> (reply_code rep = 200 \<longleftrightarrow> rq_status r = COMPLETE) \<and> rq_status r \<in> {COMPLETE, FAILED, DENIED}
          \<and> (reply_code rep = 200 \<or> rq_error_code r = reply_error rep)))"
proof -
  have i: "coord_inv answers s" using coordinator_states.reachable_keeps [OF assms(3) boot_coord_inv [OF assms(1,2)]] .
  then have o: "id_ok answers s rid" for rid by (simp add: coord_inv_def)
  have st: "stages_of rid (co_flights s) \<noteq> {} \<longleftrightarrow> rid \<in> flight_id ` set (co_flights s)" for rid by (auto simp: stages_of_def)
  have 1: "rid \<in> flight_id ` set (co_flights s) \<and> rq_status r = RECEIVED \<or> rid \<in> fst ` set (co_replies s) \<and> rid \<notin> flight_id ` set (co_flights s)"
    if "map_of (requests (co_db s)) rid = Some r" for rid r
  proof (cases "rid \<in> flight_id ` set (co_flights s)")
    case True
    with o [of rid] that st [of rid] show ?thesis by (simp add: id_ok_def rid_ok_def)
  next
    case False
    then have "replies_to rid (co_replies s) \<noteq> {}" using o [of rid] that st [of rid] by (simp add: id_ok_def rid_ok_def)
    then show ?thesis using False by (force simp: replies_to_def)
  qed
  have 2: "rep = internal_error \<or> (\<exists>r. map_of (requests (co_db s)) rid = Some r \<and> (reply_code rep = 200 \<longleftrightarrow> rq_status r = COMPLETE)
      \<and> rq_status r \<in> {COMPLETE, FAILED, DENIED} \<and> (reply_code rep = 200 \<or> rq_error_code r = reply_error rep))" if "(rid, rep) \<in> set (co_replies s)" for rid rep
  proof -
    have "rep \<in> replies_to rid (co_replies s)" using that by (simp add: replies_to_def)
    then have "rep = internal_error \<or> (\<exists>r. map_of (requests (co_db s)) rid = Some r \<and> answered rep r)" using o [of rid] by (simp add: id_ok_def rid_ok_def)
    then show ?thesis by (auto simp: answered_def split: if_splits)
  qed
  from 1 2 show ?thesis by blast
qed

end
