(* ===== verification/Coordinator_Runs.thy ===== *)
theory Coordinator_Runs
  imports Coordinator_System
begin

text \<open>
  Concrete runs of the coordinator: a request that is gated, dispatched and proved, step by step through the relation
  of \<open>Coordinator_System\<close>, and the two orders in which a proof and a dispatch can finish. The guard of \<open>emitEvent\<close> is
  shown to let every payload of the request path through, so the handlers below never stop at an event.
\<close>

section \<open>The payloads of the request path pass the guard\<close>

definition PAYLOAD_KEYS :: "string list" where
  "PAYLOAD_KEYS = [''request_id'', ''model'', ''privacy_mode'', ''requested_policy'', ''error_code'', ''system_failure'', ''attempts'', ''total_ms'',
     ''commitment'', ''build_id'', ''mode'', ''attestation_digest'', ''policy_id'', ''proof_system'', ''guest_image_id'', ''policy_ms'',
     ''credential_id'', ''contributor_id'', ''attempt_number'', ''http_status'', ''classification'', ''latency_ms'', ''action'', ''provider'',
     ''input_tokens'', ''output_tokens'', ''receipt_id'', ''error'', ''proof_ms'', ''artifact_digest'', ''decision_receipt_digest'', ''verified'']"

definition guard_open :: "runtime \<Rightarrow> bool" where
  "guard_open rt \<longleftrightarrow> list_all (\<lambda>k. \<not> banned_field rt (lit k)) PAYLOAD_KEYS"

fun leaf :: "json \<Rightarrow> bool" where
  "leaf (JArr vs) = False"
| "leaf (JObj kvs) = False"
| "leaf v = True"

definition flat :: "(jstr \<times> json) list \<Rightarrow> bool" where
  "flat payload \<longleftrightarrow> list_all (\<lambda>(k, v). k \<in> lit ` set PAYLOAD_KEYS \<and> leaf v) payload"

lemma leaf_passes: "leaf v \<Longrightarrow> assertNoForbiddenFields rt d v"
  by (cases v) auto

lemma emit_flat:
  assumes "guard_open rt" "flat payload"
  shows "\<exists>d. emit rt now ty agg payload db = Inr d"
proof -
  have "assertNoForbiddenFields rt 0 (JObj payload)"
    using assms by (fastforce simp: guard_open_def flat_def list_all_iff leaf_passes)
  then show ?thesis by (simp add: emit_def emitEvent_def)
qed

lemma sample_guard: "guard_open sample_runtime"
  by (simp add: guard_open_def PAYLOAD_KEYS_def banned_field_def normalizeKey_def BANNED_EVENT_FIELDS_def alnum_lower_def eval_simps)

section \<open>Segments that go through\<close>

lemma emit_ok:
  assumes "guard_open rt" "flat payload"
  obtains d where "emit rt now ty agg payload db = Inr d" "requests d = requests db" "proofs d = proofs db" "usage d = usage db"
    "compute_receipts d = compute_receipts db" "credentials d = credentials db"
  using emit_flat [OF assms, of now ty agg db] emit_Inr by blast

lemmas flat_simps = flat_def PAYLOAD_KEYS_def

lemma begin_ok:
  assumes g: "guard_open rt" and n: "map_of (requests db) (env_requestId env) = None"
  obtains d where "begin_request rt now env mode db = Inr d" "map_of (requests d) (env_requestId env) = Some (new_request_row now (aad_model (env_aad env)) mode)"
    "proofs d = proofs db" "usage d = usage db" "compute_receipts d = compute_receipts db" "credentials d = credentials db"
proof -
  let ?pl = "[(lit ''request_id'', JStr (env_requestId env)), (lit ''model'', JStr (aad_model (env_aad env))),
     (lit ''privacy_mode'', JStr (mode_str mode)), (lit ''requested_policy'', JStr (aad_requestedPolicy (env_aad env)))]"
  let ?db = "db\<lparr> requests := requests db @ [(env_requestId env, new_request_row now (aad_model (env_aad env)) mode)] \<rparr>"
  have "flat ?pl" by (simp add: flat_simps)
  from emit_ok [OF g this] obtain d where d: "emit rt now request_received (env_requestId env) ?pl ?db = Inr d" "requests d = requests ?db" "proofs d = proofs ?db"
    "usage d = usage ?db" "compute_receipts d = compute_receipts ?db" "credentials d = credentials ?db" by blast
  have "begin_request rt now env mode db = Inr d" using n d(1) by (simp add: begin_request_def insert_row_def has_row_def inserting_def)
  with that d(2-) n show thesis by (simp add: map_add_def)
qed

lemma gate_ok:
  assumes "map_of (requests db) rid = Some r"
  obtains d where "on_gate rt now ms rid (TeeOk g) db = (Inr g, d)" "map_of (requests d) rid = Some (r\<lparr> rq_policy_id := Some (gr_policyId g), rq_request_commitment := Some (gr_commitment g) \<rparr>)"
    "proofs d = proofs db" "usage d = usage db" "compute_receipts d = compute_receipts db" "credentials d = credentials db"
  using that assms
  by (simp add: on_gate_def record_verdict_def inserting_def replace_row_def Let_def has_row_def map_of_row_update)

lemma discover_other:
  "usage (snd (discoverCandidates rt now m p db)) = usage db" "compute_receipts (snd (discoverCandidates rt now m p db)) = compute_receipts db"
proof -
  have "compute_receipts (snd (roll_rows now rows d)) = compute_receipts d" for rows d by (induction rows arbitrary: d) (auto simp: rollUsageDay_def)
  then show "usage (snd (discoverCandidates rt now m p db)) = usage db" "compute_receipts (snd (discoverCandidates rt now m p db)) = compute_receipts db"
    by (simp_all add: discoverCandidates_def Let_def case_prod_beta roll_rows_tables)
qed

lemma attest_ok:
  assumes g: "guard_open rt" and r: "map_of (requests db) (env_requestId env) = Some r" and p: "map_of (proofs db) (proof_id (env_requestId env)) = None"
    and v: "gr_proofStarted v" "gr_decision v = ALLOW"
    and c: "\<And>d. credentials d = credentials db \<Longrightarrow> candidates (fst (discoverCandidates rt now (aad_model (env_aad env)) (gr_policyId v) d)) \<noteq> []"
  obtains cands d where "on_attestation rt now ms env mode v None db = (Inr cands, True, d)" "map_of (requests d) (env_requestId env) = Some (r\<lparr> rq_proof_status := QUEUED \<rparr>)"
    "map_of (proofs d) (proof_id (env_requestId env)) = Some (queued_proof now (env_requestId env) (gr_imageId v))"
    "usage d = usage db" "compute_receipts d = compute_receipts db"
proof -
  let ?rid = "env_requestId env"
  have f: "flat [(lit ''request_id'', JStr ?rid), (lit ''policy_id'', JStr (gr_policyId v))]"
    "flat [(lit ''request_id'', JStr ?rid), (lit ''policy_id'', JStr (gr_policyId v)), (lit ''proof_system'', JStr (lit ''risc0'')), (lit ''guest_image_id'', JStr (gr_imageId v))]"
    "flat (verdict_event ?rid v)" by (simp_all add: flat_simps verdict_event_def)
  obtain d1 where d1: "emit rt now policy_started ?rid [(lit ''request_id'', JStr ?rid), (lit ''policy_id'', JStr (gr_policyId v))] db = Inr d1"
    "requests d1 = requests db" "proofs d1 = proofs db" "usage d1 = usage db" "compute_receipts d1 = compute_receipts db" "credentials d1 = credentials db"
    using emit_ok [OF g f(1)] by blast
  let ?d2 = "(update_request ?rid (\<lambda>r. r\<lparr> rq_proof_status := QUEUED \<rparr>) d1)\<lparr> proofs := proofs d1 @ [(proof_id ?rid, queued_proof now ?rid (gr_imageId v))] \<rparr>"
  obtain d3 where d3: "emit rt now proof_queued ?rid [(lit ''request_id'', JStr ?rid), (lit ''policy_id'', JStr (gr_policyId v)), (lit ''proof_system'', JStr (lit ''risc0'')),
      (lit ''guest_image_id'', JStr (gr_imageId v))] ?d2 = Inr d3"
    "requests d3 = requests ?d2" "proofs d3 = proofs ?d2" "usage d3 = usage ?d2" "compute_receipts d3 = compute_receipts ?d2" "credentials d3 = credentials ?d2"
    using emit_ok [OF g f(2)] by blast
  have q: "enqueue_proof rt now ?rid v d1 = Inr d3"
    using r p d1 d3(1) by (simp add: enqueue_proof_def Let_def insert_row_def has_row_def inserting_def map_of_row_update)
  obtain d4 where d4: "emit rt now policy_allowed ?rid (verdict_event ?rid v) d3 = Inr d4" "requests d4 = requests d3" "proofs d4 = proofs d3" "usage d4 = usage d3"
    "compute_receipts d4 = compute_receipts d3" "credentials d4 = credentials d3" using emit_ok [OF g f(3)] by blast
  obtain dis d5 where dis: "discoverCandidates rt now (aad_model (env_aad env)) (gr_policyId v) d4 = (dis, d5)" by fastforce
  have "candidates dis \<noteq> []" using c [of d4] dis d1(6) d3(6) d4(6) by simp
  then have a: "act_on_verdict rt now ms env mode v d3 = (Inr (candidates dis), d5)" using v d4(1) dis by (simp add: act_on_verdict_def)
  have t5: "requests d5 = requests d4" "proofs d5 = proofs d4" using discover_tables [of rt now "aad_model (env_aad env)" "gr_policyId v" d4] dis by simp_all
  have u5: "usage d5 = usage d4" "compute_receipts d5 = compute_receipts d4"
    using discover_other [of rt now "aad_model (env_aad env)" "gr_policyId v" d4] dis by simp_all
  have "on_attestation rt now ms env mode v None db = (Inr (candidates dis), True, d5)"
    using d1(1) v q a by (simp add: on_attestation_def verdict_events_def)
  then show thesis
    by (rule that) (use r p d1 d3 d4 t5 u5 in \<open>simp_all add: map_of_row_update map_add_def\<close>)
qed

lemma execute_ok:
  assumes g: "guard_open rt" and r: "map_of (requests db) rid = Some r" "map_of (usage db) (usage_id rid) = None" "map_of (compute_receipts db) (receipt_id rid) = None"
    and e: "er_status result = EX_COMPLETE" "er_attempts result = []" "er_selected result = Some sel" "er_receipt result = Some receipt"
  obtains d where "on_execute rt now ms rid mode v (TeeOk result) db = (complete_reply ms rid result sel receipt, d)"
    "map_of (requests d) rid = Some (complete_row now ms mode result sel r)" "proofs d = proofs db"
proof -
  have f: "flat (route_event rid result sel)" "flat (started_event rid result sel)" "flat (completed_event ms rid result sel)"
    "flat [(lit ''request_id'', JStr rid), (lit ''receipt_id'', JStr (receipt_id rid)), (lit ''commitment'', JStr (er_commitment result))]"
    by (simp_all add: flat_simps route_event_def started_event_def completed_event_def)
  obtain d1 where d1: "emit rt now route_selected rid (route_event rid result sel) db = Inr d1" "requests d1 = requests db" "usage d1 = usage db" "compute_receipts d1 = compute_receipts db"
    using emit_ok [OF g f(1)] by blast
  obtain d2 where d2: "emit rt now provider_started rid (started_event rid result sel) d1 = Inr d2" "requests d2 = requests d1" "usage d2 = usage d1" "compute_receipts d2 = compute_receipts d1"
    using emit_ok [OF g f(2)] by blast
  obtain d3 where d3: "recordUsage rt now (served_usage rt rid result sel) d2 = Inr d3" "requests d3 = requests d2" "compute_receipts d3 = compute_receipts d2"
    using r d1 d2 by (simp add: recordUsage_def insert_usage_def insert_row_def has_row_def served_usage_def)
  let ?d = "update_request rid (complete_row now ms mode result sel) d3"
  obtain d4 where d4: "emit rt now provider_completed rid (completed_event ms rid result sel) ?d = Inr d4" "requests d4 = requests ?d" "compute_receipts d4 = compute_receipts ?d"
    using emit_ok [OF g f(3)] by blast
  obtain d5 where d5: "store_receipt now rid receipt d4 = Inr d5" "requests d5 = requests d4"
    using r d1 d2 d3 d4 by (simp add: store_receipt_def insert_row_def has_row_def inserting_def map_of_row_update)
  obtain d6 where d6: "emit rt now receipt_created rid [(lit ''request_id'', JStr rid), (lit ''receipt_id'', JStr (receipt_id rid)), (lit ''commitment'', JStr (er_commitment result))] d5 = Inr d6"
    "requests d6 = requests d5" using emit_ok [OF g f(4)] by blast
  have c: "complete_request rt now ms rid mode result sel receipt db = Inr d6"
    using d1(1) d2(1) d3(1) d4(1) d5(1) d6(1) by (simp add: complete_request_def book_served_def inserting_def)
  then have x: "on_execute rt now ms rid mode v (TeeOk result) db = (complete_reply ms rid result sel receipt, d6)"
    using e by (simp add: on_execute_def on_result_def)
  moreover have "proofs d6 = proofs db" using complete_request_row [OF c] by simp
  ultimately show thesis using that r d1 d2 d3 d4 d5 d6 by (simp add: map_of_row_update)
qed

section \<open>A request from envelope to badge\<close>

definition run_db :: database where
  "run_db = sample_db\<lparr> requests := [] \<rparr>"

definition run_env :: SecureRequestEnvelope where
  "run_env = \<lparr> env_version = lit ''ctn-1'', env_requestId = lit ''req_1'', env_enclaveKeyId = lit ''k'', env_enc = lit ''e'', env_ciphertext = lit ''c'',
     env_aad = \<lparr> aad_apiVersion = lit ''v1'', aad_requestedPolicy = lit ''safety-v1'', aad_model = lit ''ctn/demo-model-a'' \<rparr> \<rparr>"

definition run_verdict :: GateResult where
  "run_verdict = \<lparr> gr_decision = ALLOW, gr_commitment = lit ''0xc'', gr_policyId = lit ''p'', gr_imageId = lit ''img'',
     gr_decisionReceipt = \<lparr> sdr_receipt = \<lparr> dr_requestId = lit ''req_1'', dr_requestCommitment = lit ''0xc'', dr_policyId = lit ''p'', dr_decision = ALLOW,
        dr_imageId = lit ''img'', dr_gateWallMs = 1 \<rparr>, sdr_enclaveSignature = lit ''s'' \<rparr>, gr_proofStarted = True, gr_gateWallMs = 1 \<rparr>"

definition run_receipt :: SignedComputeReceipt where
  "run_receipt = \<lparr> scr_receipt = \<lparr> cr_requestId = lit ''req_1'', cr_requestCommitment = lit ''0xc'', cr_teeMode = lit ''simulation'', cr_buildId = [], cr_attestationDigest = [],
     cr_policyId = lit ''p'', cr_decision = ALLOW, cr_zkReceiptDigest = lit ''pending'', cr_provider = lit ''mock'', cr_model = lit ''ctn/demo-model-a'',
     cr_credentialId = lit ''cred_0a1b2c3d4e5f'', cr_contributorId = lit ''contrib_1'', cr_attempt = 1, cr_inputTokens = Some 1, cr_outputTokens = Some 1,
     cr_estimatedCostMicroUsd = Some 1, cr_pricingTableDigest = None, cr_receivedAt = [], cr_policyMs = 1, cr_proofMs = None, cr_providerTotalMs = 1,
     cr_upstreamRequestHash = [], cr_upstreamResponseHash = [] \<rparr>, scr_enclaveSignature = lit ''s'' \<rparr>"

definition run_selected :: Selected where
  "run_selected = \<lparr> sel_credentialId = lit ''cred_0a1b2c3d4e5f'', sel_contributorId = lit ''contrib_1'', sel_provider = lit ''mock'', sel_model = lit ''ctn/demo-model-a'', sel_attempt = 1 \<rparr>"

definition run_result :: ExecuteResult where
  "run_result = \<lparr> er_status = EX_COMPLETE, er_commitment = lit ''0xc'', er_policyId = lit ''p'', er_policyMs = 1, er_encryptedResponse = None, er_receipt = Some run_receipt,
     er_attempts = [], er_selected = Some run_selected, er_inputTokens = Some 1, er_outputTokens = Some 1, er_estimatedCostMicroUsd = Some 1, er_providerTotalMs = Some 1, er_error = None \<rparr>"

definition run_proof :: ProofResponse where
  "run_proof = \<lparr> pr_status = VERIFIED, pr_proofVerified = True, pr_proofMs = Some 9, pr_error = None, pr_imageId = Some (lit ''img''), pr_artifactDigest = Some (lit ''d''),
     pr_decisionReceiptDigest = Some (lit ''r''), pr_artifact = None, pr_binding = None \<rparr>"

definition run_answers :: "jstr \<Rightarrow> ProofResponse tee_result \<Rightarrow> bool" where
  "run_answers rid a \<longleftrightarrow> rid = lit ''req_1'' \<and> a = TeeOk run_proof"

lemma run_offers: "credentials d = credentials run_db \<Longrightarrow> candidates (fst (discoverCandidates sample_runtime 5 (lit ''ctn/demo-model-a'') (lit ''p'') d)) \<noteq> []"
proof -
  assume c: "credentials d = credentials run_db"
  have "map_wf (credentials d)" using c sample_db_wf by (simp add: run_db_def)
  from offered_iff [OF this, of "to_candidate (lit ''cred_0a1b2c3d4e5f'', sample_cred)" sample_runtime 5 "lit ''ctn/demo-model-a''" "lit ''p''"]
  have "to_candidate (lit ''cred_0a1b2c3d4e5f'', sample_cred) \<in> set (candidates (fst (discoverCandidates sample_runtime 5 (lit ''ctn/demo-model-a'') (lit ''p'') d)))"
    using c sample_may_serve by (simp add: run_db_def sample_db_def sample_rolled) (simp add: sample_cred_def)
  then show ?thesis by auto
qed

text \<open>The run up to the dispatch: one request awaits the enclave's answer and its proof is watched.\<close>

lemma run_dispatching:
  obtains s r where "(coord_step sample_runtime run_answers)\<^sup>*\<^sup>* (coordinator_boot run_db) s"
    "co_flights s = [\<lparr> fl_env = run_env, fl_mode = secure, fl_stage = AwaitExecute run_verdict \<rparr>]" "co_watchers s = [new_watcher 5 (lit ''req_1'')]" "co_replies s = []"
    "map_of (requests (co_db s)) (lit ''req_1'') = Some r" "rq_privacy_mode r = secure" "rq_status r = RECEIVED"
    "map_of (proofs (co_db s)) (proof_id (lit ''req_1'')) = Some (queued_proof 5 (lit ''req_1'') (lit ''img''))"
    "map_of (usage (co_db s)) (usage_id (lit ''req_1'')) = None" "map_of (compute_receipts (co_db s)) (receipt_id (lit ''req_1'')) = None"
proof -
  let ?S = "coord_step sample_runtime run_answers" and ?rid = "lit ''req_1''"
  have e: "env_requestId run_env = ?rid" "aad_model (env_aad run_env) = lit ''ctn/demo-model-a''" by (simp_all add: run_env_def)
  have n: "map_of (requests run_db) (env_requestId run_env) = None" by (simp add: run_db_def)
  obtain d1 where d1: "begin_request sample_runtime 5 run_env secure run_db = Inr d1" "map_of (requests d1) ?rid = Some (new_request_row 5 (lit ''ctn/demo-model-a'') secure)"
    "proofs d1 = proofs run_db" "usage d1 = usage run_db" "compute_receipts d1 = compute_receipts run_db" "credentials d1 = credentials run_db"
    using begin_ok [OF sample_guard n] e by metis
  let ?f = "\<lparr> fl_env = run_env, fl_mode = secure, fl_stage = AwaitGate \<rparr>"
  let ?s1 = "(coordinator_boot run_db)\<lparr> co_db := d1, co_flights := [?f] \<rparr>"
  have "check_envelope (Some run_env) run_db = None" by (simp add: check_envelope_def envelope_complete_def has_row_def run_env_def run_db_def)
  then have 1: "?S (coordinator_boot run_db) ?s1"
    using coord_step.accept [of secure run_env "coordinator_boot run_db" sample_runtime 5 d1 run_answers] d1(1) by (simp add: coordinator_boot_def)
  obtain d2 where d2: "on_gate sample_runtime 5 0 ?rid (TeeOk run_verdict) d1 = (Inr run_verdict, d2)"
    "map_of (requests d2) ?rid = Some ((new_request_row 5 (lit ''ctn/demo-model-a'') secure)\<lparr> rq_policy_id := Some (gr_policyId run_verdict), rq_request_commitment := Some (gr_commitment run_verdict) \<rparr>)"
    "proofs d2 = proofs d1" "usage d2 = usage d1" "compute_receipts d2 = compute_receipts d1" "credentials d2 = credentials d1"
    using gate_ok [OF d1(2)] by metis
  let ?s2 = "?s1\<lparr> co_db := d2, co_flights := [?f\<lparr> fl_stage := AwaitAttestation run_verdict \<rparr>] \<rparr>"
  have 2: "?S ?s1 ?s2"
    using coord_step.gate [of ?s1 "[]" ?f "[]" sample_runtime 5 0 "TeeOk run_verdict" run_verdict d2 run_answers] d2(1) e by simp
  have c: "candidates (fst (discoverCandidates sample_runtime 5 (aad_model (env_aad run_env)) (gr_policyId run_verdict) d)) \<noteq> []" if "credentials d = credentials d2" for d
    using run_offers [of d] that d1(6) d2(6) e by (simp add: run_verdict_def)
  obtain cands d3 where d3: "on_attestation sample_runtime 5 0 run_env secure run_verdict None d2 = (Inr cands, True, d3)"
    "map_of (requests d3) ?rid = Some ((new_request_row 5 (lit ''ctn/demo-model-a'') secure)\<lparr> rq_policy_id := Some (gr_policyId run_verdict), rq_request_commitment := Some (gr_commitment run_verdict), rq_proof_status := QUEUED \<rparr>)"
    "map_of (proofs d3) (proof_id ?rid) = Some (queued_proof 5 ?rid (lit ''img''))" "usage d3 = usage d2" "compute_receipts d3 = compute_receipts d2"
  proof (rule attest_ok [OF sample_guard, of d2 run_env _ run_verdict 5 0 secure])
    show "map_of (requests d2) (env_requestId run_env) = Some ((new_request_row 5 (lit ''ctn/demo-model-a'') secure)\<lparr> rq_policy_id := Some (gr_policyId run_verdict), rq_request_commitment := Some (gr_commitment run_verdict) \<rparr>)"
      using d2(2) e by simp
    show "map_of (proofs d2) (proof_id (env_requestId run_env)) = None" using d1(3) d2(3) by (simp add: run_db_def sample_db_def empty_db_def)
  qed (use c e in \<open>simp_all add: run_verdict_def\<close>)
  let ?s3 = "?s2\<lparr> co_db := d3, co_flights := [?f\<lparr> fl_stage := AwaitExecute run_verdict \<rparr>], co_watchers := [new_watcher 5 ?rid] \<rparr>"
  have 3: "?S ?s2 ?s3"
    using coord_step.attested [of ?s2 "[]" "?f\<lparr> fl_stage := AwaitAttestation run_verdict \<rparr>" "[]" run_verdict sample_runtime 5 0 None cands True d3 run_answers] d3(1) e
    by (simp add: coordinator_boot_def)
  have "?S\<^sup>*\<^sup>* (coordinator_boot run_db) ?s3" using 1 2 3 by (meson converse_rtranclp_into_rtranclp rtranclp.rtrancl_refl)
  then show thesis
    by (rule that [of ?s3 "(new_request_row 5 (lit ''ctn/demo-model-a'') secure)\<lparr> rq_policy_id := Some (gr_policyId run_verdict), rq_request_commitment := Some (gr_commitment run_verdict), rq_proof_status := QUEUED \<rparr>"])
       (use d1 d2 d3 in \<open>simp_all add: coordinator_boot_def\<close>, simp_all add: new_request_row_def run_db_def sample_db_def empty_db_def)
qed

section \<open>The two orders in which a request can end\<close>

lemma run_completes:
  assumes "map_of (requests db) (lit ''req_1'') = Some r" "map_of (usage db) (usage_id (lit ''req_1'')) = None" "map_of (compute_receipts db) (receipt_id (lit ''req_1'')) = None"
  obtains d where "on_execute sample_runtime 6 1 (lit ''req_1'') secure run_verdict (TeeOk run_result) db = (complete_reply 1 (lit ''req_1'') run_result run_selected run_receipt, d)"
    "map_of (requests d) (lit ''req_1'') = Some (complete_row 6 1 secure run_result run_selected r)" "proofs d = proofs db"
  by (rule execute_ok [OF sample_guard assms, of run_result run_selected run_receipt]) (auto simp: run_result_def)

lemma run_verifies:
  assumes "map_of (requests db) (lit ''req_1'') = Some r"
  shows "map_of (requests (watch_settled rt now (new_watcher 5 (lit ''req_1'')) run_proof db)) (lit ''req_1'')
    = Some (let r1 = r\<lparr> rq_proof_status := VERIFIED, rq_proof_ms := Some 9 \<rparr> in if rq_privacy_mode r = secure \<and> rq_status r = COMPLETE
        then r1\<lparr> rq_trust_status := Some CONFIDENTIAL_VERIFIED \<rparr> else r1)"
  using assms by (simp add: watch_settled_def Let_def run_proof_def new_watcher_def map_of_row_update)

text \<open>The dispatch answers first: the badge is given.\<close>

lemma run_badge:
  obtains s r where "(coord_step sample_runtime run_answers)\<^sup>*\<^sup>* (coordinator_boot run_db) s" "map_of (requests (co_db s)) (lit ''req_1'') = Some r"
    "rq_trust_status r = Some CONFIDENTIAL_VERIFIED" "co_replies s = [(lit ''req_1'', complete_reply 1 (lit ''req_1'') run_result run_selected run_receipt)]"
proof -
  obtain s r where s: "(coord_step sample_runtime run_answers)\<^sup>*\<^sup>* (coordinator_boot run_db) s"
    "co_flights s = [\<lparr> fl_env = run_env, fl_mode = secure, fl_stage = AwaitExecute run_verdict \<rparr>]" "co_watchers s = [new_watcher 5 (lit ''req_1'')]" "co_replies s = []"
    "map_of (requests (co_db s)) (lit ''req_1'') = Some r" "rq_privacy_mode r = secure" "rq_status r = RECEIVED"
    "map_of (usage (co_db s)) (usage_id (lit ''req_1'')) = None" "map_of (compute_receipts (co_db s)) (receipt_id (lit ''req_1'')) = None"
    by (rule run_dispatching)
  obtain d where d: "on_execute sample_runtime 6 1 (lit ''req_1'') secure run_verdict (TeeOk run_result) (co_db s) = (complete_reply 1 (lit ''req_1'') run_result run_selected run_receipt, d)"
    "map_of (requests d) (lit ''req_1'') = Some (complete_row 6 1 secure run_result run_selected r)" by (rule run_completes [OF s(5,8,9)])
  let ?s1 = "s\<lparr> co_db := d, co_flights := [], co_replies := [(lit ''req_1'', complete_reply 1 (lit ''req_1'') run_result run_selected run_receipt)] \<rparr>"
  have 1: "coord_step sample_runtime run_answers s ?s1"
    using coord_step.executed [of s "[]" "\<lparr> fl_env = run_env, fl_mode = secure, fl_stage = AwaitExecute run_verdict \<rparr>" "[]" run_verdict sample_runtime 6 1 "TeeOk run_result"] s(2,4) d(1)
    by (simp add: run_env_def)
  let ?w = "new_watcher 5 (lit ''req_1'')" and ?d2 = "watch_settled sample_runtime 7 (new_watcher 5 (lit ''req_1'')) run_proof d"
  have "watch_answer sample_runtime 7 ?w (TeeOk run_proof) d = (None, ?d2)" by (simp add: watch_answer_def run_proof_def)
  then have 2: "coord_step sample_runtime run_answers ?s1 (?s1\<lparr> co_db := ?d2, co_watchers := [] \<rparr>)"
    using coord_step.polled [of ?s1 "[]" ?w "[]" run_answers "TeeOk run_proof" sample_runtime 7 None ?d2] s(3) by (simp add: run_answers_def new_watcher_def)
  have "(coord_step sample_runtime run_answers)\<^sup>*\<^sup>* (coordinator_boot run_db) (?s1\<lparr> co_db := ?d2, co_watchers := [] \<rparr>)" using s(1) 1 2 by simp
  moreover obtain r' where "map_of (requests ?d2) (lit ''req_1'') = Some r'" "rq_trust_status r' = Some CONFIDENTIAL_VERIFIED"
    using run_verifies [OF d(2), of sample_runtime 7] s(6) by (simp add: complete_row_def)
  ultimately show thesis by (intro that [of "?s1\<lparr> co_db := ?d2, co_watchers := [] \<rparr>" r']) simp_all
qed

theorem verified_badge_sound_witness:
  "\<exists>s r. (coord_step sample_runtime run_answers)\<^sup>*\<^sup>* (coordinator_boot run_db) s \<and> map_of (requests (co_db s)) (lit ''req_1'') = Some r
     \<and> rq_trust_status r = Some CONFIDENTIAL_VERIFIED \<and> rq_policy_result r = Some ALLOW \<and> rq_proof_status r = VERIFIED"
proof -
  obtain s r where s: "(coord_step sample_runtime run_answers)\<^sup>*\<^sup>* (coordinator_boot run_db) s" "map_of (requests (co_db s)) (lit ''req_1'') = Some r"
    "rq_trust_status r = Some CONFIDENTIAL_VERIFIED" by (rule run_badge)
  have "requests run_db = []" "proofs run_db = []" by (simp_all add: run_db_def sample_db_def empty_db_def)
  from verified_badge_sound [OF this s] s show ?thesis by blast
qed

theorem ledger_matches_replies_witness:
  "\<exists>s rep. (coord_step sample_runtime run_answers)\<^sup>*\<^sup>* (coordinator_boot run_db) s \<and> (lit ''req_1'', rep) \<in> set (co_replies s) \<and> reply_code rep = 200
     \<and> (\<exists>r. map_of (requests (co_db s)) (lit ''req_1'') = Some r \<and> rq_status r = COMPLETE)"
proof -
  obtain s r where s: "(coord_step sample_runtime run_answers)\<^sup>*\<^sup>* (coordinator_boot run_db) s" "map_of (requests (co_db s)) (lit ''req_1'') = Some r"
    "co_replies s = [(lit ''req_1'', complete_reply 1 (lit ''req_1'') run_result run_selected run_receipt)]" by (rule run_badge)
  have "requests run_db = []" "proofs run_db = []" by (simp_all add: run_db_def sample_db_def empty_db_def)
  from ledger_matches_replies [OF this s(1)] s(3) have "rq_status r = COMPLETE"
    using s(2) by (auto simp: complete_reply_def internal_error_def)
  then show ?thesis using s
    by (intro exI [of _ s] exI [of _ "complete_reply 1 (lit ''req_1'') run_result run_selected run_receipt"]) (auto simp: complete_reply_def)
qed

text \<open>The proof settles first: the watcher finds the request not yet COMPLETE and leaves its trust status, then the
  completion writes CONFIDENTIAL_PROOF_PENDING. The proof is VERIFIED, nobody watches it any more, and the request
  reads pending forever.\<close>

lemma proof_first_stays_pending:
  assumes row: "map_of (requests db) (wt_requestId w) = Some r" "rq_status r = RECEIVED"
    and res: "pr_status res = VERIFIED" "pr_proofVerified res" "watch_answer rt now w (TeeOk res) db = (w', db1)"
    and ex: "on_execute rt later ms (wt_requestId w) secure g (TeeOk result) db1 = (rep, db2)" "reply_code rep = 200"
  shows "w' = None \<and> (\<exists>r2. map_of (requests db2) (wt_requestId w) = Some r2 \<and> rq_status r2 = COMPLETE \<and> rq_proof_status r2 = VERIFIED
     \<and> rq_trust_status r2 = Some CONFIDENTIAL_PROOF_PENDING)"
proof -
  let ?rid = "wt_requestId w"
  have w: "w' = None" "db1 = watch_settled rt now w res db" using res by (auto simp: watch_answer_def)
  have r1: "\<exists>r1. map_of (requests db1) ?rid = Some r1 \<and> rq_proof_status r1 = VERIFIED"
    unfolding w(2) using row res by (simp add: watch_settled_def Let_def map_of_row_update)
  have no: "reply_code rep \<noteq> 200" if "closing rt later ?rid u ty pl (error_reply c e m i x y) d = (rep, db2)" "c \<noteq> 200" for u ty pl c e m i x y d
    using closing_row(3) [OF that(1)] that(2) by (auto simp: internal_error_def)
  have st: "er_status result = EX_COMPLETE \<or> er_status result = EX_FAILED"
  proof (rule ccontr)
    assume "\<not> ?thesis"
    with ex(1) have "closing rt later ?rid (failed_row later (lit ''CTN_INTERNAL'') None) request_failed
        (failed_event ?rid [(lit ''commitment'', JStr (gr_commitment g))] (lit ''CTN_INTERNAL'') 0 ms)
        (error_reply 502 (lit ''CTN_INTERNAL'') (lit ''The confidential service returned an unrecognized result.'') ?rid [] []) db1 = (rep, db2)"
      by (simp add: on_execute_def)
    from no [OF this] ex(2) show False by simp
  qed
  then have onr: "on_result rt later ms ?rid secure result db1 = (rep, db2)" using ex(1) by (auto simp: on_execute_def)
  obtain d where d: "persist_attempts rt later ?rid (er_attempts result) db1 = Inr d"
    using onr ex(2) by (cases "persist_attempts rt later ?rid (er_attempts result) db1") (auto simp: on_result_def internal_error_def)
  then have rd: "requests d = requests db1" using agrees_attempts [of db1 rt later ?rid "er_attempts result"] by (simp add: agrees_def)
  obtain sel receipt where c: "er_status result = EX_COMPLETE" "er_selected result = Some sel" "er_receipt result = Some receipt"
  proof (cases "dispatch_failed rt later ms ?rid result d = (rep, db2)")
    case True
    then show ?thesis using no ex(2) unfolding dispatch_failed_def Let_def by fastforce
  next
    case False
    then show ?thesis using onr d that by (auto simp: on_result_def split: execute_status.splits option.splits)
  qed
  obtain e where e: "complete_request rt later ms ?rid secure result sel receipt d = Inr e" "db2 = e"
    using onr d c ex(2) by (cases "complete_request rt later ms ?rid secure result sel receipt d") (auto simp: on_result_def internal_error_def)
  from complete_request_row [OF e(1)] e(2) rd have "requests db2 = row_update ?rid (complete_row later ms secure result sel) (requests db1)" by auto
  with r1 w(1) show ?thesis by (auto simp: map_of_row_update complete_row_def)
qed

end
