(* ===== verification/Backing.thy ===== *)
theory Backing
  imports Coordinator_Runs
begin

text \<open>
  The rows behind a reply (\<open>runSecureRequest\<close> and \<open>watchProof\<close> of \<^verbatim>\<open>services/coordinator/src/index.ts\<close>, \<open>recordUsage\<close> of \<^verbatim>\<open>routing.ts\<close>). A relation \<open>grows\<close> says what every
  segment of a handler, every watcher and every contributor call keeps of the ledger: receipts and usage rows stay as they
  are and a recorded verdict stays recorded. On top of it, the completion's own inserts give the invariant that a reply
  of 200 is backed by its receipt, its usage row and its verdict.
\<close>

section \<open>What the ledger keeps\<close>

text \<open>What no handler takes back: a stored receipt, a usage row, and that a verdict was recorded.\<close>

definition grows :: "database \<Rightarrow> database \<Rightarrow> bool" where
  "grows db db' \<longleftrightarrow> map_of (compute_receipts db) \<subseteq>\<^sub>m map_of (compute_receipts db') \<and> map_of (usage db) \<subseteq>\<^sub>m map_of (usage db')
     \<and> dom (map_of (decision_receipts db)) \<subseteq> dom (map_of (decision_receipts db'))"

lemma grows_same:
  "compute_receipts db' = compute_receipts db \<Longrightarrow> usage db' = usage db \<Longrightarrow> decision_receipts db' = decision_receipts db \<Longrightarrow> grows db db'"
  by (simp add: grows_def)

lemma grows_refl [simp]: "grows db db"
  by (simp add: grows_def)

lemma grows_trans: "grows a b \<Longrightarrow> grows b c \<Longrightarrow> grows a c"
  by (auto simp: grows_def intro: map_le_trans)

lemma grows_emit: "grows db (wrote (emit rt now ty agg payload db))"
  by (cases "emit rt now ty agg payload db") (auto intro!: grows_same dest: emit_Inl emit_Inr)

lemma grows_update_request [simp]: "grows db (update_request k f db)"
  by (simp add: grows_same update_request_def)

lemma grows_update_credential [simp]: "grows db (update_credential k f db)"
  by (simp add: grows_same update_credential_def)

lemmas grows_credential = grows_trans [OF grows_update_credential]

lemma grows_update_proof [simp]: "grows db (update_proof k f db)"
  by (simp add: grows_same update_proof_def)

lemma grows_closing: "grows db (snd (closing rt now rid upd ty payload r db))"
  unfolding closing_eq snd_conv by (rule grows_trans [OF grows_update_request grows_emit])

lemma grows_closed:
  assumes "closing rt now rid upd ty payload (error_reply code e m i ex mf) db = (r, db')" "code \<noteq> 200"
  shows "grows db db' \<and> reply_code r \<noteq> 200"
  using assms(2) grows_closing [of db rt now rid upd ty payload "error_reply code e m i ex mf"] closing_row(3) [OF assms(1)] assms(1)
  by (auto simp: internal_error_def)

lemma grows_then:
  assumes "grows db (wrote r)" "\<And>d. r = Inr d \<Longrightarrow> grows d (wrote (k d))"
  shows "grows db (wrote (and_then r k))"
  using assms by (cases r) (auto intro: grows_trans)

lemma insert_grows: "insert_row p k v t = Inr t' \<Longrightarrow> map_of t \<subseteq>\<^sub>m map_of t'"
  using insert_row_lookup [of p k v t t'] by (force simp: map_le_def insert_row_Inr has_row_def)

lemma grows_insert_usage: "insert_usage now a db = Inr d \<Longrightarrow> grows db d"
  by (auto simp: insert_usage_def grows_def split: sum.splits dest: insert_grows)

lemma grows_recorded: "recordUsage rt now a db = Inr d \<Longrightarrow> grows db d"
  by (auto simp: recordUsage_def split: sum.splits intro: grows_trans dest!: grows_insert_usage)

lemma grows_assumed: "grows db (snd (recordAssumedUsage rt now rid cid uid spend db))"
  by (auto simp: recordAssumedUsage_def Let_def split: sum.splits intro: grows_credential dest!: grows_insert_usage)

lemma grows_discover: "grows db (snd (discoverCandidates rt now m p db))"
proof -
  have "grows d (snd (roll_rows now rows d))" for rows d
    by (induction rows arbitrary: d) (auto simp: rollUsageDay_def intro: grows_credential)
  then show ?thesis by (simp add: discoverCandidates_def Let_def case_prod_beta)
qed

lemma grows_outcome: "grows db (snd (applyAttemptOutcome now cid st cls db))"
  by (simp add: applyAttemptOutcome_def)

lemma grows_emitEvent: "emitEvent rt now ty agg payload db = Some d \<Longrightarrow> grows db d"
  using operational_tables [OF emitEvent_operational] by (intro grows_same) auto

lemma grows_begin: "grows db (wrote (begin_request rt now env mode db))"
  unfolding begin_request_def
  by (rule grows_then) (auto simp: inserting_def grows_emit intro: grows_same split: sum.splits)

lemma grows_gate:
  assumes "on_gate rt now ms rid answer db = (x, db')"
  shows "grows db db'" "x = Inr g \<Longrightarrow> rid \<in> dom (map_of (decision_receipts db'))" "x = Inl rep \<Longrightarrow> reply_code rep \<noteq> 200"
proof -
  have v: "grows db d" "r = Inr d \<Longrightarrow> rid \<in> dom (map_of (decision_receipts d))" if "record_verdict now rid gt db = r" "r = Inl d \<or> r = Inr d" for gt r d
    using that by (auto simp: record_verdict_def inserting_def replace_row_def grows_def store_simps map_add_def update_request_def Let_def split: if_splits option.splits)
  have "grows db db' \<and> (\<forall>g. x = Inr g \<longrightarrow> rid \<in> dom (map_of (decision_receipts db'))) \<and> (\<forall>rep. x = Inl rep \<longrightarrow> reply_code rep \<noteq> 200)"
  proof (cases answer)
    case (TeeOk gt)
    then show ?thesis using assms v [OF refl, of gt] by (auto simp: on_gate_def internal_error_def split: sum.splits)
  next
    case (EnclaveRejection code message st)
    then show ?thesis using assms by (auto simp: on_gate_def gate_refused_def split: prod.splits if_splits dest!: grows_closed)
  next
    case EnclaveUnavailable
    then show ?thesis using assms by (auto simp: on_gate_def enclave_down_def split: prod.splits dest!: grows_closed)
  qed
  then show "grows db db'" "x = Inr g \<Longrightarrow> rid \<in> dom (map_of (decision_receipts db'))" "x = Inl rep \<Longrightarrow> reply_code rep \<noteq> 200" by blast+
qed

lemma grows_act:
  assumes "act_on_verdict rt now ms env mode g db = (x, db')"
  shows "grows db db' \<and> (\<forall>rep. x = Inl rep \<longrightarrow> reply_code rep \<noteq> 200)"
proof (cases "gr_decision g = DENY")
  case True
  then show ?thesis using assms by (auto simp: act_on_verdict_def deny_request_def Let_def split: prod.splits dest!: grows_closed)
next
  case False
  let ?e = "emit rt now policy_allowed (env_requestId env) (verdict_event (env_requestId env) g) db"
  have e: "grows db (wrote ?e)" by (rule grows_emit)
  show ?thesis
  proof (cases ?e)
    case (Inl d)
    then show ?thesis using assms False e by (auto simp: act_on_verdict_def Let_def internal_error_def)
  next
    case (Inr d)
    obtain disc d' where disc: "discoverCandidates rt now (aad_model (env_aad env)) (gr_policyId g) d = (disc, d')" by fastforce
    have d': "grows db d'" using grows_trans [OF _ grows_discover [of d rt now "aad_model (env_aad env)" "gr_policyId g"]] e Inr disc by simp
    show ?thesis
    proof (cases "candidates disc = []")
      case True
      then obtain r where "no_capacity rt now ms (env_requestId env) g (excluded disc) d' = (r, db')" "x = Inl r"
        using assms False Inr disc by (auto simp: act_on_verdict_def Let_def split: prod.splits)
      then show ?thesis using d' unfolding no_capacity_def by (auto dest!: grows_closed intro: grows_trans)
    next
      case False
      then show ?thesis using assms \<open>gr_decision g \<noteq> DENY\<close> Inr disc d' by (auto simp: act_on_verdict_def Let_def)
    qed
  qed
qed

lemma grows_attested:
  assumes "on_attestation rt now ms env mode g att db = (x, watching, db')"
  shows "grows db db' \<and> (\<forall>rep. x = Inl rep \<longrightarrow> reply_code rep \<noteq> 200)"
proof -
  have v: "grows db (wrote (verdict_events rt now (env_requestId env) g att db))"
    unfolding verdict_events_def by (rule grows_then) (auto simp: grows_emit split: option.splits)
  have q: "grows d (wrote (enqueue_proof rt now (env_requestId env) g d))" for d
    unfolding enqueue_proof_def Let_def
    by (rule grows_then) (auto simp: inserting_def grows_emit update_request_def intro!: grows_same split: sum.splits)
  show ?thesis
  proof (cases "verdict_events rt now (env_requestId env) g att db")
    case (Inl d)
    then show ?thesis using assms v by (auto simp: on_attestation_def internal_error_def)
  next
    case (Inr d)
    then have d: "grows db d" using v by simp
    show ?thesis
    proof (cases "gr_proofStarted g")
      case False
      then have "act_on_verdict rt now ms env mode g d = (x, db')" using assms Inr by (auto simp: on_attestation_def split: prod.splits)
      from grows_act [OF this] d show ?thesis by (auto intro: grows_trans)
    next
      case True
      show ?thesis
      proof (cases "enqueue_proof rt now (env_requestId env) g d")
        case (Inl e)
        then show ?thesis using assms True \<open>verdict_events _ _ _ _ _ _ = Inr d\<close> d q [of d]
          by (auto simp: on_attestation_def internal_error_def intro: grows_trans)
      next
        case (Inr e)
        then have "act_on_verdict rt now ms env mode g e = (x, db')"
          using assms True \<open>verdict_events _ _ _ _ _ _ = Inr d\<close> by (auto simp: on_attestation_def split: prod.splits)
        from grows_act [OF this] d q [of d] Inr show ?thesis by (auto intro: grows_trans)
      qed
    qed
  qed
qed

lemma grows_attempt: "grows db (wrote (persist_attempt rt now rid a db))"
proof -
  obtain act d where o: "applyAttemptOutcome now (ar_credentialId a) (ar_status a) (ar_classification a) db = (act, d)" by fastforce
  then have d: "grows db d" using grows_outcome by (metis snd_conv)
  have b: "grows d (book_assumed rt now rid a (d\<lparr> provider_attempts := t \<rparr>))" for t
    using grows_assumed [of "d\<lparr> provider_attempts := t \<rparr>"] by (auto simp: book_assumed_def grows_def)
  have "grows d (wrote (persist_attempt rt now rid a db))"
    unfolding persist_attempt_def o prod.case by (rule grows_then) (auto simp: inserting_def grows_emit b split: sum.splits)
  with d show ?thesis by (rule grows_trans)
qed

lemma grows_attempts: "grows db (wrote (persist_attempts rt now rid as db))"
proof (induction as arbitrary: db)
  case (Cons a as)
  show ?case unfolding persist_attempts.simps by (rule grows_then [OF grows_attempt Cons.IH])
qed simp

lemma grows_stored: "grows d (wrote (store_receipt now rid receipt d))"
  by (auto simp: store_receipt_def inserting_def grows_def split: sum.splits dest: insert_grows)

lemma grows_booked: "grows d (wrote (book_served rt now rid result sel d))"
  by (auto simp: book_served_def inserting_def split: sum.splits dest: grows_recorded)

section \<open>A reply of 200 and its rows\<close>

text \<open>What a reply of 200 says is in the ledger: the receipt it carries, under the id it names, the usage of the
  credential it names, and a recorded verdict.\<close>

definition reply_backed :: "runtime \<Rightarrow> database \<Rightarrow> jstr \<Rightarrow> reply \<Rightarrow> bool" where
  "reply_backed rt db rid rep \<longleftrightarrow> (\<exists>ms result sel receipt c u. rep = complete_reply ms rid result sel receipt
     \<and> rid \<in> dom (map_of (decision_receipts db))
     \<and> map_of (compute_receipts db) (receipt_id rid) = Some c \<and> cp_request_id c = rid
     \<and> cp_receipt c = scr_receipt receipt \<and> cp_signature c = scr_enclaveSignature receipt
     \<and> map_of (usage db) (usage_id rid) = Some u \<and> us_request_id u = rid
     \<and> us_credential_id u = sel_credentialId sel \<and> us_contributor_id u = sel_contributorId sel
     \<and> us_input_tokens u = or_zero (er_inputTokens result) \<and> us_output_tokens u = or_zero (er_outputTokens result)
     \<and> us_estimated_cost_usd u = dbl rt (of_int (or_zero (er_estimatedCostMicroUsd result)) / 1000000))"

lemma grown:
  assumes "grows db db'"
  shows "map_of (compute_receipts db) k = Some c \<Longrightarrow> map_of (compute_receipts db') k = Some c"
    and "map_of (usage db) k = Some u \<Longrightarrow> map_of (usage db') k = Some u"
    and "k \<in> dom (map_of (decision_receipts db)) \<Longrightarrow> k \<in> dom (map_of (decision_receipts db'))"
  using assms by (auto simp: grows_def map_le_def dom_def)

lemma reply_backed_later:
  assumes "reply_backed rt db rid rep" "grows db db'"
  shows "reply_backed rt db' rid rep"
  using assms(1) grown [OF assms(2)] unfolding reply_backed_def by blast

lemma complete_grows: "grows db (wrote (complete_request rt now ms rid mode result sel receipt db))"
  unfolding complete_request_def
  by (intro grows_then grows_emit grows_booked grows_stored grows_trans [OF grows_update_request grows_emit])

lemma booked_usage:
  assumes "book_served rt now rid result sel db = Inr d"
  shows "\<exists>u. map_of (usage d) (usage_id rid) = Some u \<and> us_request_id u = rid \<and> us_credential_id u = sel_credentialId sel
    \<and> us_contributor_id u = sel_contributorId sel \<and> us_input_tokens u = or_zero (er_inputTokens result)
    \<and> us_output_tokens u = or_zero (er_outputTokens result)
    \<and> us_estimated_cost_usd u = dbl rt (of_int (or_zero (er_estimatedCostMicroUsd result)) / 1000000)"
  using assms
  by (auto simp: book_served_def inserting_def recordUsage_def insert_usage_def served_usage_def update_credential_def
      split: sum.splits dest!: insert_row_lookup)

lemma stored_receipt:
  assumes "store_receipt now rid receipt db = Inr d"
  shows "\<exists>c. map_of (compute_receipts d) (receipt_id rid) = Some c \<and> cp_request_id c = rid
    \<and> cp_receipt c = scr_receipt receipt \<and> cp_signature c = scr_enclaveSignature receipt"
  using assms by (auto simp: store_receipt_def inserting_def split: sum.splits dest!: insert_row_lookup)

lemma complete_backed:
  assumes "complete_request rt now ms rid mode result sel receipt db = Inr db'" "rid \<in> dom (map_of (decision_receipts db))"
  shows "reply_backed rt db' rid (complete_reply ms rid result sel receipt)"
proof -
  from assms(1) obtain d1 d2 d3 d4 d5 where d: "emit rt now route_selected rid (route_event rid result sel) db = Inr d1"
    "emit rt now provider_started rid (started_event rid result sel) d1 = Inr d2" "book_served rt now rid result sel d2 = Inr d3"
    "emit rt now provider_completed rid (completed_event ms rid result sel) (update_request rid (complete_row now ms mode result sel) d3) = Inr d4"
    "store_receipt now rid receipt d4 = Inr d5"
    "emit rt now receipt_created rid [(lit ''request_id'', JStr rid), (lit ''receipt_id'', JStr (receipt_id rid)),
          (lit ''commitment'', JStr (er_commitment result))] d5 = Inr db'"
    unfolding complete_request_def and_then_Inr by blast
  let ?up = "update_request rid (complete_row now ms mode result sel) d3"
  have "grows ?up d4" using grows_emit [of ?up rt now provider_completed rid "completed_event ms rid result sel"] d(4) by simp
  moreover have "grows d4 d5" using grows_stored [of d4 now rid receipt] d(5) by simp
  moreover have c: "grows d5 db'" using emit_Inr [OF d(6)] by (intro grows_same) simp_all
  ultimately have u: "grows d3 db'" by (blast intro: grows_trans grows_update_request)
  have v: "rid \<in> dom (map_of (decision_receipts db'))"
    using grown(3) [OF complete_grows [of db rt now ms rid mode result sel receipt] assms(2)] assms(1) by simp
  obtain w where w: "map_of (usage d3) (usage_id rid) = Some w" "us_request_id w = rid" "us_credential_id w = sel_credentialId sel"
    "us_contributor_id w = sel_contributorId sel" "us_input_tokens w = or_zero (er_inputTokens result)"
    "us_output_tokens w = or_zero (er_outputTokens result)"
    "us_estimated_cost_usd w = dbl rt (of_int (or_zero (er_estimatedCostMicroUsd result)) / 1000000)"
    using booked_usage [OF d(3)] by blast
  obtain k where k: "map_of (compute_receipts d5) (receipt_id rid) = Some k" "cp_request_id k = rid"
    "cp_receipt k = scr_receipt receipt" "cp_signature k = scr_enclaveSignature receipt"
    using stored_receipt [OF d(5)] by blast
  show ?thesis using v grown(1) [OF c k(1)] k(2-) grown(2) [OF u w(1)] w(2-) unfolding reply_backed_def by blast
qed

lemma grows_executed:
  assumes "on_execute rt now ms rid mode g answer db = (rep, db')"
  shows "grows db db' \<and> (reply_code rep = 200 \<longrightarrow> rid \<in> dom (map_of (decision_receipts db)) \<longrightarrow> reply_backed rt db' rid rep)"
proof -
  show ?thesis
  proof (cases "\<exists>result. answer = TeeOk result \<and> (er_status result = EX_COMPLETE \<or> er_status result = EX_FAILED)")
    case False
    then show ?thesis using assms
      by (cases answer) (auto simp: on_execute_def enclave_down_def Let_def dest!: grows_closed)
  next
    case True
    then obtain result where r: "on_result rt now ms rid mode result db = (rep, db')" using assms by (auto simp: on_execute_def)
    note pa = grows_attempts [of db rt now rid "er_attempts result"]
    show ?thesis
    proof (cases "persist_attempts rt now rid (er_attempts result) db")
      case (Inl d)
      then show ?thesis using r pa by (auto simp: on_result_def internal_error_def)
    next
      case (Inr d)
      with pa have d: "grows db d" by simp
      then have dom: "rid \<in> dom (map_of (decision_receipts db)) \<Longrightarrow> rid \<in> dom (map_of (decision_receipts d))" unfolding grows_def by auto
      show ?thesis
      proof (cases "\<exists>sel receipt. er_status result = EX_COMPLETE \<and> er_selected result = Some sel \<and> er_receipt result = Some receipt")
        case True
        then obtain sel receipt where t: "er_status result = EX_COMPLETE" "er_selected result = Some sel" "er_receipt result = Some receipt" by blast
        note k = complete_grows [of d rt now ms rid mode result sel receipt]
        show ?thesis
        proof (cases "complete_request rt now ms rid mode result sel receipt d")
          case (Inl e)
          then show ?thesis using r Inr t d k by (auto simp: on_result_def internal_error_def intro: grows_trans)
        next
          case i: (Inr e)
          then show ?thesis using r Inr t d k complete_backed [OF i dom] by (auto simp: on_result_def intro: grows_trans)
        qed
      next
        case False
        then have "dispatch_failed rt now ms rid result d = (rep, db')"
          using r Inr by (auto simp: on_result_def split: execute_status.splits option.splits)
        with d show ?thesis by (auto simp: dispatch_failed_def Let_def intro: grows_trans dest!: grows_closed)
      qed
    qed
  qed
qed


text \<open>A receipt id forgets the prefix \<^verbatim>\<open>req_\<close>, so two requests can share one. The second of them to complete is booked
  and marked COMPLETE, then its receipt is refused: the client gets a 500 for an answer that was paid for.\<close>

lemma shared_receipt_refused:
  "receipt_id (lit ''req_x'') = receipt_id (lit ''x'')"
  "map_of (compute_receipts db) (receipt_id rid) = Some c \<Longrightarrow> \<nexists>d. complete_request rt now ms rid mode result sel receipt db = Inr d"
proof -
  show "receipt_id (lit ''req_x'') = receipt_id (lit ''x'')" by (simp add: receipt_id_def lit_def starts_with_def)
  assume c: "map_of (compute_receipts db) (receipt_id rid) = Some c"
  show "\<nexists>d. complete_request rt now ms rid mode result sel receipt db = Inr d"
  proof
    assume "\<exists>d. complete_request rt now ms rid mode result sel receipt db = Inr d"
    then obtain d1 d2 d3 d4 d5 where d: "emit rt now route_selected rid (route_event rid result sel) db = Inr d1"
      "emit rt now provider_started rid (started_event rid result sel) d1 = Inr d2" "book_served rt now rid result sel d2 = Inr d3"
      "emit rt now provider_completed rid (completed_event ms rid result sel) (update_request rid (complete_row now ms mode result sel) d3) = Inr d4"
      "store_receipt now rid receipt d4 = Inr d5"
      unfolding complete_request_def and_then_Inr by blast
    have "grows d2 d3" using grows_booked [of d2 rt now rid result sel] d(3) by simp
    moreover have "compute_receipts d2 = compute_receipts db" using emit_Inr [OF d(1)] emit_Inr [OF d(2)] by simp
    ultimately have "map_of (compute_receipts d3) (receipt_id rid) = Some c" using grown(1) c by simp
    then have "map_of (compute_receipts d4) (receipt_id rid) = Some c"
      using emit_Inr [OF d(4)] by (simp add: update_request_def)
    then show False using d(5) by (auto simp: store_receipt_def inserting_def insert_row_def has_row_def split: if_splits)
  qed
qed

section \<open>Watchers and contributor calls take nothing back\<close>

lemma grows_failed [simp]: "grows db (markFailed rt now rid err ms db)"
  unfolding markFailed_def Let_def
  by (rule grows_trans [OF grows_trans [OF grows_trans [OF grows_update_request grows_update_proof] grows_update_request] grows_emit])

lemma grows_watched:
  assumes "watch_answer rt now w answer db = (w', db')"
  shows "grows db db'"
proof -
  have t: "grows d (wrote (transition_event rt now w res d))" for d res
    by (auto simp: transition_event_def grows_emit)
  have p: "grows db (snd (watch_progress rt now w res db))" for res
  proof -
    have "grows db d \<Longrightarrow> grows db (case transition_event rt now w res d of Inl e \<Rightarrow> e | Inr e \<Rightarrow> e)" for d
      using t [of d res] by (cases "transition_event rt now w res d") (auto intro: grows_trans)
    note this [OF grows_trans [OF grows_update_request grows_update_proof]]
    moreover have "snd (case x of Inl e \<Rightarrow> (None, e) | Inr e \<Rightarrow> (Some v, e)) = (case x of Inl e \<Rightarrow> e | Inr e \<Rightarrow> e)" for x :: "database + database" and v :: watcher
      by (cases x) auto
    ultimately show ?thesis by (simp add: watch_progress_def Let_def)
  qed
  have s: "grows db (watch_settled rt now w res db)" for res
    unfolding watch_settled_def Let_def
    by (rule grows_trans [OF _ grows_emit]) (auto intro: grows_trans [OF grows_trans [OF grows_update_request grows_update_proof] grows_update_request] grows_trans [OF grows_update_request grows_update_proof])
  have "grows db (snd (watch_answer rt now w answer db))"
    using p s by (auto simp: watch_answer_def split: tee_result.splits)
  with assms show ?thesis by simp
qed

lemma grows_cred_step: "cred_step db db' \<Longrightarrow> grows db db'"
proof (induction rule: cred_step.induct)
  case (register db rt now i nm)
  then show ?case by (auto simp: postContributors_def Let_def split: sum.splits option.splits intro!: grows_same dest!: operational_tables [OF emitEvent_operational])
next
  case (store db rt now body ing)
  then show ?case by (auto simp: storeCredential_def Let_def split: sum.splits option.splits intro!: grows_same dest!: operational_tables [OF emitEvent_operational])
next
  case (patch db rt now cid body)
  then show ?case by (auto simp: patchCredential_def Let_def update_credential_def split: option.splits intro!: grows_same dest!: operational_tables [OF emitEvent_operational])
next
  case (revoke db rt now cid)
  then show ?case by (auto simp: deleteCredential_def Let_def update_credential_def split: option.splits intro!: grows_same dest!: operational_tables [OF emitEvent_operational])
qed (simp_all add: grows_discover grows_outcome grows_recorded grows_assumed)

section \<open>The invariant of the coordinator\<close>

text \<open>The invariant: a request past its gate has its verdict recorded, and every reply of 200 is backed.\<close>

definition backed_inv :: "runtime \<Rightarrow> coordinator \<Rightarrow> bool" where
  "backed_inv rt s \<longleftrightarrow>
     (\<forall>f \<in> set (co_flights s). fl_stage f \<noteq> AwaitGate \<longrightarrow> flight_id f \<in> dom (map_of (decision_receipts (co_db s))))
     \<and> (\<forall>(rid, rep) \<in> set (co_replies s). reply_code rep = 200 \<longrightarrow> reply_backed rt (co_db s) rid rep)"

lemma backed_inv_move:
  assumes "backed_inv rt s" "grows (co_db s) (co_db t)"
    and "\<And>f. f \<in> set (co_flights t) \<Longrightarrow> fl_stage f \<noteq> AwaitGate \<Longrightarrow>
           (\<exists>g \<in> set (co_flights s). flight_id g = flight_id f \<and> fl_stage g \<noteq> AwaitGate) \<or> flight_id f \<in> dom (map_of (decision_receipts (co_db t)))"
    and "\<And>rid rep. (rid, rep) \<in> set (co_replies t) \<Longrightarrow> reply_code rep = 200 \<Longrightarrow>
           (rid, rep) \<in> set (co_replies s) \<or> reply_backed rt (co_db t) rid rep"
  shows "backed_inv rt t"
  unfolding backed_inv_def
proof (intro conjI ballI impI)
  fix f assume "f \<in> set (co_flights t)" "fl_stage f \<noteq> AwaitGate"
  from assms(3) [OF this] show "flight_id f \<in> dom (map_of (decision_receipts (co_db t)))"
    using assms(1) grown(3) [OF assms(2)] unfolding backed_inv_def by metis
next
  fix x assume x: "x \<in> set (co_replies t)"
  have "reply_backed rt (co_db t) rid rep" if "x = (rid, rep)" "reply_code rep = 200" for rid rep
  proof -
    have "(rid, rep) \<in> set (co_replies s) \<Longrightarrow> reply_backed rt (co_db s) rid rep" using assms(1) that(2) by (auto simp: backed_inv_def)
    with assms(4) [of rid rep] x that reply_backed_later [OF _ assms(2)] show ?thesis by blast
  qed
  then show "case x of (rid, rep) \<Rightarrow> reply_code rep = 200 \<longrightarrow> reply_backed rt (co_db t) rid rep" by (cases x) simp
qed

lemma backed_step: "coord_step rt answers s t \<Longrightarrow> backed_inv rt s \<Longrightarrow> backed_inv rt t"
proof (induction rule: coord_step.induct)
  case (accept mode env s now db)
  then show ?case using grows_begin [of "co_db s" rt now env mode] by (elim backed_inv_move) auto
next
  case (accept_threw mode env s now db)
  then show ?case using grows_begin [of "co_db s" rt now env mode] by (elim backed_inv_move) (auto simp: internal_error_def)
next
  case (gate s fs f gs now ms answer g db)
  note k = grows_gate [OF gate(3)]
  show ?case by (rule backed_inv_move [OF gate(4)]) (use k gate(1,2) in auto)
next
  case (gate_ends s fs f gs now ms answer r db)
  note k = grows_gate [OF gate_ends(3)]
  show ?case by (rule backed_inv_move [OF gate_ends(4)]) (use k gate_ends(1,2) in auto)
next
  case (attested s fs f gs g now ms att cands watching db)
  note k = grows_attested [OF attested(3)]
  show ?case by (rule backed_inv_move [OF attested(4)]) (use k attested(1,2) in auto)
next
  case (attested_ends s fs f gs g now ms att r watching db)
  note k = grows_attested [OF attested_ends(3)]
  show ?case by (rule backed_inv_move [OF attested_ends(4)]) (use k attested_ends(1,2) in auto)
next
  case (executed s fs f gs g now ms answer r db)
  have "flight_id f \<in> dom (map_of (decision_receipts (co_db s)))" using executed(1,2,4) by (auto simp: backed_inv_def)
  with grows_executed [OF executed(3)] have k: "grows (co_db s) db" "reply_code r = 200 \<Longrightarrow> reply_backed rt db (flight_id f) r" by auto
  show ?case by (rule backed_inv_move [OF executed(4)]) (use k executed(1,2) in auto)
next
  case (ceiling_hit s ws w vs now db)
  then have "grows (co_db s) db" by (auto simp: watch_tick_def split: if_splits)
  with ceiling_hit(3) show ?case by (elim backed_inv_move) auto
next
  case (polled s ws w vs answer now w' db)
  have "grows (co_db s) db" by (rule grows_watched [OF polled(3)])
  with polled(4) show ?case by (elim backed_inv_move) auto
next
  case (credential s db)
  have "grows (co_db s) db" by (rule grows_cred_step [OF credential(1)])
  with credential(2) show ?case by (elim backed_inv_move) auto
qed

interpretation ledger_backing: stable "coord_step rt answers" "backed_inv rt" for rt answers
  by unfold_locales (rule backed_step)




end
