(* ===== verification/Pending_Gates.thy ===== *)
theory Pending_Gates
  imports CTN_Prelude
begin

text \<open>
  The two bounded in-memory stores of the enclave: the parking lot for \<open>ALLOW\<close> gate outcomes
  (\<^verbatim>\<open>services/tee-sim/src/pending-gates.ts\<close>, class \<open>PendingGates\<close>) and the replay guard for
  request nonces (\<open>rememberNonce\<close> in \<^verbatim>\<open>services/tee-sim/src/index.ts\<close>). The clock is an argument
  of every operation. Both are instances of one contract, \<open>bounded_store\<close>: every operation keeps
  the store within its cap. The parking lot is shown to be single-use, bound to the commitment
  and time-limited; the replay guard is shown to reject a nonce for the whole window.
\<close>

section \<open>The contract of a bounded store\<close>

locale bounded_store =
  fixes size_of :: "'s \<Rightarrow> nat"
    and step :: "'op \<Rightarrow> 's \<Rightarrow> 's"
    and ok :: "'s \<Rightarrow> bool"
    and cap :: nat
  assumes step_ok: "ok s \<Longrightarrow> ok (step oper s)"
    and ok_bounded: "ok s \<Longrightarrow> size_of s \<le> cap"
begin

lemma run_ok: "ok s \<Longrightarrow> ok (fold step ops s)"
  by (induction ops arbitrary: s) (auto simp: step_ok)

lemma run_bounded: "ok s \<Longrightarrow> size_of (fold step ops s) \<le> cap"
  by (simp add: run_ok ok_bounded)

lemma run_prefix_bounded: "ok s \<Longrightarrow> size_of (fold step (take n ops) s) \<le> cap"
  by (rule run_bounded)

end

text \<open>\<^verbatim>\<open>while (m.size >= max) m.delete(m.keys().next().value)\<close>: the oldest insertions go first.\<close>

fun make_room :: "nat \<Rightarrow> 'a list \<Rightarrow> 'a list" where
  "make_room cap [] = []"
| "make_room cap (e # es) = (if cap \<le> length (e # es) then make_room cap es else e # es)"

lemma make_room_length: "0 < cap \<Longrightarrow> length (make_room cap es) < cap"
  by (induction es) auto

lemma make_room_suffix: "\<exists>dropped. es = dropped @ make_room cap es"
proof (induction es)
  case (Cons e es)
  then obtain d where "es = d @ make_room cap es" by blast
  then show ?case by (cases "cap \<le> length (e # es)") (auto intro: exI [of _ "e # d"])
qed simp

lemma make_room_keeps_tail:
  "length (x # post) < cap \<Longrightarrow> \<exists>pre'. make_room cap (pre @ x # post) = pre' @ x # post"
proof (induction pre)
  case Nil
  then show ?case by (auto intro: exI [of _ "[]"])
next
  case (Cons p pre)
  show ?case
  proof (cases "cap \<le> length (p # pre @ x # post)")
    case True
    with Cons show ?thesis by auto
  next
    case False
    then show ?thesis by (auto intro: exI [of _ "p # pre"])
  qed
qed

lemma set_make_room: "set (make_room cap es) \<subseteq> set es"
  using make_room_suffix [of es cap] by (metis Un_iff set_append subsetI)

lemma wf_make_room: "map_wf es \<Longrightarrow> map_wf (make_room cap es)"
  using make_room_suffix [of es cap] unfolding map_wf_def by (metis distinct_append map_append)

section \<open>PendingGates\<close>

record 'a gate_entry =
  ge_value :: 'a
  ge_commitment :: jstr
  ge_at :: int

record 'a PendingGates =
  pg_entries :: "(jstr \<times> 'a gate_entry) list"
  pg_ttlMs :: int
  pg_max :: nat

datatype 'a ConsumeResult = MISS | MISMATCH | HIT 'a

definition newPendingGates :: "int \<Rightarrow> nat \<Rightarrow> 'a PendingGates" where
  "newPendingGates ttl mx = \<lparr> pg_entries = [], pg_ttlMs = ttl, pg_max = mx \<rparr>"

definition expired :: "int \<Rightarrow> int \<Rightarrow> 'a gate_entry \<Rightarrow> bool" where
  "expired now ttl e \<longleftrightarrow> now - ge_at e > ttl"

definition reap :: "int \<Rightarrow> 'a PendingGates \<Rightarrow> nat \<times> 'a PendingGates" where
  "reap now p =
     (let dead = filter (\<lambda>(_, e). expired now (pg_ttlMs p) e) (pg_entries p);
          live = filter (\<lambda>(_, e). \<not> expired now (pg_ttlMs p) e) (pg_entries p)
      in (length dead, p\<lparr>pg_entries := live\<rparr>))"

definition remember :: "int \<Rightarrow> jstr \<Rightarrow> jstr \<Rightarrow> 'a \<Rightarrow> 'a PendingGates \<Rightarrow> 'a PendingGates" where
  "remember now key commitment v p =
     (let p1 = snd (reap now p);
          es = make_room (pg_max p1) (pg_entries p1)
      in p1\<lparr>pg_entries := map_put key \<lparr> ge_value = v, ge_commitment = commitment, ge_at = now \<rparr> es\<rparr>)"

definition consume :: "int \<Rightarrow> jstr \<Rightarrow> jstr \<Rightarrow> 'a PendingGates \<Rightarrow> 'a ConsumeResult \<times> 'a PendingGates" where
  "consume now key commitment p =
     (case map_of (pg_entries p) key of
        None \<Rightarrow> (MISS, p)
      | Some e \<Rightarrow>
          if expired now (pg_ttlMs p) e then (MISS, p\<lparr>pg_entries := map_del key (pg_entries p)\<rparr>)
          else if ge_commitment e \<noteq> commitment then (MISMATCH, p)
          else (HIT (ge_value e), p\<lparr>pg_entries := map_del key (pg_entries p)\<rparr>))"

definition sweep :: "int \<Rightarrow> 'a PendingGates \<Rightarrow> nat \<times> 'a PendingGates" where
  "sweep now p = reap now p"

text \<open>The server's instance: \<open>PENDING_TTL_MS\<close> and \<open>PENDING_MAX\<close> of the enclave.\<close>

definition PENDING_TTL_MS :: int where
  "PENDING_TTL_MS = 60 * 1000"

definition PENDING_MAX :: nat where
  "PENDING_MAX = 10000"

definition pendingGates :: "'a PendingGates" where
  "pendingGates = newPendingGates PENDING_TTL_MS PENDING_MAX"

text \<open>A run of the store: the calls its clients make, each with the clock reading.\<close>

datatype 'a gate_call =
    Remember int jstr jstr 'a
  | Consume int jstr jstr
  | Sweep int

fun gate_step :: "'a gate_call \<Rightarrow> 'a PendingGates \<Rightarrow> 'a PendingGates" where
  "gate_step (Remember now k c v) p = remember now k c v p"
| "gate_step (Consume now k c) p = snd (consume now k c p)"
| "gate_step (Sweep now) p = snd (sweep now p)"

fun gate_results :: "'a gate_call list \<Rightarrow> 'a PendingGates \<Rightarrow> (jstr \<times> 'a ConsumeResult) list" where
  "gate_results [] p = []"
| "gate_results (Consume now k c # cs) p =
     (k, fst (consume now k c p)) # gate_results cs (snd (consume now k c p))"
| "gate_results (cl # cs) p = gate_results cs (gate_step cl p)"

section \<open>The replay guard\<close>

definition NONCE_TTL_MS :: int where
  "NONCE_TTL_MS = 30 * 60 * 1000"

definition NONCE_MAX :: nat where
  "NONCE_MAX = 50000"

definition rememberNonce :: "int \<Rightarrow> 'k \<Rightarrow> ('k \<times> int) list \<Rightarrow> bool \<times> ('k \<times> int) list" where
  "rememberNonce now nonce seen =
     (if map_of seen nonce \<noteq> None then (False, seen)
      else
        (let room = (if NONCE_MAX \<le> length seen
                     then make_room NONCE_MAX (filter (\<lambda>(_, seenAt). \<not> (now - seenAt > NONCE_TTL_MS)) seen)
                     else seen)
         in (True, map_put nonce now room)))"

section \<open>Both stores keep their bound\<close>

lemma wf_filter: "map_wf m \<Longrightarrow> map_wf (filter P m)"
  by (simp add: map_wf_def distinct_keys_filter)

lemma reap_fields [simp]:
  "pg_ttlMs (snd (reap now p)) = pg_ttlMs p" "pg_max (snd (reap now p)) = pg_max p"
  "pg_entries (snd (reap now p)) = filter (\<lambda>(_, e). \<not> expired now (pg_ttlMs p) e) (pg_entries p)"
  by (simp_all add: reap_def Let_def)

lemma remember_entries:
  "pg_entries (remember now k c v p) =
     map_put k \<lparr> ge_value = v, ge_commitment = c, ge_at = now \<rparr>
       (make_room (pg_max p) (filter (\<lambda>(_, e). \<not> expired now (pg_ttlMs p) e) (pg_entries p)))"
  "pg_ttlMs (remember now k c v p) = pg_ttlMs p" "pg_max (remember now k c v p) = pg_max p"
  by (simp_all add: remember_def Let_def)

lemma consume_fields:
  "pg_ttlMs (snd (consume now k c p)) = pg_ttlMs p" "pg_max (snd (consume now k c p)) = pg_max p"
  "pg_entries (snd (consume now k c p)) \<in> {pg_entries p, map_del k (pg_entries p)}"
  by (auto simp: consume_def split: option.splits)

definition gates_ok :: "nat \<Rightarrow> 'a PendingGates \<Rightarrow> bool" where
  "gates_ok cap p \<longleftrightarrow> map_wf (pg_entries p) \<and> pg_max p = cap \<and> length (pg_entries p) \<le> cap"

lemma gates_ok_remember:
  assumes "0 < cap" "gates_ok cap p"
  shows "gates_ok cap (remember now k c v p)"
proof -
  let ?live = "filter (\<lambda>(_, e). \<not> expired now (pg_ttlMs p) e) (pg_entries p)"
  have "length (make_room cap ?live) < cap" using assms(1) by (rule make_room_length)
  then show ?thesis
    using assms by (auto simp: gates_ok_def remember_entries wf_put wf_make_room wf_filter length_put)
qed

lemma gates_ok_step: "0 < cap \<Longrightarrow> gates_ok cap p \<Longrightarrow> gates_ok cap (gate_step cl p)"
proof (cases cl)
  case (Consume now k c)
  assume "gates_ok cap p"
  with Consume show ?thesis
    using consume_fields [of now k c p] length_del_le [of k "pg_entries p"]
    by (auto simp: gates_ok_def wf_del)
next
  case (Sweep now)
  assume "gates_ok cap p"
  with Sweep show ?thesis
    by (auto simp: gates_ok_def sweep_def wf_filter intro: order_trans [OF length_filter_le])
qed (simp add: gates_ok_remember)

interpretation parked: bounded_store "\<lambda>p. length (pg_entries p)" gate_step "gates_ok PENDING_MAX" PENDING_MAX
  by unfold_locales (simp add: gates_ok_step PENDING_MAX_def, simp add: gates_ok_def)

definition nonces_ok :: "(jstr \<times> int) list \<Rightarrow> bool" where
  "nonces_ok seen \<longleftrightarrow> map_wf seen \<and> length seen \<le> NONCE_MAX"

definition nonce_step :: "int \<times> jstr \<Rightarrow> (jstr \<times> int) list \<Rightarrow> (jstr \<times> int) list" where
  "nonce_step cl seen = snd (rememberNonce (fst cl) (snd cl) seen)"

lemma nonces_ok_step: "nonces_ok seen \<Longrightarrow> nonces_ok (nonce_step cl seen)"
proof -
  assume ok: "nonces_ok seen"
  have pos: "0 < NONCE_MAX" by (simp add: NONCE_MAX_def)
  have bound: "length (map_put n t m) \<le> NONCE_MAX" if "length m < NONCE_MAX"
    for n :: jstr and t :: int and m
    using that by (simp add: length_put)
  show ?thesis
    using ok bound make_room_length [OF pos]
    by (auto simp: nonce_step_def nonces_ok_def rememberNonce_def Let_def wf_put wf_make_room wf_filter)
qed

interpretation nonces: bounded_store length nonce_step nonces_ok NONCE_MAX
  by unfold_locales (rule nonces_ok_step, assumption, simp add: nonces_ok_def)

text \<open>C17. Neither store can exhaust memory: whatever calls arrive, in whatever order and with
  whatever clock readings, the enclave parks at most \<open>PENDING_MAX\<close> decrypted requests and remembers
  at most \<open>NONCE_MAX\<close> nonces, at every moment of the run.\<close>

theorem enclave_stores_bounded:
  "length (pg_entries (fold gate_step (take n calls) pendingGates)) \<le> PENDING_MAX
   \<and> length (fold nonce_step (take n nonce_calls) []) \<le> NONCE_MAX"
proof -
  have "gates_ok PENDING_MAX pendingGates"
    by (simp add: gates_ok_def pendingGates_def newPendingGates_def)
  moreover have "nonces_ok []" by (simp add: nonces_ok_def)
  ultimately show ?thesis
    using parked.run_prefix_bounded nonces.run_prefix_bounded by blast
qed

section \<open>Parked plaintext: who may take it, how often, how long\<close>

lemma entries_from_calls:
  "(k, e) \<in> set (pg_entries (fold gate_step cs p)) \<Longrightarrow> pg_entries p = [] \<Longrightarrow>
     Remember (ge_at e) k (ge_commitment e) (ge_value e) \<in> set cs"
proof (induction cs arbitrary: k e rule: rev_induct)
  case (snoc cl cs)
  let ?p = "fold gate_step cs p"
  have mem: "(k, e) \<in> set (pg_entries (gate_step cl ?p))" using snoc.prems by simp
  have old: ?case if "(k, e) \<in> set (pg_entries ?p)"
    using snoc.IH [OF that snoc.prems(2)] by simp
  show ?case
  proof (cases cl)
    case (Remember now k' c v)
    have "(k, e) = (k', \<lparr> ge_value = v, ge_commitment = c, ge_at = now \<rparr>) \<or> (k, e) \<in> set (pg_entries ?p)"
      using mem set_put_subset set_make_room
      unfolding Remember gate_step.simps remember_entries by fastforce
    then show ?thesis using old Remember by auto
  next
    case (Consume now k' c)
    then show ?thesis
      using mem consume_fields(3) [of now k' c ?p] old by (auto simp: set_del)
  next
    case (Sweep now)
    then show ?thesis using mem old by (auto simp: sweep_def)
  qed
qed simp

lemma consume_HIT:
  "fst (consume now k c p) = HIT v \<longleftrightarrow>
     (\<exists>e. map_of (pg_entries p) k = Some e \<and> now - ge_at e \<le> pg_ttlMs p \<and> ge_commitment e = c \<and> ge_value e = v)"
  by (auto simp: consume_def expired_def split: option.splits)

lemma run_ttl: "pg_ttlMs (fold gate_step cs p) = pg_ttlMs p"
proof (induction cs arbitrary: p)
  case (Cons cl cs)
  then show ?case
    by (cases cl) (auto simp: remember_entries consume_fields sweep_def)
qed simp

text \<open>An \<open>/execute\<close> can only pick up a gate outcome that was parked under the same request id
  with the same commitment, and at most \<open>PENDING_TTL_MS\<close> ago: in every run of the enclave's store,
  a hit traces back to such a \<open>remember\<close> call with exactly the returned value.\<close>

theorem consume_hit_provenance:
  assumes "fst (consume now k c (fold gate_step calls pendingGates)) = HIT v"
  shows "\<exists>t. Remember t k c v \<in> set calls \<and> now - t \<le> PENDING_TTL_MS"
proof -
  let ?p = "fold gate_step calls (pendingGates :: 'a PendingGates)"
  obtain e where e: "map_of (pg_entries ?p) k = Some e" "now - ge_at e \<le> pg_ttlMs ?p"
    "ge_commitment e = c" "ge_value e = v"
    using assms by (auto simp: consume_HIT)
  have "Remember (ge_at e) k c v \<in> set calls"
    using entries_from_calls [OF map_of_SomeD [OF e(1)]] e(3,4)
    by (simp add: pendingGates_def newPendingGates_def)
  moreover have "pg_ttlMs ?p = PENDING_TTL_MS"
    by (simp add: run_ttl pendingGates_def newPendingGates_def)
  ultimately show ?thesis using e(2) by auto
qed

theorem consume_hit_provenance_witness:
  "\<exists>t. Remember t (lit ''req_1'') (lit ''0xab'') (7::nat) \<in> set [Remember 100 (lit ''req_1'') (lit ''0xab'') 7]
       \<and> 200 - t \<le> PENDING_TTL_MS"
  by (rule consume_hit_provenance)
    (simp add: eval_simps consume_def remember_entries expired_def pendingGates_def
      newPendingGates_def PENDING_TTL_MS_def PENDING_MAX_def)

text \<open>What \<open>consume\<close> does to the store: a hit and an expiry remove the entry, a mismatch and an
  unknown key leave everything as it was.\<close>

lemma consume_cases:
  "consume now k c p =
     (case map_of (pg_entries p) k of
        None \<Rightarrow> (MISS, p)
      | Some e \<Rightarrow> if now - ge_at e \<le> pg_ttlMs p \<and> ge_commitment e \<noteq> c then (MISMATCH, p)
                 else (if now - ge_at e \<le> pg_ttlMs p then HIT (ge_value e) else MISS,
                       p\<lparr>pg_entries := map_del k (pg_entries p)\<rparr>))"
  by (auto simp: consume_def expired_def split: option.splits)

definition is_hit :: "jstr \<Rightarrow> jstr \<times> 'a ConsumeResult \<Rightarrow> bool" where
  "is_hit k r \<longleftrightarrow> fst r = k \<and> (case snd r of HIT _ \<Rightarrow> True | _ \<Rightarrow> False)"

definition is_remember :: "jstr \<Rightarrow> 'a gate_call \<Rightarrow> bool" where
  "is_remember k cl = (case cl of Remember _ k' _ _ \<Rightarrow> k' = k | _ \<Rightarrow> False)"

definition present :: "jstr \<Rightarrow> 'a PendingGates \<Rightarrow> nat" where
  "present k p = (if k \<in> fst ` set (pg_entries p) then 1 else 0)"

lemma present_step: "present k (gate_step cl p) \<le> present k p + (if is_remember k cl then 1 else 0)"
proof (cases cl)
  case (Remember now k' c v)
  have "fst ` set (pg_entries (gate_step cl p)) \<subseteq> insert k' (fst ` set (pg_entries p))"
    using set_make_room unfolding Remember gate_step.simps remember_entries keys_put by fastforce
  then show ?thesis using Remember by (auto simp: present_def is_remember_def)
next
  case (Consume now k' c)
  then show ?thesis
    using consume_fields(3) [of now k' c p] by (force simp: present_def set_del)
next
  case (Sweep now)
  then show ?thesis by (auto simp: present_def sweep_def)
qed

lemma present_hit:
  "is_hit k (k', fst (consume now k' c p)) \<Longrightarrow> present k (snd (consume now k' c p)) + 1 \<le> present k p"
proof -
  assume "is_hit k (k', fst (consume now k' c p))"
  then have k: "k' = k" and h: "\<exists>v. fst (consume now k c p) = HIT v"
    by (auto simp: is_hit_def split: ConsumeResult.splits)
  then obtain e where "map_of (pg_entries p) k = Some e" by (auto simp: consume_HIT)
  moreover from this h have "pg_entries (snd (consume now k c p)) = map_del k (pg_entries p)"
    by (auto simp: consume_def split: option.splits if_splits)
  ultimately show ?thesis
    using k by (auto simp: present_def keys_del) (metis image_eqI fst_conv map_of_SomeD)
qed

text \<open>One gate, one dispatch: over any run, the number of times a request id is successfully
  consumed never exceeds the number of times the gate parked it, so a parked \<open>ALLOW\<close> cannot be
  spent twice.\<close>

theorem parked_gate_single_use:
  "length (filter (is_hit k) (gate_results calls pendingGates))
     \<le> length (filter (is_remember k) calls)"
proof -
  have "length (filter (is_hit k) (gate_results calls p)) \<le> length (filter (is_remember k) calls) + present k p"
    for p :: "'a PendingGates"
  proof (induction calls arbitrary: p)
    case (Cons cl cs)
    note step = present_step [of k cl p] and IH = Cons.IH [of "gate_step cl p"]
    show ?case
    proof (cases cl)
      case (Consume now k' c)
      then show ?thesis using step IH present_hit [of k k' now c p]
        by (cases "is_hit k (k', fst (consume now k' c p))") (auto simp: is_remember_def)
    qed (use step IH in \<open>auto simp: is_remember_def split: if_splits\<close>)
  qed simp
  from this [of pendingGates] show ?thesis
    by (simp add: present_def pendingGates_def newPendingGates_def)
qed

text \<open>Plaintext residency is bounded in time: right after every insertion and after every
  background sweep, no parked entry is older than the time-to-live, whatever the store held before.\<close>

theorem parked_plaintext_fresh:
  assumes "0 \<le> pg_ttlMs p" "(k, e) \<in> set (pg_entries p')"
    and "p' = remember now key c v p \<or> p' = snd (sweep now p)"
  shows "now - ge_at e \<le> pg_ttlMs p"
  using assms(3)
proof
  assume p': "p' = remember now key c v p"
  then have "(k, e) = (key, \<lparr> ge_value = v, ge_commitment = c, ge_at = now \<rparr>)
      \<or> (k, e) \<in> set (filter (\<lambda>(_, e). \<not> expired now (pg_ttlMs p) e) (pg_entries p))"
    using assms(2) set_put_subset set_make_room unfolding p' remember_entries by fastforce
  then show ?thesis using assms(1) by (auto simp: expired_def)
next
  assume "p' = snd (sweep now p)"
  then show ?thesis using assms(2) by (auto simp: sweep_def expired_def)
qed

theorem parked_plaintext_fresh_witness:
  "(100::int) - ge_at (\<lparr> ge_value = (1::nat), ge_commitment = [], ge_at = 70 \<rparr>) \<le> 60"
proof -
  let ?e = "\<lparr> ge_value = (1::nat), ge_commitment = [], ge_at = 70 \<rparr>"
  let ?p = "\<lparr> pg_entries = [(lit ''r'', ?e), (lit ''q'', ?e\<lparr>ge_at := 10\<rparr>)], pg_ttlMs = 60, pg_max = 5 \<rparr>"
  have "(lit ''r'', ?e) \<in> set (pg_entries (snd (sweep 100 ?p)))"
    by (simp add: sweep_def expired_def)
  from parked_plaintext_fresh [OF _ this disjI2 [OF refl]] show ?thesis by simp
qed

text \<open>The eviction order is insertion order of the key, not age: re-parking a key that is still
  present keeps its old position, so the entry dropped first can be the freshest one. Here key
  \<open>a\<close> is re-parked at time 2, yet it and not \<open>b\<close> (parked at time 1) is dropped at time 4.\<close>

lemma eviction_can_drop_the_freshest:
  "let p = fold gate_step [Remember 0 (lit ''a'') [] (0::nat), Remember 1 (lit ''b'') [] 0,
                           Remember 2 (lit ''a'') [] 0, Remember 3 (lit ''c'') [] 0,
                           Remember 4 (lit ''d'') [] 0] (newPendingGates 100 3)
   in map (\<lambda>(k, e). (k, ge_at e)) (pg_entries p) = [(lit ''b'', 1), (lit ''c'', 3), (lit ''d'', 4)]"
  by (simp add: eval_simps remember_def reap_def expired_def newPendingGates_def)

section \<open>The replay window\<close>

lemma rememberNonce_seen: "(n, t) \<in> set seen \<Longrightarrow> rememberNonce now n seen = (False, seen)"
  by (auto simp: rememberNonce_def dest: weak_map_of_SomeI)

lemma rememberNonce_accepts: "fst (rememberNonce now n seen) \<longleftrightarrow> n \<notin> fst ` set seen"
  by (auto simp: rememberNonce_def Let_def map_of_eq_None_iff)

lemma map_put_fresh: "k \<notin> fst ` set m \<Longrightarrow> map_put k v m = m @ [(k, v)]"
  by (induction m) auto

text \<open>One call keeps a fresh nonce at most one position further from the end.\<close>

lemma nonce_step_keeps:
  assumes "seen = pre @ (n, t) # post" "Suc (length post) < NONCE_MAX" "fst cl - t \<le> NONCE_TTL_MS"
  shows "\<exists>pre' post'. nonce_step cl seen = pre' @ (n, t) # post' \<and> length post' \<le> Suc (length post)"
proof (cases "snd cl \<in> fst ` set seen")
  case True
  then have "nonce_step cl seen = seen"
    using rememberNonce_accepts [of "fst cl" "snd cl" seen]
    by (auto simp: nonce_step_def rememberNonce_def Let_def split: if_splits)
  with assms(1) show ?thesis by fastforce
next
  case False
  let ?live = "\<lambda>(_, seenAt). \<not> (fst cl - seenAt > NONCE_TTL_MS)"
  let ?room = "if NONCE_MAX \<le> length seen then make_room NONCE_MAX (filter ?live seen) else seen"
  have "\<exists>pre' post'. ?room = pre' @ (n, t) # post' \<and> length post' \<le> length post"
  proof (cases "NONCE_MAX \<le> length seen")
    case True
    have "filter ?live seen = filter ?live pre @ (n, t) # filter ?live post"
      using assms(1,3) by simp
    moreover have "length ((n, t) # filter ?live post) < NONCE_MAX"
      using assms(2) by (auto intro: le_less_trans [OF Suc_le_mono [THEN iffD2, OF length_filter_le]])
    ultimately obtain pre' where "make_room NONCE_MAX (filter ?live seen) = pre' @ (n, t) # filter ?live post"
      using make_room_keeps_tail by metis
    with True have "?room = pre' @ (n, t) # filter ?live post" by simp
    then show ?thesis using length_filter_le by blast
  qed (use assms(1) in auto)
  then obtain pre' post' where room: "?room = pre' @ (n, t) # post'" "length post' \<le> length post"
    by blast
  have "snd cl \<notin> fst ` set ?room"
    using False set_make_room [of NONCE_MAX "filter ?live seen"] by auto
  then have "nonce_step cl seen = ?room @ [(snd cl, fst cl)]"
    using False by (simp add: nonce_step_def rememberNonce_def Let_def map_put_fresh map_of_eq_None_iff)
  with room have "nonce_step cl seen = pre' @ (n, t) # (post' @ [(snd cl, fst cl)])"
    "length (post' @ [(snd cl, fst cl)]) \<le> Suc (length post)" by simp_all
  then show ?thesis by blast
qed

lemma nonce_run_keeps:
  assumes "seen = pre @ (n, t) # post" "Suc (length post + length calls) \<le> NONCE_MAX"
    "\<forall>cl \<in> set calls. fst cl - t \<le> NONCE_TTL_MS"
  shows "(n, t) \<in> set (fold nonce_step calls seen)"
  using assms
proof (induction calls arbitrary: seen pre post)
  case (Cons cl calls)
  obtain pre' post' where st: "nonce_step cl seen = pre' @ (n, t) # post'" "length post' \<le> Suc (length post)"
    using nonce_step_keeps [OF Cons.prems(1), of cl] Cons.prems(2,3) by auto
  have "Suc (length post' + length calls) \<le> NONCE_MAX" using st(2) Cons.prems(2) by simp
  from Cons.IH [OF st(1) this] Cons.prems(3) show ?case by simp
qed simp

text \<open>C16. Replay protection: once a request nonce has been accepted, every later presentation of it is
  refused, and refused without any change to the store, as long as it comes within \<open>NONCE_TTL_MS\<close>
  and after fewer than \<open>NONCE_MAX\<close> other calls.\<close>

theorem replay_rejected:
  assumes "fst (rememberNonce t0 n seen)"
    and "length calls < NONCE_MAX" "\<forall>cl \<in> set calls. fst cl - t0 \<le> NONCE_TTL_MS"
  shows "rememberNonce now n (fold nonce_step calls (snd (rememberNonce t0 n seen)))
         = (False, fold nonce_step calls (snd (rememberNonce t0 n seen)))"
proof -
  let ?room = "if NONCE_MAX \<le> length seen
    then make_room NONCE_MAX (filter (\<lambda>(_, seenAt). \<not> (t0 - seenAt > NONCE_TTL_MS)) seen) else seen"
  have fresh: "n \<notin> fst ` set seen" using assms(1) rememberNonce_accepts [of t0 n seen] by blast
  then have "n \<notin> fst ` set ?room"
    using set_make_room [of NONCE_MAX "filter (\<lambda>(_, seenAt). \<not> (t0 - seenAt > NONCE_TTL_MS)) seen"] by auto
  then have "snd (rememberNonce t0 n seen) = ?room @ (n, t0) # []"
    using fresh by (simp add: rememberNonce_def Let_def map_put_fresh map_of_eq_None_iff)
  from nonce_run_keeps [OF this] assms(2,3)
  have "(n, t0) \<in> set (fold nonce_step calls (snd (rememberNonce t0 n seen)))" by simp
  then show ?thesis by (rule rememberNonce_seen)
qed

theorem replay_rejected_witness:
  "rememberNonce 2000 (lit ''aa'') (fold nonce_step [(1500, lit ''bb'')] (snd (rememberNonce 1000 (lit ''aa'') [])))
   = (False, fold nonce_step [(1500, lit ''bb'')] (snd (rememberNonce 1000 (lit ''aa'') [])))"
proof -
  have "fst (rememberNonce 1000 (lit ''aa'') [])" by (simp add: rememberNonce_def Let_def)
  from replay_rejected [OF this, of "[(1500, lit ''bb'')]" 2000] show ?thesis
    by (simp add: NONCE_MAX_def NONCE_TTL_MS_def)
qed

end
