(* ===== verification/Json_Text.thy ===== *)
theory Json_Text
  imports Canonical
begin

text \<open>
  JSON as text and bytes: \<open>JSON.parse\<close>, \<open>JSON.stringify\<close> and \<open>TextDecoder\<close> as the sources use them on
  decrypted payloads, upstream bodies and canonical bytes. The parser is fuelled by the length of its
  input, which every recursive call shortens. Shown: parsing inverts canonical serialisation up to the
  canonical form, and decoding inverts UTF-8 encoding on well-formed strings, so canonical text and
  canonical bytes determine the value they came from.
\<close>

section \<open>Bytes to strings\<close>

definition cont :: "byte \<Rightarrow> bool" where
  "cont b \<longleftrightarrow> 128 \<le> unat b \<and> unat b < 192"

definition second_ok :: "byte \<Rightarrow> byte \<Rightarrow> bool" where
  "second_ok a b \<longleftrightarrow> (let x = unat a; y = unat b in
     (if x = 224 then 160 \<le> y else if x = 240 then 144 \<le> y else 128 \<le> y)
     \<and> (if x = 237 then y < 160 else if x = 244 then y < 144 else y < 192))"

definition low_bits :: "nat \<Rightarrow> byte \<Rightarrow> nat" where
  "low_bits m b = unat b mod m"

text \<open>The decoder: an ill-formed sequence gives one U+FFFD for its longest valid prefix.\<close>

fun utf8_points :: "byte list \<Rightarrow> nat list" where
  "utf8_points [] = []"
| "utf8_points (a # bs) =
     (if unat a < 128 then unat a # utf8_points bs
      else if 194 \<le> unat a \<and> unat a < 224 then
        (case bs of
           b # r1 \<Rightarrow> if cont b then (low_bits 32 a * 64 + low_bits 64 b) # utf8_points r1 else 65533 # utf8_points bs
         | [] \<Rightarrow> [65533])
      else if 224 \<le> unat a \<and> unat a < 240 then
        (case bs of
           b # r1 \<Rightarrow>
             if second_ok a b then
               (case r1 of
                  c # r2 \<Rightarrow> if cont c then (low_bits 16 a * 4096 + low_bits 64 b * 64 + low_bits 64 c) # utf8_points r2
                           else 65533 # utf8_points r1
                | [] \<Rightarrow> [65533])
             else 65533 # utf8_points bs
         | [] \<Rightarrow> [65533])
      else if 240 \<le> unat a \<and> unat a < 245 then
        (case bs of
           b # r1 \<Rightarrow>
             if second_ok a b then
               (case r1 of
                  c # r2 \<Rightarrow>
                    if cont c then
                      (case r2 of
                         d # r3 \<Rightarrow> if cont d
                           then (low_bits 8 a * 262144 + low_bits 64 b * 4096 + low_bits 64 c * 64 + low_bits 64 d) # utf8_points r3
                           else 65533 # utf8_points r2
                       | [] \<Rightarrow> [65533])
                    else 65533 # utf8_points r1
                | [] \<Rightarrow> [65533])
             else 65533 # utf8_points bs
         | [] \<Rightarrow> [65533])
      else 65533 # utf8_points bs)"

definition text_decode :: "byte list \<Rightarrow> jstr" where
  "text_decode bs = code_units (case utf8_points bs of c # cs \<Rightarrow> if c = 65279 then cs else c # cs | [] \<Rightarrow> [])"

section \<open>JSON.parse\<close>

definition skip_ws :: "jstr \<Rightarrow> jstr" where
  "skip_ws s = dropWhile (\<lambda>c. c = 32 \<or> c = 9 \<or> c = 10 \<or> c = 13) s"

fun simple_escape :: "nat \<Rightarrow> nat option" where
  "simple_escape c = (if c = 34 then Some 34 else if c = 92 then Some 92 else if c = 47 then Some 47
     else if c = 98 then Some 8 else if c = 102 then Some 12 else if c = 110 then Some 10
     else if c = 114 then Some 13 else if c = 116 then Some 9 else None)"

definition hex4 :: "nat \<Rightarrow> nat \<Rightarrow> nat \<Rightarrow> nat \<Rightarrow> nat option" where
  "hex4 a b c d = (case (hex_value a, hex_value b, hex_value c, hex_value d) of
     (Some x, Some y, Some z, Some w) \<Rightarrow> Some (4096 * x + 256 * y + 16 * z + w) | _ \<Rightarrow> None)"

text \<open>After the opening quote: the string and what follows the closing one.\<close>

fun parse_string :: "jstr \<Rightarrow> (jstr \<times> jstr) option" where
  "parse_string [] = None"
| "parse_string (c # s) =
     (if c = 34 then Some ([], s)
      else if c = 92 then
        (case s of
           e # t \<Rightarrow>
             if e = 117 then
               (case t of
                  h1 # h2 # h3 # h4 # u \<Rightarrow>
                    (case hex4 h1 h2 h3 h4 of
                       Some x \<Rightarrow> map_option (\<lambda>(r, w). (x # r, w)) (parse_string u) | None \<Rightarrow> None)
                | _ \<Rightarrow> None)
             else (case simple_escape e of
                Some x \<Rightarrow> map_option (\<lambda>(r, w). (x # r, w)) (parse_string t) | None \<Rightarrow> None)
         | [] \<Rightarrow> None)
      else if c < 32 then None
      else map_option (\<lambda>(r, w). (c # r, w)) (parse_string s))"

definition is_digit :: "nat \<Rightarrow> bool" where
  "is_digit c \<longleftrightarrow> 48 \<le> c \<and> c \<le> 57"

definition digits_value :: "jstr \<Rightarrow> nat" where
  "digits_value ds = foldl (\<lambda>n d. 10 * n + (d - 48)) 0 ds"

text \<open>A decimal beyond the largest double becomes infinite.\<close>

definition to_double :: "runtime \<Rightarrow> rat \<Rightarrow> jsnum" where
  "to_double rt q = (let m = (2 :: rat) ^ 1024 - 2 ^ 970 in
     if m \<le> q then PosInf else if q \<le> - m then NegInf else Fin (dbl rt q))"

definition parse_frac :: "jstr \<Rightarrow> (rat \<times> jstr) option" where
  "parse_frac s = (case s of
     c # t \<Rightarrow> if c = 46 then
         (let ds = takeWhile is_digit t in
          if ds = [] then None else Some (of_nat (digits_value ds) / 10 ^ length ds, dropWhile is_digit t))
       else Some (0, s)
   | [] \<Rightarrow> Some (0, s))"

definition parse_exp :: "jstr \<Rightarrow> (int \<times> jstr) option" where
  "parse_exp s = (case s of
     c # t \<Rightarrow> if c = 101 \<or> c = 69 then
         (let (neg, u) = (case t of x # y \<Rightarrow> if x = 45 then (True, y) else if x = 43 then (False, y) else (False, t)
                         | [] \<Rightarrow> (False, t));
              ds = takeWhile is_digit u in
          if ds = [] then None else Some ((if neg then - int (digits_value ds) else int (digits_value ds)), dropWhile is_digit u))
       else Some (0, s)
   | [] \<Rightarrow> Some (0, s))"

definition scale :: "rat \<Rightarrow> int \<Rightarrow> rat" where
  "scale q e = (if 0 \<le> e then q * 10 ^ nat e else q / 10 ^ nat (- e))"

definition parse_number :: "runtime \<Rightarrow> jstr \<Rightarrow> (json \<times> jstr) option" where
  "parse_number rt s =
     (let (neg, t) = (case s of c # u \<Rightarrow> if c = 45 then (True, u) else (False, s) | [] \<Rightarrow> (False, s));
          ds = takeWhile is_digit t in
      if ds = [] \<or> (hd ds = 48 \<and> 1 < length ds) then None
      else (case parse_frac (dropWhile is_digit t) of None \<Rightarrow> None | Some (f, r) \<Rightarrow>
           (case parse_exp r of None \<Rightarrow> None | Some (e, w) \<Rightarrow>
             let q = scale (of_nat (digits_value ds) + f) e in
             Some (JNum (to_double rt (if neg then - q else q)), w))))"

fun parse_value :: "runtime \<Rightarrow> nat \<Rightarrow> jstr \<Rightarrow> (json \<times> jstr) option"
  and parse_elems :: "runtime \<Rightarrow> nat \<Rightarrow> jstr \<Rightarrow> (json list \<times> jstr) option"
  and parse_members :: "runtime \<Rightarrow> nat \<Rightarrow> jstr \<Rightarrow> ((jstr \<times> json) list \<times> jstr) option" where
  "parse_value rt 0 s = None"
| "parse_value rt (Suc n) s =
     (case skip_ws s of
        [] \<Rightarrow> None
      | c # t \<Rightarrow>
          if c = 34 then map_option (\<lambda>(x, r). (JStr x, r)) (parse_string t)
          else if c = 91 then
            (if starts_with [93] (skip_ws t) then Some (JArr [], drop 1 (skip_ws t))
             else map_option (\<lambda>(vs, r). (JArr vs, r)) (parse_elems rt n t))
          else if c = 123 then
            (if starts_with [125] (skip_ws t) then Some (JObj [], drop 1 (skip_ws t))
             else map_option (\<lambda>(kvs, r). (JObj (fold (\<lambda>(k, v). map_put k v) kvs []), r)) (parse_members rt n t))
          else if starts_with (lit ''null'') (c # t) then Some (JNull, drop 4 (c # t))
          else if starts_with (lit ''true'') (c # t) then Some (JBool True, drop 4 (c # t))
          else if starts_with (lit ''false'') (c # t) then Some (JBool False, drop 5 (c # t))
          else parse_number rt (c # t))"
| "parse_elems rt 0 s = None"
| "parse_elems rt (Suc n) s =
     (case parse_value rt n s of
        None \<Rightarrow> None
      | Some (v, r) \<Rightarrow>
          (case skip_ws r of
             c # t \<Rightarrow> if c = 44 then map_option (\<lambda>(vs, w). (v # vs, w)) (parse_elems rt n t)
                     else if c = 93 then Some ([v], t) else None
           | [] \<Rightarrow> None))"
| "parse_members rt 0 s = None"
| "parse_members rt (Suc n) s =
     (case skip_ws s of
        q # s1 \<Rightarrow>
          if q \<noteq> 34 then None else
          (case parse_string s1 of
             None \<Rightarrow> None
           | Some (k, s2) \<Rightarrow>
               (case skip_ws s2 of
                  co # s3 \<Rightarrow>
                    if co \<noteq> 58 then None else
                    (case parse_value rt n s3 of
                       None \<Rightarrow> None
                     | Some (v, s4) \<Rightarrow>
                         (case skip_ws s4 of
                            c # t \<Rightarrow> if c = 44 then map_option (\<lambda>(kvs, w). ((k, v) # kvs, w)) (parse_members rt n t)
                                    else if c = 125 then Some ([(k, v)], t) else None
                          | [] \<Rightarrow> None))
                | [] \<Rightarrow> None))
      | [] \<Rightarrow> None)"

definition json_parse :: "runtime \<Rightarrow> jstr \<Rightarrow> json option" where
  "json_parse rt s = (case parse_value rt (Suc (length s)) s of
     Some (v, r) \<Rightarrow> if skip_ws r = [] then Some v else None
   | None \<Rightarrow> None)"

section \<open>JSON.stringify\<close>

function (sequential) stringify :: "runtime \<Rightarrow> json \<Rightarrow> jstr" where
  "stringify rt JNull = lit ''null''"
| "stringify rt JUndef = lit ''null''"
| "stringify rt (JBool b) = (if b then lit ''true'' else lit ''false'')"
| "stringify rt (JNum x) = (case x of Fin q \<Rightarrow> num_str rt q | _ \<Rightarrow> lit ''null'')"
| "stringify rt (JStr s) = quote s"
| "stringify rt (JArr vs) = 91 # join [44] (map (stringify rt) vs) @ [93]"
| "stringify rt (JObj kvs) =
     123 # join [44] (map (\<lambda>(k, v). quote k @ [58] @ stringify rt v) (filter (\<lambda>(k, v). v \<noteq> JUndef) kvs)) @ [125]"
  by pat_completeness auto
termination
  by (relation "measure (size \<circ> snd)") (auto dest: size_json_obj elim: size_list_estimation' intro: le_imp_less_Suc)

section \<open>Canonical form and well-formed values\<close>

text \<open>The canonical form of a value: strings in NFC, members sorted by key and without the \<open>undefined\<close>
  ones.\<close>

function (sequential) canon_form :: "runtime \<Rightarrow> json \<Rightarrow> json" where
  "canon_form rt (JStr s) = JStr (nfc rt s)"
| "canon_form rt (JArr vs) = JArr (map (canon_form rt) vs)"
| "canon_form rt (JObj kvs) =
     JObj (map (\<lambda>(k, v). (k, canon_form rt v)) (filter (\<lambda>(k, v). v \<noteq> JUndef) (sort_key fst kvs)))"
| "canon_form rt v = v"
  by pat_completeness auto
termination
  by (relation "measure (size \<circ> snd)") (auto dest: size_json_obj elim: size_list_estimation' intro: le_imp_less_Suc)

text \<open>JavaScript objects have distinct keys.\<close>

function (sequential) json_wf :: "json \<Rightarrow> bool" where
  "json_wf (JArr vs) = (\<forall>v \<in> set vs. json_wf v)"
| "json_wf (JObj kvs) = (distinct (map fst kvs) \<and> (\<forall>kv \<in> set kvs. json_wf (snd kv)))"
| "json_wf v = True"
  by pat_completeness auto
termination
  by (relation "measure size") (auto dest: size_json_obj elim: size_list_estimation' intro: le_imp_less_Suc)

lemma hex4_u_escape:
  "c < 65536 \<Longrightarrow> hex4 (digit (c div 4096)) (digit (c div 256 mod 16)) (digit (c div 16 mod 16)) (digit (c mod 16)) = Some c"
proof -
  assume c: "c < 65536"
  then have "c div 4096 < 16" by (simp add: less_mult_imp_div_less)
  moreover have "4096 * (c div 4096) + 256 * (c div 256 mod 16) + 16 * (c div 16 mod 16) + c mod 16 = c"
  proof -
    have "c div 256 = c div 16 div 16" "c div 4096 = c div 256 div 16" by (simp_all flip: div_mult2_eq)
    with div_mult_mod_eq [of c 16] div_mult_mod_eq [of "c div 16" 16] div_mult_mod_eq [of "c div 256" 16]
    show ?thesis by linarith
  qed
  ultimately show ?thesis
    by (simp add: hex4_def hex_value_digit del: hex_value.simps)
qed

lemma parse_u_escape:
  "c < 65536 \<Longrightarrow> parse_string (u_escape c @ r) = map_option (\<lambda>(x, w). (c # x, w)) (parse_string r)"
  by (simp add: u_escape_def hex4_u_escape)

lemma parse_escape_unit:
  "parse_string (escape_unit c @ r) = map_option (\<lambda>(x, w). (c # x, w)) (parse_string r)"
  using parse_u_escape [of c r] by (simp add: escape_unit_def)

lemma surrogate_bounds: "high_surrogate c \<or> low_surrogate c \<Longrightarrow> 55296 \<le> c \<and> c < 65536"
  by (auto simp: high_surrogate_def low_surrogate_def)

lemma parse_raw:
  "55296 \<le> c \<Longrightarrow> parse_string (c # r) = map_option (\<lambda>(x, w). (c # x, w)) (parse_string r)"
  by simp

lemma parse_escape_str: "parse_string (escape_str s @ 34 # r) = Some (s, r)"
proof (induction s rule: escape_str.induct)
  case (2 a)
  then show ?case
    using surrogate_bounds [of a] by (simp add: parse_u_escape parse_escape_unit del: parse_string.simps(2)) simp
next
  case (3 a b s)
  show ?case
  proof (cases "high_surrogate a \<and> low_surrogate b")
    case True
    then have "55296 \<le> a" "55296 \<le> b" using surrogate_bounds by blast+
    with True 3(1) show ?thesis by (simp add: parse_raw del: parse_string.simps(2))
  next
    case False
    with 3(2) surrogate_bounds [of a] show ?thesis
      by (auto simp add: parse_u_escape parse_escape_unit simp del: parse_string.simps(2))
  qed
qed simp

lemma parse_quote: "parse_string (tl (quote k) @ r) = Some (k, r)"
  by (simp add: quote_def parse_escape_str)

text \<open>Decimal digits.\<close>

lemma digit_is_digit: "d < 10 \<Longrightarrow> is_digit (digit d) \<and> digit d - 48 = d"
  by (simp add: is_digit_def digit_def)

lemma nat_digits_all: "\<forall>c \<in> set (nat_digits n). is_digit c"
proof (induction n rule: nat_digits.induct)
  case (1 n)
  then show ?case by (subst nat_digits.simps) (auto simp: digit_is_digit)
qed

lemma nat_digits_ne [simp]: "nat_digits n \<noteq> []"
  by (subst nat_digits.simps) simp

lemma nat_digits_value: "digits_value (nat_digits n) = n"
proof (induction n rule: nat_digits.induct)
  case (1 n)
  show ?case
  proof (cases "n < 10")
    case True
    then show ?thesis by (subst nat_digits.simps) (simp add: digits_value_def digit_is_digit)
  next
    case False
    with 1 have "digits_value (nat_digits (n div 10)) = n div 10" by simp
    with False show ?thesis
      by (subst nat_digits.simps) (simp add: digits_value_def digit_is_digit)
  qed
qed

lemma nat_digits_lead: "hd (nat_digits n) = 48 \<Longrightarrow> length (nat_digits n) = 1"
proof (induction n rule: nat_digits.induct)
  case (1 n)
  show ?case
  proof (cases "n < 10")
    case False
    then have e: "nat_digits n = nat_digits (n div 10) @ [digit (n mod 10)]" by (subst nat_digits.simps) simp
    with 1(2) have h: "hd (nat_digits (n div 10)) = 48" by simp
    with 1(1) False have l: "length (nat_digits (n div 10)) = 1" by simp
    then have "digits_value (nat_digits (n div 10)) = 0"
      using h by (cases "nat_digits (n div 10)") (auto simp: digits_value_def)
    with False show ?thesis by (simp add: nat_digits_value)
  qed (subst nat_digits.simps, simp)
qed

text \<open>What may follow a value inside canonical text.\<close>

definition stops :: "jstr \<Rightarrow> bool" where
  "stops r \<longleftrightarrow> (case r of [] \<Rightarrow> True | c # _ \<Rightarrow> c = 44 \<or> c = 93 \<or> c = 125)"

lemma stops_simps [simp]: "stops []" "stops (44 # r)" "stops (93 # r)" "stops (125 # r)"
  by (simp_all add: stops_def)

lemma stops_digits:
  assumes "stops r" "\<forall>c \<in> set ds. is_digit c"
  shows "takeWhile is_digit (ds @ r) = ds" "dropWhile is_digit (ds @ r) = r" "parse_frac r = Some (0, r)" "parse_exp r = Some (0, r)"
  using assms
  by (auto simp: stops_def parse_frac_def parse_exp_def takeWhile_append dropWhile_append is_digit_def split: list.splits)

text \<open>Exactness of doubles on the safe integers, the IEEE fact the round trip rests on.\<close>

definition ints_exact :: "runtime \<Rightarrow> bool" where
  "ints_exact rt \<longleftrightarrow> (\<forall>n. \<bar>n\<bar> \<le> MAX_SAFE \<longrightarrow> dbl rt (of_int n) = of_int n)"

lemma to_double_int: "ints_exact rt \<Longrightarrow> \<bar>n\<bar> \<le> MAX_SAFE \<Longrightarrow> to_double rt (of_int n) = Fin (of_int n)"
proof -
  assume rt: "ints_exact rt" and n: "\<bar>n\<bar> \<le> MAX_SAFE"
  have m: "of_int MAX_SAFE < (2 :: rat) ^ 1024 - 2 ^ 970" by (simp add: MAX_SAFE_def)
  have "of_int n \<le> (of_int MAX_SAFE :: rat)" "- (of_int n) \<le> (of_int MAX_SAFE :: rat)" using n by linarith+
  with m have "\<not> (2 :: rat) ^ 1024 - 2 ^ 970 \<le> of_int n" "\<not> of_int n \<le> - ((2 :: rat) ^ 1024 - 2 ^ 970)" by linarith+
  with rt n show ?thesis by (simp add: to_double_def ints_exact_def Let_def)
qed

lemma parse_number_int:
  assumes "ints_exact rt" "\<bar>n\<bar> \<le> MAX_SAFE" "stops r"
  shows "parse_number rt (int_digits n @ r) = Some (JInt n, r)"
proof -
  have nd: "parse_number rt (nat_digits m @ r) = Some (JNum (to_double rt (of_nat m)), r)" for m
  proof -
    obtain c ds where c: "nat_digits m = c # ds" by (cases "nat_digits m") auto
    then have "c \<noteq> 45" using nat_digits_all [of m] by (auto simp: is_digit_def)
    with nat_digits_lead [of m] stops_digits [OF assms(3) nat_digits_all [of m]] c nat_digits_value [of m] show ?thesis
      by (auto simp: parse_number_def Let_def scale_def)
  qed
  show ?thesis
  proof (cases "n < 0")
    case True
    have "parse_number rt (45 # nat_digits (nat (- n)) @ r) = Some (JNum (to_double rt (- of_nat (nat (- n)))), r)"
      using nat_digits_lead [of "nat (- n)"] stops_digits [OF assms(3) nat_digits_all [of "nat (- n)"]] nat_digits_value [of "nat (- n)"]
      by (auto simp: parse_number_def Let_def scale_def)
    moreover have "- of_nat (nat (- n)) = (of_int n :: rat)" using True by simp
    ultimately show ?thesis using True to_double_int [OF assms(1,2)] by (simp add: int_digits_def)
  next
    case False
    then have "of_nat (nat n) = (of_int n :: rat)" by simp
    with False nd [of "nat n"] to_double_int [OF assms(1,2)] show ?thesis by (simp add: int_digits_def)
  qed
qed

text \<open>The first character of canonical text is never white space, a closing bracket or a byte order mark.\<close>

definition lead_ok :: "jstr \<Rightarrow> bool" where
  "lead_ok s \<longleftrightarrow> (case s of [] \<Rightarrow> False | c # _ \<Rightarrow> c \<notin> {32, 9, 10, 13, 93, 125, 65279})"

lemma lead_ok_skip: "lead_ok s \<Longrightarrow> skip_ws (s @ r) = s @ r"
  by (cases s) (auto simp: lead_ok_def skip_ws_def)

lemma lead_ok_not_close: "lead_ok s \<Longrightarrow> \<not> starts_with [93] (s @ r) \<and> \<not> starts_with [125] (s @ r)"
  by (cases s) (auto simp: lead_ok_def starts_with_def)

lemma int_digits_lead: "lead_ok (int_digits n)"
proof -
  have "lead_ok (nat_digits m)" for m
    using nat_digits_all [of m] nat_digits_ne [of m] by (cases "nat_digits m") (auto simp: lead_ok_def is_digit_def)
  then show ?thesis by (simp add: int_digits_def lead_ok_def)
qed

lemma canonicalJson_lead: "canonicalJson rt v = Some s \<Longrightarrow> lead_ok s"
  using int_digits_lead
  by (induction rt v rule: canonicalJson.induct) (auto simp: lead_ok_def quote_def lit_def split: if_splits)

lemma skip_ws_keep [simp]: "skip_ws (44 # r) = 44 # r" "skip_ws (93 # r) = 93 # r" "skip_ws (125 # r) = 125 # r"
  "skip_ws (58 # r) = 58 # r" "skip_ws (34 # r) = 34 # r" "skip_ws [] = []"
  by (simp_all add: skip_ws_def)

lemma join_Cons: "join sep (p # ps) = p @ (if ps = [] then [] else sep @ join sep ps)"
  by (cases ps) auto

text \<open>\<open>text_reads rt s v\<close>: wherever a value may end, the text \<open>s\<close> is read as \<open>v\<close>. The property of a text follows from
  that of its parts, whichever serialiser wrote them.\<close>

definition text_reads :: "runtime \<Rightarrow> jstr \<Rightarrow> json \<Rightarrow> bool" where
  "text_reads rt s v \<longleftrightarrow> lead_ok s \<and> (\<forall>r n. stops r \<longrightarrow> length s < n \<longrightarrow> parse_value rt n (s @ r) = Some (v, r))"

definition member_reads :: "runtime \<Rightarrow> jstr \<Rightarrow> jstr \<times> json \<Rightarrow> bool" where
  "member_reads rt p kv \<longleftrightarrow> (\<exists>t. p = quote (fst kv) @ 58 # t \<and> text_reads rt t (snd kv))"

lemma text_reads_parse: "text_reads rt s v \<Longrightarrow> json_parse rt s = Some v"
proof -
  assume "text_reads rt s v"
  then have "parse_value rt (Suc (length s)) (s @ []) = Some (v, [])"
    unfolding text_reads_def using stops_simps(1) lessI by blast
  then show ?thesis by (simp add: json_parse_def del: parse_value.simps)
qed

lemma parse_elems_texts:
  assumes "list_all2 (text_reads rt) parts vs" "vs \<noteq> []" "Suc (length (join [44] parts)) < n"
  shows "parse_elems rt n (join [44] parts @ 93 # r) = Some (vs, r)"
  using assms
proof (induction arbitrary: n rule: list_all2_induct)
  case (Cons t ts v vs)
  obtain m where m: "n = Suc m" using Cons.prems(2) by (cases n) auto
  have len: "length t < m" "0 < length t"
    using Cons.prems(2) Cons.hyps(1) by (auto simp: m join_Cons text_reads_def lead_ok_def split: list.splits)
  have head: "parse_value rt m (t @ u) = Some (v, u)" if "stops u" for u
    using Cons.hyps(1) that len(1) by (simp add: text_reads_def)
  show ?case
  proof (cases "vs = []")
    case True
    with Cons.hyps(2) head [of "93 # r"] show ?thesis by (simp add: m)
  next
    case False
    with Cons.hyps(2) have "ts \<noteq> []" by auto
    moreover from this have "Suc (length (join [44] ts)) < m"
      using Cons.prems(2) len by (simp add: m join_Cons)
    ultimately show ?thesis
      using Cons.IH [OF False] head [of "44 # join [44] ts @ 93 # r"] by (simp add: m join_Cons)
  qed
qed simp

lemma parse_members_texts:
  assumes "list_all2 (member_reads rt) parts kvs" "kvs \<noteq> []" "Suc (length (join [44] parts)) < n"
  shows "parse_members rt n (join [44] parts @ 125 # r) = Some (kvs, r)"
  using assms
proof (induction arbitrary: n rule: list_all2_induct)
  case (Cons p ts kv kvs)
  obtain k v where kv: "kv = (k, v)" by fastforce
  obtain t where t: "p = quote k @ 58 # t" "text_reads rt t v" using Cons.hyps(1) by (auto simp: kv member_reads_def)
  obtain m where m: "n = Suc m" using Cons.prems(2) by (cases n) auto
  have len: "length t < m" using Cons.prems(2) by (simp add: t(1) m join_Cons)
  have head: "parse_value rt m (t @ u) = Some (v, u)" if "stops u" for u
    using t(2) that len by (simp add: text_reads_def)
  have q: "quote k = 34 # tl (quote k)" "0 < length (quote k)" by (simp_all add: quote_def)
  have key: "parse_string (tl (quote k) @ u) = Some (k, u)" for u by (rule parse_quote)
  show ?case
  proof (cases "kvs = []")
    case True
    with Cons.hyps(2) have "ts = []" by simp
    with True head [of "125 # r"] key show ?thesis by (subst (1) t(1), subst q(1)) (simp add: kv m)
  next
    case False
    with Cons.hyps(2) have "ts \<noteq> []" by auto
    moreover from this have "Suc (length (join [44] ts)) < m"
      using Cons.prems(2) q(2) by (simp add: t(1) m join_Cons)
    ultimately show ?thesis
      using Cons.IH [OF False] head [of "44 # join [44] ts @ 125 # r"] key
      by (subst (1) t(1), subst q(1)) (simp add: kv m join_Cons)
  qed
qed simp

lemma fold_put_distinct: "distinct (map fst (m @ kvs)) \<Longrightarrow> fold (\<lambda>(k, v). map_put k v) kvs m = m @ kvs"
proof (induction kvs arbitrary: m)
  case (Cons p kvs)
  obtain k v where p: "p = (k, v)" by fastforce
  have put: "k \<notin> fst ` set xs \<Longrightarrow> map_put k v xs = xs @ [(k, v)]" for xs
    by (induction xs) auto
  from Cons.prems have "k \<notin> fst ` set m" by (auto simp: p)
  with put Cons.IH [of "m @ [(k, v)]"] Cons.prems show ?case by (simp add: p)
qed simp

lemma text_reads_arr:
  assumes "list_all2 (text_reads rt) parts vs"
  shows "text_reads rt (91 # join [44] parts @ [93]) (JArr vs)"
  unfolding text_reads_def
proof (intro conjI allI impI)
  show "lead_ok (91 # join [44] parts @ [93])" by (simp add: lead_ok_def)
  fix r n assume r: "stops r" and n: "length (91 # join [44] parts @ [93]) < n"
  obtain m where m: "n = Suc m" using n by (cases n) auto
  show "parse_value rt n ((91 # join [44] parts @ [93]) @ r) = Some (JArr vs, r)"
  proof (cases "vs = []")
    case True
    with assms show ?thesis by (simp add: m skip_ws_def starts_with_def)
  next
    case False
    then obtain t ts where t: "parts = t # ts" "lead_ok t" using assms by (cases parts) (auto simp: text_reads_def list_all2_Cons1)
    then have "lead_ok (join [44] parts)" by (cases t) (auto simp: join_Cons lead_ok_def)
    with parse_elems_texts [OF assms False, of m r] n lead_ok_skip [of "join [44] parts" "93 # r"]
      lead_ok_not_close [of "join [44] parts" "93 # r"] show ?thesis
      by (simp add: m) (simp add: skip_ws_def)
  qed
qed

lemma text_reads_obj:
  assumes "list_all2 (member_reads rt) parts kvs" "distinct (map fst kvs)"
  shows "text_reads rt (123 # join [44] parts @ [125]) (JObj kvs)"
  unfolding text_reads_def
proof (intro conjI allI impI)
  show "lead_ok (123 # join [44] parts @ [125])" by (simp add: lead_ok_def)
  fix r n assume r: "stops r" and n: "length (123 # join [44] parts @ [125]) < n"
  obtain m where m: "n = Suc m" using n by (cases n) auto
  have d: "fold (\<lambda>(k, v). map_put k v) kvs [] = kvs" using fold_put_distinct [of "[]" kvs] assms(2) by simp
  show "parse_value rt n ((123 # join [44] parts @ [125]) @ r) = Some (JObj kvs, r)"
  proof (cases "kvs = []")
    case True
    with assms show ?thesis by (simp add: m skip_ws_def starts_with_def)
  next
    case False
    then have "lead_ok (join [44] parts)"
      using assms(1) by (cases parts) (auto simp: join_Cons lead_ok_def member_reads_def quote_def list_all2_Cons1)
    with parse_members_texts [OF assms(1) False, of m r] n lead_ok_skip [of "join [44] parts" "125 # r"]
      lead_ok_not_close [of "join [44] parts" "125 # r"] d show ?thesis
      by (simp add: m) (simp add: skip_ws_def)
  qed
qed

lemma text_reads_int:
  assumes "ints_exact rt" "\<bar>i\<bar> \<le> MAX_SAFE"
  shows "text_reads rt (int_digits i) (JInt i)"
  unfolding text_reads_def
proof (intro conjI allI impI)
  let ?s = "int_digits i"
  show "lead_ok ?s" by (rule int_digits_lead)
  fix r n assume r: "stops r" and n: "length ?s < n"
  obtain m where m: "n = Suc m" using n by (cases n) auto
  obtain c t where c: "?s = c # t" "is_digit c \<or> c = 45"
  proof (cases "i < 0")
    case False
    then show ?thesis
      using that nat_digits_all [of "nat i"] nat_digits_ne [of "nat i"]
      by (cases "nat_digits (nat i)") (auto simp: int_digits_def)
  qed (use that in \<open>simp add: int_digits_def\<close>)
  have "skip_ws (?s @ r) = ?s @ r" using int_digits_lead by (simp add: lead_ok_skip)
  moreover have "c \<noteq> 34" "c \<noteq> 91" "c \<noteq> 123" "c \<noteq> 110" "c \<noteq> 116" "c \<noteq> 102" using c(2) by (auto simp: is_digit_def)
  ultimately show "parse_value rt n (?s @ r) = Some (JInt i, r)"
    using parse_number_int [OF assms r] by (simp add: m c(1) starts_with_def lit_def)
qed

lemma text_reads_leaf: "text_reads rt (lit ''null'') JNull" "text_reads rt (lit ''true'') (JBool True)"
  "text_reads rt (lit ''false'') (JBool False)" "text_reads rt (quote s) (JStr s)"
proof -
  have "parse_value rt n (lit ''null'' @ r) = Some (JNull, r)" "parse_value rt n (lit ''true'' @ r) = Some (JBool True, r)"
    "parse_value rt n (lit ''false'' @ r) = Some (JBool False, r)" "parse_value rt n (quote s @ r) = Some (JStr s, r)"
    if "0 < n" for n r
  proof -
    from that obtain m where m: "n = Suc m" by (cases n) auto
    show "parse_value rt n (lit ''null'' @ r) = Some (JNull, r)" "parse_value rt n (lit ''true'' @ r) = Some (JBool True, r)"
      "parse_value rt n (lit ''false'' @ r) = Some (JBool False, r)" "parse_value rt n (quote s @ r) = Some (JStr s, r)"
      by (simp_all add: m skip_ws_def starts_with_def lit_def quote_def parse_escape_str)
  qed
  moreover have "lead_ok (lit ''null'')" "lead_ok (lit ''true'')" "lead_ok (lit ''false'')" "lead_ok (quote s)"
    by (simp_all add: lead_ok_def lit_def quote_def)
  ultimately show "text_reads rt (lit ''null'') JNull" "text_reads rt (lit ''true'') (JBool True)"
    "text_reads rt (lit ''false'') (JBool False)" "text_reads rt (quote s) (JStr s)"
    by (auto simp: text_reads_def)
qed

section \<open>Parsing inverts canonical serialisation\<close>

text \<open>\<open>reads_back\<close> is the round trip of one value.\<close>

definition reads_back :: "runtime \<Rightarrow> json \<Rightarrow> bool" where
  "reads_back rt v \<longleftrightarrow> (\<forall>s. canonicalJson rt v = Some s \<longrightarrow> text_reads rt s (canon_form rt v))"

definition member_text :: "runtime \<Rightarrow> jstr \<times> json \<Rightarrow> jstr option" where
  "member_text rt kv = map_option (\<lambda>t. quote (fst kv) @ [58] @ t) (canonicalJson rt (snd kv))"

lemma member_text_pair: "member_text rt (k, v) = map_option (\<lambda>t. quote k @ 58 # t) (canonicalJson rt v)"
  by (simp add: member_text_def)

lemma member_text_fun:
  "(\<lambda>(k, v). map_option (\<lambda>t. quote k @ [58] @ t) (canonicalJson rt v)) = member_text rt"
  by (auto simp: member_text_def fun_eq_iff)

lemma those_all2:
  "those (map f xs) = Some ys \<Longrightarrow> (\<And>x y. x \<in> set xs \<Longrightarrow> f x = Some y \<Longrightarrow> P y (g x)) \<Longrightarrow> list_all2 P ys (map g xs)"
  by (induction xs arbitrary: ys) (auto split: option.splits)

lemma reads_back_arr:
  assumes "\<forall>v \<in> set vs. reads_back rt v"
  shows "reads_back rt (JArr vs)"
  unfolding reads_back_def
proof (intro allI impI)
  fix s assume "canonicalJson rt (JArr vs) = Some s"
  then obtain parts where p: "those (map (canonicalJson rt) vs) = Some parts" "s = 91 # join [44] parts @ [93]" by auto
  have "list_all2 (text_reads rt) parts (map (canon_form rt) vs)"
    using assms by (intro those_all2 [OF p(1)]) (auto simp: reads_back_def)
  then show "text_reads rt s (canon_form rt (JArr vs))" using text_reads_arr p(2) by simp
qed

lemma reads_back_obj:
  assumes "\<forall>kv \<in> set kvs. reads_back rt (snd kv)" "distinct (map fst kvs)"
  shows "reads_back rt (JObj kvs)"
  unfolding reads_back_def
proof (intro allI impI)
  let ?ms = "filter (\<lambda>(k, v). v \<noteq> JUndef) (sort_key fst kvs)" and ?f = "\<lambda>(k, v). (k, canon_form rt v)"
  fix s assume "canonicalJson rt (JObj kvs) = Some s"
  then obtain parts where p: "those (map (member_text rt) ?ms) = Some parts" "s = 123 # join [44] parts @ [125]"
    unfolding canonicalJson.simps member_text_fun by auto
  have "list_all2 (member_reads rt) parts (map ?f ?ms)"
    using assms(1) by (intro those_all2 [OF p(1)]) (force simp: reads_back_def member_reads_def member_text_def)
  moreover have "distinct (map fst (sort_key fst kvs))" using assms(2) by (simp add: distinct_map)
  then have "distinct (map fst (map ?f ?ms))" using distinct_keys_filter by (simp add: case_prod_beta' comp_def)
  ultimately show "text_reads rt s (canon_form rt (JObj kvs))" using text_reads_obj p(2) by simp
qed

lemma reads_back_num:
  assumes "ints_exact rt" shows "reads_back rt (JNum x)"
  unfolding reads_back_def
proof (intro allI impI)
  fix s assume "canonicalJson rt (JNum x) = Some s"
  then obtain i where "x = Fin (of_int i)" "\<bar>i\<bar> \<le> MAX_SAFE" "s = int_digits i"
    by (cases x) (auto simp: is_integral_def split: if_splits dest: sym)
  then show "text_reads rt s (canon_form rt (JNum x))" using text_reads_int [OF assms, of i] by simp
qed

lemma reads_back_leaf: "reads_back rt JNull" "reads_back rt (JBool b)" "reads_back rt (JStr s)" "reads_back rt JUndef"
  using text_reads_leaf(4) [of rt "nfc rt s"] by (auto simp: reads_back_def text_reads_leaf(1-3))

lemma reads_back_all: "ints_exact rt \<Longrightarrow> json_wf v \<Longrightarrow> reads_back rt v"
proof (induction v rule: json_wf.induct)
  case (1 vs)
  then show ?case by (intro reads_back_arr) simp
next
  case (2 kvs)
  then show ?case by (intro reads_back_obj) auto
qed (simp_all add: reads_back_num reads_back_leaf)

text \<open>C19. Parsing inverts canonical serialisation: on a platform whose doubles are exact on the safe
  integers, \<open>JSON.parse\<close> of the canonical text of a value is its canonical form. The parser never runs
  out of fuel on such a text. So two values with the same canonical text have the same canonical form:
  a hash or a signature over canonical text is one over the value.\<close>

theorem canonical_json_roundtrip:
  assumes "ints_exact rt" "json_wf v" "canonicalJson rt v = Some s"
  shows "json_parse rt s = Some (canon_form rt v)
    \<and> (json_wf w \<longrightarrow> canonicalJson rt w = Some s \<longrightarrow> canon_form rt w = canon_form rt v)"
proof -
  have rb: "json_parse rt s = Some (canon_form rt u)" if "json_wf u" "canonicalJson rt u = Some s" for u
  proof -
    show ?thesis using reads_back_all [OF assms(1) that(1)] that(2) text_reads_parse by (simp add: reads_back_def)
  qed
  from rb [OF assms(2,3)] rb [of w] show ?thesis by simp
qed

definition sample_value :: json where
  "sample_value = JObj [(lit ''b'', JInt 12), (lit ''a'', JArr [JStr (lit ''x''), JNull]), (lit ''c'', JUndef)]"

theorem canonical_json_roundtrip_witness:
  "canonicalJson sample_runtime sample_value = Some (123 # quote (lit ''a'') @ [58] @ 91 # quote (lit ''x'') @ [44] @ lit ''null'' @ [93]
     @ [44] @ quote (lit ''b'') @ [58] @ lit ''12'' @ [125])
   \<and> json_parse sample_runtime (123 # quote (lit ''a'') @ [58] @ 91 # quote (lit ''x'') @ [44] @ lit ''null'' @ [93]
     @ [44] @ quote (lit ''b'') @ [58] @ lit ''12'' @ [125])
     = Some (JObj [(lit ''a'', JArr [JStr (lit ''x''), JNull]), (lit ''b'', JInt 12)])"
proof -
  have n: "int_digits 12 = lit ''12''" by (simp add: int_digits_def nat_digits.simps digit_def lit_def)
  have i: "is_integral 12" "(12 :: int) \<le> MAX_SAFE"
    using is_integral_int [of 12] by (simp_all add: MAX_SAFE_def)
  have c: "canonicalJson sample_runtime sample_value = Some (123 # quote (lit ''a'') @ [58] @ 91 # quote (lit ''x'') @ [44] @ lit ''null'' @ [93]
     @ [44] @ quote (lit ''b'') @ [58] @ lit ''12'' @ [125])"
    by (simp add: sample_value_def lit_def n [unfolded lit_def] i)
  have "ints_exact sample_runtime" "json_wf sample_value"
    by (simp_all add: ints_exact_def sample_value_def)
  from canonical_json_roundtrip [OF this c] c show ?thesis by (simp add: sample_value_def lit_def)
qed

section \<open>Decoding inverts UTF-8 encoding\<close>

lemma unat_byte: "n < 256 \<Longrightarrow> unat (of_nat n :: byte) = n"
  by (simp add: unat_of_nat)

definition scalar :: "nat \<Rightarrow> bool" where
  "scalar c \<longleftrightarrow> c < 1114112 \<and> \<not> high_surrogate c \<and> \<not> low_surrogate c"

lemma utf8_split:
  fixes c :: nat
  shows "c < 2048 \<Longrightarrow> c div 64 < 32" "c < 65536 \<Longrightarrow> c div 4096 < 16" "c < 1114112 \<Longrightarrow> c div 262144 < 5"
    "c div 64 mod 64 = (c div 64) mod 64"
    "c div 4096 * 4096 + c div 64 mod 64 * 64 + c mod 64 = c"
    "c div 262144 * 262144 + c div 4096 mod 64 * 4096 + c div 64 mod 64 * 64 + c mod 64 = c"
proof -
  have e: "c div 4096 = c div 64 div 64" "c div 262144 = c div 4096 div 64" by (simp_all flip: div_mult2_eq)
  from e(1) div_mult_mod_eq [of c 64] div_mult_mod_eq [of "c div 64" 64]
  show 1: "c div 4096 * 4096 + c div 64 mod 64 * 64 + c mod 64 = c" by linarith
  with e(2) div_mult_mod_eq [of "c div 4096" 64]
  show "c div 262144 * 262144 + c div 4096 mod 64 * 4096 + c div 64 mod 64 * 64 + c mod 64 = c" by linarith
qed (auto simp: less_mult_imp_div_less div_less_iff_less_mult)

lemma utf8_points_4:
  "240 \<le> unat a \<Longrightarrow> unat a < 245 \<Longrightarrow> second_ok a b \<Longrightarrow> cont c \<Longrightarrow> cont d \<Longrightarrow>
   utf8_points (a # b # c # d # r) =
     (low_bits 8 a * 262144 + low_bits 64 b * 4096 + low_bits 64 c * 64 + low_bits 64 d) # utf8_points r"
  by simp

lemma utf8_point_back: "scalar c \<Longrightarrow> utf8_points (utf8_point c @ r) = c # utf8_points r"
proof -
  assume sc: "scalar c"
  then have ns: "\<not> high_surrogate c" "\<not> low_surrogate c" "c < 1114112" by (auto simp: scalar_def)
  have tail: "cont (of_nat (128 + m))" "low_bits 64 (of_nat (128 + m)) = m" if "m < 64" for m
  proof -
    from that mod_mult_self1 [of m 2 64] have "(128 + m) mod 64 = m" by (simp add: add.commute)
    with that show "cont (of_nat (128 + m))" "low_bits 64 (of_nat (128 + m)) = m"
      by (simp_all add: cont_def low_bits_def unat_byte del: of_nat_add)
  qed
  consider "c < 128" | "128 \<le> c" "c < 2048" | "2048 \<le> c" "c < 65536" | "65536 \<le> c" by linarith
  then show ?thesis
  proof cases
    case 1
    then show ?thesis using ns by (simp add: utf8_point_def unat_byte)
  next
    case 2
    have d: "2 \<le> c div 64" "c div 64 < 32" using 2 div_le_mono [of 128 c 64] utf8_split(1) [of c] by auto
    have l: "192 + c div 64 < 224" "194 \<le> 192 + c div 64" "(192 + c div 64) mod 32 = c div 64"
      using d mod_mult_self1 [of "c div 64" 6 32] by (simp_all add: add.commute)
    have "utf8_point c = [of_nat (192 + c div 64), of_nat (128 + c mod 64)]"
      using 2 ns by (simp add: utf8_point_def)
    then show ?thesis
      using l tail [of "c mod 64"] by (simp add: unat_byte low_bits_def [of 32] div_mult_mod_eq del: of_nat_add)
  next
    case 3
    let ?a = "of_nat (224 + c div 4096) :: byte" and ?b = "of_nat (128 + c div 64 mod 64) :: byte"
    have l: "224 + c div 4096 < 240" "(224 + c div 4096) mod 16 = c div 4096"
      using 3 utf8_split(2) [of c] by (auto simp: mod_add_left_eq [symmetric])
    have ua: "unat ?a = 224 + c div 4096" "unat ?b = 128 + c div 64 mod 64"
      using l(1) by (auto simp: unat_byte simp del: of_nat_add)
    have e0: "160 \<le> 128 + c div 64 mod 64" if "c div 4096 = 0"
      using that 3 utf8_split(5) [of c] by auto
    have ed: "128 + c div 64 mod 64 < 160" if "c div 4096 = 13"
      using that ns utf8_split(5) [of c] by (auto simp: high_surrogate_def low_surrogate_def)
    have ok: "second_ok ?a ?b"
      unfolding second_ok_def Let_def ua using e0 ed l(1) by auto
    have "utf8_point c = [?a, ?b, of_nat (128 + c mod 64)]"
      using 3 ns by (simp add: utf8_point_def)
    then show ?thesis
      using l ua ok tail [of "c mod 64"] tail [of "c div 64 mod 64"] utf8_split(5) [of c]
      by (simp add: low_bits_def [of 16] del: of_nat_add)
  next
    case 4
    let ?a = "of_nat (240 + c div 262144) :: byte" and ?b = "of_nat (128 + c div 4096 mod 64) :: byte"
    have l: "240 + c div 262144 < 245" "(240 + c div 262144) mod 8 = c div 262144"
      using utf8_split(3) [OF ns(3)] by (auto simp: mod_add_left_eq [symmetric])
    have ua: "unat ?a = 240 + c div 262144" "unat ?b = 128 + c div 4096 mod 64"
      using l(1) by (auto simp: unat_byte simp del: of_nat_add)
    have f0: "144 \<le> 128 + c div 4096 mod 64" if "c div 262144 = 0"
      using that 4 utf8_split(6) [of c] by auto
    have f4: "128 + c div 4096 mod 64 < 144" if "c div 262144 = 4"
      using that ns(3) utf8_split(6) [of c] by auto
    have ok: "second_ok ?a ?b"
      unfolding second_ok_def Let_def ua using f0 f4 l(1) by auto
    have "utf8_point c = [?a, ?b, of_nat (128 + c div 64 mod 64), of_nat (128 + c mod 64)]"
      using 4 ns by (simp add: utf8_point_def)
    then have "utf8_points (utf8_point c @ r) = utf8_points (?a # ?b # of_nat (128 + c div 64 mod 64) # of_nat (128 + c mod 64) # r)"
      by (simp only: append.simps)
    also have "\<dots> = (low_bits 8 ?a * 262144 + low_bits 64 ?b * 4096 + low_bits 64 (of_nat (128 + c div 64 mod 64)) * 64
        + low_bits 64 (of_nat (128 + c mod 64))) # utf8_points r"
    proof (rule utf8_points_4)
      show "240 \<le> unat ?a" "unat ?a < 245" unfolding ua(1) using l(1) by simp_all
    qed (rule ok, rule tail(1), simp, rule tail(1), simp)
    also have "\<dots> = c # utf8_points r"
      unfolding low_bits_def [of 8] ua(1) l(2) using tail(2) utf8_split(6) [of c] by (simp del: of_nat_add)
    finally show ?thesis .
  qed
qed

lemma utf8_points_back: "\<forall>c \<in> set cs. scalar c \<Longrightarrow> utf8_points (concat (map utf8_point cs)) = cs"
  by (induction cs) (auto simp: utf8_point_back)

text \<open>Well-formed UTF-16.\<close>

fun wf16 :: "jstr \<Rightarrow> bool" where
  "wf16 [] = True"
| "wf16 [a] = (a < 65536 \<and> \<not> high_surrogate a \<and> \<not> low_surrogate a)"
| "wf16 (a # b # s) =
     (if high_surrogate a \<and> low_surrogate b then wf16 s
      else a < 65536 \<and> \<not> high_surrogate a \<and> \<not> low_surrogate a \<and> wf16 (b # s))"

lemma pair_point:
  assumes "high_surrogate a" "low_surrogate b"
  shows "scalar ((a - 55296) * 1024 + (b - 56320) + 65536)"
    "units_of ((a - 55296) * 1024 + (b - 56320) + 65536) = [a, b]"
proof -
  define h l where "h = a - 55296" and "l = b - 56320"
  with assms have ab: "a = 55296 + h" "b = 56320 + l" "h < 1024" "l < 1024"
    by (auto simp: high_surrogate_def low_surrogate_def)
  have "(h * 1024 + l) div 1024 = h" "(h * 1024 + l) mod 1024 = l" "h * 1024 + l < 1048576" using ab by auto
  then show "scalar ((a - 55296) * 1024 + (b - 56320) + 65536)"
    "units_of ((a - 55296) * 1024 + (b - 56320) + 65536) = [a, b]"
    by (auto simp: ab scalar_def units_of_def high_surrogate_def low_surrogate_def)
qed

lemma wf16_points: "wf16 s \<Longrightarrow> (\<forall>c \<in> set (code_points s). scalar c) \<and> code_units (code_points s) = s"
proof (induction s rule: wf16.induct)
  case (2 a)
  then show ?case by (auto simp: scalar_def code_units_def units_of_def)
next
  case (3 a b s)
  show ?case
  proof (cases "high_surrogate a \<and> low_surrogate b")
    case True
    with 3 pair_point [of a b] show ?thesis by (simp add: code_units_def)
  next
    case False
    with 3(3) have a: "a < 65536" "\<not> high_surrogate a" "\<not> low_surrogate a" "wf16 (b # s)" by (simp_all split: if_splits)
    with 3(2) [OF False] False show ?thesis by (auto simp: code_units_def units_of_def scalar_def)
  qed
qed (simp add: code_units_def)

lemma wf16_append: "wf16 s \<Longrightarrow> wf16 t \<Longrightarrow> wf16 (s @ t)"
proof (induction s rule: wf16.induct)
  case (2 a)
  then show ?case by (cases t) auto
qed (auto split: if_splits)

lemma wf16_Cons: "c < 55296 \<Longrightarrow> wf16 t \<Longrightarrow> wf16 (c # t)"
  by (cases t) (auto simp: high_surrogate_def low_surrogate_def)

lemma wf16_small: "\<forall>c \<in> set s. c < 55296 \<Longrightarrow> wf16 s"
  by (induction s) (auto intro: wf16_Cons)

lemma wf16_join: "wf16 sep \<Longrightarrow> \<forall>p \<in> set ps. wf16 p \<Longrightarrow> wf16 (join sep ps)"
  by (induction sep ps rule: join.induct) (auto intro!: wf16_append)

lemma digit_small: "n < 16 \<Longrightarrow> digit n < 55296"
  by (simp add: digit_def)

lemma wf16_u_escape: "c < 65536 \<Longrightarrow> wf16 (u_escape c)"
  by (rule wf16_small) (auto simp: u_escape_def intro!: digit_small simp: less_mult_imp_div_less)

lemma wf16_escape_unit: "c < 65536 \<Longrightarrow> \<not> high_surrogate c \<Longrightarrow> \<not> low_surrogate c \<Longrightarrow> wf16 (escape_unit c)"
  using wf16_u_escape [of c]
  by (auto simp: escape_unit_def high_surrogate_def low_surrogate_def)

lemma wf16_escape_str: "\<forall>c \<in> set s. c < 65536 \<Longrightarrow> wf16 (escape_str s)"
  by (induction s rule: escape_str.induct)
    (auto simp: wf16_u_escape wf16_escape_unit intro!: wf16_append)

lemma wf16_quote: "\<forall>c \<in> set s. c < 65536 \<Longrightarrow> wf16 (quote s)"
  unfolding quote_def by (intro wf16_Cons wf16_append wf16_escape_str) auto

lemma wf16_int_digits: "wf16 (int_digits n)"
proof -
  have "wf16 (nat_digits m)" for m
    using nat_digits_all [of m] by (intro wf16_small) (auto simp: is_digit_def)
  then show ?thesis by (simp add: int_digits_def wf16_Cons)
qed

lemma wf16_lit: "wf16 (lit s)"
  by (rule wf16_small) (auto simp: lit_def intro: less_trans [OF nat_of_char_less_256])

text \<open>Strings of 16-bit units, before and after normalisation.\<close>

function (sequential) json_units :: "runtime \<Rightarrow> json \<Rightarrow> bool" where
  "json_units rt (JStr s) = (\<forall>c \<in> set (nfc rt s). c < 65536)"
| "json_units rt (JArr vs) = (\<forall>v \<in> set vs. json_units rt v)"
| "json_units rt (JObj kvs) = (\<forall>kv \<in> set kvs. (\<forall>c \<in> set (fst kv). c < 65536) \<and> json_units rt (snd kv))"
| "json_units rt v = True"
  by pat_completeness auto
termination
  by (relation "measure (size \<circ> snd)") (auto dest: size_json_obj elim: size_list_estimation' intro: le_imp_less_Suc)

lemma those_set: "those xs = Some ys \<Longrightarrow> y \<in> set ys \<Longrightarrow> Some y \<in> set xs"
  by (induction xs arbitrary: ys) (auto split: option.splits)

lemma canonicalJson_wf16: "canonicalJson rt v = Some s \<Longrightarrow> json_units rt v \<Longrightarrow> wf16 s"
proof (induction rt v arbitrary: s rule: canonicalJson.induct)
  case (5 rt vs)
  then obtain parts where p: "those (map (canonicalJson rt) vs) = Some parts" "s = 91 # join [44] parts @ [93]" by auto
  have "wf16 t" if "t \<in> set parts" for t
    using those_set [OF p(1) that] 5 by auto
  then show ?case unfolding p(2) by (intro wf16_Cons wf16_append wf16_join) auto
next
  case (6 rt kvs)
  then obtain parts where p: "those (map (member_text rt) (filter (\<lambda>(k, v). v \<noteq> JUndef) (sort_key fst kvs))) = Some parts"
    "s = 123 # join [44] parts @ [125]"
    unfolding canonicalJson.simps member_text_fun by auto
  have "wf16 t" if "t \<in> set parts" for t
  proof -
    from those_set [OF p(1) that] obtain k v where kv: "(k, v) \<in> set kvs" "v \<noteq> JUndef" "member_text rt (k, v) = Some t" by auto
    then obtain u where u: "canonicalJson rt v = Some u" "t = quote k @ 58 # u" by (auto simp: member_text_pair)
    have "wf16 u" using 6(1) [OF _ refl] 6(3) kv u(1) by auto
    moreover have "wf16 (quote k)" using 6(3) kv(1) by (intro wf16_quote) auto
    ultimately show ?thesis unfolding u(2) by (intro wf16_append wf16_Cons) auto
  qed
  then show ?case unfolding p(2) by (intro wf16_Cons wf16_append wf16_join) auto
qed (auto simp: wf16_lit wf16_int_digits wf16_quote split: if_splits)

lemma text_decode_utf8:
  assumes w: "wf16 s" and l: "lead_ok s"
  shows "text_decode (utf8 s) = s"
proof -
  have p: "utf8_points (utf8 s) = code_points s" unfolding utf8_def using wf16_points [OF w] by (intro utf8_points_back) auto
  from l obtain c t where c: "s = c # t" "c \<noteq> 65279" by (cases s) (auto simp: lead_ok_def)
  have "hd (code_points s) \<noteq> 65279 \<and> code_points s \<noteq> []"
    using c by (cases s rule: code_points.cases) (auto simp: high_surrogate_def low_surrogate_def split: if_splits)
  then show ?thesis
    unfolding text_decode_def p using wf16_points [OF w] by (auto split: list.splits)
qed

lemma text_decode_canonical:
  "canonicalJson rt v = Some s \<Longrightarrow> json_units rt v \<Longrightarrow> text_decode (utf8 s) = s"
  by (intro text_decode_utf8 canonicalJson_wf16 canonicalJson_lead)

section \<open>Parsing inverts stringification\<close>

text \<open>Values \<open>JSON.stringify\<close> keeps: objects with distinct keys, no \<open>undefined\<close>, integers the engine prints exactly.\<close>

definition ints_print :: "runtime \<Rightarrow> bool" where
  "ints_print rt \<longleftrightarrow> (\<forall>n. \<bar>n\<bar> \<le> MAX_SAFE \<longrightarrow> num_str rt (of_int n) = int_digits n)"

function (sequential) plain_json :: "json \<Rightarrow> bool" where
  "plain_json (JArr vs) = (\<forall>v \<in> set vs. plain_json v)"
| "plain_json (JObj kvs) = (distinct (map fst kvs) \<and> (\<forall>kv \<in> set kvs. (\<forall>c \<in> set (fst kv). c < 65536) \<and> plain_json (snd kv)))"
| "plain_json (JNum x) = (case x of Fin q \<Rightarrow> is_integral q \<and> \<bar>\<lfloor>q\<rfloor>\<bar> \<le> MAX_SAFE | _ \<Rightarrow> False)"
| "plain_json (JStr s) = (\<forall>c \<in> set s. c < 65536)"
| "plain_json JUndef = False"
| "plain_json v = True"
  by pat_completeness auto
termination
  by (relation "measure size") (auto dest: size_json_obj elim: size_list_estimation' intro: le_imp_less_Suc)

lemma plain_int: "plain_json (JNum x) \<Longrightarrow> ints_print rt \<Longrightarrow> \<exists>i. x = Fin (of_int i) \<and> \<bar>i\<bar> \<le> MAX_SAFE \<and> stringify rt (JNum x) = int_digits i"
  by (cases x) (auto simp: is_integral_def ints_print_def dest: sym)

lemma stringify_reads:
  assumes "ints_exact rt" "ints_print rt"
  shows "plain_json v \<Longrightarrow> text_reads rt (stringify rt v) v"
proof (induction v rule: plain_json.induct)
  case (1 vs)
  then show ?case by (simp add: text_reads_arr list_all2_map1 list_all2_same)
next
  case (2 kvs)
  then have keep: "filter (\<lambda>(k, v). v \<noteq> JUndef) kvs = kvs" by (auto simp: filter_id_conv)
  have "member_reads rt (quote k @ [58] @ stringify rt v) (k, v)" if "(k, v) \<in> set kvs" for k v
    using 2 that by (force simp: member_reads_def)
  then have "list_all2 (member_reads rt) (map (\<lambda>(k, v). quote k @ [58] @ stringify rt v) kvs) kvs"
    by (auto simp: list_all2_map1 list_all2_same)
  with text_reads_obj 2 keep show ?case by (simp only: stringify.simps plain_json.simps)
next
  case (3 x)
  then show ?case using plain_int [OF _ assms(2)] text_reads_int [OF assms(1)] by metis
qed (simp_all add: text_reads_leaf)

lemma stringify_wf16: "ints_print rt \<Longrightarrow> plain_json v \<Longrightarrow> wf16 (stringify rt v)"
proof (induction v rule: plain_json.induct)
  case (1 vs)
  then show ?case by (auto intro!: wf16_Cons wf16_append wf16_join)
next
  case (2 kvs)
  then show ?case by (auto intro!: wf16_Cons wf16_append wf16_join wf16_quote)
next
  case (3 x)
  then show ?case using plain_int wf16_int_digits by metis
qed (auto simp: wf16_lit wf16_quote)

lemma stringify_bytes_back:
  assumes "ints_exact rt" "ints_print rt" "plain_json v"
  shows "json_parse rt (text_decode (utf8 (stringify rt v))) = Some v"
proof -
  have r: "text_reads rt (stringify rt v) v" using assms by (rule stringify_reads)
  then have "text_decode (utf8 (stringify rt v)) = stringify rt v"
    using assms by (intro text_decode_utf8 stringify_wf16) (simp_all add: text_reads_def)
  with text_reads_parse [OF r] show ?thesis by simp
qed

section \<open>Canonical bytes determine the value\<close>

lemma canonical_bytes_back:
  assumes "ints_exact rt" "json_wf v" "json_units rt v" "canonicalJson rt v = Some s"
  shows "json_parse rt (text_decode (utf8 s)) = Some (canon_form rt v)"
proof -
  have "json_parse rt s = Some (canon_form rt v)"
    using reads_back_all [OF assms(1,2)] assms(4) text_reads_parse by (simp add: reads_back_def)
  then show ?thesis by (simp add: text_decode_canonical [OF assms(4,3)])
qed

text \<open>The canonical form of a canonical request gives the request back.\<close>

lemma canon_form_request:
  "canon_form rt (request_json r) = JObj [(lit ''max_tokens'', JInt (max_tokens r)),
     (lit ''messages'', JArr (map (\<lambda>m. JObj [(lit ''content'', JStr (nfc rt (msg_content m))),
         (lit ''role'', JStr (nfc rt (role_str (msg_role m))))]) (req_messages r))),
     (lit ''model'', JStr (nfc rt (req_model r))), (lit ''temperature_millis'', JInt (temperature_millis r))]"
  by (simp add: request_json_def message_json_def lit_def)

definition normalized_request :: "runtime \<Rightarrow> CanonicalRequest \<Rightarrow> bool" where
  "normalized_request rt r \<longleftrightarrow> nfc rt (req_model r) = req_model r
     \<and> (\<forall>m \<in> set (req_messages r). nfc rt (msg_content m) = msg_content m)
     \<and> (\<forall>c \<in> set (req_model r). c < 65536) \<and> (\<forall>m \<in> set (req_messages r). \<forall>c \<in> set (msg_content m). c < 65536)"

lemma role_str_inject: "role_str a = role_str b \<longleftrightarrow> a = b"
  by (cases a; cases b) simp_all

lemma role_str_units: "\<forall>c \<in> set (role_str x). c < 65536"
  by (cases x) (simp_all add: lit_def)

lemma message_determined:
  fixes ms ms' :: "CanonicalMessage list"
  assumes "\<And>x. nfc rt (role_str x) = role_str x"
    and "map (\<lambda>m. JObj [(lit ''content'', JStr (nfc rt (msg_content m))), (lit ''role'', JStr (nfc rt (role_str (msg_role m))))]) ms
       = map (\<lambda>m. JObj [(lit ''content'', JStr (nfc rt (msg_content m))), (lit ''role'', JStr (nfc rt (role_str (msg_role m))))]) ms'"
    and "\<forall>m \<in> set ms \<union> set ms'. nfc rt (msg_content m) = msg_content m"
  shows "ms = ms'"
  using assms(2,3)
proof (induction ms arbitrary: ms')
  case (Cons m ms)
  then obtain n ns where n: "ms' = n # ns" by (cases ms') auto
  have "nfc rt (role_str (msg_role m)) = nfc rt (role_str (msg_role n))" "nfc rt (msg_content m) = nfc rt (msg_content n)"
    using Cons.prems(1) by (simp_all add: n)
  moreover have "nfc rt (msg_content m) = msg_content m" "nfc rt (msg_content n) = msg_content n"
    using Cons.prems(2) by (simp_all add: n)
  ultimately have "m = n" unfolding assms(1) role_str_inject by (intro CanonicalMessage.equality) simp_all
  with Cons show ?case by (auto simp: n)
qed simp

text \<open>A commitment names one request: when the commitments of two canonical requests agree and the
  hash does not collide on their inputs, the two requests are equal in every field, and so are the
  nonces. Nothing is lost on the way from the request to the hashed bytes. (Roles are ASCII words,
  which NFC leaves alone.)\<close>

theorem commitment_names_request:
  assumes rt: "ints_exact rt" "\<And>x. nfc rt (role_str x) = role_str x"
    and norm: "normalized_request rt r" "normalized_request rt r'"
    and b: "canonicalBytes rt r = Some bytes" "canonicalBytes rt r' = Some bytes'"
    and c: "requestCommitment rt bytes nonce = Some d" "requestCommitment rt bytes' nonce' = Some d"
    and no_collision: "inj_on (sha256 rt) {utf8 (lit COMMITMENT_DOMAIN) @ bytes @ the (fromHex nonce),
      utf8 (lit COMMITMENT_DOMAIN) @ bytes' @ the (fromHex nonce')}"
  shows "r = r' \<and> fromHex nonce = fromHex nonce'"
proof -
  obtain n n' where n: "fromHex nonce = Some n" "length n = 32" "d = domain_digest rt COMMITMENT_DOMAIN (bytes @ n)"
    and n': "fromHex nonce' = Some n'" "length n' = 32" "d = domain_digest rt COMMITMENT_DOMAIN (bytes' @ n')"
    using c by (auto simp: requestCommitment_def split: option.splits if_splits)
  have "domain_digest rt COMMITMENT_DOMAIN (bytes @ n) = domain_digest rt COMMITMENT_DOMAIN (bytes' @ n')"
    by (rule trans [OF n(3) [symmetric] n'(3)])
  moreover have "inj_on (sha256 rt) {utf8 (lit COMMITMENT_DOMAIN) @ bytes @ n, utf8 (lit COMMITMENT_DOMAIN) @ bytes' @ n'}"
    using no_collision by (simp only: n(1) n'(1) option.sel)
  moreover have "COMMITMENT_DOMAIN \<in> set digest_domains" by (simp add: digest_domains_def)
  ultimately have "bytes @ n = bytes' @ n'" using domain_digest_eq by blast
  with n(2) n'(2) have eq: "bytes = bytes'" "n = n'" by simp_all
  have "json_wf (request_json q)" for q by (simp add: request_json_def message_json_def)
  moreover have "json_units rt (request_json q)" if "normalized_request rt q" for q
  proof -
    have "\<forall>c \<in> set (lit k). c < 65536" for k by (auto simp: lit_def intro: less_trans [OF nat_of_char_less_256])
    with that role_str_units show ?thesis
      by (simp add: request_json_def message_json_def normalized_request_def rt(2))
  qed
  ultimately have "json_parse rt (text_decode bytes) = Some (canon_form rt (request_json r))"
    "json_parse rt (text_decode bytes') = Some (canon_form rt (request_json r'))"
    using canonical_bytes_back [OF rt(1)] b norm by (auto simp: canonicalBytes_def)
  with eq have "canon_form rt (request_json r) = canon_form rt (request_json r')" by simp
  then have "r = r'"
    using message_determined [OF rt(2), of "req_messages r" "req_messages r'"] norm
    by (cases r; cases r') (auto simp: canon_form_request normalized_request_def)
  with eq n(1) n'(1) show ?thesis by simp
qed

lemma sample_request_serialises: "\<exists>bytes. canonicalBytes sample_runtime sample_request = Some bytes"
proof -
  have "is_integral 500" "is_integral 1024" using is_integral_int [of 500] is_integral_int [of 1024] by simp_all
  then show ?thesis
    by (simp add: canonicalBytes_def request_json_def message_json_def sample_request_def MAX_SAFE_def lit_def)
qed

lemma sample_request_normalized: "normalized_request sample_runtime sample_request"
  by (simp add: normalized_request_def sample_request_def lit_def)

theorem commitment_names_request_witness:
  "\<exists>bytes d. canonicalBytes sample_runtime sample_request = Some bytes
     \<and> requestCommitment sample_runtime bytes sample_nonce = Some d
     \<and> sample_request = sample_request\<lparr> max_tokens := 1024 \<rparr> \<and> fromHex sample_nonce = Some (replicate 32 7)"
proof -
  obtain bytes where b: "canonicalBytes sample_runtime sample_request = Some bytes" using sample_request_serialises by blast
  have n: "fromHex sample_nonce = Some (replicate 32 7)" by (simp add: sample_nonce_def hexc.dec_enc)
  then obtain d where d: "requestCommitment sample_runtime bytes sample_nonce = Some d" by (simp add: requestCommitment_def)
  have same: "sample_request\<lparr> max_tokens := 1024 \<rparr> = sample_request" by (simp add: sample_request_def)
  have "sample_request = sample_request\<lparr> max_tokens := 1024 \<rparr> \<and> fromHex sample_nonce = fromHex sample_nonce"
  proof (rule commitment_names_request [OF _ _ _ _ b _ d d])
    show "ints_exact sample_runtime" by (simp add: ints_exact_def)
  qed (simp_all add: same b sample_request_normalized)
  with b d n show ?thesis by blast
qed

end
