(* ===== verification/Tee.thy ===== *)
theory Tee
  imports Protocol_Types Json_Text
begin

text \<open>
  The trusted environment (\<^verbatim>\<open>services/tee-sim/src/tee.ts\<close>) and the HPKE wrapper it opens envelopes with
  (\<^verbatim>\<open>packages/protocol/src/hpke.ts\<close>): boot, attestation, receipt signing, the key vault and the
  KMS-guarded release of its key. The cryptographic library (AES-GCM, HMAC, SHA-384, the HPKE suite) is a
  parameter, \<open>crypto_lib\<close>; what the properties rely on is that decryption inverts encryption.
\<close>

section \<open>The cryptographic library\<close>

record crypto_lib =
  gcm_encrypt :: "byte list \<Rightarrow> byte list \<Rightarrow> byte list \<Rightarrow> byte list \<times> byte list"
  gcm_decrypt :: "byte list \<Rightarrow> byte list \<Rightarrow> byte list \<Rightarrow> byte list \<Rightarrow> byte list option"
  hmac_sha256 :: "byte list \<Rightarrow> byte list \<Rightarrow> byte list"
  sha384 :: "byte list \<Rightarrow> byte list"
  suite_seal :: "byte list \<Rightarrow> byte list \<Rightarrow> byte list option \<Rightarrow> (byte list \<times> byte list) option"
  suite_open :: "byte list \<Rightarrow> byte list \<Rightarrow> byte list \<Rightarrow> byte list option \<Rightarrow> byte list option"

text \<open>AES-256-GCM: the key has 32 bytes, the tag 16, and decrypting what was encrypted under the same key and
  nonce gives the plaintext back.\<close>

definition gcm_lawful :: "crypto_lib \<Rightarrow> bool" where
  "gcm_lawful lib \<longleftrightarrow> (\<forall>k iv pt. case gcm_encrypt lib k iv pt of (ct, tag) \<Rightarrow>
     length tag = 16 \<and> gcm_decrypt lib k iv tag ct = Some pt)"

section \<open>HPKE envelopes\<close>

definition hpkeSeal :: "crypto_lib \<Rightarrow> jstr \<Rightarrow> byte list \<Rightarrow> byte list option \<Rightarrow> SecureResponse option" where
  "hpkeSeal lib pkB64 plaintext aad =
     map_option (\<lambda>(e, ct). \<lparr> resp_enc = toB64 e, resp_ciphertext = toB64 ct \<rparr>)
       (suite_seal lib (fromB64 pkB64) plaintext aad)"

definition hpkeOpen :: "crypto_lib \<Rightarrow> jstr \<Rightarrow> jstr \<Rightarrow> jstr \<Rightarrow> byte list option \<Rightarrow> byte list option" where
  "hpkeOpen lib skB64 box_enc box_ct aad = suite_open lib (fromB64 skB64) (fromB64 box_enc) (fromB64 box_ct) aad"

section \<open>SimulatedTEE\<close>

definition SIMULATION_WARNING :: jstr where
  "SIMULATION_WARNING = lit ''SIMULATED TEE '' @ [8212] @ lit '' NO HARDWARE CONFIDENTIALITY''"

record SimulatedTEE =
  tee_buildId :: jstr
  tee_enclaveKeyId :: jstr
  tee_ingressPublicKey :: jstr
  tee_ingressPrivateKey :: jstr
  tee_signingPublicKey :: jstr
  tee_signingPrivateKey :: "byte list"
  tee_proverPublicKey :: jstr
  tee_proverPrivateKey :: "byte list"
  tee_pcrs :: "(jstr \<times> jstr) list"
  tee_policyIds :: "jstr list"
  tee_vaultKey :: "byte list option"

definition tee_mode :: jstr where
  "tee_mode = lit ''simulation''"

definition computePcrs :: "crypto_lib \<Rightarrow> jstr \<Rightarrow> jstr \<Rightarrow> (jstr \<times> jstr) list" where
  "computePcrs lib buildId policyId =
     (let h = (\<lambda>label. toHex (sha384 lib (utf8 (lit label @ [0] @ buildId @ [0] @ policyId))))
      in [(lit ''0'', h ''pcr0-image''), (lit ''1'', h ''pcr1-kernel''), (lit ''2'', h ''pcr2-application'')])"

text \<open>The keys \<open>boot\<close> generates: ingress public and private key (base64), signing and prover private keys.\<close>

record boot_keys =
  bk_ingressPublic :: jstr
  bk_ingressPrivate :: jstr
  bk_signing :: "byte list"
  bk_prover :: "byte list"

definition newSimulatedTEE :: "runtime \<Rightarrow> crypto_lib \<Rightarrow> jstr \<Rightarrow> jstr list \<Rightarrow> boot_keys \<Rightarrow> SimulatedTEE" where
  "newSimulatedTEE rt lib buildId policyIds ks =
     \<lparr> tee_buildId = buildId,
       tee_enclaveKeyId = lit ''ek_'' @ take 16 (sha256Hex rt (utf8 (bk_ingressPublic ks))),
       tee_ingressPublicKey = bk_ingressPublic ks, tee_ingressPrivateKey = bk_ingressPrivate ks,
       tee_signingPublicKey = toHex (ed_public rt (bk_signing ks)), tee_signingPrivateKey = bk_signing ks,
       tee_proverPublicKey = toHex (ed_public rt (bk_prover ks)), tee_proverPrivateKey = bk_prover ks,
       tee_pcrs = computePcrs lib buildId (case policyIds of p # _ \<Rightarrow> p | [] \<Rightarrow> lit ''none''),
       tee_policyIds = policyIds, tee_vaultKey = None \<rparr>"

definition build_id :: "runtime \<Rightarrow> jstr \<Rightarrow> jstr" where
  "build_id rt policyId = take 32 (sha256Hex rt (utf8 (lit ''ctn-enclave-sim-v0.1'' @ [0] @ policyId)))"

text \<open>The files outside the enclave: the KMS master key and the wrapped DEK with the measurement it may be
  released to. \<open>fresh_master\<close>, \<open>fresh_dek\<close>, \<open>iv\<close> are the random bytes a first boot draws.\<close>

record wrapped_dek =
  wd_iv :: jstr
  wd_ciphertext :: jstr
  wd_tag :: jstr
  wd_approvedPcr0 :: jstr

record vault_disk =
  vd_master :: "byte list option"
  vd_wrapped :: "wrapped_dek option"

definition pcr0 :: "SimulatedTEE \<Rightarrow> jstr" where
  "pcr0 tee = (case map_of (tee_pcrs tee) (lit ''0'') of Some v \<Rightarrow> v | None \<Rightarrow> [])"

definition kmsWrap :: "crypto_lib \<Rightarrow> byte list \<Rightarrow> byte list \<Rightarrow> byte list \<Rightarrow> jstr \<Rightarrow> wrapped_dek" where
  "kmsWrap lib master iv dek approved = (case gcm_encrypt lib master iv dek of (ct, tag) \<Rightarrow>
     \<lparr> wd_iv = toB64 iv, wd_ciphertext = toB64 ct, wd_tag = toB64 tag, wd_approvedPcr0 = approved \<rparr>)"

definition provisionVault ::
  "crypto_lib \<Rightarrow> byte list \<Rightarrow> byte list \<Rightarrow> byte list \<Rightarrow> SimulatedTEE \<Rightarrow> vault_disk \<Rightarrow> vault_disk" where
  "provisionVault lib fresh_master fresh_dek iv tee d =
     (let master = (case vd_master d of Some m \<Rightarrow> m | None \<Rightarrow> fresh_master)
      in d\<lparr> vd_master := Some master,
            vd_wrapped := (case vd_wrapped d of Some w \<Rightarrow> Some w
                           | None \<Rightarrow> Some (kmsWrap lib master iv fresh_dek (pcr0 tee))) \<rparr>)"

text \<open>\<open>boot\<close>: the TEE and the disk it leaves behind.\<close>

definition boot ::
  "runtime \<Rightarrow> crypto_lib \<Rightarrow> boot_keys \<Rightarrow> byte list \<Rightarrow> byte list \<Rightarrow> byte list \<Rightarrow> jstr list \<Rightarrow> jstr \<Rightarrow> vault_disk
   \<Rightarrow> SimulatedTEE \<times> vault_disk" where
  "boot rt lib ks fresh_master fresh_dek iv policyIds policyId d =
     (let tee = newSimulatedTEE rt lib (build_id rt policyId) policyIds ks
      in (tee, provisionVault lib fresh_master fresh_dek iv tee d))"

text \<open>\<open>unsealVaultKey\<close>; the failure branch is a throw: a missing file, a refused measurement
  (\<open>KMS_REFUSED\<close>) or an authentication failure.\<close>

definition unsealVaultKey :: "crypto_lib \<Rightarrow> vault_disk \<Rightarrow> SimulatedTEE \<Rightarrow> byte list option \<times> SimulatedTEE" where
  "unsealVaultKey lib d tee =
     (case tee_vaultKey tee of
        Some k \<Rightarrow> (Some k, tee)
      | None \<Rightarrow>
          (case (vd_wrapped d, vd_master d) of
             (Some w, Some master) \<Rightarrow>
               if wd_approvedPcr0 w \<noteq> pcr0 tee then (None, tee)
               else (case gcm_decrypt lib master (fromB64 (wd_iv w)) (fromB64 (wd_tag w)) (fromB64 (wd_ciphertext w)) of
                       None \<Rightarrow> (None, tee)
                     | Some k \<Rightarrow> (Some k, tee\<lparr> tee_vaultKey := Some k \<rparr>))
           | _ \<Rightarrow> (None, tee)))"

definition signReceipt :: "runtime \<Rightarrow> SimulatedTEE \<Rightarrow> json \<Rightarrow> jstr option" where
  "signReceipt rt tee v = signCanonical rt v (tee_signingPrivateKey tee)"

definition fingerprint :: "crypto_lib \<Rightarrow> SimulatedTEE \<Rightarrow> jstr \<Rightarrow> jstr \<Rightarrow> jstr" where
  "fingerprint lib tee credentialId secret =
     take 16 (toHex (hmac_sha256 lib (tee_signingPrivateKey tee)
       (utf8 (lit ''ctn-credential-fingerprint'' @ [0] @ credentialId @ [0] @ secret))))"

definition openIngress :: "crypto_lib \<Rightarrow> SimulatedTEE \<Rightarrow> jstr \<Rightarrow> jstr \<Rightarrow> byte list option \<Rightarrow> byte list option" where
  "openIngress lib tee e ct aad = hpkeOpen lib (tee_ingressPrivateKey tee) e ct aad"

text \<open>Credentials at rest: base64 of nonce, tag and ciphertext. \<open>Buffer.toString("utf8")\<close> keeps a leading
  byte-order mark.\<close>

definition vaultEncrypt :: "crypto_lib \<Rightarrow> byte list \<Rightarrow> byte list \<Rightarrow> jstr \<Rightarrow> jstr" where
  "vaultEncrypt lib dek iv plaintext =
     (case gcm_encrypt lib dek iv (utf8 plaintext) of (ct, tag) \<Rightarrow> toB64 (iv @ tag @ ct))"

definition vaultDecrypt :: "crypto_lib \<Rightarrow> byte list \<Rightarrow> jstr \<Rightarrow> jstr option" where
  "vaultDecrypt lib dek blob =
     (let raw = fromB64 blob
      in map_option (\<lambda>b. code_units (utf8_points b)) (gcm_decrypt lib dek (take 12 raw) (take 16 (drop 12 raw)) (drop 28 raw)))"

section \<open>Attestation\<close>

record SimulatedAttestationDocument =
  ad_moduleId :: jstr
  ad_digest :: jstr
  ad_pcrs :: "(jstr \<times> jstr) list"
  ad_ingressPublicKey :: jstr
  ad_signingPublicKey :: jstr
  ad_timestamp :: int
  ad_platformSignature :: jstr
  ad_warning :: jstr

record AttestationBundle =
  ab_teeMode :: jstr
  ab_document :: SimulatedAttestationDocument
  ab_enclaveSigningPublicKey :: jstr
  ab_ingressPublicKey :: jstr
  ab_enclaveKeyId :: jstr
  ab_enclaveBuildId :: jstr
  ab_policyIds :: "jstr list"
  ab_nonce :: "jstr option"

definition user_data_json :: "SimulatedAttestationDocument \<Rightarrow> json" where
  "user_data_json d = JObj [(lit ''ingressPublicKey'', JStr (ad_ingressPublicKey d)),
                            (lit ''signingPublicKey'', JStr (ad_signingPublicKey d))]"

definition pcrs_json :: "SimulatedAttestationDocument \<Rightarrow> json" where
  "pcrs_json d = JObj (map (\<lambda>(k, v). (k, JStr v)) (ad_pcrs d))"

text \<open>\<open>{ ...document, platformSignature: undefined, nonce }\<close>, the bytes under the platform signature.\<close>

definition unsigned_document_json :: "SimulatedAttestationDocument \<Rightarrow> jstr option \<Rightarrow> json" where
  "unsigned_document_json d nonce = JObj [(lit ''moduleId'', JStr (ad_moduleId d)), (lit ''digest'', JStr (ad_digest d)),
     (lit ''pcrs'', pcrs_json d), (lit ''userData'', user_data_json d), (lit ''timestamp'', JInt (ad_timestamp d)),
     (lit ''platformSignature'', JUndef), (lit ''warning'', JStr (ad_warning d)),
     (lit ''nonce'', case nonce of None \<Rightarrow> JNull | Some n \<Rightarrow> JStr n)]"

definition attestation_document :: "SimulatedTEE \<Rightarrow> int \<Rightarrow> SimulatedAttestationDocument" where
  "attestation_document tee now = \<lparr> ad_moduleId = lit ''i-sim-enclave-'' @ take 12 (tee_buildId tee),
     ad_digest = lit ''SHA384'', ad_pcrs = tee_pcrs tee, ad_ingressPublicKey = tee_ingressPublicKey tee,
     ad_signingPublicKey = tee_signingPublicKey tee, ad_timestamp = now, ad_platformSignature = [],
     ad_warning = SIMULATION_WARNING \<rparr>"

definition attestation :: "runtime \<Rightarrow> SimulatedTEE \<Rightarrow> int \<Rightarrow> jstr option \<Rightarrow> AttestationBundle option" where
  "attestation rt tee now nonce =
     (let d = attestation_document tee now in
      map_option (\<lambda>sg. \<lparr> ab_teeMode = tee_mode, ab_document = d\<lparr> ad_platformSignature := sg \<rparr>,
          ab_enclaveSigningPublicKey = tee_signingPublicKey tee, ab_ingressPublicKey = tee_ingressPublicKey tee,
          ab_enclaveKeyId = tee_enclaveKeyId tee, ab_enclaveBuildId = tee_buildId tee,
          ab_policyIds = tee_policyIds tee, ab_nonce = nonce \<rparr>)
        (signCanonical rt (unsigned_document_json d nonce) (tee_signingPrivateKey tee)))"

text \<open>\<open>attestationDigest\<close> takes a fresh attestation, so it throws when that one does.\<close>

definition attestationDigest :: "runtime \<Rightarrow> SimulatedTEE \<Rightarrow> int \<Rightarrow> jstr option" where
  "attestationDigest rt tee now =
     map_option (\<lambda>b. lit ''0x'' @ sha256Hex rt (utf8 (stringify rt
        (JObj [(lit ''pcrs'', pcrs_json (ab_document b)), (lit ''userData'', user_data_json (ab_document b))]))))
       (attestation rt tee now None)"

section \<open>The vault\<close>

lemma utf8_text_back: "wf16 s \<Longrightarrow> code_units (utf8_points (utf8 s)) = s"
  using utf8_points_back [of "code_points s"] wf16_points [of s] by (simp add: utf8_def)

lemma vault_roundtrip:
  assumes "gcm_lawful lib" "length iv = 12" "wf16 s"
  shows "vaultDecrypt lib dek (vaultEncrypt lib dek iv s) = Some s"
proof -
  obtain ct tag where e: "gcm_encrypt lib dek iv (utf8 s) = (ct, tag)" by fastforce
  then have "length tag = 16" "gcm_decrypt lib dek iv tag ct = Some (utf8 s)"
    using assms(1) by (auto simp: gcm_lawful_def split: prod.splits)
  then show ?thesis
    using assms(2,3) by (simp add: vaultEncrypt_def vaultDecrypt_def e fromB64_toB64 utf8_text_back)
qed

lemma pcr0_new: "pcr0 (newSimulatedTEE rt lib b ps ks) =
    toHex (sha384 lib (utf8 (lit ''pcr0-image'' @ [0] @ b @ [0] @ (case ps of p # _ \<Rightarrow> p | [] \<Rightarrow> lit ''none''))))"
  by (simp add: pcr0_def newSimulatedTEE_def computePcrs_def Let_def)

lemma boot_pcr0: "pcr0 (fst (boot rt lib ks m k iv ps pid d)) =
    toHex (sha384 lib (utf8 (lit ''pcr0-image'' @ [0] @ build_id rt pid @ [0] @ (case ps of p # _ \<Rightarrow> p | [] \<Rightarrow> lit ''none''))))"
  by (simp add: boot_def Let_def pcr0_new)

lemma unseal_wrapped:
  assumes "gcm_lawful lib" "tee_vaultKey tee = None" "vd_wrapped d = Some (kmsWrap lib m iv dek approved)" "vd_master d = Some m"
  shows "fst (unsealVaultKey lib d tee) = (if approved = pcr0 tee then Some dek else None)"
proof -
  obtain ct tag where e: "gcm_encrypt lib m iv dek = (ct, tag)" by fastforce
  then have "gcm_decrypt lib m iv tag ct = Some dek"
    using assms(1) by (auto simp: gcm_lawful_def split: prod.splits)
  then show ?thesis using assms by (simp add: unsealVaultKey_def kmsWrap_def e fromB64_toB64)
qed

text \<open>The vault key is released exactly to the measurement it was sealed for. A first boot seals a fresh key;
  from then on every boot on that disk, with whatever new ingress and signing keys, unseals the same key when its
  measurement (policy program and policy label) is the one of the first boot, and is refused otherwise; and a
  contributed key encrypted before the restart is readable after it.\<close>

theorem vault_release_by_measurement:
  assumes lawful: "gcm_lawful lib" and iv: "length iv = 12" and secret: "wf16 s"
    and first: "boot rt lib ks1 m dek iv0 (p1 # ps1) pid1 \<lparr> vd_master = None, vd_wrapped = None \<rparr> = (tee1, d1)"
    and later: "boot rt lib ks2 m' dek' iv' (p2 # ps2) pid2 d1 = (tee2, d2)"
  shows "d2 = d1 \<and> fst (unsealVaultKey lib d1 tee1) = Some dek
    \<and> fst (unsealVaultKey lib d2 tee2) = (if pcr0 tee2 = pcr0 tee1 then Some dek else None)
    \<and> (pid2 = pid1 \<and> p2 = p1 \<longrightarrow> fst (unsealVaultKey lib d2 tee2) = Some dek
         \<and> vaultDecrypt lib dek (vaultEncrypt lib dek iv s) = Some s)"
proof -
  have d1: "d1 = \<lparr> vd_master = Some m, vd_wrapped = Some (kmsWrap lib m iv0 dek (pcr0 tee1)) \<rparr>" "tee_vaultKey tee1 = None"
    and q1: "pcr0 tee1 = toHex (sha384 lib (utf8 (lit ''pcr0-image'' @ [0] @ build_id rt pid1 @ [0] @ p1)))"
    using first boot_pcr0 [of rt lib ks1 m dek iv0 "p1 # ps1" pid1 "\<lparr> vd_master = None, vd_wrapped = None \<rparr>"]
    by (auto simp: boot_def Let_def provisionVault_def newSimulatedTEE_def)
  have d2: "d2 = d1" "tee_vaultKey tee2 = None"
    and q2: "pcr0 tee2 = toHex (sha384 lib (utf8 (lit ''pcr0-image'' @ [0] @ build_id rt pid2 @ [0] @ p2)))"
    using later d1 boot_pcr0 [of rt lib ks2 m' dek' iv' "p2 # ps2" pid2 d1]
    by (auto simp: boot_def Let_def provisionVault_def newSimulatedTEE_def)
  have u1: "fst (unsealVaultKey lib d1 tee1) = Some dek"
    using unseal_wrapped [OF lawful d1(2), of d1 m iv0 dek "pcr0 tee1"] d1 by simp
  have u2: "fst (unsealVaultKey lib d2 tee2) = (if pcr0 tee2 = pcr0 tee1 then Some dek else None)"
    using unseal_wrapped [OF lawful d2(2), of d2 m iv0 dek "pcr0 tee1"] d1 d2 by auto
  show ?thesis using u1 u2 d2 q1 q2 vault_roundtrip [OF lawful iv secret] by simp
qed

definition sample_lib :: crypto_lib where
  "sample_lib = \<lparr> gcm_encrypt = (\<lambda>k iv pt. (pt, replicate 16 0)), gcm_decrypt = (\<lambda>k iv tag ct. Some ct),
     hmac_sha256 = (\<lambda>k m. k @ m), sha384 = (\<lambda>m. m),
     suite_seal = (\<lambda>pk pt aad. Some (pk, pt)), suite_open = (\<lambda>sk e ct aad. Some ct) \<rparr>"

lemma sample_lib_lawful: "gcm_lawful sample_lib"
  by (simp add: gcm_lawful_def sample_lib_def)

definition sample_keys :: boot_keys where
  "sample_keys = \<lparr> bk_ingressPublic = lit ''cHVi'', bk_ingressPrivate = lit ''cHJp'', bk_signing = [1, 2], bk_prover = [3] \<rparr>"

theorem vault_release_by_measurement_witness:
  "\<exists>tee1 d1 tee2 d2. boot sample_runtime sample_lib sample_keys [9] [5] [0] [lit ''safety-v1''] (lit ''p'') \<lparr> vd_master = None, vd_wrapped = None \<rparr> = (tee1, d1)
    \<and> boot sample_runtime sample_lib sample_keys [8] [6] [1] [lit ''safety-v1''] (lit ''p'') d1 = (tee2, d2)
    \<and> fst (unsealVaultKey sample_lib d2 tee2) = Some [5]
    \<and> vaultDecrypt sample_lib [5] (vaultEncrypt sample_lib [5] (replicate 12 0) (lit ''sk-secret'')) = Some (lit ''sk-secret'')"
proof -
  obtain tee1 d1 where b1: "boot sample_runtime sample_lib sample_keys [9] [5] [0] [lit ''safety-v1''] (lit ''p'') \<lparr> vd_master = None, vd_wrapped = None \<rparr> = (tee1, d1)"
    by fastforce
  obtain tee2 d2 where b2: "boot sample_runtime sample_lib sample_keys [8] [6] [1] [lit ''safety-v1''] (lit ''p'') d1 = (tee2, d2)"
    by fastforce
  have "wf16 (lit ''sk-secret'')" by (rule wf16_lit)
  from vault_release_by_measurement [OF sample_lib_lawful _ this b1 b2, of "replicate 12 0"] b1 b2
  show ?thesis by auto
qed

end
