(* ===== verification/Pricing.thy ===== *)
theory Pricing
  imports Canonical
begin

text \<open>
  The pinned model catalog and price table of the enclave (\<^verbatim>\<open>services/tee-sim/src/catalog.ts\<close> and
  \<^verbatim>\<open>services/tee-sim/src/pricing.ts\<close>). A lookup \<open>PRICING_TABLE[model]\<close> reaches the members of
  \<open>Object.prototype\<close>, so an entry is either a price of the table or an inherited member, whose price
  fields are \<open>undefined\<close> and whose cost is \<open>NaN\<close>. Costs are computed in IEEE doubles (\<open>dbl\<close>) and rounded
  up. The main result is that the bound assumed for an unknown outcome covers every bill a provider can
  present.
\<close>

section \<open>The catalog\<close>

definition MODEL_CATALOG :: "(jstr \<times> jstr list) list" where
  "MODEL_CATALOG =
     [(lit ''anthropic'', [lit ''claude-haiku-4-5-20251001'', lit ''claude-sonnet-4-5-20250929'']),
      (lit ''openai'', [lit ''gpt-4o-mini-2024-07-18'', lit ''gpt-4o-2024-08-06'']),
      (lit ''mock'', [lit ''ctn/demo-model-a'', lit ''ctn/demo-model-b'', lit ''ctn/demo-model-fast''])]"

section \<open>The price table\<close>

record ModelPrice =
  inMicroUsdPerMTok :: int
  outMicroUsdPerMTok :: int

definition PRICING_TABLE :: "(jstr \<times> ModelPrice) list" where
  "PRICING_TABLE =
     [(lit ''claude-haiku-4-5-20251001'', \<lparr> inMicroUsdPerMTok = 1000000, outMicroUsdPerMTok = 5000000 \<rparr>),
      (lit ''claude-sonnet-4-5-20250929'', \<lparr> inMicroUsdPerMTok = 3000000, outMicroUsdPerMTok = 15000000 \<rparr>),
      (lit ''gpt-4o-mini-2024-07-18'', \<lparr> inMicroUsdPerMTok = 150000, outMicroUsdPerMTok = 600000 \<rparr>),
      (lit ''gpt-4o-2024-08-06'', \<lparr> inMicroUsdPerMTok = 2500000, outMicroUsdPerMTok = 10000000 \<rparr>),
      (lit ''ctn/demo-model-a'', \<lparr> inMicroUsdPerMTok = 150000, outMicroUsdPerMTok = 600000 \<rparr>),
      (lit ''ctn/demo-model-b'', \<lparr> inMicroUsdPerMTok = 2500000, outMicroUsdPerMTok = 10000000 \<rparr>),
      (lit ''ctn/demo-model-fast'', \<lparr> inMicroUsdPerMTok = 50000, outMicroUsdPerMTok = 200000 \<rparr>)]"

definition price_json :: "ModelPrice \<Rightarrow> json" where
  "price_json p = JObj [(lit ''inMicroUsdPerMTok'', JInt (inMicroUsdPerMTok p)),
                        (lit ''outMicroUsdPerMTok'', JInt (outMicroUsdPerMTok p))]"

definition PRICING_TABLE_DIGEST :: "runtime \<Rightarrow> jstr option" where
  "PRICING_TABLE_DIGEST rt =
     map_option (\<lambda>h. lit ''0x'' @ h) (canonicalHash rt (JObj (map (\<lambda>(m, p). (m, price_json p)) PRICING_TABLE)))"

text \<open>The members every object literal inherits.\<close>

definition object_prototype :: "jstr list" where
  "object_prototype = map lit [''constructor'', ''__defineGetter__'', ''__defineSetter__'', ''hasOwnProperty'',
     ''__lookupGetter__'', ''__lookupSetter__'', ''isPrototypeOf'', ''propertyIsEnumerable'', ''toString'',
     ''valueOf'', ''__proto__'', ''toLocaleString'']"

datatype price_entry = Own ModelPrice | Inherited

text \<open>\<open>price\<close>; \<open>None\<close> is the thrown \<open>UnpricedModelError\<close>.\<close>

definition price :: "jstr \<Rightarrow> price_entry option" where
  "price model = (case map_of PRICING_TABLE model of
     Some p \<Rightarrow> Some (Own p)
   | None \<Rightarrow> if model \<in> set object_prototype then Some Inherited else None)"

definition isPriced :: "jstr \<Rightarrow> bool" where
  "isPriced model \<longleftrightarrow> price model \<noteq> None"

definition assertPriced :: "jstr \<Rightarrow> unit option" where
  "assertPriced model = map_option (\<lambda>_. ()) (price model)"

text \<open>\<open>Math.ceil((inTok * p.in + outTok * p.out) / 1_000_000)\<close>, every operation rounded.\<close>

definition micro_usd :: "runtime \<Rightarrow> ModelPrice \<Rightarrow> int \<Rightarrow> int \<Rightarrow> int" where
  "micro_usd rt p inTok outTok =
     ceiling (dbl rt (dbl rt (dbl rt (of_int inTok * of_int (inMicroUsdPerMTok p))
                              + dbl rt (of_int outTok * of_int (outMicroUsdPerMTok p))) / 1000000))"

fun entry_cost :: "runtime \<Rightarrow> price_entry \<Rightarrow> int \<Rightarrow> int \<Rightarrow> jsnum" where
  "entry_cost rt (Own p) inTok outTok = Fin (of_int (micro_usd rt p inTok outTok))"
| "entry_cost rt Inherited inTok outTok = NaN"

definition estimateCostMicroUsd :: "runtime \<Rightarrow> jstr \<Rightarrow> int \<Rightarrow> int \<Rightarrow> jsnum option" where
  "estimateCostMicroUsd rt model inTok outTok = map_option (\<lambda>p. entry_cost rt p inTok outTok) (price model)"

definition promptTokBound :: "CanonicalMessage list \<Rightarrow> int" where
  "promptTokBound messages =
     (let byteBound = fold (\<lambda>m n. n + int (length (utf8 (msg_content m)))) messages 0
      in byteBound + 16 * int (length messages) + 16)"

definition estimateWorstCaseMicroUsd :: "runtime \<Rightarrow> jstr \<Rightarrow> CanonicalMessage list \<Rightarrow> int \<Rightarrow> jsnum option" where
  "estimateWorstCaseMicroUsd rt model messages maxTokens =
     map_option (\<lambda>p. entry_cost rt p (promptTokBound messages) maxTokens) (price model)"

section \<open>What the table promises\<close>

lemma catalog_own_price:
  assumes "(p, ms) \<in> set MODEL_CATALOG" "m \<in> set ms"
  obtains q where "price m = Some (Own q)" "0 < inMicroUsdPerMTok q" "0 < outMicroUsdPerMTok q"
  using assms unfolding MODEL_CATALOG_def price_def PRICING_TABLE_def
  by (auto simp: lit_inject)

lemma price_nonneg: "price m = Some (Own p) \<Longrightarrow> 0 \<le> inMicroUsdPerMTok p \<and> 0 \<le> outMicroUsdPerMTok p"
  unfolding price_def PRICING_TABLE_def by (auto split: if_splits)

lemma micro_usd_mono:
  assumes "mono (dbl rt)" "0 \<le> inMicroUsdPerMTok p" "0 \<le> outMicroUsdPerMTok p" "i \<le> i'" "j \<le> j'"
  shows "micro_usd rt p i j \<le> micro_usd rt p i' j'"
proof -
  have m: "\<And>a b. a \<le> b \<Longrightarrow> dbl rt a \<le> dbl rt b" using assms(1) by (simp add: monoD)
  have "(of_int i :: rat) * of_int (inMicroUsdPerMTok p) \<le> of_int i' * of_int (inMicroUsdPerMTok p)"
       "(of_int j :: rat) * of_int (outMicroUsdPerMTok p) \<le> of_int j' * of_int (outMicroUsdPerMTok p)"
    using assms by (auto intro!: mult_right_mono)
  then have "dbl rt (of_int i * of_int (inMicroUsdPerMTok p)) + dbl rt (of_int j * of_int (outMicroUsdPerMTok p))
      \<le> dbl rt (of_int i' * of_int (inMicroUsdPerMTok p)) + dbl rt (of_int j' * of_int (outMicroUsdPerMTok p))"
    by (intro add_mono m)
  then show ?thesis unfolding micro_usd_def by (intro ceiling_mono m divide_right_mono) simp_all
qed

text \<open>The tokens of a prompt, message by message: what the provider counts for each text plus its framing.\<close>

definition prompt_tokens :: "(jstr \<Rightarrow> int) \<Rightarrow> (CanonicalMessage \<Rightarrow> int) \<Rightarrow> int \<Rightarrow> CanonicalMessage list \<Rightarrow> int" where
  "prompt_tokens tokens framing wrapper messages =
     wrapper + sum_list (map (\<lambda>m. tokens (msg_content m) + framing m) messages)"

lemma fold_bytes: "fold (\<lambda>m n. n + (f m :: int)) ms a = a + sum_list (map f ms)"
  by (induction ms arbitrary: a) auto

lemma prompt_tokens_bounded:
  assumes "\<forall>t. tokens t \<le> int (length (utf8 t))" "\<forall>m. framing m \<le> 16" "wrapper \<le> 16"
  shows "prompt_tokens tokens framing wrapper ms \<le> promptTokBound ms"
proof -
  have "sum_list (map (\<lambda>m. tokens (msg_content m) + framing m) ms)
      \<le> sum_list (map (\<lambda>m. int (length (utf8 (msg_content m))) + 16) ms)"
    using assms(1,2) by (intro sum_list_mono add_mono) auto
  also have "\<dots> = sum_list (map (\<lambda>m. int (length (utf8 (msg_content m)))) ms) + 16 * int (length ms)"
    by (induction ms) auto
  finally show ?thesis using assms(3)
    by (simp add: prompt_tokens_def promptTokBound_def Let_def fold_bytes)
qed

text \<open>C25. The spend assumed for an unknown outcome is never below the bill. Take any provider whose tokenizer
  emits at most one token per UTF-8 byte, frames each message with at most 16 tokens and the whole prompt with
  at most 16, and returns at most \<open>max_tokens\<close> tokens. Whatever it counts for the request, the estimate of its
  actual usage is at most the worst case computed before the call (floating-point rounding is monotone).\<close>

theorem worst_case_covers_bill:
  assumes "mono (dbl rt)" "price model = Some (Own p)"
    and "\<forall>t. tokens t \<le> int (length (utf8 t))" "\<forall>m. framing m \<le> 16" "wrapper \<le> 16" "outTok \<le> maxTokens"
  shows "\<exists>actual assumed. estimateCostMicroUsd rt model (prompt_tokens tokens framing wrapper messages) outTok = Some (Fin (of_int actual))
    \<and> estimateWorstCaseMicroUsd rt model messages maxTokens = Some (Fin (of_int assumed)) \<and> actual \<le> assumed"
  using assms price_nonneg [OF assms(2)] prompt_tokens_bounded [OF assms(3-5)] micro_usd_mono [OF assms(1)]
  by (auto simp: estimateCostMicroUsd_def estimateWorstCaseMicroUsd_def)

theorem worst_case_covers_bill_witness:
  "\<exists>actual assumed. estimateCostMicroUsd sample_runtime (lit ''ctn/demo-model-a'')
       (prompt_tokens (\<lambda>t. int (length (utf8 t))) (\<lambda>m. 4) 3 [\<lparr> msg_role = User, msg_content = lit ''hello'' \<rparr>]) 7
     = Some (Fin (of_int actual))
    \<and> estimateWorstCaseMicroUsd sample_runtime (lit ''ctn/demo-model-a'')
        [\<lparr> msg_role = User, msg_content = lit ''hello'' \<rparr>] 50 = Some (Fin (of_int assumed)) \<and> actual \<le> assumed"
  by (rule worst_case_covers_bill [where p = "\<lparr> inMicroUsdPerMTok = 150000, outMicroUsdPerMTok = 600000 \<rparr>"])
     (simp_all add: mono_def price_def PRICING_TABLE_def)

text \<open>The guard of \<open>isPriced\<close> admits the names every object inherits, whose cost is not a number.\<close>

lemma inherited_names_are_priced:
  "isPriced (lit ''constructor'') \<and> estimateCostMicroUsd rt (lit ''constructor'') i j = Some NaN"
  by (simp add: isPriced_def estimateCostMicroUsd_def price_def PRICING_TABLE_def object_prototype_def)

end
