(* ===== verification/Prover_Client.thy ===== *)
theory Prover_Client
  imports Protocol_Types Json_Text
begin

text \<open>
  The enclave's channel into the proving daemon (\<^verbatim>\<open>services/tee-sim/src/prover-client.ts\<close>). One request
  is one \<open>fetch\<close>; the daemon is a parameter (\<open>daemon\<close>), a function of the request body. A transport
  failure or an aborted body read is \<open>ProverUnavailable\<close>; an answer with a fault is \<open>ProverFault\<close> and
  carries a static message. The distinction decides whether the gate reports an outage or an error, and
  neither is ever a verdict.
\<close>

section \<open>The wire types\<close>

record PrivateCategoryScore =
  pcs_category :: jstr
  pcs_name :: jstr
  pcs_score :: int
  pcs_threshold :: int
  pcs_matchedTargets :: "jstr list"

record GuestExecution =
  gx_journal :: PolicyJournal
  gx_privateScores :: "PrivateCategoryScore list option"
  gx_execWallMs :: int

datatype job_state = Job_QUEUED | Job_PROVING | Job_GENERATED | Job_FAILED

record JobStatus =
  job_status :: job_state
  job_receiptB64 :: "jstr option"
  job_proveWallMs :: "int option"
  job_error :: "jstr option"
  job_devMode :: bool

record ProverHealth =
  ph_imageIdHex :: jstr
  ph_policyId :: jstr
  ph_rulesDigest :: jstr
  ph_risc0Version :: jstr
  ph_devMode :: bool

section \<open>request\<close>

text \<open>What \<open>fetch\<close> and \<open>res.json()\<close> do: \<open>fetch\<close> rejects, or a status comes back with a body that parses,
  aborts, or does not parse.\<close>

datatype 'a body_read = Parsed 'a | Read_aborted | Junk

datatype 'a daemon_answer = Fetch_failed | Status int "'a body_read"

datatype 'a prover_result = ProverOk 'a | ProverUnavailable jstr | ProverFault jstr

definition prover_path :: "string \<Rightarrow> jstr \<Rightarrow> jstr" where
  "prover_path method path = lit ''prover '' @ lit method @ [32] @ path"

fun prover_request :: "string \<Rightarrow> jstr \<Rightarrow> 'a daemon_answer \<Rightarrow> 'a prover_result" where
  "prover_request method path Fetch_failed = ProverUnavailable (prover_path method path @ lit '' unreachable'')"
| "prover_request method path (Status st body) =
     (if \<not> (200 \<le> st \<and> st < 300) then ProverFault (prover_path method path @ lit '' responded '' @ int_digits st)
      else (case body of
              Parsed v \<Rightarrow> ProverOk v
            | Read_aborted \<Rightarrow> ProverUnavailable (prover_path method path @ lit '' timed out'')
            | Junk \<Rightarrow> ProverFault (prover_path method path @ lit '' returned an unparseable body'')))"

text \<open>The daemon: what it answers to each request body it is sent.\<close>

record daemon =
  dm_health :: "ProverHealth daemon_answer"
  dm_execute :: "json \<Rightarrow> GuestExecution daemon_answer"
  dm_prove :: "json \<Rightarrow> jstr daemon_answer"

definition prover_body :: "jstr \<Rightarrow> json \<Rightarrow> jstr \<Rightarrow> (jstr \<times> json) list" where
  "prover_body canonicalRequestBytes requestNonceHex proofNonce =
     [(lit ''protocolVersion'', JInt 1), (lit ''canonicalRequestBytesB64'', JStr (toB64 (utf8 canonicalRequestBytes))),
      (lit ''requestNonceHex'', requestNonceHex), (lit ''proofNonce'', JStr proofNonce)]"

definition health :: "daemon \<Rightarrow> ProverHealth prover_result" where
  "health dm = prover_request ''GET'' (lit ''/health'') (dm_health dm)"

definition execute :: "daemon \<Rightarrow> jstr \<Rightarrow> json \<Rightarrow> jstr \<Rightarrow> bool \<Rightarrow> GuestExecution prover_result" where
  "execute dm canonicalRequestBytes requestNonceHex proofNonce emitScores =
     prover_request ''POST'' (lit ''/execute'') (dm_execute dm (JObj
       (prover_body canonicalRequestBytes requestNonceHex proofNonce @ [(lit ''emitScores'', JBool emitScores)])))"

definition prove :: "daemon \<Rightarrow> jstr \<Rightarrow> jstr \<Rightarrow> jstr \<Rightarrow> jstr prover_result" where
  "prove dm canonicalRequestBytes requestNonceHex proofNonce =
     prover_request ''POST'' (lit ''/prove'') (dm_prove dm (JObj
       (prover_body canonicalRequestBytes (JStr requestNonceHex) proofNonce)))"

definition pollJob :: "jstr \<Rightarrow> JobStatus daemon_answer \<Rightarrow> JobStatus prover_result" where
  "pollJob path answer = prover_request ''GET'' (lit ''/jobs/'' @ path) answer"

section \<open>Classification\<close>

lemma request_ok_iff: "prover_request m p a = ProverOk v \<longleftrightarrow> (\<exists>st. a = Status st (Parsed v) \<and> 200 \<le> st \<and> st < 300)"
  by (cases a) (auto split: body_read.splits)

lemma request_unavailable_iff:
  "(\<exists>e. prover_request m p a = ProverUnavailable e) \<longleftrightarrow> a = Fetch_failed \<or> (\<exists>st. a = Status st Read_aborted \<and> 200 \<le> st \<and> st < 300)"
  by (cases a) (auto split: body_read.splits)

text \<open>The daemon reads back the exact canonical bytes: the base64 field decodes to their UTF-8.\<close>

lemma prover_body_bytes:
  "map_of (prover_body c n p) (lit ''canonicalRequestBytesB64'') = Some (JStr s) \<Longrightarrow> fromB64 s = utf8 c"
  by (auto simp: prover_body_def fromB64_toB64)

end
