(* ===== verification/Intent.thy ===== *)
theory Intent
  imports Tee Pricing Prover_Client Tee_Client
begin

text \<open>
  The sealed intent (\<^verbatim>\<open>services/tee-sim/src/intent.ts\<close>) and the ingestion handler
  (\<^verbatim>\<open>POST /credentials/ingest\<close> of \<^verbatim>\<open>services/tee-sim/src/index.ts\<close>). \<open>parseIntent\<close> reads the decrypted
  bytes with the JSON parser of \<open>Json_Text\<close>; a refusal is \<open>Inl\<close> with the message of the thrown
  \<open>InvalidIntentError\<close>. The handler is split at the \<open>await\<close> on the daemon's health: \<open>ingest_begin\<close> runs before
  it, \<open>ingest_finish\<close> after it, on the state other handlers left behind.
\<close>

section \<open>Parsing an intent\<close>

definition INTENT_KEYS :: "jstr list" where
  "INTENT_KEYS = sort (map lit [''version'', ''credentialId'', ''secret'', ''provider'',
     ''allowedModels'', ''allowedPolicies'', ''contributorId'', ''intentNonce''])"

definition SUPPORTED_POLICIES :: "jstr list" where
  "SUPPORTED_POLICIES = [lit ''safety-v1'']"

definition MAX_MODELS :: nat where
  "MAX_MODELS = 8"

definition MAX_ID_LENGTH :: nat where
  "MAX_ID_LENGTH = 64"

definition lower_hex :: "nat \<Rightarrow> bool" where
  "lower_hex c \<longleftrightarrow> (48 \<le> c \<and> c \<le> 57) \<or> (97 \<le> c \<and> c \<le> 102)"

text \<open>\<^verbatim>\<open>/^cred_[0-9a-f]{12}$/\<close>, the API-key check, and \<^verbatim>\<open>/^[0-9a-f]{64}$/\<close>.\<close>

definition credential_id_ok :: "jstr \<Rightarrow> bool" where
  "credential_id_ok s \<longleftrightarrow> length s = 17 \<and> starts_with (lit ''cred_'') s \<and> list_all lower_hex (drop 5 s)"

definition secret_ok :: "jstr \<Rightarrow> bool" where
  "secret_ok s \<longleftrightarrow> 8 \<le> length (trim s) \<and> \<not> list_ex js_space (trim s)"

definition intent_nonce_ok :: "jstr \<Rightarrow> bool" where
  "intent_nonce_ok s \<longleftrightarrow> length s = 64 \<and> list_all lower_hex s"

fun as_str :: "json \<Rightarrow> jstr option" where
  "as_str (JStr s) = Some s"
| "as_str _ = None"

fun as_strs :: "json \<Rightarrow> jstr list option" where
  "as_strs (JArr vs) = those (map as_str vs)"
| "as_strs _ = None"

definition field :: "(jstr \<times> json) list \<Rightarrow> string \<Rightarrow> json" where
  "field kvs k = (case map_of kvs (lit k) of Some v \<Rightarrow> v | None \<Rightarrow> JUndef)"

text \<open>The two list checks: all members are strings of the allowed list, none repeats.\<close>

definition string_list_ok :: "jstr list \<Rightarrow> json \<Rightarrow> jstr list option" where
  "string_list_ok allowed v = (case as_strs v of
     Some ss \<Rightarrow> if ss = [] \<or> \<not> list_all (\<lambda>s. s \<in> set allowed) ss \<or> \<not> distinct ss then None else Some ss
   | None \<Rightarrow> None)"

definition check_intent :: "(jstr \<times> jstr list) list \<Rightarrow> (jstr \<times> json) list \<Rightarrow> string + CredentialIntentV1" where
  "check_intent catalog kvs =
     (if sort (map fst kvs) \<noteq> INTENT_KEYS then Inl ''sealed intent has missing or unexpected fields''
      else if field kvs ''version'' \<noteq> JInt 1 then Inl ''unsupported intent version''
      else (case as_str (field kvs ''credentialId'') of None \<Rightarrow> Inl ''credentialId must be cred_ + 12 hex chars'' | Some cid \<Rightarrow>
      if \<not> credential_id_ok cid then Inl ''credentialId must be cred_ + 12 hex chars''
      else (case as_str (field kvs ''secret'') of None \<Rightarrow> Inl ''credential does not look like an API key'' | Some secret \<Rightarrow>
      if \<not> secret_ok secret then Inl ''credential does not look like an API key''
      else (case as_str (field kvs ''provider'') of None \<Rightarrow> Inl ''provider is not implemented'' | Some prov \<Rightarrow>
      (case map_of catalog prov of None \<Rightarrow> Inl ''provider is not implemented'' | Some models \<Rightarrow>
      (case string_list_ok models (field kvs ''allowedModels'') of
         None \<Rightarrow> Inl ''allowedModels must be unique pinned snapshot ids from this provider's catalog''
       | Some ams \<Rightarrow>
      if MAX_MODELS < length ams then Inl ''allowedModels must be unique pinned snapshot ids from this provider's catalog'' else
      (case string_list_ok SUPPORTED_POLICIES (field kvs ''allowedPolicies'') of
         None \<Rightarrow> Inl ''allowedPolicies must be supported policy labels''
       | Some aps \<Rightarrow>
      (case as_str (field kvs ''contributorId'') of None \<Rightarrow> Inl ''contributorId must be 1-64 chars'' | Some contributor \<Rightarrow>
      if contributor = [] \<or> MAX_ID_LENGTH < length contributor then Inl ''contributorId must be 1-64 chars''
      else (case as_str (field kvs ''intentNonce'') of None \<Rightarrow> Inl ''intentNonce must be 32 bytes of hex'' | Some nonce \<Rightarrow>
      if \<not> intent_nonce_ok nonce then Inl ''intentNonce must be 32 bytes of hex''
      else Inr \<lparr> int_credentialId = cid, int_secret = trim secret, int_provider = prov, int_allowedModels = ams,
                 int_allowedPolicies = aps, int_contributorId = contributor, int_intentNonce = nonce \<rparr>)))))))))"

definition parseIntent :: "runtime \<Rightarrow> byte list \<Rightarrow> (jstr \<times> jstr list) list \<Rightarrow> string + CredentialIntentV1" where
  "parseIntent rt plaintext catalog =
     (case json_parse rt (text_decode plaintext) of
        None \<Rightarrow> Inl ''sealed intent is not valid JSON''
      | Some (JObj kvs) \<Rightarrow> check_intent catalog kvs
      | Some _ \<Rightarrow> Inl ''sealed intent must be an object'')"

definition deriveCapability ::
  "runtime \<Rightarrow> CredentialIntentV1 \<Rightarrow> jstr \<Rightarrow> (jstr \<Rightarrow> jstr) \<Rightarrow> int \<Rightarrow> CredentialCapability option" where
  "deriveCapability rt intent blobDigest resolvePolicyId now =
     map_option (\<lambda>d. \<lparr> cap_credentialId = int_credentialId intent, cap_provider = int_provider intent,
         cap_allowedModels = sort (int_allowedModels intent),
         cap_allowedPolicyIds = map resolvePolicyId (int_allowedPolicies intent),
         cap_contributorId = int_contributorId intent, cap_createdAt = now, cap_version = 1,
         cap_blobDigest = blobDigest, cap_intentDigest = d \<rparr>)
       (intentDigest rt intent)"

section \<open>The ingestion handler\<close>

text \<open>The enclave's answers: a result, a refusal with its status, code and message, or a throw, which the
  server's error handler turns into a 500 with code \<open>CTN_INTERNAL\<close>.\<close>

datatype 'a enclave_reply = Accepted 'a | Refused int string jstr | Crashed

record ingest_state =
  st_guestHealth :: "ProverHealth option"
  st_consumedIntentDigests :: "jstr list"

definition getGuestHealth :: "daemon \<Rightarrow> 'z ingest_state_scheme \<Rightarrow> ProverHealth prover_result \<times> 'z ingest_state_scheme" where
  "getGuestHealth dm s = (case st_guestHealth s of
     Some h \<Rightarrow> (ProverOk h, s)
   | None \<Rightarrow> (case health dm of
       ProverOk h \<Rightarrow> (ProverOk h, s\<lparr> st_guestHealth := Some h \<rparr>)
     | r \<Rightarrow> (r, s)))"

record IngestBody =
  ib_enclaveKeyId :: jstr
  ib_enc :: jstr
  ib_encryptedSecret :: jstr
  ib_credentialId :: jstr

text \<open>What the first half leaves for the second: the intent, its digest and the encrypted blob.\<close>

record ingest_ticket =
  tk_intent :: CredentialIntentV1
  tk_digest :: jstr
  tk_encryptedBlob :: jstr

definition ingest_begin ::
  "runtime \<Rightarrow> crypto_lib \<Rightarrow> SimulatedTEE \<Rightarrow> byte list \<Rightarrow> byte list \<Rightarrow> IngestBody \<Rightarrow> 'z ingest_state_scheme
   \<Rightarrow> Ingested enclave_reply + ingest_ticket" where
  "ingest_begin rt lib tee vaultKey iv body s =
     (if ib_enclaveKeyId body \<noteq> tee_enclaveKeyId tee then Inl (Refused 400 ''CTN_INVALID_ENVELOPE'' (lit ''unknown enclave key id''))
      else (case openIngress lib tee (ib_enc body) (ib_encryptedSecret body) None of
              None \<Rightarrow> Inl (Refused 400 ''CTN_INVALID_ENVELOPE'' (lit ''credential ciphertext failed to decrypt''))
            | Some opened \<Rightarrow>
      (case parseIntent rt opened MODEL_CATALOG of
         Inl message \<Rightarrow> Inl (Refused 400 ''CTN_INVALID_ENVELOPE'' (lit message))
       | Inr intent \<Rightarrow>
           if int_credentialId intent \<noteq> ib_credentialId body
           then Inl (Refused 400 ''CTN_INTENT_MISMATCH'' (lit ''sealed intent names a different credential id''))
           else (case intentDigest rt intent of
                   None \<Rightarrow> Inl Crashed
                 | Some digest \<Rightarrow>
                     if digest \<in> set (st_consumedIntentDigests s)
                     then Inl (Refused 409 ''CTN_INTENT_REPLAY'' (lit ''this sealed intent has already been consumed''))
                     else Inr \<lparr> tk_intent = intent, tk_digest = digest,
                                tk_encryptedBlob = vaultEncrypt lib vaultKey iv (int_secret intent) \<rparr>))))"

definition resolvePolicyId :: "jstr \<Rightarrow> jstr \<Rightarrow> jstr" where
  "resolvePolicyId guestPolicyId p = (if p = lit ''safety-v1'' then guestPolicyId else p)"

definition ingest_finish ::
  "runtime \<Rightarrow> crypto_lib \<Rightarrow> SimulatedTEE \<Rightarrow> daemon \<Rightarrow> int \<Rightarrow> ingest_ticket \<Rightarrow> 'z ingest_state_scheme
   \<Rightarrow> Ingested enclave_reply \<times> 'z ingest_state_scheme" where
  "ingest_finish rt lib tee dm now tk s =
     (case getGuestHealth dm s of
        (ProverOk h, s1) \<Rightarrow>
          (let intent = tk_intent tk; guestPolicyId = ph_policyId h in
           (case deriveCapability rt intent (lit ''0x'' @ sha256Hex rt (utf8 (tk_encryptedBlob tk)))
                  (resolvePolicyId guestPolicyId) now of
              None \<Rightarrow> (Crashed, s1)
            | Some cpb \<Rightarrow>
                let s2 = s1\<lparr> st_consumedIntentDigests := List.insert (tk_digest tk) (st_consumedIntentDigests s1) \<rparr> in
                (case signReceipt rt tee (capability_json cpb) of
                   None \<Rightarrow> (Crashed, s2)
                 | Some sg \<Rightarrow>
                     (Accepted \<lparr> ing_encryptedBlob = tk_encryptedBlob tk, ing_capability = cpb,
                        ing_capabilitySignature = sg,
                        ing_keyFingerprint = lit ''0x'' @ fingerprint lib tee (int_credentialId intent) (int_secret intent),
                        ing_policyId = guestPolicyId \<rparr>, s2))))
      | (_, s1) \<Rightarrow> (Refused 503 ''CTN_ENCLAVE_UNAVAILABLE'' (lit ''the policy gate is unavailable; cannot mint capacity''), s1))"

text \<open>The whole handler; \<open>during\<close> is what other handlers did to the state while it awaited the daemon.\<close>

definition ingest ::
  "runtime \<Rightarrow> crypto_lib \<Rightarrow> SimulatedTEE \<Rightarrow> byte list \<Rightarrow> daemon \<Rightarrow> byte list \<Rightarrow> int \<Rightarrow> ('z ingest_state_scheme \<Rightarrow> 'z ingest_state_scheme)
   \<Rightarrow> IngestBody \<Rightarrow> 'z ingest_state_scheme \<Rightarrow> Ingested enclave_reply \<times> 'z ingest_state_scheme" where
  "ingest rt lib tee vaultKey dm iv now during body s =
     (case ingest_begin rt lib tee vaultKey iv body s of
        Inl r \<Rightarrow> (r, s)
      | Inr tk \<Rightarrow> ingest_finish rt lib tee dm now tk (during s))"

section \<open>What a parsed intent guarantees\<close>

definition intent_wf :: "CredentialIntentV1 \<Rightarrow> bool" where
  "intent_wf i \<longleftrightarrow> credential_id_ok (int_credentialId i) \<and> secret_ok (int_secret i)
     \<and> (\<exists>models. map_of MODEL_CATALOG (int_provider i) = Some models \<and> set (int_allowedModels i) \<subseteq> set models)
     \<and> int_allowedModels i \<noteq> [] \<and> distinct (int_allowedModels i) \<and> length (int_allowedModels i) \<le> MAX_MODELS
     \<and> int_allowedPolicies i = [lit ''safety-v1'']
     \<and> 0 < length (int_contributorId i) \<and> length (int_contributorId i) \<le> MAX_ID_LENGTH \<and> intent_nonce_ok (int_intentNonce i)"

lemma string_list_ok_Some:
  "string_list_ok allowed v = Some ss \<Longrightarrow> ss \<noteq> [] \<and> set ss \<subseteq> set allowed \<and> distinct ss"
  by (auto simp: string_list_ok_def list_all_iff split: option.splits if_splits)

lemma only_member: "ss \<noteq> [] \<Longrightarrow> set ss \<subseteq> {x} \<Longrightarrow> distinct ss \<Longrightarrow> ss = [x]"
  by (cases ss rule: remdups_adj.cases) auto

lemma trim_trim: "trim (trim s) = trim s"
proof -
  define t where "t = dropWhile js_space s"
  define u where "u = trim s"
  have u: "u = rev (dropWhile js_space (rev t))" by (simp add: u_def t_def trim_def)
  have idem: "dropWhile js_space (dropWhile js_space xs) = dropWhile js_space xs" for xs
    by (induction xs) auto
  obtain w where w: "t = u @ w"
    using takeWhile_dropWhile_id [of js_space "rev t"] unfolding u by (metis rev_append rev_rev_ident)
  have "dropWhile js_space u = u"
  proof (cases u)
    case (Cons c cs)
    then have "t = c # cs @ w" using w by simp
    then have "\<not> js_space c" by (metis dropWhile_eq_Cons_conv t_def)
    then show ?thesis by (simp add: Cons)
  qed simp
  then have "trim u = rev (dropWhile js_space (rev u))" by (simp add: trim_def)
  also have "\<dots> = u" unfolding u by (simp add: idem)
  finally show ?thesis by (simp add: u_def)
qed

lemma check_intent_wf: "check_intent MODEL_CATALOG kvs = Inr i \<Longrightarrow> intent_wf i"
  unfolding check_intent_def intent_wf_def
  by (auto simp: secret_ok_def trim_trim SUPPORTED_POLICIES_def dest!: string_list_ok_Some intro: only_member
      split: option.splits if_splits)

lemma parseIntent_wf: "parseIntent rt b MODEL_CATALOG = Inr i \<Longrightarrow> intent_wf i"
  by (auto simp: parseIntent_def split: option.splits json.splits dest: check_intent_wf)

section \<open>Which values serialise\<close>

text \<open>\<open>canonicalJson\<close> throws exactly on an unsafe number or an \<open>undefined\<close> that is not a member value.\<close>

function (sequential) serialisable :: "json \<Rightarrow> bool" where
  "serialisable (JNum x) = isSafeInteger x"
| "serialisable (JArr vs) = list_all serialisable vs"
| "serialisable (JObj kvs) = list_all (\<lambda>kv. snd kv = JUndef \<or> serialisable (snd kv)) kvs"
| "serialisable JUndef = False"
| "serialisable v = True"
  by pat_completeness auto
termination
  by (relation "measure size") (auto dest: size_json_obj elim: size_list_estimation' intro: le_imp_less_Suc)

lemma those_None: "those xs = None \<longleftrightarrow> None \<in> set xs"
  by (induction xs) (auto split: option.splits)

lemma canonicalJson_None: "canonicalJson rt v = None \<longleftrightarrow> \<not> serialisable v"
proof (induction rt v rule: canonicalJson.induct)
  case (5 rt vs)
  then show ?case by (simp add: those_None list_all_iff) (metis (no_types, lifting) image_iff)
next
  case (6 rt kvs)
  have IH: "canonicalJson rt (snd kv) = None \<longleftrightarrow> \<not> serialisable (snd kv)" if "kv \<in> set kvs" "snd kv \<noteq> JUndef" for kv
    by (rule "6.IH" [of kv "fst kv"]) (use that in \<open>auto simp: case_prod_beta\<close>)
  have "canonicalJson rt (JObj kvs) = None \<longleftrightarrow> (\<exists>kv \<in> set kvs. snd kv \<noteq> JUndef \<and> canonicalJson rt (snd kv) = None)"
    by (force simp: those_None case_prod_beta image_iff)
  also have "\<dots> \<longleftrightarrow> \<not> serialisable (JObj kvs)" using IH by (auto simp: list_all_iff)
  finally show ?case .
qed simp_all

lemma canonicalJson_Some: "serialisable v \<Longrightarrow> \<exists>t. canonicalJson rt v = Some t"
  using canonicalJson_None by blast

lemma strs_serialisable [simp]: "serialisable (strs_json ss)"
  by (simp add: strs_json_def list_all_iff)

lemma small_int_safe [simp]: "\<bar>n\<bar> \<le> MAX_SAFE \<Longrightarrow> serialisable (JInt n)"
  by simp

lemma one_safe [simp]: "isSafeInteger (Fin 1)"
  using isSafeInteger_int [of 1] by (simp add: MAX_SAFE_def)

lemma intentDigest_defined: "\<exists>d. intentDigest rt i = Some d"
proof -
  have "serialisable (public_intent_json i)"
    using one_safe by (simp add: public_intent_json_def del: isSafeInteger.simps)
  then show ?thesis using canonicalJson_Some [of "public_intent_json i" rt] by (auto simp: intentDigest_def)
qed

lemma signReceipt_defined: "serialisable v \<Longrightarrow> \<exists>sg. signReceipt rt tee v = Some sg"
  using canonicalJson_Some [of v rt]
  by (auto simp: signReceipt_def signCanonical_def canonicalHash_def signDigestHex_def sha256Hex_def hexc.dec_enc)

section \<open>What ingestion signs\<close>

text \<open>The enclave's own signing key pair, and the law Ed25519 states for an honest signature.\<close>

definition signer :: "runtime \<Rightarrow> SimulatedTEE \<Rightarrow> bool" where
  "signer rt tee \<longleftrightarrow> tee_signingPublicKey tee = toHex (ed_public rt (tee_signingPrivateKey tee))
     \<and> (\<forall>m. ed_verify rt (ed_sign rt m (tee_signingPrivateKey tee)) m (ed_public rt (tee_signingPrivateKey tee)) = Some True)"

lemma signReceipt_verifies:
  assumes "signer rt tee" "signReceipt rt tee v = Some sg"
  shows "verifyCanonical rt v sg (tee_signingPublicKey tee) = Some True"
proof -
  from assms(2) obtain t where t: "canonicalJson rt v = Some t"
    "sg = toHex (ed_sign rt (sha256 rt (utf8 t)) (tee_signingPrivateKey tee))"
    by (auto simp: signReceipt_def signCanonical_def canonicalHash_def signDigestHex_def sha256Hex_def hexc.dec_enc
        split: option.splits)
  with assms(1) show ?thesis
    by (simp add: signer_def verifyCanonical_def canonicalHash_def verifyDigestHex_def sha256Hex_def hexc.dec_enc)
qed

lemma ingest_begin_Inr:
  assumes "ingest_begin rt lib tee key iv body s = Inr tk"
  obtains opened where "ib_enclaveKeyId body = tee_enclaveKeyId tee"
    "openIngress lib tee (ib_enc body) (ib_encryptedSecret body) None = Some opened"
    "parseIntent rt opened MODEL_CATALOG = Inr (tk_intent tk)" "int_credentialId (tk_intent tk) = ib_credentialId body"
    "intentDigest rt (tk_intent tk) = Some (tk_digest tk)" "tk_digest tk \<notin> set (st_consumedIntentDigests s)"
    "tk_encryptedBlob tk = vaultEncrypt lib key iv (int_secret (tk_intent tk))"
  using assms by (auto simp: ingest_begin_def split: if_splits option.splits sum.splits)

lemma ingest_AcceptedE:
  assumes "ingest rt lib tee key dm iv now during body s = (Accepted r, s')"
  obtains tk where "ingest_begin rt lib tee key iv body s = Inr tk"
    "ingest_finish rt lib tee dm now tk (during s) = (Accepted r, s')"
  using assms by (auto simp: ingest_def ingest_begin_def split: sum.splits if_splits option.splits)

lemma getGuestHealth_consumed [simp]:
  "st_consumedIntentDigests (snd (getGuestHealth dm s)) = st_consumedIntentDigests s"
  by (auto simp: getGuestHealth_def split: option.splits prover_result.splits)

text \<open>The policy identity a handler can learn: the cached one, or the one the daemon reports.\<close>

definition known_policy :: "daemon \<Rightarrow> 'z ingest_state_scheme \<Rightarrow> jstr \<Rightarrow> bool" where
  "known_policy dm s p \<longleftrightarrow> (\<exists>h. fst (getGuestHealth dm s) = ProverOk h \<and> ph_policyId h = p)"

lemma deriveCapability_fields:
  "deriveCapability rt i bd res now = Some c \<Longrightarrow>
     cap_credentialId c = int_credentialId i \<and> cap_provider c = int_provider i \<and> cap_contributorId c = int_contributorId i
     \<and> cap_allowedModels c = sort (int_allowedModels i) \<and> cap_allowedPolicyIds c = map res (int_allowedPolicies i)
     \<and> cap_blobDigest c = bd \<and> intentDigest rt i = Some (cap_intentDigest c)"
  by (auto simp: deriveCapability_def)

lemma ingest_finish_Accepted:
  assumes "ingest_finish rt lib tee dm now tk s = (Accepted r, s')"
  shows "known_policy dm s (ing_policyId r)
    \<and> deriveCapability rt (tk_intent tk) (lit ''0x'' @ sha256Hex rt (utf8 (tk_encryptedBlob tk)))
         (resolvePolicyId (ing_policyId r)) now = Some (ing_capability r)
    \<and> signReceipt rt tee (capability_json (ing_capability r)) = Some (ing_capabilitySignature r)
    \<and> ing_encryptedBlob r = tk_encryptedBlob tk \<and> tk_digest tk \<in> set (st_consumedIntentDigests s')"
  using assms by (auto simp: ingest_finish_def known_policy_def Let_def split: prod.splits prover_result.splits option.splits)

lemma ingest_accepted:
  assumes "ingest rt lib tee key dm iv now during body s = (Accepted r, s')"
    and "signer rt tee" "gcm_lawful lib" "length iv = 12"
  shows "\<exists>opened i. openIngress lib tee (ib_enc body) (ib_encryptedSecret body) None = Some opened
    \<and> parseIntent rt opened MODEL_CATALOG = Inr i
    \<and> cap_credentialId (ing_capability r) = int_credentialId i \<and> int_credentialId i = ib_credentialId body
    \<and> cap_provider (ing_capability r) = int_provider i \<and> cap_contributorId (ing_capability r) = int_contributorId i
    \<and> mset (cap_allowedModels (ing_capability r)) = mset (int_allowedModels i)
    \<and> (\<exists>models. map_of MODEL_CATALOG (int_provider i) = Some models \<and> set (int_allowedModels i) \<subseteq> set models)
    \<and> (\<forall>m \<in> set (cap_allowedModels (ing_capability r)). isPriced m)
    \<and> cap_allowedPolicyIds (ing_capability r) = [ing_policyId r] \<and> known_policy dm (during s) (ing_policyId r)
    \<and> cap_blobDigest (ing_capability r) = lit ''0x'' @ sha256Hex rt (utf8 (ing_encryptedBlob r))
    \<and> (wf16 (int_secret i) \<longrightarrow> vaultDecrypt lib key (ing_encryptedBlob r) = Some (int_secret i))
    \<and> verifyCanonical rt (capability_json (ing_capability r)) (ing_capabilitySignature r) (tee_signingPublicKey tee) = Some True"
proof -
  from assms(1) obtain tk where tk: "ingest_begin rt lib tee key iv body s = Inr tk"
    and fin: "ingest_finish rt lib tee dm now tk (during s) = (Accepted r, s')"
    by (rule ingest_AcceptedE)
  from ingest_begin_Inr [OF tk] obtain opened where o: "openIngress lib tee (ib_enc body) (ib_encryptedSecret body) None = Some opened"
    "parseIntent rt opened MODEL_CATALOG = Inr (tk_intent tk)" "int_credentialId (tk_intent tk) = ib_credentialId body"
    "tk_encryptedBlob tk = vaultEncrypt lib key iv (int_secret (tk_intent tk))" by metis
  note fin = ingest_finish_Accepted [OF fin]
  have wf: "intent_wf (tk_intent tk)" by (rule parseIntent_wf [OF o(2)])
  then obtain models where models: "map_of MODEL_CATALOG (int_provider (tk_intent tk)) = Some models"
    "set (int_allowedModels (tk_intent tk)) \<subseteq> set models" by (auto simp: intent_wf_def)
  have priced: "isPriced m" if "m \<in> set models" for m
    using catalog_own_price [OF map_of_SomeD [OF models(1)] that] by (auto simp: isPriced_def)
  have cap: "cap_credentialId (ing_capability r) = int_credentialId (tk_intent tk)" "cap_provider (ing_capability r) = int_provider (tk_intent tk)"
    "cap_contributorId (ing_capability r) = int_contributorId (tk_intent tk)"
    "cap_allowedModels (ing_capability r) = sort (int_allowedModels (tk_intent tk))"
    "cap_allowedPolicyIds (ing_capability r) = [ing_policyId r]"
    "cap_blobDigest (ing_capability r) = lit ''0x'' @ sha256Hex rt (utf8 (ing_encryptedBlob r))"
    using fin wf deriveCapability_fields [of rt "tk_intent tk"] by (auto simp: intent_wf_def resolvePolicyId_def)
  have vd: "wf16 (int_secret (tk_intent tk)) \<longrightarrow> vaultDecrypt lib key (ing_encryptedBlob r) = Some (int_secret (tk_intent tk))"
    using fin o(4) assms(3,4) vault_roundtrip by metis
  have sg: "verifyCanonical rt (capability_json (ing_capability r)) (ing_capabilitySignature r) (tee_signingPublicKey tee) = Some True"
    using fin signReceipt_verifies [OF assms(2)] by blast
  have pr: "\<forall>m \<in> set (cap_allowedModels (ing_capability r)). isPriced m" using cap(4) models(2) priced by auto
  show ?thesis
    by (rule exI [of _ opened], rule exI [of _ "tk_intent tk"]) (use o cap models vd sg pr fin in auto)
qed

text \<open>Ingestion signs exactly what the contributor sealed. When the handler accepts, the capability it signs
  names the credential, provider, contributor, models and policy of the decrypted intent and nothing else: the
  models are the sealed ones, all from the pinned catalog of the sealed provider and all priced; the only policy is
  the guest's; the blob it names decrypts to the sealed key (a key
  with a lone surrogate has no UTF-8 form and is excluded); and the signature verifies under the attested key. No
  other input can widen it, whatever ran while the handler waited for the daemon.\<close>

theorem ingest_signs_sealed_intent:
  assumes "ingest rt lib tee key dm iv now during body s = (Accepted r, s')"
    and "signer rt tee" "gcm_lawful lib" "length iv = 12"
  shows "\<exists>opened i. openIngress lib tee (ib_enc body) (ib_encryptedSecret body) None = Some opened
    \<and> parseIntent rt opened MODEL_CATALOG = Inr i
    \<and> cap_credentialId (ing_capability r) = int_credentialId i \<and> int_credentialId i = ib_credentialId body
    \<and> cap_provider (ing_capability r) = int_provider i \<and> cap_contributorId (ing_capability r) = int_contributorId i
    \<and> mset (cap_allowedModels (ing_capability r)) = mset (int_allowedModels i)
    \<and> (\<exists>models. map_of MODEL_CATALOG (int_provider i) = Some models \<and> set (int_allowedModels i) \<subseteq> set models)
    \<and> (\<forall>m \<in> set (cap_allowedModels (ing_capability r)). isPriced m)
    \<and> cap_allowedPolicyIds (ing_capability r) = [ing_policyId r] \<and> known_policy dm (during s) (ing_policyId r)
    \<and> cap_blobDigest (ing_capability r) = lit ''0x'' @ sha256Hex rt (utf8 (ing_encryptedBlob r))
    \<and> (wf16 (int_secret i) \<longrightarrow> vaultDecrypt lib key (ing_encryptedBlob r) = Some (int_secret i))
    \<and> verifyCanonical rt (capability_json (ing_capability r)) (ing_capabilitySignature r) (tee_signingPublicKey tee) = Some True"
  using assms by (rule ingest_accepted)

text \<open>A sealed intent mints capacity once. After an accepted ingestion, any later ingestion that began with the
  digest recorded, under whatever envelope and key, of an intent with the same public part is refused with
  \<open>CTN_INTENT_REPLAY\<close> and changes nothing.\<close>

theorem intent_replay_refused:
  assumes "ingest rt lib tee key dm iv now during body s = (Accepted r, s1)"
    and "set (st_consumedIntentDigests s1) \<subseteq> set (st_consumedIntentDigests s2)"
    and "ib_enclaveKeyId body2 = tee_enclaveKeyId tee"
    and "openIngress lib tee (ib_enc body2) (ib_encryptedSecret body2) None = Some opened2"
    and "parseIntent rt opened2 MODEL_CATALOG = Inr i2" "int_credentialId i2 = ib_credentialId body2"
    and "intentDigest rt i2 = Some (cap_intentDigest (ing_capability r))"
  shows "ingest rt lib tee key dm2 iv2 now2 during2 body2 s2 =
           (Refused 409 ''CTN_INTENT_REPLAY'' (lit ''this sealed intent has already been consumed''), s2)"
proof -
  from assms(1) obtain tk where tk: "ingest_begin rt lib tee key iv body s = Inr tk"
    and fin: "ingest_finish rt lib tee dm now tk (during s) = (Accepted r, s1)"
    by (rule ingest_AcceptedE)
  from ingest_begin_Inr [OF tk] have "intentDigest rt (tk_intent tk) = Some (tk_digest tk)" by metis
  with ingest_finish_Accepted [OF fin] have "cap_intentDigest (ing_capability r) \<in> set (st_consumedIntentDigests s2)"
    using assms(2) deriveCapability_fields [of rt "tk_intent tk"] by fastforce
  with assms(3-7) show ?thesis by (simp add: ingest_def ingest_begin_def)
qed

section \<open>A concrete enclave\<close>

definition sample_tee :: SimulatedTEE where
  "sample_tee = newSimulatedTEE sample_runtime sample_lib (lit ''b'') [lit ''safety-v1''] sample_keys"

lemma sample_signer: "signer sample_runtime sample_tee"
  by (simp add: signer_def sample_tee_def newSimulatedTEE_def)

definition sample_health :: ProverHealth where
  "sample_health = \<lparr> ph_imageIdHex = lit ''img'', ph_policyId = lit ''p2'', ph_rulesDigest = lit ''r'', ph_risc0Version = lit ''1'', ph_devMode = False \<rparr>"

definition sample_members :: "(jstr \<times> json) list" where
  "sample_members = [(lit ''allowedModels'', JArr [JStr (lit ''ctn/demo-model-a'')]),
     (lit ''allowedPolicies'', JArr [JStr (lit ''safety-v1'')]),
     (lit ''contributorId'', JStr (lit ''alice'')), (lit ''credentialId'', JStr (lit ''cred_0123456789ab'')),
     (lit ''intentNonce'', JStr (replicate 64 48)), (lit ''provider'', JStr (lit ''mock'')),
     (lit ''secret'', JStr (lit '' sk-0123456 '')), (lit ''version'', JInt 1)]"

definition sample_intent :: CredentialIntentV1 where
  "sample_intent = \<lparr> int_credentialId = lit ''cred_0123456789ab'', int_secret = lit ''sk-0123456'', int_provider = lit ''mock'',
     int_allowedModels = [lit ''ctn/demo-model-a''], int_allowedPolicies = [lit ''safety-v1''],
     int_contributorId = lit ''alice'', int_intentNonce = replicate 64 48 \<rparr>"

definition sample_sealed :: "byte list" where
  "sample_sealed = utf8 (the (canonicalJson sample_runtime (JObj sample_members)))"

definition sample_ingest_body :: IngestBody where
  "sample_ingest_body = \<lparr> ib_enclaveKeyId = tee_enclaveKeyId sample_tee, ib_enc = [], ib_encryptedSecret = toB64 sample_sealed,
     ib_credentialId = lit ''cred_0123456789ab'' \<rparr>"

definition sample_ingest_state :: ingest_state where
  "sample_ingest_state = \<lparr> st_guestHealth = Some sample_health, st_consumedIntentDigests = [] \<rparr>"

lemma keys_sorted: "sort (map fst sample_members) = map fst sample_members"
  by (simp add: sample_members_def lit_def)

lemma sample_members_sorted: "sort_key fst sample_members = sample_members"
  by (rule sort_key_id_if_sorted) (metis keys_sorted sorted_sort)

lemma sample_members_canon: "canon_form sample_runtime (JObj sample_members) = JObj sample_members"
  by (simp add: sample_members_sorted) (simp add: sample_members_def)

lemma sample_members_keys: "sort (map fst sample_members) = INTENT_KEYS"
  unfolding keys_sorted INTENT_KEYS_def by (simp add: sample_members_def lit_def)

lemma sample_sealed_parses: "parseIntent sample_runtime sample_sealed MODEL_CATALOG = Inr sample_intent"
proof -
  have ok: "serialisable (JObj sample_members)"
    using one_safe by (simp add: sample_members_def del: isSafeInteger.simps)
  then obtain t where t: "canonicalJson sample_runtime (JObj sample_members) = Some t" using canonicalJson_Some by blast
  have wf: "json_wf (JObj sample_members)" by (simp add: sample_members_def)
  have units: "json_units sample_runtime (JObj sample_members)" by (simp add: sample_members_def lit_def)
  have "json_parse sample_runtime (text_decode sample_sealed) = Some (JObj sample_members)"
    using canonical_bytes_back [OF _ wf units t] t by (simp add: ints_exact_def sample_sealed_def sample_members_canon del: canonicalJson.simps canon_form.simps)
  moreover have "check_intent MODEL_CATALOG sample_members = Inr sample_intent"
    unfolding check_intent_def sample_members_keys
    by (simp add: sample_members_def sample_intent_def field_def credential_id_ok_def secret_ok_def intent_nonce_ok_def
        string_list_ok_def MODEL_CATALOG_def MAX_MODELS_def MAX_ID_LENGTH_def SUPPORTED_POLICIES_def lower_hex_def
        lit_def starts_with_def trim_def js_space_def list_all_iff)
  ultimately show ?thesis by (simp add: parseIntent_def)
qed

lemma sample_opens:
  "openIngress sample_lib sample_tee (ib_enc sample_ingest_body) (ib_encryptedSecret sample_ingest_body) None = Some sample_sealed"
  by (simp add: openIngress_def hpkeOpen_def sample_lib_def sample_ingest_body_def fromB64_toB64)

lemma sample_ingest_accepted:
  "\<exists>r s'. ingest sample_runtime sample_lib sample_tee [5] dm (replicate 12 0) 7 (\<lambda>s. s) sample_ingest_body sample_ingest_state = (Accepted r, s')"
proof -
  obtain d where d: "intentDigest sample_runtime sample_intent = Some d" using intentDigest_defined by blast
  note o = sample_opens
  let ?tk = "\<lparr> tk_intent = sample_intent, tk_digest = d, tk_encryptedBlob = vaultEncrypt sample_lib [5] (replicate 12 0) (int_secret sample_intent) \<rparr>"
  have b: "ingest_begin sample_runtime sample_lib sample_tee [5] (replicate 12 0) sample_ingest_body sample_ingest_state = Inr ?tk"
    using o d by (simp add: ingest_begin_def sample_sealed_parses) (simp add: sample_ingest_body_def sample_intent_def sample_ingest_state_def)
  have h: "getGuestHealth dm sample_ingest_state = (ProverOk sample_health, sample_ingest_state)"
    by (simp add: getGuestHealth_def sample_ingest_state_def)
  obtain c where c: "deriveCapability sample_runtime sample_intent (lit ''0x'' @ sha256Hex sample_runtime (utf8 (tk_encryptedBlob ?tk)))
      (resolvePolicyId (ph_policyId sample_health)) 7 = Some c"
    using d by (simp add: deriveCapability_def)
  have "cap_createdAt c = 7" "cap_version c = 1" using c by (auto simp: deriveCapability_def)
  then have "serialisable (capability_json c)"
    using one_safe isSafeInteger_int [of 7] by (simp add: capability_json_def MAX_SAFE_def del: isSafeInteger.simps isSafeInteger_int)
  then obtain sg where "signReceipt sample_runtime sample_tee (capability_json c) = Some sg" using signReceipt_defined by blast
  with b h c show ?thesis by (simp add: ingest_def ingest_finish_def)
qed

definition down_daemon :: daemon where
  "down_daemon = \<lparr> dm_health = Fetch_failed, dm_execute = (\<lambda>_. Fetch_failed), dm_prove = (\<lambda>_. Fetch_failed) \<rparr>"

theorem ingest_signs_sealed_intent_witness:
  "\<exists>r s'. ingest sample_runtime sample_lib sample_tee [5] down_daemon (replicate 12 0) 7 (\<lambda>s. s) sample_ingest_body sample_ingest_state = (Accepted r, s')
     \<and> cap_credentialId (ing_capability r) = lit ''cred_0123456789ab'' \<and> mset (cap_allowedModels (ing_capability r)) = {# lit ''ctn/demo-model-a'' #}
     \<and> vaultDecrypt sample_lib [5] (ing_encryptedBlob r) = Some (lit ''sk-0123456'')
     \<and> verifyCanonical sample_runtime (capability_json (ing_capability r)) (ing_capabilitySignature r) (tee_signingPublicKey sample_tee) = Some True"
proof -
  obtain r s' where a: "ingest sample_runtime sample_lib sample_tee [5] down_daemon (replicate 12 0) 7 (\<lambda>s. s) sample_ingest_body sample_ingest_state = (Accepted r, s')"
    using sample_ingest_accepted by blast
  note o = sample_opens
  from ingest_signs_sealed_intent [OF a sample_signer sample_lib_lawful] obtain opened i where
    i: "openIngress sample_lib sample_tee (ib_enc sample_ingest_body) (ib_encryptedSecret sample_ingest_body) None = Some opened"
      "parseIntent sample_runtime opened MODEL_CATALOG = Inr i" "cap_credentialId (ing_capability r) = int_credentialId i"
      "mset (cap_allowedModels (ing_capability r)) = mset (int_allowedModels i)"
      "wf16 (int_secret i) \<longrightarrow> vaultDecrypt sample_lib [5] (ing_encryptedBlob r) = Some (int_secret i)"
      "verifyCanonical sample_runtime (capability_json (ing_capability r)) (ing_capabilitySignature r) (tee_signingPublicKey sample_tee) = Some True"
    by auto
  have "i = sample_intent" using i(1,2) o sample_sealed_parses by simp
  then have "cap_credentialId (ing_capability r) = lit ''cred_0123456789ab'' \<and> mset (cap_allowedModels (ing_capability r)) = {# lit ''ctn/demo-model-a'' #}
     \<and> vaultDecrypt sample_lib [5] (ing_encryptedBlob r) = Some (lit ''sk-0123456'')"
    using i(3-5) by (simp add: sample_intent_def wf16_lit)
  with a i(6) show ?thesis by blast
qed

theorem intent_replay_refused_witness:
  "\<exists>r s1. ingest sample_runtime sample_lib sample_tee [5] down_daemon (replicate 12 0) 7 (\<lambda>s. s) sample_ingest_body sample_ingest_state = (Accepted r, s1)
     \<and> ingest sample_runtime sample_lib sample_tee [5] down_daemon (replicate 12 1) 9 (\<lambda>s. s) sample_ingest_body s1
       = (Refused 409 ''CTN_INTENT_REPLAY'' (lit ''this sealed intent has already been consumed''), s1)"
proof -
  obtain r s1 where a: "ingest sample_runtime sample_lib sample_tee [5] down_daemon (replicate 12 0) 7 (\<lambda>s. s) sample_ingest_body sample_ingest_state = (Accepted r, s1)"
    using sample_ingest_accepted by blast
  note o = sample_opens
  obtain tk where tk: "ingest_begin sample_runtime sample_lib sample_tee [5] (replicate 12 0) sample_ingest_body sample_ingest_state = Inr tk"
    "ingest_finish sample_runtime sample_lib sample_tee down_daemon 7 tk sample_ingest_state = (Accepted r, s1)"
    using a by (rule ingest_AcceptedE)
  have "tk_intent tk = sample_intent" using ingest_begin_Inr [OF tk(1)] o sample_sealed_parses by (metis Inr_inject option.inject)
  then have d: "intentDigest sample_runtime sample_intent = Some (cap_intentDigest (ing_capability r))"
    using ingest_finish_Accepted [OF tk(2)] deriveCapability_fields by metis
  have "ingest sample_runtime sample_lib sample_tee [5] down_daemon (replicate 12 1) 9 (\<lambda>s. s) sample_ingest_body s1
       = (Refused 409 ''CTN_INTENT_REPLAY'' (lit ''this sealed intent has already been consumed''), s1)"
    by (rule intent_replay_refused [OF a _ _ o sample_sealed_parses _ d]) (simp_all add: sample_ingest_body_def sample_intent_def)
  with a show ?thesis by blast
qed

text \<open>The replay check and the recording of the digest stand on opposite sides of an \<open>await\<close>: of two ingestions of one
  sealed intent that overlap there, both are accepted.\<close>

lemma overlapping_ingestions_both_accepted:
  "\<exists>r1 r2 s1 s2. (case ingest_begin sample_runtime sample_lib sample_tee [5] (replicate 12 0) sample_ingest_body sample_ingest_state of
       Inr tk1 \<Rightarrow> (case ingest_begin sample_runtime sample_lib sample_tee [5] (replicate 12 1) sample_ingest_body sample_ingest_state of
         Inr tk2 \<Rightarrow> ingest_finish sample_runtime sample_lib sample_tee down_daemon 7 tk1 sample_ingest_state = (Accepted r1, s1)
           \<and> ingest_finish sample_runtime sample_lib sample_tee down_daemon 8 tk2 s1 = (Accepted r2, s2)
       | _ \<Rightarrow> False) | _ \<Rightarrow> False)"
proof -
  obtain d where d: "intentDigest sample_runtime sample_intent = Some d" using intentDigest_defined by blast
  note o = sample_opens
  have b: "\<exists>blob. ingest_begin sample_runtime sample_lib sample_tee [5] iv sample_ingest_body sample_ingest_state
      = Inr \<lparr> tk_intent = sample_intent, tk_digest = d, tk_encryptedBlob = blob \<rparr>" for iv
    using o d by (simp add: ingest_begin_def sample_sealed_parses) (simp add: sample_ingest_body_def sample_intent_def sample_ingest_state_def)
  have f: "\<exists>r s'. ingest_finish sample_runtime sample_lib sample_tee down_daemon t
      \<lparr> tk_intent = sample_intent, tk_digest = d, tk_encryptedBlob = blob \<rparr> s = (Accepted r, s') \<and> st_guestHealth s' = Some sample_health"
    if "st_guestHealth s = Some sample_health" "0 \<le> t" "t \<le> 8" for blob t and s :: ingest_state
  proof -
    obtain c where c: "deriveCapability sample_runtime sample_intent (lit ''0x'' @ sha256Hex sample_runtime (utf8 blob))
        (resolvePolicyId (ph_policyId sample_health)) t = Some c" using d by (simp add: deriveCapability_def)
    have "cap_createdAt c = t" "cap_version c = 1" using c by (auto simp: deriveCapability_def)
    then have "serialisable (capability_json c)"
      using one_safe isSafeInteger_int [of t] that by (simp add: capability_json_def MAX_SAFE_def del: isSafeInteger.simps isSafeInteger_int)
    then obtain sg where "signReceipt sample_runtime sample_tee (capability_json c) = Some sg" using signReceipt_defined by blast
    with c that show ?thesis by (simp add: ingest_finish_def getGuestHealth_def)
  qed
  from b [of "replicate 12 0"] b [of "replicate 12 1"] show ?thesis
    using f [of sample_ingest_state 7] f [of _ 8] by (fastforce simp: sample_ingest_state_def)
qed

end
