(* ===== verification/Insights.thy ===== *)
theory Insights
  imports Intent
begin

text \<open>
  The in-enclave insights: the closed facet enum and the keyword tables
  (\<^verbatim>\<open>services/tee-sim/src/insights/facets.ts\<close>), the classifier (\<^verbatim>\<open>insights/classify.ts\<close>), the accumulator and
  its threshold-suppressed bulletin (\<^verbatim>\<open>insights/bulletin.ts\<close>), and the canonical form and signature of a bulletin
  (\<^verbatim>\<open>packages/protocol/src/insights.ts\<close>). The main result is that a signed bulletin is a function of the multiset
  of classified requests, and exactly the thresholded counts of them.
\<close>

section \<open>Facets\<close>

datatype Facet =
    F_weapons | F_malware_cyber | F_phishing_fraud | F_violence | F_self_harm | F_csam
  | F_coding | F_writing | F_research | F_data_analysis | F_education | F_business | F_creative
  | F_translation | F_conversation | F_technical_ops | F_other

fun facet_str :: "Facet \<Rightarrow> jstr" where
  "facet_str F_weapons = lit ''weapons''"
| "facet_str F_malware_cyber = lit ''malware_cyber''"
| "facet_str F_phishing_fraud = lit ''phishing_fraud''"
| "facet_str F_violence = lit ''violence''"
| "facet_str F_self_harm = lit ''self_harm''"
| "facet_str F_csam = lit ''csam''"
| "facet_str F_coding = lit ''coding''"
| "facet_str F_writing = lit ''writing''"
| "facet_str F_research = lit ''research''"
| "facet_str F_data_analysis = lit ''data_analysis''"
| "facet_str F_education = lit ''education''"
| "facet_str F_business = lit ''business''"
| "facet_str F_creative = lit ''creative''"
| "facet_str F_translation = lit ''translation''"
| "facet_str F_conversation = lit ''conversation''"
| "facet_str F_technical_ops = lit ''technical_ops''"
| "facet_str F_other = lit ''other''"

definition SAFETY_FACETS :: "Facet list" where
  "SAFETY_FACETS = [F_weapons, F_malware_cyber, F_phishing_fraud, F_violence, F_self_harm, F_csam]"

definition BENIGN_FACETS :: "Facet list" where
  "BENIGN_FACETS = [F_coding, F_writing, F_research, F_data_analysis, F_education, F_business, F_creative,
     F_translation, F_conversation, F_technical_ops]"

definition FACETS :: "Facet list" where
  "FACETS = SAFETY_FACETS @ BENIGN_FACETS @ [F_other]"

definition CATEGORY_FACET :: "(jstr \<times> Facet) list" where
  "CATEGORY_FACET = [(lit ''P1'', F_phishing_fraud), (lit ''P2'', F_malware_cyber), (lit ''P3'', F_violence), (lit ''P4'', F_weapons),
     (lit ''P5'', F_csam), (lit ''P6'', F_phishing_fraud), (lit ''P7'', F_self_harm)]"

definition CATEGORY_ORDER :: "jstr list" where
  "CATEGORY_ORDER = map lit [''P1'', ''P2'', ''P3'', ''P4'', ''P5'', ''P6'', ''P7'']"

definition BENIGN_KEYWORDS :: "(Facet \<times> jstr list) list" where
  "BENIGN_KEYWORDS =
     [(F_coding, map lit [''code'', ''coding'', ''function'', ''python'', ''javascript'', ''typescript'', ''java'', ''rust'',
        ''golang'', ''regex'', ''bug'', ''debug'', ''compile'', ''refactor'', ''algorithm'', ''api'', ''sql query'',
        ''unit test'', ''stack trace'', ''class'', ''variable'', ''loop'', ''array'', ''sort a list'']),
      (F_translation, map lit [''translate'', ''translation'', ''in french'', ''to french'', ''in spanish'', ''to spanish'',
        ''in german'', ''to german'', ''in japanese'', ''to japanese'', ''in chinese'', ''to chinese'', ''into english'',
        ''to english'']),
      (F_data_analysis, map lit [''analyze'', ''analyse'', ''dataset'', ''data set'', ''spreadsheet'', ''csv'', ''regression'',
        ''correlation'', ''statistics'', ''statistical'', ''chart'', ''graph the'', ''pivot table'', ''average of'',
        ''median'', ''histogram'']),
      (F_research, map lit [''research'', ''research paper'', ''cite'', ''citation'', ''hypothesis'', ''literature review'',
        ''study'', ''findings'', ''abstract of'', ''peer reviewed'', ''methodology'']),
      (F_education, map lit [''explain'', ''teach me'', ''what is'', ''how does'', ''homework'', ''study guide'', ''lesson'',
        ''quiz me'', ''tutor'', ''define'', ''learn about'', ''for my class'', ''exam'']),
      (F_business, map lit [''marketing'', ''business plan'', ''invoice'', ''sales pitch'', ''market research'', ''revenue'',
        ''startup'', ''pitch deck'', ''customer'', ''roi'', ''kpi'', ''quarterly'', ''strategy for'', ''product launch'']),
      (F_creative, map lit [''story'', ''short story'', ''poem'', ''poetry'', ''novel'', ''screenplay'', ''song'', ''lyrics'',
        ''fiction'', ''character'', ''fairy tale'', ''sonnet'', ''haiku'', ''fantasy'']),
      (F_writing, map lit [''essay'', ''blog post'', ''blog'', ''article'', ''email'', ''letter'', ''cover letter'', ''resume'',
        ''summary'', ''summarize'', ''paraphrase'', ''proofread'', ''rewrite'', ''grammar'', ''draft a'']),
      (F_technical_ops, map lit [''docker'', ''kubernetes'', ''server'', ''deploy'', ''nginx'', ''linux'', ''bash'', ''shell'',
        ''cron'', ''systemd'', ''firewall'', ''dns'', ''container'', ''ssh'', ''port'', ''restart the'', ''config'']),
      (F_conversation, map lit [''hello'', ''hi there'', ''how are you'', ''good morning'', ''lets chat'', ''chat'',
        ''your opinion'', ''what do you think'', ''tell me a joke'', ''advice'', ''recommend a''])]"

section \<open>The classifier\<close>

definition keywordHit :: "jstr \<Rightarrow> jstr \<Rightarrow> bool" where
  "keywordHit normalized keyword = includes_str ([32] @ keyword @ [32]) ([32] @ normalized @ [32])"

text \<open>The loop over \<open>CATEGORY_ORDER\<close>: the winner so far with its score; a later category must score strictly more.\<close>

fun safety_scan :: "(jstr \<times> int) list \<Rightarrow> (jstr \<times> int) list \<Rightarrow> jstr list \<Rightarrow> (jstr \<times> int) option \<Rightarrow> (jstr \<times> int) option" where
  "safety_scan scores thresholds [] winner = winner"
| "safety_scan scores thresholds (cat # cats) winner =
     safety_scan scores thresholds cats
       (case (map_of scores cat, map_of thresholds cat) of
          (Some score, Some threshold) \<Rightarrow>
            if score < threshold then winner
            else (case winner of None \<Rightarrow> Some (cat, score)
                  | Some (c, best) \<Rightarrow> if score > best then Some (cat, score) else winner)
        | _ \<Rightarrow> winner)"

definition safetyFacet :: "(jstr \<times> int) list \<Rightarrow> (jstr \<times> int) list \<Rightarrow> Facet" where
  "safetyFacet scores thresholds = (case safety_scan scores thresholds CATEGORY_ORDER None of
     None \<Rightarrow> F_other
   | Some (cat, _) \<Rightarrow> (case map_of CATEGORY_FACET cat of Some f \<Rightarrow> f | None \<Rightarrow> F_other))"

definition keyword_hits :: "jstr \<Rightarrow> jstr list \<Rightarrow> nat" where
  "keyword_hits normalized keywords = length (filter (keywordHit normalized) keywords)"

fun benign_scan :: "jstr \<Rightarrow> (Facet \<times> jstr list) list \<Rightarrow> Facet \<times> nat \<Rightarrow> Facet \<times> nat" where
  "benign_scan p [] best = best"
| "benign_scan p ((f, ks) # rest) best =
     benign_scan p rest (if keyword_hits p ks > snd best then (f, keyword_hits p ks) else best)"

definition benignFacet :: "jstr \<Rightarrow> Facet" where
  "benignFacet normalizedPrompt = fst (benign_scan normalizedPrompt BENIGN_KEYWORDS (F_other, 0))"

definition classify :: "jstr \<Rightarrow> PolicyDecision \<Rightarrow> (jstr \<times> int) list \<Rightarrow> (jstr \<times> int) list \<Rightarrow> Facet" where
  "classify normalizedPrompt decision scores thresholds =
     (if decision = DENY then safetyFacet scores thresholds else benignFacet normalizedPrompt)"

section \<open>The accumulator\<close>

record Tally =
  ta_allow :: nat
  ta_deny :: nat

record BulletinAccumulator =
  ba_counts :: "(Facet \<times> Tally) list"
  ba_total :: nat

definition newAccumulator :: BulletinAccumulator where
  "newAccumulator = \<lparr> ba_counts = [], ba_total = 0 \<rparr>"

definition record_request :: "Facet \<Rightarrow> PolicyDecision \<Rightarrow> BulletinAccumulator \<Rightarrow> BulletinAccumulator" where
  "record_request facet decision acc =
     (let tally = (case map_of (ba_counts acc) facet of Some t \<Rightarrow> t | None \<Rightarrow> \<lparr> ta_allow = 0, ta_deny = 0 \<rparr>);
          tally' = (if decision = ALLOW then tally\<lparr> ta_allow := ta_allow tally + 1 \<rparr> else tally\<lparr> ta_deny := ta_deny tally + 1 \<rparr>)
      in \<lparr> ba_counts = map_put facet tally' (ba_counts acc), ba_total = ba_total acc + 1 \<rparr>)"

record InsightsFacetCount =
  fc_facet :: Facet
  fc_allow :: nat
  fc_deny :: nat

record UnsignedInsightsBulletinV1 =
  bul_generatedAt :: jstr
  bul_windowRequests :: nat
  bul_kMin :: jsnum
  bul_facets :: "InsightsFacetCount list"
  bul_suppressedFacets :: nat
  bul_otherCount :: nat
  bul_policyId :: jstr

text \<open>\<open>total >= kMin\<close> for the number read from the environment.\<close>

fun reaches :: "nat \<Rightarrow> jsnum \<Rightarrow> bool" where
  "reaches n (Fin k) = (k \<le> of_nat n)"
| "reaches n NegInf = True"
| "reaches n _ = False"

definition tally_total :: "Tally \<Rightarrow> nat" where
  "tally_total t = ta_allow t + ta_deny t"

fun assemble_loop :: "jsnum \<Rightarrow> (Facet \<times> Tally) list \<Rightarrow> InsightsFacetCount list \<times> nat \<times> nat \<Rightarrow> InsightsFacetCount list \<times> nat \<times> nat" where
  "assemble_loop kMin [] acc = acc"
| "assemble_loop kMin ((facet, tally) # rest) (fs, suppressed, other) =
     assemble_loop kMin rest
       (if facet = F_other then (fs, suppressed, other + tally_total tally)
        else if reaches (tally_total tally) kMin
        then (fs @ [\<lparr> fc_facet = facet, fc_allow = ta_allow tally, fc_deny = ta_deny tally \<rparr>], suppressed, other)
        else (fs, suppressed + 1, other + tally_total tally))"

definition assemble :: "jsnum \<Rightarrow> jstr \<Rightarrow> jstr \<Rightarrow> BulletinAccumulator \<Rightarrow> UnsignedInsightsBulletinV1" where
  "assemble kMin policyId generatedAt acc =
     (case assemble_loop kMin (ba_counts acc) ([], 0, 0) of (fs, suppressed, other) \<Rightarrow>
        \<lparr> bul_generatedAt = generatedAt, bul_windowRequests = ba_total acc, bul_kMin = kMin, bul_facets = fs,
          bul_suppressedFacets = suppressed, bul_otherCount = other, bul_policyId = policyId \<rparr>)"

section \<open>The canonical bulletin and its signature\<close>

text \<open>The counts are integers by their type; \<open>kMin\<close> is the one number \<open>assertInteger\<close> can refuse (\<open>None\<close>).\<close>

fun assertInteger :: "jsnum \<Rightarrow> jsnum option" where
  "assertInteger (Fin q) = (if is_integral q then Some (Fin q) else None)"
| "assertInteger _ = None"

definition canonicalizeInsightsBulletin :: "UnsignedInsightsBulletinV1 \<Rightarrow> UnsignedInsightsBulletinV1 option" where
  "canonicalizeInsightsBulletin b =
     map_option (\<lambda>k. b\<lparr> bul_kMin := k, bul_facets := sort_key (\<lambda>f. facet_str (fc_facet f)) (bul_facets b) \<rparr>) (assertInteger (bul_kMin b))"

definition facet_count_json :: "InsightsFacetCount \<Rightarrow> json" where
  "facet_count_json f = JObj [(lit ''facet'', JStr (facet_str (fc_facet f))), (lit ''allow'', JInt (int (fc_allow f))),
     (lit ''deny'', JInt (int (fc_deny f)))]"

definition bulletin_json :: "UnsignedInsightsBulletinV1 \<Rightarrow> json" where
  "bulletin_json b = JObj [(lit ''version'', JInt 1), (lit ''generatedAt'', JStr (bul_generatedAt b)),
     (lit ''windowRequests'', JInt (int (bul_windowRequests b))), (lit ''kMin'', JNum (bul_kMin b)),
     (lit ''facets'', JArr (map facet_count_json (bul_facets b))),
     (lit ''suppressedFacets'', JInt (int (bul_suppressedFacets b))), (lit ''otherCount'', JInt (int (bul_otherCount b))),
     (lit ''policyId'', JStr (bul_policyId b))]"

record SignedInsightsBulletinV1 =
  sib_bulletin :: UnsignedInsightsBulletinV1
  sib_enclaveSignature :: jstr

definition buildBulletin ::
  "(json \<Rightarrow> jstr option) \<Rightarrow> jsnum \<Rightarrow> jstr \<Rightarrow> jstr \<Rightarrow> BulletinAccumulator \<Rightarrow> SignedInsightsBulletinV1 option" where
  "buildBulletin sign kMin policyId generatedAt acc =
     (case canonicalizeInsightsBulletin (assemble kMin policyId generatedAt acc) of
        None \<Rightarrow> None
      | Some canonical \<Rightarrow> map_option (\<lambda>sg. \<lparr> sib_bulletin = canonical, sib_enclaveSignature = sg \<rparr>) (sign (bulletin_json canonical)))"

definition verifyInsightsBulletin :: "runtime \<Rightarrow> SignedInsightsBulletinV1 \<Rightarrow> jstr \<Rightarrow> bool option" where
  "verifyInsightsBulletin rt b publicKeyHex =
     (case canonicalizeInsightsBulletin (sib_bulletin b) of
        None \<Rightarrow> None
      | Some canonical \<Rightarrow> verifyCanonical rt (bulletin_json canonical) (sib_enclaveSignature b) publicKeyHex)"

text \<open>\<open>GET /insights\<close>: the guest's policy identity when the daemon answers, the preview identity otherwise.\<close>

definition getInsights ::
  "runtime \<Rightarrow> SimulatedTEE \<Rightarrow> daemon \<Rightarrow> jsnum \<Rightarrow> jstr \<Rightarrow> jstr \<Rightarrow> BulletinAccumulator \<Rightarrow> 'z ingest_state_scheme
   \<Rightarrow> SignedInsightsBulletinV1 option \<times> 'z ingest_state_scheme" where
  "getInsights rt tee dm kMin previewPolicyId generatedAt acc s =
     (case getGuestHealth dm s of (h, s1) \<Rightarrow>
        (buildBulletin (signReceipt rt tee) kMin (case h of ProverOk ph \<Rightarrow> ph_policyId ph | _ \<Rightarrow> previewPolicyId) generatedAt acc, s1))"

section \<open>The bulletin is the thresholded count of the requests\<close>

definition recorded :: "(Facet \<times> PolicyDecision) list \<Rightarrow> BulletinAccumulator" where
  "recorded reqs = fold (\<lambda>(f, d). record_request f d) reqs newAccumulator"

definition tally_of :: "(Facet \<times> PolicyDecision) list \<Rightarrow> Facet \<Rightarrow> Tally" where
  "tally_of reqs f = \<lparr> ta_allow = count_list reqs (f, ALLOW), ta_deny = count_list reqs (f, DENY) \<rparr>"

lemma recorded_snoc: "recorded (reqs @ [(f, d)]) = record_request f d (recorded reqs)"
  by (simp add: recorded_def)

lemma count_snoc: "count_list (xs @ [x]) y = count_list xs y + (if x = y then 1 else 0)"
  by (induction xs) auto

lemma tally_snoc: "tally_of (reqs @ [(g, d)]) f = (if g = f then (if d = ALLOW
      then (tally_of reqs f)\<lparr> ta_allow := ta_allow (tally_of reqs f) + 1 \<rparr> else (tally_of reqs f)\<lparr> ta_deny := ta_deny (tally_of reqs f) + 1 \<rparr>)
    else tally_of reqs f)"
  by (cases d) (simp_all add: tally_of_def count_snoc)

lemma tally_unseen: "f \<notin> fst ` set reqs \<Longrightarrow> tally_of reqs f = \<lparr> ta_allow = 0, ta_deny = 0 \<rparr>"
  by (force simp: tally_of_def count_list_0_iff)

lemma recorded_facts:
  "map_wf (ba_counts (recorded reqs)) \<and> ba_total (recorded reqs) = length reqs
   \<and> (\<forall>f. map_of (ba_counts (recorded reqs)) f = (if f \<in> fst ` set reqs then Some (tally_of reqs f) else None))"
proof (induction reqs rule: rev_induct)
  case Nil
  show ?case by (simp add: recorded_def newAccumulator_def)
next
  case (snoc x xs)
  obtain f d where x: "x = (f, d)" by fastforce
  have old: "(case map_of (ba_counts (recorded xs)) f of Some t \<Rightarrow> t | None \<Rightarrow> \<lparr> ta_allow = 0, ta_deny = 0 \<rparr>) = tally_of xs f"
    using snoc tally_unseen [of f xs] by (cases "f \<in> fst ` set xs") auto
  show ?case
    using snoc unfolding x recorded_snoc record_request_def Let_def old
    by (auto simp: wf_put map_of_put tally_snoc)
qed

lemma tally_seen_pos: "f \<in> fst ` set reqs \<longleftrightarrow> 0 < tally_total (tally_of reqs f)"
proof -
  have "(f, d) \<in> set reqs \<longleftrightarrow> 0 < count_list reqs (f, d)" for d by (metis count_list_0_iff neq0_conv)
  moreover have "f \<in> fst ` set reqs \<longleftrightarrow> (f, ALLOW) \<in> set reqs \<or> (f, DENY) \<in> set reqs"
  proof
    assume "f \<in> fst ` set reqs"
    then obtain d where "(f, d) \<in> set reqs" by auto
    then show "(f, ALLOW) \<in> set reqs \<or> (f, DENY) \<in> set reqs" by (cases d) auto
  next
    assume "(f, ALLOW) \<in> set reqs \<or> (f, DENY) \<in> set reqs"
    then show "f \<in> fst ` set reqs" by (metis fst_conv imageI)
  qed
  ultimately show ?thesis by (auto simp: tally_total_def tally_of_def)
qed

lemma recorded_set:
  "set (ba_counts (recorded reqs)) = (\<lambda>f. (f, tally_of reqs f)) ` {f. 0 < tally_total (tally_of reqs f)}"
proof -
  have wf: "map_wf (ba_counts (recorded reqs))"
    and m: "\<And>f. map_of (ba_counts (recorded reqs)) f = (if f \<in> fst ` set reqs then Some (tally_of reqs f) else None)"
    using recorded_facts [of reqs] by auto
  have "(f, t) \<in> set (ba_counts (recorded reqs)) \<longleftrightarrow> map_of (ba_counts (recorded reqs)) f = Some t" for f t
    using wf by (auto simp: map_wf_def)
  then show ?thesis by (auto simp: m tally_seen_pos split: if_splits)
qed

lemma assemble_loop_eq:
  "assemble_loop k cs (fs, sp, oth) =
     (fs @ map (\<lambda>(f, t). \<lparr> fc_facet = f, fc_allow = ta_allow t, fc_deny = ta_deny t \<rparr>) (filter (\<lambda>(f, t). f \<noteq> F_other \<and> reaches (tally_total t) k) cs),
      sp + length (filter (\<lambda>(f, t). f \<noteq> F_other \<and> \<not> reaches (tally_total t) k) cs),
      oth + sum_list (map (\<lambda>(f, t). tally_total t) (filter (\<lambda>(f, t). f = F_other \<or> \<not> reaches (tally_total t) k) cs)))"
proof (induction cs arbitrary: fs sp oth)
  case (Cons c cs)
  then show ?case by (cases c) auto
qed simp

lemma sum_put:
  "map_wf cs \<Longrightarrow> sum_list (map (\<lambda>(f, t). g t) (map_put k v cs)) + (case map_of cs k of Some w \<Rightarrow> g w | None \<Rightarrow> 0)
     = sum_list (map (\<lambda>(f, t). g t) cs) + (g v :: nat)"
proof (induction cs)
  case (Cons c cs)
  obtain a b where c: "c = (a, b)" by fastforce
  have "a = k \<Longrightarrow> map_of cs k = None" using Cons.prems by (auto simp: c map_wf_def map_of_eq_None_iff)
  with Cons show ?case by (auto simp: c map_wf_def)
qed simp

lemma recorded_sum: "sum_list (map (\<lambda>(f, t). tally_total t) (ba_counts (recorded reqs))) = length reqs"
proof (induction reqs rule: rev_induct)
  case Nil
  show ?case by (simp add: recorded_def newAccumulator_def)
next
  case (snoc x xs)
  obtain f d where x: "x = (f, d)" by fastforce
  let ?cs = "ba_counts (recorded xs)"
  let ?t = "case map_of ?cs f of Some t \<Rightarrow> t | None \<Rightarrow> \<lparr> ta_allow = 0, ta_deny = 0 \<rparr>"
  let ?t' = "if d = ALLOW then ?t\<lparr> ta_allow := ta_allow ?t + 1 \<rparr> else ?t\<lparr> ta_deny := ta_deny ?t + 1 \<rparr>"
  have c: "ba_counts (recorded (xs @ [x])) = map_put f ?t' ?cs" by (simp add: x recorded_snoc record_request_def Let_def)
  have t: "tally_total ?t' = tally_total ?t + 1" by (simp add: tally_total_def)
  have z: "(case map_of ?cs f of Some w \<Rightarrow> tally_total w | None \<Rightarrow> 0) = tally_total ?t"
    by (cases "map_of ?cs f") (simp_all add: tally_total_def)
  have wf: "map_wf ?cs" using recorded_facts by blast
  from sum_put [OF wf, of tally_total f ?t'] show ?case unfolding c z t using snoc by simp
qed

lemma sum_split: "sum_list (map g cs) = sum_list (map g (filter P cs)) + (sum_list (map g (filter (\<lambda>x. \<not> P x) cs)) :: nat)"
  by (induction cs) auto

text \<open>The specification: each facet of the enum with its counts over the requests, in the order of the facet names,
  when it is not the catch-all and was seen often enough.\<close>

definition rendered :: "jsnum \<Rightarrow> (Facet \<times> PolicyDecision) list \<Rightarrow> InsightsFacetCount list" where
  "rendered k reqs = map (\<lambda>f. \<lparr> fc_facet = f, fc_allow = count_list reqs (f, ALLOW), fc_deny = count_list reqs (f, DENY) \<rparr>)
     (filter (\<lambda>f. f \<noteq> F_other \<and> 0 < tally_total (tally_of reqs f) \<and> reaches (tally_total (tally_of reqs f)) k) (sort_key facet_str FACETS))"

definition suppressed :: "jsnum \<Rightarrow> (Facet \<times> PolicyDecision) list \<Rightarrow> nat" where
  "suppressed k reqs = length (filter (\<lambda>f. f \<noteq> F_other \<and> 0 < tally_total (tally_of reqs f) \<and> \<not> reaches (tally_total (tally_of reqs f)) k) FACETS)"

lemma all_facets: "f \<in> set FACETS"
  by (cases f) (simp_all add: FACETS_def SAFETY_FACETS_def BENIGN_FACETS_def)

lemma distinct_FACETS: "distinct FACETS"
  by (simp add: FACETS_def SAFETY_FACETS_def BENIGN_FACETS_def)

lemma facet_str_inject: "facet_str f = facet_str g \<longleftrightarrow> f = g"
  by (cases f; cases g) simp_all

lemma rendered_sorted: "sorted (map (\<lambda>c. facet_str (fc_facet c)) (rendered k reqs))"
proof -
  have "sorted (map facet_str (filter P (sort_key facet_str FACETS)))" for P
    by (rule sorted_filter) simp
  then show ?thesis by (simp add: rendered_def comp_def)
qed

lemma counts_distinct: "distinct (ba_counts (recorded reqs))"
  using recorded_facts [of reqs] by (simp add: map_wf_def distinct_map)

lemma sorted_facets_rendered:
  "sort_key (\<lambda>c. facet_str (fc_facet c)) (map (\<lambda>(f, t). \<lparr> fc_facet = f, fc_allow = ta_allow t, fc_deny = ta_deny t \<rparr>)
      (filter (\<lambda>(f, t). f \<noteq> F_other \<and> reaches (tally_total t) k) (ba_counts (recorded reqs)))) = rendered k reqs"
    (is "sort_key ?key ?xs = _")
proof (rule sort_key_inj_key_eq)
  have keys: "map fc_facet ?xs = map fst (filter (\<lambda>(f, t). f \<noteq> F_other \<and> reaches (tally_total t) k) (ba_counts (recorded reqs)))"
    by (induction "ba_counts (recorded reqs)") auto
  have dk: "distinct (map fc_facet ?xs)"
    unfolding keys using recorded_facts [of reqs] distinct_keys_filter unfolding map_wf_def by blast
  have dr: "distinct (map fc_facet (rendered k reqs))"
    by (simp add: rendered_def comp_def distinct_FACETS)
  have "set ?xs = set (rendered k reqs)"
    by (auto simp: rendered_def recorded_set all_facets tally_of_def image_iff)
  then show "mset ?xs = mset (rendered k reqs)"
    using dk dr by (simp only: distinct_map set_eq_iff_mset_eq_distinct [symmetric])
  have "inj_on fc_facet (set ?xs)" using dk by (simp only: distinct_map)
  then show "inj_on ?key (set ?xs)" by (simp add: inj_on_def facet_str_inject)
qed (rule rendered_sorted)

lemma suppressed_count:
  "length (filter (\<lambda>(f, t). f \<noteq> F_other \<and> \<not> reaches (tally_total t) k) (ba_counts (recorded reqs))) = suppressed k reqs"
proof -
  let ?cs = "filter (\<lambda>(f, t). f \<noteq> F_other \<and> \<not> reaches (tally_total t) k) (ba_counts (recorded reqs))"
  let ?fs = "filter (\<lambda>f. f \<noteq> F_other \<and> 0 < tally_total (tally_of reqs f) \<and> \<not> reaches (tally_total (tally_of reqs f)) k) FACETS"
  have "set ?cs = (\<lambda>f. (f, tally_of reqs f)) ` set ?fs" by (auto simp: recorded_set all_facets)
  then have "card (set ?cs) = card (set ?fs)" by (simp add: card_image inj_on_def)
  moreover have "distinct ?cs" "distinct ?fs" using counts_distinct distinct_FACETS by simp_all
  ultimately show ?thesis by (simp add: suppressed_def distinct_card [symmetric])
qed

lemma sum_rendered: "sum_list (map (\<lambda>(f, t). tally_total t) (filter (\<lambda>(f, t). f \<noteq> F_other \<and> reaches (tally_total t) k) (ba_counts (recorded reqs))))
   = sum_list (map (\<lambda>c. fc_allow c + fc_deny c) (rendered k reqs))"
proof -
  let ?cs = "filter (\<lambda>(f, t). f \<noteq> F_other \<and> reaches (tally_total t) k) (ba_counts (recorded reqs))"
  let ?r = "\<lambda>(f, t). \<lparr> fc_facet = f, fc_allow = ta_allow t, fc_deny = ta_deny t \<rparr> :: InsightsFacetCount"
  have "mset (rendered k reqs) = mset (map ?r ?cs)" by (simp only: sorted_facets_rendered [symmetric] mset_sort)
  then have "sum_list (map (\<lambda>c. fc_allow c + fc_deny c) (rendered k reqs)) = sum_list (map (\<lambda>c. fc_allow c + fc_deny c) (map ?r ?cs))"
    by (simp only: sum_mset_sum_list [symmetric] mset_map)
  also have "\<dots> = sum_list (map (\<lambda>(f, t). tally_total t) ?cs)"
    by (rule arg_cong [of _ _ sum_list]) (auto simp: tally_total_def)
  finally show ?thesis by simp
qed

lemma assembled:
  assumes "assertInteger k = Some k"
  shows "\<exists>oth. canonicalizeInsightsBulletin (assemble k policyId at0 (recorded reqs)) =
      Some \<lparr> bul_generatedAt = at0, bul_windowRequests = length reqs, bul_kMin = k, bul_facets = rendered k reqs,
         bul_suppressedFacets = suppressed k reqs, bul_otherCount = oth, bul_policyId = policyId \<rparr>
    \<and> sum_list (map (\<lambda>c. fc_allow c + fc_deny c) (rendered k reqs)) + oth = length reqs"
proof -
  let ?cs = "ba_counts (recorded reqs)"
  let ?oth = "sum_list (map (\<lambda>(f, t). tally_total t) (filter (\<lambda>(f, t). f = F_other \<or> \<not> reaches (tally_total t) k) ?cs))"
  have f: "filter (\<lambda>x. \<not> (case x of (f, t) \<Rightarrow> f \<noteq> F_other \<and> reaches (tally_total t) k)) ?cs
      = filter (\<lambda>(f, t). f = F_other \<or> \<not> reaches (tally_total t) k) ?cs" by (rule filter_cong) auto
  have "sum_list (map (\<lambda>c. fc_allow c + fc_deny c) (rendered k reqs)) + ?oth = length reqs"
    using sum_split [of "\<lambda>(f, t). tally_total t" ?cs "\<lambda>(f, t). f \<noteq> F_other \<and> reaches (tally_total t) k"]
    unfolding f sum_rendered recorded_sum by simp
  moreover have "ba_total (recorded reqs) = length reqs" using recorded_facts by blast
  ultimately show ?thesis
    by (simp add: canonicalizeInsightsBulletin_def assemble_def assemble_loop_eq assms sorted_facets_rendered suppressed_count)
qed

text \<open>C28. The published bulletin refines the plain count of requests. Whatever requests were classified, in whatever
  order, a bulletin built with an integer threshold is, up to its signature, the specification: the number of
  requests; each facet other than the catch-all whose ALLOW and DENY counts together reach the threshold, with exactly
  those counts, sorted by name; the number of facets below it; and one number for all remaining requests, so that the
  counts add up. A facet below the threshold never appears, the signed value does not depend on the order of arrival,
  and the signature verifies under the enclave's key.\<close>

theorem bulletin_refines_counts:
  assumes "assertInteger k = Some k" "buildBulletin (signReceipt rt tee) k policyId at0 (recorded reqs) = Some b" "signer rt tee"
  shows "bul_windowRequests (sib_bulletin b) = length reqs \<and> bul_facets (sib_bulletin b) = rendered k reqs
    \<and> bul_suppressedFacets (sib_bulletin b) = suppressed k reqs
    \<and> sum_list (map (\<lambda>c. fc_allow c + fc_deny c) (bul_facets (sib_bulletin b))) + bul_otherCount (sib_bulletin b) = length reqs
    \<and> (\<forall>reqs'. mset reqs' = mset reqs \<longrightarrow> buildBulletin (signReceipt rt tee) k policyId at0 (recorded reqs') = Some b)
    \<and> verifyInsightsBulletin rt b (tee_signingPublicKey tee) = Some True"
proof -
  obtain oth where c: "canonicalizeInsightsBulletin (assemble k policyId at0 (recorded reqs)) =
      Some \<lparr> bul_generatedAt = at0, bul_windowRequests = length reqs, bul_kMin = k, bul_facets = rendered k reqs,
         bul_suppressedFacets = suppressed k reqs, bul_otherCount = oth, bul_policyId = policyId \<rparr>"
    and s: "sum_list (map (\<lambda>c. fc_allow c + fc_deny c) (rendered k reqs)) + oth = length reqs"
    using assembled [OF assms(1)] by blast
  have b: "sib_bulletin b = \<lparr> bul_generatedAt = at0, bul_windowRequests = length reqs, bul_kMin = k, bul_facets = rendered k reqs,
         bul_suppressedFacets = suppressed k reqs, bul_otherCount = oth, bul_policyId = policyId \<rparr>"
    "signReceipt rt tee (bulletin_json (sib_bulletin b)) = Some (sib_enclaveSignature b)"
    using assms(2) by (auto simp: buildBulletin_def c)
  have same: "buildBulletin (signReceipt rt tee) k policyId at0 (recorded reqs') = Some b" if "mset reqs' = mset reqs" for reqs'
  proof -
    have cnt: "count_list reqs' x = count_list reqs x" for x using that by (metis count_mset)
    have t: "tally_of reqs' = tally_of reqs" by (simp add: tally_of_def cnt fun_eq_iff)
    have l: "length reqs' = length reqs" using that by (metis size_mset)
    have r: "rendered k reqs' = rendered k reqs" "suppressed k reqs' = suppressed k reqs" by (simp_all add: rendered_def suppressed_def cnt t)
    obtain oth' where c': "canonicalizeInsightsBulletin (assemble k policyId at0 (recorded reqs')) =
        Some \<lparr> bul_generatedAt = at0, bul_windowRequests = length reqs', bul_kMin = k, bul_facets = rendered k reqs',
           bul_suppressedFacets = suppressed k reqs', bul_otherCount = oth', bul_policyId = policyId \<rparr>"
      and s': "sum_list (map (\<lambda>c. fc_allow c + fc_deny c) (rendered k reqs')) + oth' = length reqs'"
      using assembled [OF assms(1)] by blast
    have "oth' = oth" using s s' l r by simp
    with c c' l r have "canonicalizeInsightsBulletin (assemble k policyId at0 (recorded reqs'))
        = canonicalizeInsightsBulletin (assemble k policyId at0 (recorded reqs))" by simp
    then show ?thesis using assms(2) by (simp add: buildBulletin_def)
  qed
  have sortd: "sort_key (\<lambda>f. facet_str (fc_facet f)) (rendered k reqs) = rendered k reqs"
    by (rule sort_key_id_if_sorted) (rule rendered_sorted)
  have v: "verifyInsightsBulletin rt b (tee_signingPublicKey tee) = Some True"
    using signReceipt_verifies [OF assms(3) b(2)]
    by (simp add: verifyInsightsBulletin_def canonicalizeInsightsBulletin_def b(1) assms(1) sortd)
  show ?thesis using b(1) s same v by simp
qed

definition sample_requests :: "(Facet \<times> PolicyDecision) list" where
  "sample_requests = [(F_coding, ALLOW), (F_weapons, DENY), (F_coding, ALLOW), (F_other, ALLOW)]"

lemma two_integral: "assertInteger (Fin 2) = Some (Fin 2)"
  using is_integral_int [of 2] by simp

lemma sample_bulletin_built: "\<exists>b. buildBulletin (signReceipt sample_runtime sample_tee) (Fin 2) (lit ''p'') (lit ''t'') (recorded sample_requests) = Some b"
proof -
  obtain oth where c: "canonicalizeInsightsBulletin (assemble (Fin 2) (lit ''p'') (lit ''t'') (recorded sample_requests)) =
      Some \<lparr> bul_generatedAt = lit ''t'', bul_windowRequests = length sample_requests, bul_kMin = Fin 2, bul_facets = rendered (Fin 2) sample_requests,
         bul_suppressedFacets = suppressed (Fin 2) sample_requests, bul_otherCount = oth, bul_policyId = lit ''p'' \<rparr>" (is "_ = Some ?b")
    and s: "sum_list (map (\<lambda>c. fc_allow c + fc_deny c) (rendered (Fin 2) sample_requests)) + oth = length sample_requests"
    using assembled [OF two_integral] by blast
  have safe: "isSafeInteger (Fin (of_int (int n)))" if "n \<le> 17" for n
    using that isSafeInteger_int [of "int n"] by (simp add: MAX_SAFE_def del: isSafeInteger.simps)
  have "suppressed (Fin 2) sample_requests \<le> length FACETS" unfolding suppressed_def by (rule length_filter_le)
  then have sup: "suppressed (Fin 2) sample_requests \<le> 17" by (simp add: FACETS_def SAFETY_FACETS_def BENIGN_FACETS_def)
  have fc: "\<forall>c \<in> set (rendered (Fin 2) sample_requests). fc_allow c \<le> 17 \<and> fc_deny c \<le> 17"
    using count_le_length [of sample_requests] by (auto simp: rendered_def sample_requests_def intro: le_trans)
  have "serialisable (bulletin_json ?b)"
    using s safe [of 1] safe [of "length sample_requests"] safe [of oth] safe [OF sup] safe fc isSafeInteger_int [of 2]
    by (auto simp: bulletin_json_def facet_count_json_def sample_requests_def MAX_SAFE_def list_all_iff simp del: isSafeInteger.simps isSafeInteger_int)
  then obtain sg where "signReceipt sample_runtime sample_tee (bulletin_json ?b) = Some sg" using signReceipt_defined by blast
  then show ?thesis by (simp add: buildBulletin_def c)
qed

theorem bulletin_refines_counts_witness:
  "\<exists>b. buildBulletin (signReceipt sample_runtime sample_tee) (Fin 2) (lit ''p'') (lit ''t'') (recorded sample_requests) = Some b
     \<and> bul_windowRequests (sib_bulletin b) = 4 \<and> bul_facets (sib_bulletin b) = rendered (Fin 2) sample_requests
     \<and> verifyInsightsBulletin sample_runtime b (tee_signingPublicKey sample_tee) = Some True"
proof -
  obtain b where b: "buildBulletin (signReceipt sample_runtime sample_tee) (Fin 2) (lit ''p'') (lit ''t'') (recorded sample_requests) = Some b"
    using sample_bulletin_built by blast
  from bulletin_refines_counts [OF two_integral b sample_signer] b show ?thesis by (auto simp: sample_requests_def)
qed

section \<open>The classifier\<close>

text \<open>The safety facet is the one of a highest-scoring category that reached its threshold; with no such category it
  is the catch-all.\<close>

lemma safety_scan_best:
  assumes "safety_scan sc th cats w = Some (c, b)"
  shows "(w = Some (c, b) \<or> (c \<in> set cats \<and> map_of sc c = Some b \<and> (\<exists>t. map_of th c = Some t \<and> t \<le> b)))
    \<and> (\<forall>c' s t. c' \<in> set cats \<and> map_of sc c' = Some s \<and> map_of th c' = Some t \<and> t \<le> s \<longrightarrow> s \<le> b)
    \<and> (\<forall>c' b'. w = Some (c', b') \<longrightarrow> b' \<le> b)"
  using assms
proof (induction cats arbitrary: w)
  case (Cons cat cats)
  show ?case
    using Cons.IH [OF Cons.prems [unfolded safety_scan.simps]] by (fastforce split: option.splits if_splits prod.splits)
qed auto

text \<open>A request denied by a hard block carries no category scores, so its facet is the catch-all and never the one of the
  category that denied it.\<close>

lemma hard_block_facet_is_other:
  assumes "ev_hardBlock (evaluate rt rules raw) = Some hb"
  shows "ev_decision (evaluate rt rules raw) = DENY \<and> ev_categories (evaluate rt rules raw) = []
    \<and> classify p DENY (map (\<lambda>c. (cs_category c, cs_score c)) (ev_categories (evaluate rt rules raw)))
        (map (\<lambda>c. (cs_category c, cs_threshold c)) (ev_categories (evaluate rt rules raw))) = F_other"
proof -
  have "ev_decision (evaluate rt rules raw) = DENY" "ev_categories (evaluate rt rules raw) = []"
    using assms by (auto simp: evaluate_def Let_def split: option.splits)
  then show ?thesis by (simp add: classify_def safetyFacet_def CATEGORY_ORDER_def)
qed

end
