(* ===== verification/Authorize.thy ===== *)
theory Authorize
  imports Insights
begin

text \<open>
  The type-state gate (\<^verbatim>\<open>services/tee-sim/src/authorize.ts\<close>). An \<open>AuthorizedRequest\<close> exists only for an
  ALLOW verdict, an \<open>AuthorizedCredential\<close> only for a candidate that passed every check; in the sources the
  constructors are private to the module, here the two records are built nowhere else. The main result ties
  the enclave's final authorization to the contributor's consent: whatever candidate list an untrusted
  coordinator presents, a credential is released only as the contributor sealed it.
\<close>

section \<open>Requests\<close>

record AuthorizedRequest =
  aq_request :: CanonicalRequest
  aq_requestCommitment :: jstr
  aq_requestNonce :: jstr
  aq_policyId :: jstr
  aq_policyMs :: int

text \<open>The commitment both entry points compute; \<open>None\<close> when canonicalization or the nonce check throws.\<close>

definition commitment_of :: "runtime \<Rightarrow> CanonicalRequest \<Rightarrow> jstr \<Rightarrow> jstr option" where
  "commitment_of rt request requestNonce =
     (case canonicalBytes rt request of None \<Rightarrow> None | Some bytes \<Rightarrow> requestCommitment rt bytes requestNonce)"

datatype gate_decision = GateAllow AuthorizedRequest | GateDeny

definition message_pairs :: "CanonicalRequest \<Rightarrow> (jstr \<times> jstr) list" where
  "message_pairs r = map (\<lambda>m. (role_str (msg_role m), msg_content m)) (req_messages r)"

text \<open>\<open>AuthorizedRequest.evaluate\<close>, the preview: verdict, commitment and evaluation. \<open>elapsed\<close> is the rounded
  difference of the two clock readings.\<close>

definition evaluate_request ::
  "runtime \<Rightarrow> CanonicalRequest \<Rightarrow> jstr \<Rightarrow> PolicyRules \<Rightarrow> jstr \<Rightarrow> int \<Rightarrow> (gate_decision \<times> PolicyEvaluation \<times> jstr \<times> int) option" where
  "evaluate_request rt request requestNonce rules policyId elapsed =
     (case commitment_of rt request requestNonce of
        None \<Rightarrow> None
      | Some commitment \<Rightarrow>
          (let ev = evaluateRequest rt rules (message_pairs request); policyMs = max 1 elapsed in
           if ev_decision ev \<noteq> ALLOW then Some (GateDeny, ev, commitment, policyMs)
           else Some (GateAllow \<lparr> aq_request = request, aq_requestCommitment = commitment, aq_requestNonce = requestNonce,
                        aq_policyId = policyId, aq_policyMs = policyMs \<rparr>, ev, commitment, policyMs)))"

datatype 'a guarded = Guarded 'a | CommitmentMismatch | Threw

definition assertGuestCommitment :: "jstr \<Rightarrow> jstr \<Rightarrow> bool" where
  "assertGuestCommitment enclaveCommitment journalCommitment \<longleftrightarrow> enclaveCommitment = journalCommitment"

definition fromGuestJournal ::
  "runtime \<Rightarrow> CanonicalRequest \<Rightarrow> jstr \<Rightarrow> PolicyJournal \<Rightarrow> int \<Rightarrow> (gate_decision \<times> jstr) guarded" where
  "fromGuestJournal rt request requestNonce journal gateWallMs =
     (case commitment_of rt request requestNonce of
        None \<Rightarrow> Threw
      | Some commitment \<Rightarrow>
          if \<not> assertGuestCommitment commitment (jr_requestCommitment journal) then CommitmentMismatch
          else if jr_decision journal \<noteq> ALLOW then Guarded (GateDeny, commitment)
          else Guarded (GateAllow \<lparr> aq_request = request, aq_requestCommitment = commitment, aq_requestNonce = requestNonce,
                          aq_policyId = jr_policyId journal, aq_policyMs = gateWallMs \<rparr>, commitment))"

text \<open>\<open>witness()\<close>: the private input of the prover.\<close>

definition witness :: "runtime \<Rightarrow> AuthorizedRequest \<Rightarrow> (jstr \<times> jstr) option" where
  "witness rt a = map_option (\<lambda>t. (t, aq_requestNonce a)) (canonicalJson rt (request_json (aq_request a)))"

section \<open>Candidates\<close>

record AuthorizedCredential =
  ac_credentialId :: jstr
  ac_contributorId :: jstr
  ac_provider :: jstr
  ac_secret :: jstr
  ac_capability :: CredentialCapability

datatype authz_reason =
    AF_not_enabled | AF_provider_mismatch | AF_model_not_allowed | AF_policy_not_allowed
  | AF_capability_signature_invalid | AF_capability_id_mismatch | AF_blob_digest_mismatch | AF_blob_decrypt_failed

record AuthorizationFailure =
  af_credentialId :: jstr
  af_reason :: authz_reason

text \<open>\<open>None\<close>: \<open>verifyCanonical\<close> threw, which the sources do not catch.\<close>

definition authorizeCandidate ::
  "runtime \<Rightarrow> Candidate \<Rightarrow> AuthorizedRequest \<Rightarrow> jstr \<Rightarrow> (jstr \<Rightarrow> jstr option)
   \<Rightarrow> (AuthorizationFailure + AuthorizedCredential) option" where
  "authorizeCandidate rt cand authorized enclaveSigningPublicKey decryptBlob =
     (let cap = cd_capability cand;
          fail = (\<lambda>reason. Some (Inl \<lparr> af_credentialId = cd_credentialId cand, af_reason = reason \<rparr>)) in
      if cd_status cand \<noteq> lit ''ACTIVE'' then fail AF_not_enabled
      else (case verifyCanonical rt (capability_json cap) (cd_capabilitySignature cand) enclaveSigningPublicKey of
              None \<Rightarrow> None
            | Some valid \<Rightarrow>
      if \<not> valid then fail AF_capability_signature_invalid
      else if cap_credentialId cap \<noteq> cd_credentialId cand \<or> cap_contributorId cap \<noteq> cd_contributorId cand
        then fail AF_capability_id_mismatch
      else if cap_blobDigest cap \<noteq> lit ''0x'' @ sha256Hex rt (utf8 (cd_encryptedBlob cand)) then fail AF_blob_digest_mismatch
      else if cap_provider cap \<noteq> cd_provider cand then fail AF_provider_mismatch
      else if req_model (aq_request authorized) \<notin> set (cap_allowedModels cap) then fail AF_model_not_allowed
      else if aq_policyId authorized \<notin> set (cap_allowedPolicyIds cap) then fail AF_policy_not_allowed
      else (case decryptBlob (cd_encryptedBlob cand) of
              None \<Rightarrow> fail AF_blob_decrypt_failed
            | Some secret \<Rightarrow> Some (Inr \<lparr> ac_credentialId = cd_credentialId cand, ac_contributorId = cap_contributorId cap,
                 ac_provider = cd_provider cand, ac_secret = secret, ac_capability = cap \<rparr>))))"

section \<open>Exactness of the checks\<close>

lemma authorizeCandidate_ok:
  "authorizeCandidate rt cand a pk dec = Some (Inr c) \<longleftrightarrow>
     cd_status cand = lit ''ACTIVE''
     \<and> verifyCanonical rt (capability_json (cd_capability cand)) (cd_capabilitySignature cand) pk = Some True
     \<and> cap_credentialId (cd_capability cand) = cd_credentialId cand
     \<and> cap_contributorId (cd_capability cand) = cd_contributorId cand
     \<and> cap_blobDigest (cd_capability cand) = lit ''0x'' @ sha256Hex rt (utf8 (cd_encryptedBlob cand))
     \<and> cap_provider (cd_capability cand) = cd_provider cand
     \<and> req_model (aq_request a) \<in> set (cap_allowedModels (cd_capability cand))
     \<and> aq_policyId a \<in> set (cap_allowedPolicyIds (cd_capability cand))
     \<and> (\<exists>s. dec (cd_encryptedBlob cand) = Some s
           \<and> c = \<lparr> ac_credentialId = cd_credentialId cand, ac_contributorId = cd_contributorId cand,
                   ac_provider = cd_provider cand, ac_secret = s, ac_capability = cd_capability cand \<rparr>)"
  unfolding authorizeCandidate_def Let_def
  by (cases "dec (cd_encryptedBlob cand)";
      cases "verifyCanonical rt (capability_json (cd_capability cand)) (cd_capabilitySignature cand) pk")
     (auto split: if_splits)

lemma fromGuestJournal_Guarded:
  "fromGuestJournal rt request nonce j ms = Guarded (d, c) \<Longrightarrow>
     commitment_of rt request nonce = Some c \<and> jr_requestCommitment j = c
     \<and> (jr_decision j = DENY \<longrightarrow> d = GateDeny)
     \<and> (jr_decision j = ALLOW \<longrightarrow> d = GateAllow \<lparr> aq_request = request, aq_requestCommitment = c, aq_requestNonce = nonce,
                          aq_policyId = jr_policyId j, aq_policyMs = ms \<rparr>)"
  by (cases "jr_decision j") (auto simp: fromGuestJournal_def assertGuestCommitment_def split: option.splits if_splits)

section \<open>A blob is known by its digest\<close>

definition js_string :: "jstr \<Rightarrow> bool" where
  "js_string s \<longleftrightarrow> list_all (\<lambda>u. u < 65536) s"

lemma utf8_point_ascii:
  assumes "\<forall>b \<in> set (utf8_point c). unat b < 128" "c < 1114112"
  shows "c < 128 \<and> utf8_point c = [of_nat c]"
proof (cases "c < 128")
  case True
  then show ?thesis by (simp add: utf8_point_def high_surrogate_def low_surrogate_def)
next
  case False
  have "\<exists>n. n < 256 \<and> 128 \<le> n \<and> (of_nat n :: byte) \<in> set (utf8_point c)"
  proof (cases "high_surrogate c \<or> low_surrogate c")
    case True
    then show ?thesis by (auto simp: utf8_point_def intro: exI [of _ 239])
  next
    case F: False
    consider "c < 2048" | "2048 \<le> c" "c < 65536" | "65536 \<le> c" by linarith
    then show ?thesis
    proof cases
      case 1
      then show ?thesis using F False by (intro exI [of _ "192 + c div 64"]) (simp add: utf8_point_def del: of_nat_add)
    next
      case 2
      then show ?thesis using F False by (intro exI [of _ "224 + c div 4096"]) (simp add: utf8_point_def del: of_nat_add)
    next
      case 3
      then show ?thesis using F False assms(2) by (intro exI [of _ "240 + c div 262144"]) (simp add: utf8_point_def del: of_nat_add)
    qed
  qed
  then obtain n where n: "n < 256" "128 \<le> n" "(of_nat n :: byte) \<in> set (utf8_point c)" by blast
  then have "unat (of_nat n :: byte) = n" by (intro unat_byte)
  with n assms(1) show ?thesis by fastforce
qed

lemma code_points_bound: "js_string t \<Longrightarrow> c \<in> set (code_points t) \<Longrightarrow> c < 1114112"
  by (induction t rule: code_points.induct)
     (auto simp: js_string_def high_surrogate_def low_surrogate_def split: if_splits)

lemma small_points: "\<forall>c \<in> set (code_points t). c < 128 \<Longrightarrow> code_points t = t"
  by (induction t rule: code_points.induct) (auto split: if_splits)

lemma byte_of_nat_inj: "inj_on (of_nat :: nat \<Rightarrow> byte) {..<128}"
proof (rule inj_onI)
  fix m n :: nat assume *: "m \<in> {..<128}" "n \<in> {..<128}" "(of_nat m :: byte) = of_nat n"
  have "unat (of_nat m :: byte) = m" "unat (of_nat n :: byte) = n" by (rule unat_byte, use * in simp)+
  with *(3) show "m = n" by metis
qed

lemma utf8_ascii_inject:
  assumes "\<forall>c \<in> set s. c < 128" "js_string t" "utf8 t = utf8 s"
  shows "t = s"
proof -
  have bytes: "\<forall>b \<in> set (utf8 t). unat b < 128"
    unfolding assms(3) utf8_ascii [OF assms(1)] using assms(1) unat_byte by auto
  have pts: "\<forall>c \<in> set (code_points t). c < 128"
  proof
    fix c assume c: "c \<in> set (code_points t)"
    then have "\<forall>b \<in> set (utf8_point c). unat b < 128" using bytes by (auto simp: utf8_def)
    then show "c < 128" using utf8_point_ascii code_points_bound [OF assms(2) c] by blast
  qed
  then have t: "\<forall>c \<in> set t. c < 128" using small_points [OF pts] by simp
  have "map (of_nat :: nat \<Rightarrow> byte) t = map of_nat s" using assms(3) utf8_ascii [OF t] utf8_ascii [OF assms(1)] by simp
  then show ?thesis
  proof (rule map_inj_on)
    show "inj_on (of_nat :: nat \<Rightarrow> byte) (set t \<union> set s)"
      by (rule inj_on_subset [OF byte_of_nat_inj]) (use t assms(1) in auto)
  qed
qed

section \<open>Consent\<close>

lemma b64_char_ascii: "n < 64 \<Longrightarrow> b64_char n < 128"
  by (auto simp: b64_char_def)

lemma toB64_ascii: "\<forall>c \<in> set (toB64 bs). c < 128"
  by (induction bs rule: toB64.induct) (simp_all add: b64_char_ascii byte_split_bounds)

lemma vault_blob_ascii: "\<forall>c \<in> set (vaultEncrypt lib key iv s). c < 128"
  by (cases "gcm_encrypt lib key iv (utf8 s)") (simp add: vaultEncrypt_def toB64_ascii)

lemma digest_inject: "lit ''0x'' @ sha256Hex rt x = lit ''0x'' @ sha256Hex rt y \<longleftrightarrow> sha256 rt x = sha256 rt y"
  by (simp add: sha256Hex_def hexc.enc_inject)

lemma ingest_blob:
  assumes "ingest rt lib tee key dm iv now during body s = (Accepted r, s')"
  shows "\<forall>c \<in> set (ing_encryptedBlob r). c < 128"
proof -
  obtain tk where tk: "ingest_begin rt lib tee key iv body s = Inr tk"
    "ingest_finish rt lib tee dm now tk (during s) = (Accepted r, s')" using assms by (rule ingest_AcceptedE)
  from ingest_begin_Inr [OF tk(1)] have "tk_encryptedBlob tk = vaultEncrypt lib key iv (int_secret (tk_intent tk))" by metis
  with ingest_finish_Accepted [OF tk(2)] show ?thesis by (simp add: vault_blob_ascii)
qed

section \<open>What the enclave signs\<close>

text \<open>The signing key signs six kinds of value, one per signing site of the enclave: the capability of an
  ingestion, decision receipts, compute receipts, proof bindings, insight bulletins and attestation documents.
  A \<open>signing\<close> is one signature made; a list of them is the history of the key.\<close>

datatype signing =
    Signed_capability Ingested
  | Signed_decision PolicyDecisionReceiptV1
  | Signed_receipt ComputeReceipt
  | Signed_binding ProofBindingV2
  | Signed_bulletin UnsignedInsightsBulletinV1
  | Signed_document SimulatedAttestationDocument "jstr option"

fun signing_json :: "signing \<Rightarrow> json" where
  "signing_json (Signed_capability r) = capability_json (ing_capability r)"
| "signing_json (Signed_decision d) = decision_receipt_json d"
| "signing_json (Signed_receipt r) = compute_receipt_json r"
| "signing_json (Signed_binding b) = binding_json b"
| "signing_json (Signed_bulletin b) = bulletin_json b"
| "signing_json (Signed_document d nonce) = unsigned_document_json d nonce"

text \<open>Every capability of the history is that of an accepted ingestion; nothing is asked of the other kinds.\<close>

definition minted_by :: "runtime \<Rightarrow> crypto_lib \<Rightarrow> SimulatedTEE \<Rightarrow> byte list \<Rightarrow> signing list \<Rightarrow> bool" where
  "minted_by rt lib tee key history \<longleftrightarrow> (\<forall>r. Signed_capability r \<in> set history \<longrightarrow>
     (\<exists>dm iv now during body (s :: ingest_state) s'.
        length iv = 12 \<and> ingest rt lib tee key dm iv now during body s = (Accepted r, s')))"

text \<open>Ed25519: when the library accepts the presented signature on a digest under the enclave's public key, the
  enclave's key has signed that digest.\<close>

definition unforged :: "runtime \<Rightarrow> SimulatedTEE \<Rightarrow> byte list \<Rightarrow> byte list \<Rightarrow> signing list \<Rightarrow> bool" where
  "unforged rt tee sg m history \<longleftrightarrow>
     (ed_verify rt sg m (ed_public rt (tee_signingPrivateKey tee)) = Some True \<longrightarrow>
        (\<exists>x \<in> set history. \<exists>t. canonicalJson rt (signing_json x) = Some t \<and> m = sha256 rt (utf8 t)))"

text \<open>SHA-256: no value of the history collides with the presented capability, no minted blob with the presented one.\<close>

definition collision_free :: "runtime \<Rightarrow> byte list \<Rightarrow> signing list \<Rightarrow> bool" where
  "collision_free rt bytes history \<longleftrightarrow> (\<forall>x \<in> set history. \<forall>t. canonicalJson rt (signing_json x) = Some t \<longrightarrow>
     sha256 rt (utf8 t) = sha256 rt bytes \<longrightarrow> utf8 t = bytes)"

definition no_blob_collision :: "runtime \<Rightarrow> jstr \<Rightarrow> signing list \<Rightarrow> bool" where
  "no_blob_collision rt blob history \<longleftrightarrow> (\<forall>r. Signed_capability r \<in> set history \<longrightarrow>
     sha256 rt (utf8 blob) = sha256 rt (utf8 (ing_encryptedBlob r)) \<longrightarrow> utf8 blob = utf8 (ing_encryptedBlob r))"

text \<open>Both, for a presented signature and the canonical text it is presented for.\<close>

definition genuine :: "runtime \<Rightarrow> SimulatedTEE \<Rightarrow> jstr \<Rightarrow> json \<Rightarrow> signing list \<Rightarrow> bool" where
  "genuine rt tee sig v history \<longleftrightarrow> (\<forall>sg t. fromHex sig = Some sg \<longrightarrow> canonicalJson rt v = Some t \<longrightarrow>
     unforged rt tee sg (sha256 rt (utf8 t)) history \<and> collision_free rt (utf8 t) history)"

text \<open>A value of the language: distinct member names, strings of 16-bit units.\<close>

definition js_value :: "runtime \<Rightarrow> json \<Rightarrow> bool" where
  "js_value rt v \<longleftrightarrow> json_wf v \<and> json_units rt v"

text \<open>Normalization leaves ASCII alone.\<close>

definition ascii_normal :: "runtime \<Rightarrow> bool" where
  "ascii_normal rt \<longleftrightarrow> (\<forall>s. list_all (\<lambda>c. c < 128) s \<longrightarrow> nfc rt s = s)"

fun member_names :: "json \<Rightarrow> jstr set" where
  "member_names (JObj kvs) = {k. \<exists>v. (k, v) \<in> set kvs \<and> v \<noteq> JUndef}"
| "member_names _ = {}"

lemma canon_form_undef [simp]: "canon_form rt v = JUndef \<longleftrightarrow> v = JUndef"
  by (cases v) auto

lemma member_names_canon [simp]: "member_names (canon_form rt v) = member_names v"
  by (cases v) force+

text \<open>Only a capability has a member \<open>blobDigest\<close>, so no other signed value can pass for one.\<close>

lemma only_capabilities_name_blobs:
  assumes "canon_form rt (signing_json x) = canon_form rt (capability_json c)"
  obtains r where "x = Signed_capability r"
proof -
  have "member_names (signing_json x) = member_names (capability_json c)" using assms by (metis member_names_canon)
  then have "lit ''blobDigest'' \<in> member_names (signing_json x)" by (auto simp: capability_json_def)
  then show thesis
    by (cases x) (auto simp: decision_receipt_json_def compute_receipt_json_def binding_json_def bulletin_json_def
        unsigned_document_json_def lit_inject intro: that)
qed

lemma canon_form_capability:
  "canon_form rt (capability_json c) = JObj [(lit ''allowedModels'', JArr (map (\<lambda>m. JStr (nfc rt m)) (cap_allowedModels c))),
     (lit ''allowedPolicyIds'', JArr (map (\<lambda>p. JStr (nfc rt p)) (cap_allowedPolicyIds c))), (lit ''blobDigest'', JStr (nfc rt (cap_blobDigest c))),
     (lit ''contributorId'', JStr (nfc rt (cap_contributorId c))), (lit ''createdAt'', JInt (cap_createdAt c)),
     (lit ''credentialId'', JStr (nfc rt (cap_credentialId c))), (lit ''intentDigest'', JStr (nfc rt (cap_intentDigest c))),
     (lit ''provider'', JStr (nfc rt (cap_provider c))), (lit ''version'', JInt (cap_version c))]"
  by (simp add: capability_json_def strs_json_def lit_def)

lemma verifyCanonical_True:
  assumes "verifyCanonical rt v sig (toHex pk) = Some True"
  obtains t sg where "canonicalJson rt v = Some t" "fromHex sig = Some sg" "ed_verify rt sg (sha256 rt (utf8 t)) pk = Some True"
proof -
  obtain t where t: "canonicalJson rt v = Some t"
    using assms by (auto simp: verifyCanonical_def canonicalHash_def simp del: canonicalJson.simps)
  with assms have "verifyDigestHex rt (toHex (sha256 rt (utf8 t))) sig (toHex pk)"
    by (simp add: verifyCanonical_def canonicalHash_def sha256Hex_def del: canonicalJson.simps)
  then show thesis using t that by (auto simp: verifyDigestHex_def hexc.dec_enc split: option.splits)
qed

text \<open>A capability whose signature the enclave accepts is one it minted, up to the normalization its canonical
  text applies to every string.\<close>

lemma verified_is_minted:
  assumes "verifyCanonical rt (capability_json p) sig (tee_signingPublicKey tee) = Some True" "signer rt tee"
    and "genuine rt tee sig (capability_json p) history"
    and "ints_exact rt" "\<forall>v \<in> insert (capability_json p) (signing_json ` set history). js_value rt v"
  obtains r where "Signed_capability r \<in> set history"
    "canon_form rt (capability_json (ing_capability r)) = canon_form rt (capability_json p)"
proof -
  obtain t sg where t: "canonicalJson rt (capability_json p) = Some t" "fromHex sig = Some sg"
    "ed_verify rt sg (sha256 rt (utf8 t)) (ed_public rt (tee_signingPrivateKey tee)) = Some True"
    using assms(1,2) verifyCanonical_True unfolding signer_def by metis
  then have g: "unforged rt tee sg (sha256 rt (utf8 t)) history" "collision_free rt (utf8 t) history"
    using assms(3) unfolding genuine_def by blast+
  with t(3) obtain x u where x: "x \<in> set history" "canonicalJson rt (signing_json x) = Some u" "sha256 rt (utf8 u) = sha256 rt (utf8 t)"
    unfolding unforged_def by metis
  then have "utf8 u = utf8 t" using g(2) unfolding collision_free_def by blast
  then have "canon_form rt (signing_json x) = canon_form rt (capability_json p)"
    using canonical_bytes_back [OF assms(4) _ _ t(1)] canonical_bytes_back [OF assms(4) _ _ x(2)] assms(5) x(1)
    by (simp add: js_value_def)
  with x(1) show thesis by (metis only_capabilities_name_blobs signing_json.simps(1) that)
qed

lemma catalog_ascii:
  assumes "map_of MODEL_CATALOG p = Some models"
  shows "list_all (\<lambda>c. c < 128) p" "\<forall>m \<in> set models. list_all (\<lambda>c. c < 128) m"
  using map_of_SomeD [OF assms] by (auto simp: MODEL_CATALOG_def lit_def)

lemma credential_id_ascii: "credential_id_ok s \<Longrightarrow> list_all (\<lambda>c. c < 128) s"
  by (auto simp: credential_id_ok_def starts_with_iff lit_def list_all_iff lower_hex_def) force

lemma toHex_ascii: "list_all (\<lambda>c. c < 128) (toHex bs)"
proof -
  have "digit n < 128" if "n < 16" for n using that by (simp add: digit_def)
  moreover have "unat b div 16 < 16" for b :: byte using byte_lt [of b] by (simp add: less_mult_imp_div_less)
  ultimately show ?thesis by (auto simp: toHex_def list_all_iff)
qed

lemma digest_ascii: "list_all (\<lambda>c. c < 128) (lit ''0x'' @ sha256Hex rt x)" "list_all (\<lambda>c. c < 128) (domain_digest rt d x)"
  using toHex_ascii by (simp_all add: sha256Hex_def domain_digest_def) (simp_all add: lit_def)

text \<open>C7. No candidate list can spend a key against its contributor's consent. Whatever the coordinator presents, if
  the enclave authorizes a candidate then it has accepted an ingestion whose sealed intent names this credential, this
  provider, this contributor and the model of this request, whose capability is for the policy this request was judged
  under, and the released key is the one sealed in that same intent. The signature covers canonical text, in which
  every string is normalized, so the presented strings agree with the sealed ones after NFC normalization. The
  hypotheses are about the primitives: the presented Ed25519 signature is not a forgery (the enclave's key has signed
  the presented digest, as one of the six kinds of value it signs), SHA-256 does not collide on the values at hand,
  AES-GCM decrypts what it encrypted, normalization leaves ASCII alone.\<close>

theorem authorization_implies_consent:
  assumes "authorizeCandidate rt cand a (tee_signingPublicKey tee) (vaultDecrypt lib key) = Some (Inr c)"
    and "minted_by rt lib tee key history"
    and "genuine rt tee (cd_capabilitySignature cand) (capability_json (cd_capability cand)) history"
    and "no_blob_collision rt (cd_encryptedBlob cand) history"
    and "ints_exact rt" "ascii_normal rt"
    and "\<forall>v \<in> insert (capability_json (cd_capability cand)) (signing_json ` set history). js_value rt v"
    and "signer rt tee" "gcm_lawful lib" "js_string (cd_encryptedBlob cand)"
  shows "\<exists>r dm iv now during body s s' opened i.
      Signed_capability r \<in> set history \<and> ingest rt lib tee key dm iv now during body (s :: ingest_state) = (Accepted r, s')
    \<and> openIngress lib tee (ib_enc body) (ib_encryptedSecret body) None = Some opened \<and> parseIntent rt opened MODEL_CATALOG = Inr i
    \<and> nfc rt (ac_credentialId c) = int_credentialId i \<and> nfc rt (ac_provider c) = int_provider i
    \<and> nfc rt (ac_contributorId c) = nfc rt (int_contributorId i)
    \<and> nfc rt (req_model (aq_request a)) \<in> set (int_allowedModels i) \<and> isPriced (nfc rt (req_model (aq_request a)))
    \<and> nfc rt (aq_policyId a) = nfc rt (ing_policyId r)
    \<and> (wf16 (int_secret i) \<longrightarrow> ac_secret c = int_secret i)"
proof -
  let ?p = "cd_capability cand"
  note ok = iffD1 [OF authorizeCandidate_ok assms(1)]
  obtain r where r: "Signed_capability r \<in> set history" "canon_form rt (capability_json (ing_capability r)) = canon_form rt (capability_json ?p)"
    using verified_is_minted [OF _ assms(8,3,5,7)] ok by blast
  note same = r(2) [unfolded canon_form_capability]
  from r(1) assms(2) obtain dm iv now during body s s' where iv: "length iv = 12"
    and ing: "ingest rt lib tee key dm iv now during body (s :: ingest_state) = (Accepted r, s')"
    unfolding minted_by_def by meson
  from ingest_accepted [OF ing assms(8,9) iv] obtain opened i models where i:
      "openIngress lib tee (ib_enc body) (ib_encryptedSecret body) None = Some opened" "parseIntent rt opened MODEL_CATALOG = Inr i"
      "cap_credentialId (ing_capability r) = int_credentialId i" "cap_provider (ing_capability r) = int_provider i"
      "cap_contributorId (ing_capability r) = int_contributorId i" "mset (cap_allowedModels (ing_capability r)) = mset (int_allowedModels i)"
      "map_of MODEL_CATALOG (int_provider i) = Some models" "set (int_allowedModels i) \<subseteq> set models"
      "\<forall>m \<in> set (cap_allowedModels (ing_capability r)). isPriced m" "cap_allowedPolicyIds (ing_capability r) = [ing_policyId r]"
      "cap_blobDigest (ing_capability r) = lit ''0x'' @ sha256Hex rt (utf8 (ing_encryptedBlob r))"
      "wf16 (int_secret i) \<longrightarrow> vaultDecrypt lib key (ing_encryptedBlob r) = Some (int_secret i)"
    by (elim exE conjE) (rule that, assumption+)
  have plain: "nfc rt x = x" if "list_all (\<lambda>c. c < 128) x" for x using assms(6) that by (simp add: ascii_normal_def)
  have ids: "nfc rt (ac_credentialId c) = int_credentialId i" "nfc rt (ac_provider c) = int_provider i"
      "nfc rt (ac_contributorId c) = nfc rt (int_contributorId i)"
    using ok same i(3-5) plain credential_id_ascii parseIntent_wf [OF i(2)] catalog_ascii(1) [OF i(7)] by (auto simp: intent_wf_def)
  have models: "set (int_allowedModels i) = set (cap_allowedModels (ing_capability r))" using i(6) by (metis set_mset_mset)
  have "map JStr (map (nfc rt) (cap_allowedModels ?p)) = map JStr (map (nfc rt) (cap_allowedModels (ing_capability r)))"
    using same by (simp add: comp_def)
  then have "map (nfc rt) (cap_allowedModels ?p) = map (nfc rt) (cap_allowedModels (ing_capability r))"
    by (rule map_injective) (simp add: inj_def)
  then have "nfc rt ` set (cap_allowedModels ?p) = nfc rt ` set (cap_allowedModels (ing_capability r))" by (metis set_map)
  moreover have "nfc rt ` set (cap_allowedModels (ing_capability r)) = set (cap_allowedModels (ing_capability r))"
    using catalog_ascii(2) [OF i(7)] i(8) models plain by force
  ultimately have m: "nfc rt (req_model (aq_request a)) \<in> set (cap_allowedModels (ing_capability r))" using ok by blast
  have pol: "nfc rt (aq_policyId a) = nfc rt (ing_policyId r)" using ok same i(10) by auto
  have "lit ''0x'' @ sha256Hex rt (utf8 (cd_encryptedBlob cand)) = lit ''0x'' @ sha256Hex rt (utf8 (ing_encryptedBlob r))"
    using ok same i(11) plain [OF digest_ascii(1)] by auto
  then have "sha256 rt (utf8 (cd_encryptedBlob cand)) = sha256 rt (utf8 (ing_encryptedBlob r))" by (simp only: digest_inject)
  then have "utf8 (cd_encryptedBlob cand) = utf8 (ing_encryptedBlob r)"
    using assms(4) r(1) by (simp add: no_blob_collision_def)
  then have "cd_encryptedBlob cand = ing_encryptedBlob r"
    using utf8_ascii_inject [OF ingest_blob [OF ing] assms(10)] by blast
  then have "wf16 (int_secret i) \<longrightarrow> ac_secret c = int_secret i" using ok i(12) by auto
  with ids m models pol i(9) show ?thesis
    by (intro exI [of _ r] exI [of _ dm] exI [of _ iv] exI [of _ now] exI [of _ during] exI [of _ body] exI [of _ s] exI [of _ s']
        exI [of _ opened] exI [of _ i] conjI r(1) ing i(1,2)) auto
qed

definition sample_authorized :: AuthorizedRequest where
  "sample_authorized = \<lparr> aq_request = sample_request\<lparr> req_model := lit ''ctn/demo-model-a'' \<rparr>, aq_requestCommitment = lit ''0x1'',
     aq_requestNonce = sample_nonce, aq_policyId = lit ''p2'', aq_policyMs = 1 \<rparr>"

definition candidate_of :: "Ingested \<Rightarrow> Candidate" where
  "candidate_of r = \<lparr> cd_credentialId = cap_credentialId (ing_capability r), cd_contributorId = cap_contributorId (ing_capability r),
     cd_provider = cap_provider (ing_capability r), cd_status = lit ''ACTIVE'', cd_encryptedBlob = ing_encryptedBlob r,
     cd_capability = ing_capability r, cd_capabilitySignature = ing_capabilitySignature r \<rparr>"

lemma ingest_capability_digest:
  assumes "ingest rt lib tee key dm iv now during body s = (Accepted r, s')"
  shows "\<exists>opened i. openIngress lib tee (ib_enc body) (ib_encryptedSecret body) None = Some opened
    \<and> parseIntent rt opened MODEL_CATALOG = Inr i \<and> intentDigest rt i = Some (cap_intentDigest (ing_capability r))"
proof -
  obtain tk where tk: "ingest_begin rt lib tee key iv body s = Inr tk"
    "ingest_finish rt lib tee dm now tk (during s) = (Accepted r, s')" using assms by (rule ingest_AcceptedE)
  from ingest_begin_Inr [OF tk(1)] ingest_finish_Accepted [OF tk(2)] deriveCapability_fields [of rt "tk_intent tk"]
  show ?thesis by metis
qed

lemma sample_minted:
  obtains r where "minted_by sample_runtime sample_lib sample_tee [5] [Signed_capability r]" "js_string (ing_encryptedBlob r)"
    "js_value sample_runtime (capability_json (ing_capability r))"
    "authorizeCandidate sample_runtime (candidate_of r) sample_authorized (tee_signingPublicKey sample_tee) (vaultDecrypt sample_lib [5])
       = Some (Inr \<lparr> ac_credentialId = lit ''cred_0123456789ab'', ac_contributorId = lit ''alice'', ac_provider = lit ''mock'',
           ac_secret = lit ''sk-0123456'', ac_capability = ing_capability r \<rparr>)"
proof -
  obtain r s' where a: "ingest sample_runtime sample_lib sample_tee [5] down_daemon (replicate 12 0) 7 (\<lambda>s. s) sample_ingest_body sample_ingest_state = (Accepted r, s')"
    using sample_ingest_accepted by blast
  from ingest_accepted [OF a sample_signer sample_lib_lawful] obtain opened i where
    i: "openIngress sample_lib sample_tee (ib_enc sample_ingest_body) (ib_encryptedSecret sample_ingest_body) None = Some opened"
      "parseIntent sample_runtime opened MODEL_CATALOG = Inr i" "cap_credentialId (ing_capability r) = int_credentialId i"
      "cap_provider (ing_capability r) = int_provider i" "cap_contributorId (ing_capability r) = int_contributorId i"
      "mset (cap_allowedModels (ing_capability r)) = mset (int_allowedModels i)"
      "cap_allowedPolicyIds (ing_capability r) = [ing_policyId r]" "known_policy down_daemon sample_ingest_state (ing_policyId r)"
      "cap_blobDigest (ing_capability r) = lit ''0x'' @ sha256Hex sample_runtime (utf8 (ing_encryptedBlob r))"
      "wf16 (int_secret i) \<longrightarrow> vaultDecrypt sample_lib [5] (ing_encryptedBlob r) = Some (int_secret i)"
      "verifyCanonical sample_runtime (capability_json (ing_capability r)) (ing_capabilitySignature r) (tee_signingPublicKey sample_tee) = Some True"
    by auto
  have i': "i = sample_intent" using i(1,2) sample_opens sample_sealed_parses by simp
  have p: "ing_policyId r = lit ''p2''" using i(8) by (simp add: known_policy_def getGuestHealth_def sample_ingest_state_def sample_health_def)
  have m: "cap_allowedModels (ing_capability r) = [lit ''ctn/demo-model-a'']" using i(6) by (simp add: i' sample_intent_def)
  have d: "intentDigest sample_runtime i = Some (cap_intentDigest (ing_capability r))"
    using ingest_capability_digest [OF a] i(1,2) by auto
  have ascii: "list_all (\<lambda>c. c < 128) (cap_blobDigest (ing_capability r))" "list_all (\<lambda>c. c < 128) (cap_intentDigest (ing_capability r))"
    using digest_ascii(1) [of sample_runtime] apply (simp only: i(9))
    using d digest_ascii(2) by (auto simp: intentDigest_def simp del: canonicalJson.simps dest: sym)
  have "js_value sample_runtime (capability_json (ing_capability r))"
  proof -
    have u: "\<forall>c \<in> set x. c < 65536" if "list_all (\<lambda>c. c < 128) x" for x :: jstr using that by (auto simp: list_all_iff)
    have l: "\<forall>c \<in> set (lit x). c < 65536" for x by (auto simp: lit_def intro: less_trans [OF nat_of_char_less_256])
    show ?thesis using u [OF ascii(1)] u [OF ascii(2)] l
      by (simp add: js_value_def capability_json_def strs_json_def m p i(3-5,7) i' sample_intent_def)
  qed
  moreover have "minted_by sample_runtime sample_lib sample_tee [5] [Signed_capability r]" using a by (auto simp: minted_by_def) (metis length_replicate)
  moreover have "js_string (ing_encryptedBlob r)" using ingest_blob [OF a] by (auto simp: js_string_def list_all_iff)
  moreover have "authorizeCandidate sample_runtime (candidate_of r) sample_authorized (tee_signingPublicKey sample_tee) (vaultDecrypt sample_lib [5])
       = Some (Inr \<lparr> ac_credentialId = lit ''cred_0123456789ab'', ac_contributorId = lit ''alice'', ac_provider = lit ''mock'',
           ac_secret = lit ''sk-0123456'', ac_capability = ing_capability r \<rparr>)"
    unfolding authorizeCandidate_ok using i p m
    by (simp add: candidate_of_def sample_authorized_def i' sample_intent_def wf16_lit)
  ultimately show thesis using that by blast
qed

theorem authorization_implies_consent_witness:
  "\<exists>r c (body :: IngestBody) opened i. authorizeCandidate sample_runtime (candidate_of r) sample_authorized (tee_signingPublicKey sample_tee)
        (vaultDecrypt sample_lib [5]) = Some (Inr c)
     \<and> openIngress sample_lib sample_tee (ib_enc body) (ib_encryptedSecret body) None = Some opened
     \<and> parseIntent sample_runtime opened MODEL_CATALOG = Inr i
     \<and> int_contributorId i = lit ''alice'' \<and> lit ''ctn/demo-model-a'' \<in> set (int_allowedModels i)"
proof -
  obtain r where r: "minted_by sample_runtime sample_lib sample_tee [5] [Signed_capability r]" "js_string (ing_encryptedBlob r)"
    "js_value sample_runtime (capability_json (ing_capability r))"
    "authorizeCandidate sample_runtime (candidate_of r) sample_authorized (tee_signingPublicKey sample_tee) (vaultDecrypt sample_lib [5])
       = Some (Inr \<lparr> ac_credentialId = lit ''cred_0123456789ab'', ac_contributorId = lit ''alice'', ac_provider = lit ''mock'',
           ac_secret = lit ''sk-0123456'', ac_capability = ing_capability r \<rparr>)" using sample_minted by blast
  have u: "genuine sample_runtime sample_tee (cd_capabilitySignature (candidate_of r)) (capability_json (cd_capability (candidate_of r)))
      [Signed_capability r]"
    by (simp add: genuine_def unforged_def collision_free_def candidate_of_def del: canonicalJson.simps)
  have p: "ints_exact sample_runtime" "ascii_normal sample_runtime" "no_blob_collision sample_runtime (cd_encryptedBlob (candidate_of r)) [Signed_capability r]"
    by (simp_all add: ints_exact_def ascii_normal_def no_blob_collision_def candidate_of_def)
  have js: "\<forall>v \<in> insert (capability_json (cd_capability (candidate_of r))) (signing_json ` set [Signed_capability r]). js_value sample_runtime v"
    "js_string (cd_encryptedBlob (candidate_of r))" using r(2,3) by (simp_all add: candidate_of_def)
  note consent = authorization_implies_consent [OF r(4,1) u p(3,1,2) js(1) sample_signer sample_lib_lawful js(2)]
  from consent obtain body :: IngestBody and opened i where o: "openIngress sample_lib sample_tee (ib_enc body) (ib_encryptedSecret body) None = Some opened"
    "parseIntent sample_runtime opened MODEL_CATALOG = Inr i"
    "nfc sample_runtime (lit ''alice'') = nfc sample_runtime (int_contributorId i)"
    "nfc sample_runtime (req_model (aq_request sample_authorized)) \<in> set (int_allowedModels i)"
    unfolding AuthorizedCredential.select_convs by blast
  have "int_contributorId i = lit ''alice''" "lit ''ctn/demo-model-a'' \<in> set (int_allowedModels i)"
    using o(3,4) by (simp_all add: sample_authorized_def)
  with r(4) o(1,2) show ?thesis by blast
qed

end
