(* ===== verification/Prover.thy ===== *)
theory Prover
  imports Authorize
begin

text \<open>
  Proof generation and verification inside the enclave: the five-state machine of
  \<^verbatim>\<open>services/tee-sim/src/prover.ts\<close>, the wrapper around the reference verifier
  (\<^verbatim>\<open>services/tee-sim/src/proof-verify.ts\<close>) and the handler \<^verbatim>\<open>GET /proofs/:requestId\<close>. The daemon's answers,
  the clock readings and the verifier process are parameters of a run. One run is a function from these to the
  states it writes; the prover is a step relation in which the writes of any number of runs interleave.
\<close>

section \<open>The reference verifier\<close>

record SubprocessCheck =
  sc_name :: jstr
  sc_pass :: bool
  sc_detail :: "jstr option"

record SubprocessVerification =
  sv_ok :: bool
  sv_exitCode :: int
  sv_checks :: "SubprocessCheck list"
  sv_firstFailure :: "jstr option"

record ProofExpectations =
  px_commitment :: jstr
  px_decision :: PolicyDecision
  px_proofNonce :: jstr

text \<open>\<open>None\<close> and the empty string are both falsy for \<open>!firstFailure\<close>.\<close>

definition note_failure :: "jstr option \<Rightarrow> jstr \<Rightarrow> jstr option" where
  "note_failure ff name = (case ff of Some (c # s) \<Rightarrow> Some (c # s) | _ \<Rightarrow> Some name)"

definition non_empty :: "jstr \<Rightarrow> jstr option" where
  "non_empty s = (if s = [] then None else Some s)"

definition report_line :: "jstr \<Rightarrow> SubprocessCheck list \<times> jstr option \<Rightarrow> SubprocessCheck list \<times> jstr option" where
  "report_line line acc =
     (if \<not> starts_with [91] line then acc
      else let marker = take 6 line; rest = trim (drop 6 line);
               name = takeWhile (\<lambda>c. c \<noteq> 32) rest;
               detail = (if 32 \<in> set rest then non_empty (trim (dropWhile (\<lambda>c. c \<noteq> 32) rest)) else None)
           in if marker = lit ''[ ok ]'' then (fst acc @ [\<lparr> sc_name = name, sc_pass = True, sc_detail = detail \<rparr>], snd acc)
              else if marker = lit ''[FAIL]'' then
                (fst acc @ [\<lparr> sc_name = name, sc_pass = False, sc_detail = detail \<rparr>], note_failure (snd acc) name)
              else if marker = lit ''[ -- ]'' then
                (fst acc @ [\<lparr> sc_name = name, sc_pass = False,
                   sc_detail = (case detail of None \<Rightarrow> Some (lit ''skipped'') | Some d \<Rightarrow> Some d) \<rparr>], snd acc)
              else acc)"

definition parseReport :: "jstr \<Rightarrow> SubprocessCheck list \<times> jstr option" where
  "parseReport stdout = fold report_line (split_on 10 stdout) ([], None)"

text \<open>What happens to the verifier process: preparing or spawning it throws, it exits cleanly, or \<open>execFile\<close> reports an
  error, with a numeric exit code or without one (a signal, a timeout).\<close>

datatype verifier_run = Setup_threw jstr | Exited_clean jstr | Exec_error "int option" jstr

fun runReferenceVerify :: "verifier_run \<Rightarrow> SubprocessVerification" where
  "runReferenceVerify (Setup_threw message) =
     \<lparr> sv_ok = False, sv_exitCode = -1,
       sv_checks = [\<lparr> sc_name = lit ''subprocess'', sc_pass = False, sc_detail = Some message \<rparr>],
       sv_firstFailure = Some (lit ''subprocess'') \<rparr>"
| "runReferenceVerify (Exited_clean stdout) =
     \<lparr> sv_ok = True, sv_exitCode = 0, sv_checks = fst (parseReport stdout), sv_firstFailure = snd (parseReport stdout) \<rparr>"
| "runReferenceVerify (Exec_error code stdout) =
     (let c = (case code of Some n \<Rightarrow> n | None \<Rightarrow> 1)
      in \<lparr> sv_ok = (c = 0), sv_exitCode = c, sv_checks = fst (parseReport stdout), sv_firstFailure = snd (parseReport stdout) \<rparr>)"

section \<open>The proof record\<close>

record ProofWitness =
  pw_canonicalRequest :: jstr
  pw_requestNonce :: jstr
  pw_requestCommitment :: jstr
  pw_decision :: PolicyDecision
  pw_decisionReceipt :: PolicyDecisionReceiptV1

datatype ProofState =
    PS_QUEUED int
  | PS_PROVING int
  | PS_GENERATED ProofArtifactV1 jstr int
  | PS_VERIFIED ProofArtifactV1 jstr jstr SignedProofBindingV2 SubprocessVerification int
  | PS_FAILED jstr int

record ProofRecord =
  prec_state :: ProofState
  prec_proofNonce :: jstr

record ReleaseManifest =
  rm_imageIdHex :: jstr
  rm_policyId :: jstr
  rm_journalVersion :: int
  rm_risc0Version :: jstr

definition DEFAULT_CEILING_MS :: int where
  "DEFAULT_CEILING_MS = 15 * 60 * 1000"

section \<open>One run\<close>

text \<open>A poll: the clock reading at the top of the loop, the daemon's answer, and the reading if the iteration fails.\<close>

record poll =
  pl_now :: int
  pl_answer :: "JobStatus daemon_answer"
  pl_failAt :: int

record run_io =
  io_daemon :: daemon
  io_startFailAt :: int
  io_polls :: "poll list"
  io_generatedAt :: int
  io_verifier :: "byte list \<Rightarrow> ProofExpectations \<Rightarrow> verifier_run"
  io_verifyFailAt :: int
  io_endAt :: int

text \<open>The text the re-execution judges: the message contents of the parsed witness. \<open>None\<close> is a throw.\<close>

definition reexec_text :: "runtime \<Rightarrow> jstr \<Rightarrow> jstr option" where
  "reexec_text rt canonicalRequest =
     (case json_parse rt canonicalRequest of
        None \<Rightarrow> None
      | Some v \<Rightarrow>
          (case get_prop v ''messages'' of
             Some (JArr ms) \<Rightarrow>
               map_option (join [10]) (those (map (\<lambda>m. case get_prop m ''content'' of Some (JStr s) \<Rightarrow> Some s | _ \<Rightarrow> None) ms))
           | _ \<Rightarrow> None))"

datatype poll_end = Still_polling | Gave_up jstr int | Receipt "byte list"

fun poll_loop :: "jstr \<Rightarrow> int \<Rightarrow> int \<Rightarrow> poll list \<Rightarrow> ProofState list \<times> poll_end" where
  "poll_loop jobId startedAt ceilingMs [] = ([], Still_polling)"
| "poll_loop jobId startedAt ceilingMs (p # ps) =
     (if pl_now p - startedAt > ceilingMs
      then ([], Gave_up (lit ''proving exceeded the '' @ int_digits (js_round (of_int ceilingMs / 60000)) @ lit ''-minute ceiling'') (pl_failAt p))
      else (case pollJob jobId (pl_answer p) of
              ProverUnavailable e \<Rightarrow> ([], Gave_up (lit ''PROVER_UNAVAILABLE: the prover daemon became unreachable during proving'') (pl_failAt p))
            | ProverFault e \<Rightarrow> ([], Gave_up e (pl_failAt p))
            | ProverOk job \<Rightarrow>
                if job_devMode job then ([], Gave_up (lit ''dev-mode receipt rejected (RISC0_DEV_MODE)'') (pl_failAt p))
                else (case job_status job of
                        Job_QUEUED \<Rightarrow> (case poll_loop jobId startedAt ceilingMs ps of (ss, e) \<Rightarrow> (PS_QUEUED startedAt # ss, e))
                      | Job_PROVING \<Rightarrow> (case poll_loop jobId startedAt ceilingMs ps of (ss, e) \<Rightarrow> (PS_PROVING startedAt # ss, e))
                      | Job_FAILED \<Rightarrow> ([], Gave_up (lit ''prover daemon reported FAILED: ''
                          @ (case job_error job of Some e \<Rightarrow> e | None \<Rightarrow> lit ''unknown'')) (pl_failAt p))
                      | Job_GENERATED \<Rightarrow>
                          (case job_receiptB64 job of
                             Some (c # s) \<Rightarrow> ([], Receipt (fromB64 (c # s)))
                           | _ \<Rightarrow> ([], Gave_up (lit ''daemon reported GENERATED without a receipt'') (pl_failAt p))))))"

definition proof_artifact :: "ReleaseManifest \<Rightarrow> ProofWitness \<Rightarrow> jstr \<Rightarrow> byte list \<Rightarrow> ProofArtifactV1" where
  "proof_artifact m w proofNonce receiptBytes =
     \<lparr> art_risc0Version = rm_risc0Version m, art_receiptBytes = receiptBytes, art_imageId = rm_imageIdHex m,
       art_journalVersion = rm_journalVersion m,
       art_decodedJournal = \<lparr> jr_protocolVersion = 1, jr_requestCommitment = pw_requestCommitment w, jr_policyId = rm_policyId m,
         jr_decision = pw_decision w, jr_proofNonce = proofNonce \<rparr> \<rparr>"

definition proof_binding :: "ReleaseManifest \<Rightarrow> ProofWitness \<Rightarrow> jstr \<Rightarrow> jstr \<Rightarrow> ProofBindingV2" where
  "proof_binding m w receiptDigest artifactDigest =
     \<lparr> bind_decisionReceiptDigest = receiptDigest, bind_artifactDigest = artifactDigest, bind_imageId = rm_imageIdHex m,
       bind_policyId = rm_policyId m, bind_decision = pw_decision w, bind_proofVerified = True \<rparr>"

text \<open>What follows the receipt: GENERATED is written, the verifier runs, and VERIFIED is written only when it passed.
  The serialisation of the receipt and of the binding may throw; the \<open>catch\<close> then fails the proof. (The texts of
  messages thrown by the JSON layer are abbreviated; clock readings are in whole milliseconds.)\<close>

definition verify_phase ::
  "runtime \<Rightarrow> SimulatedTEE \<Rightarrow> ReleaseManifest \<Rightarrow> ProofWitness \<Rightarrow> int \<Rightarrow> jstr \<Rightarrow> run_io \<Rightarrow> byte list \<Rightarrow> ProofState list" where
  "verify_phase rt tee m w startedAt proofNonce io receiptBytes =
     (let artifact = proof_artifact m w proofNonce receiptBytes;
          artifactDigest = zkArtifactDigest rt receiptBytes;
          verification = runReferenceVerify (io_verifier io receiptBytes
            \<lparr> px_commitment = pw_requestCommitment w, px_decision = pw_decision w, px_proofNonce = proofNonce \<rparr>)
      in PS_GENERATED artifact artifactDigest (io_generatedAt io - startedAt)
         # (if \<not> sv_ok verification
            then [PS_FAILED (lit ''server-side verification rejected the proof (''
                    @ (case sv_firstFailure verification of Some f \<Rightarrow> f | None \<Rightarrow> lit ''unknown check'') @ lit '')'') (io_verifyFailAt io - startedAt)]
            else (case decisionReceiptDigest rt (decision_receipt_json (pw_decisionReceipt w)) of
                    None \<Rightarrow> [PS_FAILED (lit ''CanonicalizationError'') (io_verifyFailAt io - startedAt)]
                  | Some d \<Rightarrow>
                      (case signReceipt rt tee (binding_json (proof_binding m w d artifactDigest)) of
                         None \<Rightarrow> [PS_FAILED (lit ''CanonicalizationError'') (io_verifyFailAt io - startedAt)]
                       | Some sg \<Rightarrow> [PS_VERIFIED artifact artifactDigest d
                           \<lparr> sb_binding = proof_binding m w d artifactDigest, sb_enclaveSignature = sg \<rparr> verification (io_endAt io - startedAt)]))))"

text \<open>The states a run writes, and whether it has returned.\<close>

definition run ::
  "runtime \<Rightarrow> SimulatedTEE \<Rightarrow> PolicyRules \<Rightarrow> ReleaseManifest \<Rightarrow> int \<Rightarrow> ProofWitness \<Rightarrow> int \<Rightarrow> jstr \<Rightarrow> run_io \<Rightarrow> ProofState list \<times> bool" where
  "run rt tee rules m ceilingMs w startedAt proofNonce io =
     (let fail = (\<lambda>e. ([PS_FAILED e (io_startFailAt io - startedAt)], True)) in
      case reexec_text rt (pw_canonicalRequest w) of
        None \<Rightarrow> fail (lit ''witness is not a canonical request'')
      | Some text \<Rightarrow>
          if ev_decision (evaluate rt rules text) \<noteq> pw_decision w
          then fail (lit ''guest re-execution disagreed with the gate verdict (non-determinism)'')
          else (case prove (io_daemon io) (pw_canonicalRequest w) (pw_requestNonce w) proofNonce of
                  ProverUnavailable e \<Rightarrow> fail (lit ''PROVER_UNAVAILABLE: the prover daemon was unreachable at enqueue'')
                | ProverFault e \<Rightarrow> fail e
                | ProverOk jobId \<Rightarrow>
                    (case poll_loop jobId startedAt ceilingMs (io_polls io) of
                       (ss, Still_polling) \<Rightarrow> (ss, False)
                     | (ss, Gave_up e t) \<Rightarrow> (ss @ [PS_FAILED e (t - startedAt)], True)
                     | (ss, Receipt bytes) \<Rightarrow> (ss @ verify_phase rt tee m w startedAt proofNonce io bytes, True))))"

section \<open>The prover\<close>

text \<open>\<open>start\<close> writes QUEUED and launches a run; \<open>setState\<close> and \<open>fail\<close> are a write of the record.\<close>

definition setState :: "jstr \<Rightarrow> ProofState \<Rightarrow> jstr \<Rightarrow> (jstr \<times> ProofRecord) list \<Rightarrow> (jstr \<times> ProofRecord) list" where
  "setState requestId s proofNonce recs = map_put requestId \<lparr> prec_state = s, prec_proofNonce = proofNonce \<rparr> recs"

record proof_job =
  pj_requestId :: jstr
  pj_witness :: ProofWitness
  pj_startedAt :: int
  pj_proofNonce :: jstr
  pj_io :: run_io
  pj_pending :: "ProofState list"

record prover_state =
  ps_records :: "(jstr \<times> ProofRecord) list"
  ps_jobs :: "proof_job list"

definition prover_boot :: prover_state where
  "prover_boot = \<lparr> ps_records = [], ps_jobs = [] \<rparr>"

definition start ::
  "runtime \<Rightarrow> SimulatedTEE \<Rightarrow> PolicyRules \<Rightarrow> ReleaseManifest \<Rightarrow> jstr \<Rightarrow> ProofWitness \<Rightarrow> int \<Rightarrow> jstr \<Rightarrow> run_io \<Rightarrow> prover_state \<Rightarrow> prover_state" where
  "start rt tee rules m requestId w startedAt proofNonce io s =
     s\<lparr> ps_records := setState requestId (PS_QUEUED startedAt) proofNonce (ps_records s),
        ps_jobs := ps_jobs s @ [\<lparr> pj_requestId = requestId, pj_witness = w, pj_startedAt = startedAt, pj_proofNonce = proofNonce,
          pj_io = io, pj_pending = fst (run rt tee rules m DEFAULT_CEILING_MS w startedAt proofNonce io) \<rparr>] \<rparr>"

definition getProof :: "prover_state \<Rightarrow> jstr \<Rightarrow> ProofRecord option" where
  "getProof s requestId = map_of (ps_records s) requestId"

text \<open>Any number of runs proceed concurrently; each step is a start or the next write of one run.\<close>

inductive prover_step ::
  "runtime \<Rightarrow> SimulatedTEE \<Rightarrow> PolicyRules \<Rightarrow> ReleaseManifest \<Rightarrow> prover_state \<Rightarrow> prover_state \<Rightarrow> bool"
  for rt tee rules m where
  step_start: "prover_step rt tee rules m s (start rt tee rules m requestId w startedAt proofNonce io s)"
| step_write: "i < length (ps_jobs s) \<Longrightarrow> j = ps_jobs s ! i \<Longrightarrow> pj_pending j = st # rest \<Longrightarrow>
    prover_step rt tee rules m s
      \<lparr> ps_records = setState (pj_requestId j) st (pj_proofNonce j) (ps_records s),
        ps_jobs = (ps_jobs s)[i := j\<lparr> pj_pending := rest \<rparr>] \<rparr>"

section \<open>GET /proofs/:requestId\<close>

text \<open>\<open>None\<close> is the 404 body \<open>{ status: "NOT_REQUIRED" }\<close>.\<close>

fun proof_response :: "ProofState \<Rightarrow> ProofResponse" where
  "proof_response (PS_QUEUED t) = \<lparr> pr_status = QUEUED, pr_proofVerified = False, pr_proofMs = None, pr_error = None, pr_imageId = None,
     pr_artifactDigest = None, pr_decisionReceiptDigest = None, pr_artifact = None, pr_binding = None \<rparr>"
| "proof_response (PS_PROVING t) = \<lparr> pr_status = PROVING, pr_proofVerified = False, pr_proofMs = None, pr_error = None, pr_imageId = None,
     pr_artifactDigest = None, pr_decisionReceiptDigest = None, pr_artifact = None, pr_binding = None \<rparr>"
| "proof_response (PS_FAILED e ms) = \<lparr> pr_status = PROOF_FAILED, pr_proofVerified = False, pr_proofMs = Some ms, pr_error = Some e, pr_imageId = None,
     pr_artifactDigest = None, pr_decisionReceiptDigest = None, pr_artifact = None, pr_binding = None \<rparr>"
| "proof_response (PS_GENERATED a d ms) = \<lparr> pr_status = GENERATED, pr_proofVerified = False, pr_proofMs = Some ms, pr_error = None,
     pr_imageId = Some (art_imageId a), pr_artifactDigest = Some d, pr_decisionReceiptDigest = None,
     pr_artifact = Some (artifactToWire a), pr_binding = None \<rparr>"
| "proof_response (PS_VERIFIED a d rd b v ms) = \<lparr> pr_status = VERIFIED, pr_proofVerified = True, pr_proofMs = Some ms, pr_error = None,
     pr_imageId = Some (art_imageId a), pr_artifactDigest = Some d, pr_decisionReceiptDigest = Some rd,
     pr_artifact = Some (artifactToWire a), pr_binding = Some b \<rparr>"

definition getProofs :: "prover_state \<Rightarrow> jstr \<Rightarrow> ProofResponse option" where
  "getProofs s requestId = map_option (\<lambda>r. proof_response (prec_state r)) (getProof s requestId)"

section \<open>The re-execution judges the gated text\<close>

lemma those_map_Some: "those (map (\<lambda>x. Some (f x)) xs) = Some (map f xs)"
  by (induction xs) auto

lemma those_map_all: "(\<And>x. x \<in> set xs \<Longrightarrow> g x = Some (f x)) \<Longrightarrow> those (map g xs) = Some (map f xs)"
  by (induction xs) auto

lemma reexec_canonical:
  assumes "ints_exact rt" "normalized_request rt r" "canonicalJson rt (request_json r) = Some t"
  shows "reexec_text rt t = Some (requestText (message_pairs r))"
proof -
  have "json_wf (request_json r)" by (simp add: request_json_def message_json_def)
  from reads_back_all [OF assms(1) this] assms(3)
  have p: "json_parse rt t = Some (canon_form rt (request_json r))" by (simp add: reads_back_def text_reads_parse)
  let ?obj = "\<lambda>m. JObj [(lit ''content'', JStr (nfc rt (msg_content m))), (lit ''role'', JStr (nfc rt (role_str (msg_role m))))]"
  have g: "get_prop (canon_form rt (request_json r)) ''messages'' = Some (JArr (map ?obj (req_messages r)))"
    unfolding canon_form_request by simp
  have "those (map (\<lambda>m. case get_prop m ''content'' of Some (JStr s) \<Rightarrow> Some s | _ \<Rightarrow> None) (map ?obj (req_messages r)))
      = Some (map msg_content (req_messages r))"
    unfolding map_map comp_def by (rule those_map_all) (use assms(2) in \<open>auto simp: normalized_request_def\<close>)
  then show ?thesis by (simp add: reexec_text_def p g requestText_def message_pairs_def comp_def)
qed

definition NONDETERMINISM :: jstr where
  "NONDETERMINISM = lit ''guest re-execution disagreed with the gate verdict (non-determinism)''"

text \<open>Every other failure message starts with another letter.\<close>

definition other_message :: "jstr \<Rightarrow> bool" where
  "other_message e \<longleftrightarrow> (\<exists>c t. e = c # t \<and> c \<noteq> 103)"

lemma other_message_ne: "other_message e \<Longrightarrow> e \<noteq> NONDETERMINISM"
  by (auto simp: other_message_def NONDETERMINISM_def lit_def)

lemma other_lit: "of_char ch \<noteq> (103 :: nat) \<Longrightarrow> other_message (lit (ch # x))"
    "of_char ch \<noteq> (103 :: nat) \<Longrightarrow> other_message (lit (ch # x) @ y)"
  by (simp_all add: other_message_def lit_def)

lemma fault_message: "prover_request me pa a = ProverFault e \<Longrightarrow> other_message e"
  by (cases a) (auto simp: prover_path_def other_lit split: if_splits body_read.splits)

lemma poll_message: "poll_loop j t0 c ps = (ss, Gave_up e t) \<Longrightarrow> other_message e"
proof (induction ps arbitrary: ss)
  case (Cons p ps)
  then show ?case
    by (auto simp: pollJob_def other_lit dest: fault_message split: if_splits prover_result.splits job_state.splits option.splits list.splits prod.splits)
qed simp

lemma poll_states: "st \<in> set (fst (poll_loop j t0 c ps)) \<Longrightarrow> st = PS_QUEUED t0 \<or> st = PS_PROVING t0"
  by (induction ps) (auto split: if_splits prover_result.splits job_state.splits option.splits list.splits prod.splits)

lemma agreeing_run_message:
  assumes "reexec_text rt (pw_canonicalRequest w) = Some text" "ev_decision (evaluate rt rules text) = pw_decision w"
  shows "fst (run rt tee rules m c w t0 n io) \<noteq> [PS_FAILED NONDETERMINISM x]"
proof (cases "prove (io_daemon io) (pw_canonicalRequest w) (pw_requestNonce w) n")
  case (ProverOk jobId)
  obtain ss e where pl: "poll_loop jobId t0 c (io_polls io) = (ss, e)" by fastforce
  then have ss: "PS_FAILED NONDETERMINISM x \<notin> set ss" using poll_states [of _ jobId t0 c "io_polls io"] by fastforce
  show ?thesis
  proof (cases e)
    case (Gave_up msg t)
    then have "msg \<noteq> NONDETERMINISM" using pl poll_message other_message_ne by blast
    then show ?thesis using ss pl Gave_up assms ProverOk by (cases ss) (auto simp: run_def)
  next
    case (Receipt b)
    then show ?thesis using ss pl assms ProverOk by (cases ss) (auto simp: run_def verify_phase_def Let_def)
  qed (use ss pl assms ProverOk in \<open>auto simp: run_def\<close>)
next
  case (ProverFault e)
  then have "e \<noteq> NONDETERMINISM" unfolding prove_def using fault_message other_message_ne by blast
  then show ?thesis using assms ProverFault by (simp add: run_def)
next
  case (ProverUnavailable e)
  have "lit ''PROVER_UNAVAILABLE: the prover daemon was unreachable at enqueue'' \<noteq> NONDETERMINISM"
    by (rule other_message_ne) (simp add: other_lit)
  then show ?thesis using assms ProverUnavailable by (simp add: run_def)
qed

text \<open>C26. The determinism check of a proof run is exact. Before it asks for a proof, the run judges the request again with
  the TypeScript engine (\<open>evaluateRequest\<close>, the engine of the preview; the guest executor that decided at the gate is not
  run again) on the text it extracts from the canonical request in the proof witness. For every normalized request that
  text is the one the engine reads from the request's messages, so the run fails with the non-determinism message
  exactly when the TypeScript engine's verdict on the request differs from the verdict the witness carries, and no
  other failure is ever reported under that message.\<close>

theorem determinism_check_exact:
  assumes "ints_exact rt" "normalized_request rt r" "canonicalJson rt (request_json r) = Some (pw_canonicalRequest w)"
  shows "ev_decision (evaluateRequest rt rules (message_pairs r)) \<noteq> pw_decision w \<longleftrightarrow>
    run rt tee rules m ceilingMs w t0 n io =
      ([PS_FAILED NONDETERMINISM (io_startFailAt io - t0)], True)"
proof -
  have t: "reexec_text rt (pw_canonicalRequest w) = Some (requestText (message_pairs r))" by (rule reexec_canonical [OF assms])
  show ?thesis
  proof (cases "ev_decision (evaluate rt rules (requestText (message_pairs r))) = pw_decision w")
    case True
    from agreeing_run_message [OF t True] have "fst (run rt tee rules m ceilingMs w t0 n io) \<noteq> [PS_FAILED NONDETERMINISM x]" for x .
    with True show ?thesis unfolding evaluateRequest_def by (metis fst_conv)
  next
    case False
    then show ?thesis by (simp add: run_def t evaluateRequest_def NONDETERMINISM_def)
  qed
qed

section \<open>VERIFIED means verified\<close>

definition expectations :: "ProofWitness \<Rightarrow> jstr \<Rightarrow> ProofExpectations" where
  "expectations w proofNonce = \<lparr> px_commitment = pw_requestCommitment w, px_decision = pw_decision w, px_proofNonce = proofNonce \<rparr>"

definition verified_by ::
  "runtime \<Rightarrow> SimulatedTEE \<Rightarrow> ReleaseManifest \<Rightarrow> ProofWitness \<Rightarrow> jstr \<Rightarrow> run_io \<Rightarrow> ProofState \<Rightarrow> bool" where
  "verified_by rt tee m w proofNonce io st = (case st of
     PS_VERIFIED a d rd b v ms \<Rightarrow>
       (\<exists>bytes. a = proof_artifact m w proofNonce bytes \<and> d = zkArtifactDigest rt bytes
          \<and> v = runReferenceVerify (io_verifier io bytes (expectations w proofNonce)) \<and> sv_ok v
          \<and> decisionReceiptDigest rt (decision_receipt_json (pw_decisionReceipt w)) = Some rd
          \<and> sb_binding b = proof_binding m w rd d
          \<and> signReceipt rt tee (binding_json (sb_binding b)) = Some (sb_enclaveSignature b))
   | _ \<Rightarrow> True)"

lemma verify_phase_verified: "st \<in> set (verify_phase rt tee m w t0 n io bytes) \<Longrightarrow> verified_by rt tee m w n io st"
  by (auto simp: verify_phase_def verified_by_def expectations_def Let_def split: if_splits option.splits)

lemma run_verified: "st \<in> set (fst (run rt tee rules m c w t0 n io)) \<Longrightarrow> verified_by rt tee m w n io st"
proof -
  have q: "verified_by rt tee m w n io st" if "st = PS_QUEUED t0 \<or> st = PS_PROVING t0 \<or> (\<exists>e t. st = PS_FAILED e t)"
    using that by (auto simp: verified_by_def)
  assume "st \<in> set (fst (run rt tee rules m c w t0 n io))"
  then show ?thesis
    unfolding run_def Let_def
    by (auto split: option.splits if_splits prover_result.splits prod.splits poll_end.splits intro: q verify_phase_verified)
       (metis fst_conv poll_states q)+
qed

definition prover_inv :: "runtime \<Rightarrow> SimulatedTEE \<Rightarrow> ReleaseManifest \<Rightarrow> prover_state \<Rightarrow> bool" where
  "prover_inv rt tee m s \<longleftrightarrow>
     (\<forall>j \<in> set (ps_jobs s). \<forall>st \<in> set (pj_pending j). verified_by rt tee m (pj_witness j) (pj_proofNonce j) (pj_io j) st) \<and>
     (\<forall>rid r. map_of (ps_records s) rid = Some r \<longrightarrow>
        (\<exists>j \<in> set (ps_jobs s). pj_requestId j = rid \<and> pj_proofNonce j = prec_proofNonce r
           \<and> verified_by rt tee m (pj_witness j) (pj_proofNonce j) (pj_io j) (prec_state r)))"

lemma start_keeps: "prover_inv rt tee m s \<Longrightarrow> prover_inv rt tee m (start rt tee rules m rid w t0 n io s)"
proof -
  assume inv: "prover_inv rt tee m s"
  let ?j = "\<lparr> pj_requestId = rid, pj_witness = w, pj_startedAt = t0, pj_proofNonce = n, pj_io = io,
      pj_pending = fst (run rt tee rules m DEFAULT_CEILING_MS w t0 n io) \<rparr>"
  have "verified_by rt tee m w n io (PS_QUEUED t0)" by (simp add: verified_by_def)
  then show ?thesis
    using inv run_verified [of _ rt tee rules m DEFAULT_CEILING_MS w t0 n io]
    by (auto simp: prover_inv_def start_def setState_def map_of_put split: if_splits)
qed

text \<open>A write replaces a job by itself with fewer pending states.\<close>

lemma write_keeps:
  assumes inv: "prover_inv rt tee m s" and i: "i < length (ps_jobs s)" and p: "pj_pending (ps_jobs s ! i) = st # rest"
  shows "prover_inv rt tee m
    \<lparr> ps_records = setState (pj_requestId (ps_jobs s ! i)) st (pj_proofNonce (ps_jobs s ! i)) (ps_records s),
      ps_jobs = (ps_jobs s)[i := (ps_jobs s ! i)\<lparr> pj_pending := rest \<rparr>] \<rparr>"
proof -
  let ?j = "ps_jobs s ! i" and ?j' = "(ps_jobs s ! i)\<lparr> pj_pending := rest \<rparr>"
  have jin: "?j \<in> set (ps_jobs s)" using i by simp
  then have vs: "\<forall>x \<in> set (st # rest). verified_by rt tee m (pj_witness ?j) (pj_proofNonce ?j) (pj_io ?j) x"
    using inv p by (simp add: prover_inv_def)
  have j'in: "?j' \<in> set ((ps_jobs s)[i := ?j'])" using i by (simp add: set_update_memI)
  have keep: "\<exists>k' \<in> set ((ps_jobs s)[i := ?j']). pj_requestId k' = pj_requestId k \<and> pj_proofNonce k' = pj_proofNonce k
      \<and> pj_witness k' = pj_witness k \<and> pj_io k' = pj_io k" if "k \<in> set (ps_jobs s)" for k
  proof -
    obtain l where l: "l < length (ps_jobs s)" "k = ps_jobs s ! l" using \<open>k \<in> set (ps_jobs s)\<close> by (auto simp: in_set_conv_nth)
    have "(ps_jobs s)[i := ?j'] ! l \<in> set ((ps_jobs s)[i := ?j'])" using l by simp
    then show ?thesis using l by (intro bexI [of _ "(ps_jobs s)[i := ?j'] ! l"]) (cases "i = l"; simp)+
  qed
  show ?thesis
    unfolding prover_inv_def
  proof (intro conjI ballI allI impI)
    fix j x assume "j \<in> set (ps_jobs \<lparr> ps_records = setState (pj_requestId ?j) st (pj_proofNonce ?j) (ps_records s), ps_jobs = (ps_jobs s)[i := ?j'] \<rparr>)"
      and x: "x \<in> set (pj_pending j)"
    then have "j \<in> insert ?j' (set (ps_jobs s))" using set_update_subset_insert [of "ps_jobs s" i ?j'] by auto
    then show "verified_by rt tee m (pj_witness j) (pj_proofNonce j) (pj_io j) x" using vs inv x by (auto simp: prover_inv_def)
  next
    fix rid r assume "map_of (ps_records \<lparr> ps_records = setState (pj_requestId ?j) st (pj_proofNonce ?j) (ps_records s), ps_jobs = (ps_jobs s)[i := ?j'] \<rparr>) rid = Some r"
    then have "((map_of (ps_records s))(pj_requestId ?j \<mapsto> \<lparr> prec_state = st, prec_proofNonce = pj_proofNonce ?j \<rparr>)) rid = Some r"
      by (simp only: setState_def map_of_put prover_state.select_convs)
    then consider "rid = pj_requestId ?j" "r = \<lparr> prec_state = st, prec_proofNonce = pj_proofNonce ?j \<rparr>" | "map_of (ps_records s) rid = Some r"
      by (cases "rid = pj_requestId ?j") simp_all
    then show "\<exists>j \<in> set (ps_jobs \<lparr> ps_records = setState (pj_requestId ?j) st (pj_proofNonce ?j) (ps_records s), ps_jobs = (ps_jobs s)[i := ?j'] \<rparr>).
        pj_requestId j = rid \<and> pj_proofNonce j = prec_proofNonce r \<and> verified_by rt tee m (pj_witness j) (pj_proofNonce j) (pj_io j) (prec_state r)"
    proof cases
      case 1
      then show ?thesis using j'in vs by (intro bexI [of _ ?j']) auto
    next
      case 2
      then obtain k where "k \<in> set (ps_jobs s)" "pj_requestId k = rid" "pj_proofNonce k = prec_proofNonce r"
        "verified_by rt tee m (pj_witness k) (pj_proofNonce k) (pj_io k) (prec_state r)" using inv unfolding prover_inv_def by blast
      with keep [of k] show ?thesis by auto
    qed
  qed
qed

interpretation proofs: stable "prover_step rt tee rules m" "prover_inv rt tee m" for rt tee rules m
proof
  fix s t assume "prover_step rt tee rules m s t" "prover_inv rt tee m s"
  then show "prover_inv rt tee m t"
    by (cases rule: prover_step.cases) (simp_all add: start_keeps write_keeps)
qed

lemma boot_inv: "prover_inv rt tee m prover_boot"
  by (simp add: prover_inv_def prover_boot_def)

text \<open>C14. The enclave never reports an unverified proof as verified. In every state the prover can reach, with any
  number of runs interleaved and under any behaviour of the daemon and the verifier, if \<^verbatim>\<open>GET /proofs\<close> answers
  \<open>proofVerified: true\<close> for a request, then a run was started for that request whose receipt bytes the reference
  verifier accepted (exit code 0) against that run's commitment, decision and nonce; the artifact and digest returned
  are those of these bytes; and the binding names them and the digest of the signed decision, under a signature that
  verifies with the attested key.\<close>

theorem proof_verified_sound:
  assumes "(prover_step rt tee rules m)\<^sup>*\<^sup>* prover_boot s" "getProofs s rid = Some r" "pr_proofVerified r" "signer rt tee"
  shows "pr_status r = VERIFIED \<and> (\<exists>j \<in> set (ps_jobs s). pj_requestId j = rid \<and>
    (\<exists>bytes rd b. sv_ok (runReferenceVerify (io_verifier (pj_io j) bytes (expectations (pj_witness j) (pj_proofNonce j))))
      \<and> pr_artifact r = Some (artifactToWire (proof_artifact m (pj_witness j) (pj_proofNonce j) bytes))
      \<and> pr_artifactDigest r = Some (zkArtifactDigest rt bytes)
      \<and> decisionReceiptDigest rt (decision_receipt_json (pw_decisionReceipt (pj_witness j))) = Some rd
      \<and> pr_binding r = Some b \<and> sb_binding b = proof_binding m (pj_witness j) rd (zkArtifactDigest rt bytes)
      \<and> verifyCanonical rt (binding_json (sb_binding b)) (sb_enclaveSignature b) (tee_signingPublicKey tee) = Some True))"
proof -
  have inv: "prover_inv rt tee m s" by (rule proofs.reachable_keeps [OF assms(1) boot_inv])
  from assms(2) obtain pr where pr: "map_of (ps_records s) rid = Some pr" "r = proof_response (prec_state pr)"
    by (auto simp: getProofs_def getProof_def)
  with assms(3) obtain a d rd b v ms where st: "prec_state pr = PS_VERIFIED a d rd b v ms" by (cases "prec_state pr") auto
  from inv pr(1) obtain j where j: "j \<in> set (ps_jobs s)" "pj_requestId j = rid"
    "verified_by rt tee m (pj_witness j) (pj_proofNonce j) (pj_io j) (prec_state pr)" unfolding prover_inv_def by blast
  then show ?thesis using signReceipt_verifies [OF assms(4)] by (fastforce simp: st pr(2) verified_by_def)
qed

section \<open>Every proof settles\<close>

fun terminal :: "ProofState \<Rightarrow> bool" where
  "terminal (PS_FAILED _ _) = True"
| "terminal (PS_VERIFIED _ _ _ _ _ _) = True"
| "terminal _ = False"

lemma poll_loop_waits: "snd (poll_loop j t0 c ps) = Still_polling \<Longrightarrow> \<forall>p \<in> set ps. pl_now p - t0 \<le> c"
  by (induction ps) (auto split: if_splits prover_result.splits job_state.splits option.splits list.splits prod.splits)

lemma poll_loop_ends:
  "\<exists>p \<in> set ps. pl_now p - t0 > c \<Longrightarrow> snd (poll_loop j t0 c ps) \<noteq> Still_polling"
  using poll_loop_waits by fastforce

lemma verify_phase_last: "verify_phase rt tee m w t0 n io b \<noteq> [] \<and> terminal (last (verify_phase rt tee m w t0 n io b))"
  by (auto simp: verify_phase_def Let_def split: option.splits)

text \<open>C27. Every proof settles. Once the daemon has been polled past the fifteen-minute ceiling (whatever it answered,
  or if it never settled the job), the run has returned, it wrote at least one state, and the last one is VERIFIED or
  FAILED; every state before the last is QUEUED, PROVING or GENERATED.\<close>

theorem proof_settles:
  assumes "\<exists>p \<in> set (io_polls io). pl_now p - t0 > DEFAULT_CEILING_MS"
  shows "snd (run rt tee rules m DEFAULT_CEILING_MS w t0 n io) \<and> fst (run rt tee rules m DEFAULT_CEILING_MS w t0 n io) \<noteq> []
    \<and> terminal (last (fst (run rt tee rules m DEFAULT_CEILING_MS w t0 n io)))
    \<and> (\<forall>st \<in> set (butlast (fst (run rt tee rules m DEFAULT_CEILING_MS w t0 n io))). \<not> terminal st)"
proof -
  have q: "\<not> terminal st" if "st \<in> set ss" "poll_loop j t0 DEFAULT_CEILING_MS (io_polls io) = (ss, e)" for st ss e j
    using poll_states [of st j t0 DEFAULT_CEILING_MS "io_polls io"] that by auto
  have v: "\<not> terminal st" if "st \<in> set (butlast (verify_phase rt tee m w t0 n io b))" for st b
    using that by (auto simp: verify_phase_def Let_def split: option.splits if_splits)
  have ends: "poll_loop j t0 DEFAULT_CEILING_MS (io_polls io) \<noteq> (ss, Still_polling)" for j ss
    using poll_loop_ends [OF assms, of j] by auto
  show ?thesis
    using ends verify_phase_last [of rt tee m w t0 n io]
    by (auto simp: run_def Let_def butlast_append last_append dest: q v split: option.splits prover_result.splits prod.splits poll_end.splits if_splits)
qed

section \<open>A concrete run\<close>

definition sample_rcpt :: PolicyDecisionReceiptV1 where
  "sample_rcpt = \<lparr> dr_requestId = lit ''r1'', dr_requestCommitment = lit ''0x1'', dr_policyId = lit ''p2'', dr_decision = ALLOW,
     dr_imageId = lit ''img'', dr_gateWallMs = 1 \<rparr>"

definition sample_proof_witness :: ProofWitness where
  "sample_proof_witness = \<lparr> pw_canonicalRequest = the (canonicalJson sample_runtime (request_json sample_request)), pw_requestNonce = sample_nonce,
     pw_requestCommitment = lit ''0x1'', pw_decision = ALLOW, pw_decisionReceipt = sample_rcpt \<rparr>"

text \<open>Rules that deny nothing, and a daemon and a verifier that do their work.\<close>

definition no_rules :: PolicyRules where
  "no_rules = sample_rules\<lparr> hardBlocks := [], categories := [] \<rparr>"

lemma no_rules_allow: "ev_decision (evaluate rt no_rules text) = ALLOW"
  by (simp add: evaluate_def no_rules_def Let_def)

definition sample_io :: run_io where
  "sample_io = \<lparr> io_daemon = \<lparr> dm_health = Fetch_failed, dm_execute = (\<lambda>_. Fetch_failed), dm_prove = (\<lambda>_. Status 202 (Parsed (lit ''job''))) \<rparr>,
     io_startFailAt = 0, io_polls = [\<lparr> pl_now = 5, pl_answer = Status 200 (Parsed \<lparr> job_status = Job_GENERATED, job_receiptB64 = Some (lit ''AQ==''),
       job_proveWallMs = None, job_error = None, job_devMode = False \<rparr>), pl_failAt = 6 \<rparr>], io_generatedAt = 7,
     io_verifier = (\<lambda>_ _. Exited_clean []), io_verifyFailAt = 8, io_endAt = 9 \<rparr>"

definition sample_manifest :: ReleaseManifest where
  "sample_manifest = \<lparr> rm_imageIdHex = lit ''img'', rm_policyId = lit ''p2'', rm_journalVersion = 1, rm_risc0Version = lit ''1'' \<rparr>"

lemma sample_witness_text:
  "canonicalJson sample_runtime (request_json sample_request) = Some (pw_canonicalRequest sample_proof_witness)"
  using sample_request_serialises by (auto simp: canonicalBytes_def sample_proof_witness_def simp del: canonicalJson.simps)

lemma sample_reexec: "\<exists>t. reexec_text sample_runtime (pw_canonicalRequest sample_proof_witness) = Some t"
  using reexec_canonical [OF _ sample_request_normalized sample_witness_text] by (simp add: ints_exact_def)

lemma sample_receipt_digest: "\<exists>d. decisionReceiptDigest rt (decision_receipt_json sample_rcpt) = Some d"
proof -
  have "serialisable (decision_receipt_json sample_rcpt)"
    using one_safe by (simp add: decision_receipt_json_def sample_rcpt_def del: isSafeInteger.simps)
  then show ?thesis using canonicalJson_Some by (auto simp: decisionReceiptDigest_def)
qed

lemma binding_signs: "\<exists>sg. signReceipt rt tee (binding_json b) = Some sg"
  by (rule signReceipt_defined) (simp add: binding_json_def)

lemma agreeing_run_verifies:
  assumes t: "reexec_text rt (pw_canonicalRequest w) = Some t" and d: "pw_decision w = ALLOW"
    and rd: "decisionReceiptDigest rt (decision_receipt_json (pw_decisionReceipt w)) = Some rd"
  shows "\<exists>g a d rd b v ms. fst (run rt tee no_rules m DEFAULT_CEILING_MS w 0 n sample_io) = [g, PS_VERIFIED a d rd b v ms]"
proof -
  have pl: "poll_loop (lit ''job'') 0 DEFAULT_CEILING_MS (io_polls sample_io) = ([], Receipt (fromB64 (lit ''AQ=='')))"
    by (simp add: sample_io_def pollJob_def DEFAULT_CEILING_MS_def lit_def)
  have pv: "prove (io_daemon sample_io) x y z = ProverOk (lit ''job'')" for x y z by (simp add: sample_io_def prove_def)
  have vf: "sv_ok (runReferenceVerify (io_verifier sample_io x y))" for x y by (simp add: sample_io_def)
  obtain sg where sg: "signReceipt rt tee (binding_json (proof_binding m w rd (zkArtifactDigest rt (fromB64 (lit ''AQ==''))))) = Some sg"
    using binding_signs by blast
  show ?thesis
    by (simp add: run_def t d no_rules_allow pv pl verify_phase_def vf rd sg Let_def)
qed

lemma sample_run_verifies:
  "\<exists>g a d rd b v ms. fst (run sample_runtime sample_tee no_rules sample_manifest DEFAULT_CEILING_MS sample_proof_witness 0 (lit ''0xn'') sample_io)
     = [g, PS_VERIFIED a d rd b v ms]"
proof -
  obtain t rd where "reexec_text sample_runtime (pw_canonicalRequest sample_proof_witness) = Some t"
    "decisionReceiptDigest sample_runtime (decision_receipt_json sample_rcpt) = Some rd" using sample_reexec sample_receipt_digest by blast
  then show ?thesis by (intro agreeing_run_verifies) (simp_all add: sample_proof_witness_def)
qed

text \<open>A started job whose run writes two states reaches the second of them.\<close>

lemma two_writes_reached:
  assumes "fst (run rt tee rules m DEFAULT_CEILING_MS w t0 n io) = [x, y]"
  shows "\<exists>s. (prover_step rt tee rules m)\<^sup>*\<^sup>* prover_boot s \<and> getProof s rid = Some \<lparr> prec_state = y, prec_proofNonce = n \<rparr>"
proof -
  let ?s1 = "start rt tee rules m rid w t0 n io prover_boot"
  let ?j = "ps_jobs ?s1 ! 0"
  have j: "length (ps_jobs ?s1) = 1" "pj_pending ?j = [x, y]" "pj_requestId ?j = rid" "pj_proofNonce ?j = n"
    using assms by (simp_all add: start_def prover_boot_def)
  let ?s2 = "\<lparr> ps_records = setState rid x n (ps_records ?s1), ps_jobs = (ps_jobs ?s1)[0 := ?j\<lparr> pj_pending := [y] \<rparr>] \<rparr>"
  have 2: "prover_step rt tee rules m ?s1 ?s2" using step_write [of 0 ?s1 ?j x "[y]"] j by simp
  let ?j2 = "ps_jobs ?s2 ! 0"
  let ?s3 = "\<lparr> ps_records = setState rid y n (ps_records ?s2), ps_jobs = (ps_jobs ?s2)[0 := ?j2\<lparr> pj_pending := [] \<rparr>] \<rparr>"
  have 3: "prover_step rt tee rules m ?s2 ?s3" using step_write [of 0 ?s2 ?j2 y "[]"] j by simp
  have "(prover_step rt tee rules m)\<^sup>*\<^sup>* prover_boot ?s3"
    using step_start 2 3 by (meson r_into_rtranclp rtranclp.rtrancl_into_rtrancl)
  moreover have "getProof ?s3 rid = Some \<lparr> prec_state = y, prec_proofNonce = n \<rparr>" by (simp add: getProof_def setState_def map_of_put)
  ultimately show ?thesis by blast
qed

theorem proof_verified_sound_witness:
  "\<exists>s r b. (prover_step sample_runtime sample_tee no_rules sample_manifest)\<^sup>*\<^sup>* prover_boot s \<and> getProofs s (lit ''r1'') = Some r
     \<and> pr_status r = VERIFIED \<and> pr_binding r = Some b
     \<and> verifyCanonical sample_runtime (binding_json (sb_binding b)) (sb_enclaveSignature b) (tee_signingPublicKey sample_tee) = Some True"
proof -
  obtain g a d rd b v ms where "fst (run sample_runtime sample_tee no_rules sample_manifest DEFAULT_CEILING_MS sample_proof_witness 0 (lit ''0xn'') sample_io)
     = [g, PS_VERIFIED a d rd b v ms]" using sample_run_verifies by blast
  from two_writes_reached [OF this, of "lit ''r1''"] obtain s where s: "(prover_step sample_runtime sample_tee no_rules sample_manifest)\<^sup>*\<^sup>* prover_boot s"
    "getProof s (lit ''r1'') = Some \<lparr> prec_state = PS_VERIFIED a d rd b v ms, prec_proofNonce = lit ''0xn'' \<rparr>" by blast
  then have r: "getProofs s (lit ''r1'') = Some (proof_response (PS_VERIFIED a d rd b v ms))" by (simp add: getProofs_def)
  have "pr_proofVerified (proof_response (PS_VERIFIED a d rd b v ms))" by simp
  from proof_verified_sound [OF s(1) r this sample_signer] s(1) r show ?thesis by fastforce
qed

theorem determinism_check_exact_witness:
  "run sample_runtime sample_tee no_rules sample_manifest DEFAULT_CEILING_MS (sample_proof_witness\<lparr> pw_decision := DENY \<rparr>) 0 (lit ''0xn'') sample_io
     = ([PS_FAILED NONDETERMINISM 0], True)"
proof -
  have w: "canonicalJson sample_runtime (request_json sample_request) = Some (pw_canonicalRequest (sample_proof_witness\<lparr> pw_decision := DENY \<rparr>))"
    using sample_witness_text by (simp del: canonicalJson.simps)
  have i: "ints_exact sample_runtime" by (simp add: ints_exact_def)
  have "ev_decision (evaluateRequest sample_runtime no_rules (message_pairs sample_request)) \<noteq> pw_decision (sample_proof_witness\<lparr> pw_decision := DENY \<rparr>)"
    by (simp add: evaluateRequest_def no_rules_allow)
  with determinism_check_exact [OF i sample_request_normalized w, of no_rules sample_tee sample_manifest DEFAULT_CEILING_MS 0 "lit ''0xn''" sample_io]
  show ?thesis by (simp add: sample_io_def)
qed

definition late_io :: run_io where
  "late_io = sample_io\<lparr> io_polls := [\<lparr> pl_now = 10, pl_answer = Status 200 (Parsed \<lparr> job_status = Job_QUEUED, job_receiptB64 = None,
       job_proveWallMs = None, job_error = None, job_devMode = False \<rparr>), pl_failAt = 11 \<rparr>,
     \<lparr> pl_now = DEFAULT_CEILING_MS + 1, pl_answer = Fetch_failed, pl_failAt = DEFAULT_CEILING_MS + 1 \<rparr>] \<rparr>"

theorem proof_settles_witness:
  "snd (run sample_runtime sample_tee no_rules sample_manifest DEFAULT_CEILING_MS sample_proof_witness 0 (lit ''0xn'') late_io)
   \<and> terminal (last (fst (run sample_runtime sample_tee no_rules sample_manifest DEFAULT_CEILING_MS sample_proof_witness 0 (lit ''0xn'') late_io)))"
  using proof_settles [of late_io 0 sample_runtime sample_tee no_rules sample_manifest sample_proof_witness "lit ''0xn''"]
  by (simp add: late_io_def sample_io_def)

text \<open>A second gate under a request id already in use resets its record: a proof reported VERIFIED goes back to QUEUED.
  Request ids are not part of the authenticated data of an envelope.\<close>

lemma restart_resets_verified:
  "getProof (start rt tee rules m rid w t0 n io s) rid = Some \<lparr> prec_state = PS_QUEUED t0, prec_proofNonce = n \<rparr>"
  by (simp add: getProof_def start_def setState_def map_of_put)

end
