(* ===== verification/Providers.thy ===== *)
theory Providers
  imports Authorize
begin

text \<open>
  Provider adapters and the egress allowlist (\<^verbatim>\<open>services/tee-sim/src/providers.ts\<close>). The network is a
  parameter: \<open>net\<close> says what \<open>fetch\<close> does with an outbound request. An adapter returns the requests it let out
  together with its outcome, so that ``nothing was sent'' is a statement about the model. The contract the
  routing loop relies on is the locale \<open>provider_adapter\<close>; it is interpreted on both adapters and on the
  registry's dispatch between them.
\<close>

section \<open>Egress\<close>

definition allowlist :: "jstr \<Rightarrow> jstr list" where
  "allowlist extra_env =
     [lit ''api.openai.com:443'', lit ''api.anthropic.com:443''] @ filter (\<lambda>s. s \<noteq> []) (map trim (split_on 44 extra_env))"

text \<open>\<open>assertEgressAllowed\<close>: \<open>True\<close> when it returns, \<open>False\<close> when it throws \<open>EgressDeniedError\<close>.\<close>

definition assertEgressAllowed :: "runtime \<Rightarrow> jstr \<Rightarrow> jstr \<Rightarrow> bool" where
  "assertEgressAllowed rt extra_env url =
     (case parse_url rt url of
        None \<Rightarrow> False
      | Some (protocol, hostname, port0) \<Rightarrow>
          let port = (if port0 \<noteq> [] then port0 else if protocol = lit ''https:'' then lit ''443'' else lit ''80'')
          in hostname @ [58] @ port \<in> set (allowlist extra_env))"

section \<open>Outcomes\<close>

record ProviderResponse =
  rp_content :: jstr
  rp_inputTokens :: int
  rp_outputTokens :: int
  rp_estimatedCostMicroUsd :: jsnum
  rp_pricingTableDigest :: "jstr option"
  rp_upstreamRequestHash :: jstr
  rp_upstreamResponseHash :: jstr
  rp_httpStatus :: int
  rp_latencyMs :: int

datatype failure_class =
    auth_failed | rate_limited | server_error | timeout | egress_denied | redirect_refused | malformed_response | unpriced_model

record ProviderFailure =
  fo_httpStatus :: int
  fo_latencyMs :: int
  fo_classification :: failure_class
  fo_upstreamOutcomeUnknown :: bool
  fo_assumedSpendMicroUsd :: "jsnum option"

datatype ProviderOutcome = Completed ProviderResponse | Failure ProviderFailure

record outbound =
  out_url :: jstr
  out_headers :: "(jstr \<times> jstr) list"
  out_body :: jstr

text \<open>What \<open>fetch\<close> does: it rejects (aborted by the timer or not), or a response arrives whose body parses or does
  not; each with the elapsed milliseconds the adapter reads.\<close>

datatype response_body = Body json | Unreadable int

datatype fetch_result = Rejected bool int | Responded int int response_body

definition known_failure :: "int \<Rightarrow> int \<Rightarrow> failure_class \<Rightarrow> ProviderOutcome" where
  "known_failure st latency cls = Failure \<lparr> fo_httpStatus = st, fo_latencyMs = latency, fo_classification = cls,
     fo_upstreamOutcomeUnknown = False, fo_assumedSpendMicroUsd = None \<rparr>"

definition worst_case :: "runtime \<Rightarrow> AuthorizedRequest \<Rightarrow> jsnum option" where
  "worst_case rt a = estimateWorstCaseMicroUsd rt (req_model (aq_request a)) (req_messages (aq_request a)) (max_tokens (aq_request a))"

definition unknownOutcome :: "runtime \<Rightarrow> AuthorizedRequest \<Rightarrow> int \<Rightarrow> failure_class \<Rightarrow> ProviderOutcome" where
  "unknownOutcome rt a latency cls = Failure \<lparr> fo_httpStatus = 0, fo_latencyMs = latency, fo_classification = cls,
     fo_upstreamOutcomeUnknown = True, fo_assumedSpendMicroUsd = worst_case rt a \<rparr>"

fun validUsage :: "json \<Rightarrow> int option" where
  "validUsage (JNum x) = (if isSafeInteger x \<and> 0 \<le> num_int x then Some (num_int x) else None)"
| "validUsage _ = None"

section \<open>Reading a response body\<close>

text \<open>Optional chaining \<open>v?.k\<close> and \<open>v?.[0]\<close>.\<close>

definition opt_prop :: "json \<Rightarrow> string \<Rightarrow> json" where
  "opt_prop v k = (case get_prop v k of Some w \<Rightarrow> w | None \<Rightarrow> JUndef)"

fun opt_first :: "json \<Rightarrow> json" where
  "opt_first (JArr (v # _)) = v"
| "opt_first (JStr (c # _)) = JStr [c]"
| "opt_first (JObj kvs) = opt_prop (JObj kvs) ''0''"
| "opt_first _ = JUndef"

datatype reading = Read jstr int int | Malformed | Read_threw

definition read_fields :: "jstr option \<Rightarrow> json \<Rightarrow> json \<Rightarrow> reading" where
  "read_fields content inTok outTok = (case (content, validUsage inTok, validUsage outTok) of
     (Some c, Some i, Some j) \<Rightarrow> Read c i j | _ \<Rightarrow> Malformed)"

text \<open>A body that is \<open>null\<close> makes the first property access throw.\<close>

definition read_openai :: "json \<Rightarrow> reading" where
  "read_openai body = (if body = JNull \<or> body = JUndef then Read_threw
     else read_fields (as_str (opt_prop (opt_prop (opt_first (opt_prop body ''choices'')) ''message'') ''content''))
            (opt_prop (opt_prop body ''usage'') ''prompt_tokens'') (opt_prop (opt_prop body ''usage'') ''completion_tokens''))"

fun is_object :: "json \<Rightarrow> bool" where
  "is_object (JObj _) = True"
| "is_object (JArr _) = True"
| "is_object _ = False"

fun block_texts :: "json list \<Rightarrow> jstr option" where
  "block_texts [] = Some []"
| "block_texts (b # bs) =
     (if \<not> is_object b then None
      else (case as_str (opt_prop b ''type'') of
              None \<Rightarrow> None
            | Some ty \<Rightarrow>
                if ty \<noteq> lit ''text'' then block_texts bs
                else (case as_str (opt_prop b ''text'') of
                        None \<Rightarrow> None
                      | Some t \<Rightarrow> map_option (\<lambda>rest. t @ rest) (block_texts bs))))"

fun anthropicText :: "json \<Rightarrow> jstr option" where
  "anthropicText (JArr blocks) = block_texts blocks"
| "anthropicText _ = None"

definition read_anthropic :: "json \<Rightarrow> reading" where
  "read_anthropic body = (if body = JNull \<or> body = JUndef then Read_threw
     else read_fields (anthropicText (opt_prop body ''content''))
            (opt_prop (opt_prop body ''usage'') ''input_tokens'') (opt_prop (opt_prop body ''usage'') ''output_tokens''))"

section \<open>The adapters\<close>

definition http_failure :: "int \<Rightarrow> failure_class" where
  "http_failure st = (if st = 401 \<or> st = 403 then auth_failed else if st = 429 then rate_limited else server_error)"

definition response_json :: "jstr \<Rightarrow> int \<Rightarrow> int \<Rightarrow> json" where
  "response_json content i j = JObj [(lit ''content'', JStr content), (lit ''inputTokens'', JInt i), (lit ''outputTokens'', JInt j)]"

text \<open>Everything after the bytes left: the \<open>try\<close> block around \<open>fetch\<close>, shared in shape by both adapters. A throw inside
  it (an unpriced or unhashable result, a \<open>null\<close> body) ends in the \<open>catch\<close>, as a \<open>server_error\<close> of unknown outcome.\<close>

fun after_fetch :: "runtime \<Rightarrow> AuthorizedRequest \<Rightarrow> jstr \<Rightarrow> (json \<Rightarrow> reading) \<Rightarrow> fetch_result \<Rightarrow> ProviderOutcome" where
  "after_fetch rt a reqHash read (Rejected aborted latency) =
     unknownOutcome rt a latency (if aborted then timeout else server_error)"
| "after_fetch rt a reqHash read (Responded st latency body) =
     (if 300 \<le> st \<and> st < 400 then known_failure st latency redirect_refused
      else if \<not> (200 \<le> st \<and> st < 300) then known_failure st latency (http_failure st)
      else (case body of
              Unreadable late \<Rightarrow> unknownOutcome rt a late malformed_response
            | Body js \<Rightarrow>
                (case read js of
                   Malformed \<Rightarrow> unknownOutcome rt a latency malformed_response
                 | Read_threw \<Rightarrow> unknownOutcome rt a latency server_error
                 | Read content i j \<Rightarrow>
                     (case (estimateCostMicroUsd rt (req_model (aq_request a)) i j, canonicalHash rt (response_json content i j)) of
                        (Some cost, Some h) \<Rightarrow>
                          Completed \<lparr> rp_content = content, rp_inputTokens = i, rp_outputTokens = j,
                            rp_estimatedCostMicroUsd = cost, rp_pricingTableDigest = PRICING_TABLE_DIGEST rt,
                            rp_upstreamRequestHash = reqHash, rp_upstreamResponseHash = lit ''0x'' @ h,
                            rp_httpStatus = st, rp_latencyMs = latency \<rparr>
                      | _ \<Rightarrow> unknownOutcome rt a latency server_error))))"

definition wire_message :: "CanonicalMessage \<Rightarrow> json" where
  "wire_message m = JObj [(lit ''role'', JStr (role_str (msg_role m))), (lit ''content'', JStr (msg_content m))]"

definition openai_body :: "runtime \<Rightarrow> CanonicalRequest \<Rightarrow> json" where
  "openai_body rt r = JObj [(lit ''model'', JStr (req_model r)), (lit ''messages'', JArr (map wire_message (req_messages r))),
     (lit ''temperature'', JNum (Fin (dbl rt (of_int (temperature_millis r) / 1000)))), (lit ''max_tokens'', JInt (max_tokens r))]"

definition ANTHROPIC_MAX_TEMPERATURE :: rat where
  "ANTHROPIC_MAX_TEMPERATURE = 1"

definition ANTHROPIC_MAX_OUTPUT_TOKENS :: int where
  "ANTHROPIC_MAX_OUTPUT_TOKENS = 64000"

definition anthropic_body :: "runtime \<Rightarrow> CanonicalRequest \<Rightarrow> json" where
  "anthropic_body rt r =
     (let system = join [10] (map msg_content (filter (\<lambda>m. msg_role m = System) (req_messages r)))
      in JObj ([(lit ''model'', JStr (req_model r)), (lit ''max_tokens'', JInt (min (max_tokens r) ANTHROPIC_MAX_OUTPUT_TOKENS))]
           @ (if system \<noteq> [] then [(lit ''system'', JStr system)] else [])
           @ [(lit ''messages'', JArr (map wire_message (filter (\<lambda>m. msg_role m \<noteq> System) (req_messages r)))),
              (lit ''temperature'', JNum (Fin (min (dbl rt (of_int (temperature_millis r) / 1000)) ANTHROPIC_MAX_TEMPERATURE)))]))"

datatype adapter_kind = OpenAICompatible | Anthropic

record adapter =
  ad_kind :: adapter_kind
  ad_name :: jstr
  ad_baseUrl :: jstr
  ad_models :: "jstr list"

text \<open>The environment of a call: the allowlist variable, the elapsed time read before the dispatch, the network.\<close>

record call_env =
  ce_allow :: jstr
  ce_preMs :: int
  ce_net :: "outbound \<Rightarrow> fetch_result"

definition complete_openai ::
  "runtime \<Rightarrow> call_env \<Rightarrow> jstr \<Rightarrow> AuthorizedRequest \<Rightarrow> AuthorizedCredential \<Rightarrow> outbound list \<times> ProviderOutcome" where
  "complete_openai rt ce baseUrl a c =
     (if assertPriced (req_model (aq_request a)) = None then ([], known_failure 0 (ce_preMs ce) unpriced_model)
      else let url = baseUrl @ lit ''/v1/chat/completions'' in
        if \<not> assertEgressAllowed rt (ce_allow ce) url then ([], known_failure 0 (ce_preMs ce) egress_denied)
        else let bodyJson = stringify rt (openai_body rt (aq_request a));
                 out = \<lparr> out_url = url, out_headers = [(lit ''content-type'', lit ''application/json''),
                           (lit ''authorization'', lit ''Bearer '' @ ac_secret c)], out_body = bodyJson \<rparr>
             in ([out], after_fetch rt a (lit ''0x'' @ sha256Hex rt (utf8 bodyJson)) read_openai (ce_net ce out)))"

definition complete_anthropic ::
  "runtime \<Rightarrow> call_env \<Rightarrow> jstr \<Rightarrow> AuthorizedRequest \<Rightarrow> AuthorizedCredential \<Rightarrow> outbound list \<times> ProviderOutcome" where
  "complete_anthropic rt ce baseUrl a c =
     (if assertPriced (req_model (aq_request a)) = None then ([], known_failure 0 (ce_preMs ce) unpriced_model)
      else let url = baseUrl @ lit ''/v1/messages'' in
        if \<not> assertEgressAllowed rt (ce_allow ce) url then ([], known_failure 0 (ce_preMs ce) egress_denied)
        else let bodyJson = stringify rt (anthropic_body rt (aq_request a));
                 out = \<lparr> out_url = url, out_headers = [(lit ''content-type'', lit ''application/json''),
                           (lit ''x-api-key'', ac_secret c), (lit ''anthropic-version'', lit ''2023-06-01'')], out_body = bodyJson \<rparr>
             in ([out], after_fetch rt a (lit ''0x'' @ sha256Hex rt (utf8 bodyJson)) read_anthropic (ce_net ce out)))"

definition complete :: "runtime \<Rightarrow> call_env \<Rightarrow> adapter \<Rightarrow> AuthorizedRequest \<Rightarrow> AuthorizedCredential \<Rightarrow> outbound list \<times> ProviderOutcome" where
  "complete rt ce ad a c = (case ad_kind ad of
     OpenAICompatible \<Rightarrow> complete_openai rt ce (ad_baseUrl ad) a c
   | Anthropic \<Rightarrow> complete_anthropic rt ce (ad_baseUrl ad) a c)"

definition supportsModel :: "adapter \<Rightarrow> jstr \<Rightarrow> bool" where
  "supportsModel ad model \<longleftrightarrow> model \<in> set (ad_models ad) \<and> isPriced model"

definition catalog_models :: "string \<Rightarrow> jstr list" where
  "catalog_models p = (case map_of MODEL_CATALOG (lit p) of Some ms \<Rightarrow> ms | None \<Rightarrow> [])"

definition buildRegistry :: "jstr \<Rightarrow> (jstr \<times> adapter) list" where
  "buildRegistry mockUrl =
     [(lit ''mock'', \<lparr> ad_kind = OpenAICompatible, ad_name = lit ''mock'', ad_baseUrl = mockUrl, ad_models = catalog_models ''mock'' \<rparr>),
      (lit ''openai'', \<lparr> ad_kind = OpenAICompatible, ad_name = lit ''openai'', ad_baseUrl = lit ''https://api.openai.com'', ad_models = catalog_models ''openai'' \<rparr>),
      (lit ''anthropic'', \<lparr> ad_kind = Anthropic, ad_name = lit ''anthropic'', ad_baseUrl = lit ''https://api.anthropic.com'', ad_models = catalog_models ''anthropic'' \<rparr>)]"

text \<open>\<open>GET /providers\<close>: the registry, sorted by provider.\<close>

definition getProviders :: "runtime \<Rightarrow> (jstr \<times> adapter) list \<Rightarrow> (jstr \<times> jstr list) list" where
  "getProviders rt registry =
     js_sort (\<lambda>x y. locale_compare rt (fst x) (fst y)) (map (\<lambda>(p, ad). (p, ad_models ad)) registry)"

section \<open>The adapter contract\<close>

definition PRE_DISPATCH_CLASSIFICATIONS :: "failure_class list" where
  "PRE_DISPATCH_CLASSIFICATIONS = [egress_denied, unpriced_model]"

text \<open>What the routing loop relies on: at most one request leaves; the two pre-dispatch classes mean exactly that none
  did, and come with status 0; everything that leaves goes to an allowed host and carries the credential's key in one
  header; an unknown outcome follows a dispatch and assumes the worst case; a success is bound to the bytes sent.\<close>

locale provider_adapter =
  fixes call :: "AuthorizedRequest \<Rightarrow> AuthorizedCredential \<Rightarrow> outbound list \<times> ProviderOutcome"
    and allowed :: "jstr \<Rightarrow> bool"
    and worst :: "AuthorizedRequest \<Rightarrow> jsnum option"
    and digest :: "jstr \<Rightarrow> jstr"
  assumes single: "length (fst (call a c)) \<le> 1"
    and quiet_iff: "fst (call a c) = [] \<longleftrightarrow>
        (\<exists>f. snd (call a c) = Failure f \<and> fo_classification f \<in> set PRE_DISPATCH_CLASSIFICATIONS)"
    and quiet_status: "snd (call a c) = Failure f \<Longrightarrow> fo_classification f \<in> set PRE_DISPATCH_CLASSIFICATIONS \<Longrightarrow>
        fo_httpStatus f = 0 \<and> \<not> fo_upstreamOutcomeUnknown f"
    and egress: "q \<in> set (fst (call a c)) \<Longrightarrow> allowed (out_url q)"
    and key_use: "q \<in> set (fst (call a c)) \<Longrightarrow> \<exists>k pre. (k, pre @ ac_secret c) \<in> set (out_headers q)"
    and unknown_spend: "snd (call a c) = Failure f \<Longrightarrow> fo_upstreamOutcomeUnknown f \<Longrightarrow> fo_assumedSpendMicroUsd f = worst a"
    and bound: "snd (call a c) = Completed r \<Longrightarrow> \<exists>q. fst (call a c) = [q] \<and> rp_upstreamRequestHash r = digest (out_body q)"
begin

lemma sent_or_quiet: "fst (call a c) = [] \<or> (\<exists>q. fst (call a c) = [q])"
  using single [of a c] by (cases "fst (call a c)") auto

lemma loud_failure_sent:
  "snd (call a c) = Failure f \<Longrightarrow> fo_classification f \<notin> set PRE_DISPATCH_CLASSIFICATIONS \<Longrightarrow> \<exists>q. fst (call a c) = [q]"
  using sent_or_quiet [of a c] quiet_iff [of a c] by auto

lemma unknown_was_sent: "snd (call a c) = Failure f \<Longrightarrow> fo_upstreamOutcomeUnknown f \<Longrightarrow> \<exists>q. fst (call a c) = [q]"
  using sent_or_quiet [of a c] quiet_iff [of a c] quiet_status [of a c f] by auto

end

lemmas outcome_defs = known_failure_def unknownOutcome_def http_failure_def PRE_DISPATCH_CLASSIFICATIONS_def

lemma after_fetch_not_quiet:
  "after_fetch rt a h rd r = Failure f \<Longrightarrow> fo_classification f \<notin> set PRE_DISPATCH_CLASSIFICATIONS"
  by (cases r) (auto simp: outcome_defs split: if_splits response_body.splits reading.splits option.splits)

lemma after_fetch_unknown:
  "after_fetch rt a h rd r = Failure f \<Longrightarrow> fo_upstreamOutcomeUnknown f \<Longrightarrow> fo_assumedSpendMicroUsd f = worst_case rt a"
  by (cases r) (auto simp: outcome_defs split: if_splits response_body.splits reading.splits option.splits)

lemma after_fetch_hash: "after_fetch rt a h rd r = Completed p \<Longrightarrow> rp_upstreamRequestHash p = h"
  by (cases r) (auto simp: outcome_defs split: if_splits response_body.splits reading.splits option.splits)

lemma after_fetch_completed:
  assumes "after_fetch rt a h rd r = Completed p"
  shows "\<exists>js i j. (\<exists>st lat. r = Responded st lat (Body js) \<and> 200 \<le> st \<and> st < 300) \<and> rd js = Read (rp_content p) i j
     \<and> rp_inputTokens p = i \<and> rp_outputTokens p = j
     \<and> estimateCostMicroUsd rt (req_model (aq_request a)) i j = Some (rp_estimatedCostMicroUsd p)"
  using assms by (cases r) (auto simp: outcome_defs split: if_splits response_body.splits reading.splits option.splits)

lemma known_not_completed [simp]: "known_failure s l k \<noteq> Completed r"
  by (simp add: known_failure_def)

interpretation oai: provider_adapter "complete_openai rt ce base" "assertEgressAllowed rt (ce_allow ce)" "worst_case rt"
    "\<lambda>b. lit ''0x'' @ sha256Hex rt (utf8 b)" for rt ce base
  by unfold_locales
     (auto simp: complete_openai_def Let_def dest: after_fetch_not_quiet after_fetch_unknown after_fetch_hash split: if_splits,
      auto simp: outcome_defs)

interpretation ant: provider_adapter "complete_anthropic rt ce base" "assertEgressAllowed rt (ce_allow ce)" "worst_case rt"
    "\<lambda>b. lit ''0x'' @ sha256Hex rt (utf8 b)" for rt ce base
  by unfold_locales
     (auto simp: complete_anthropic_def Let_def dest: after_fetch_not_quiet after_fetch_unknown after_fetch_hash split: if_splits,
      auto simp: outcome_defs)

lemma complete_kinds:
  "ad_kind ad = OpenAICompatible \<Longrightarrow> complete rt ce ad = complete_openai rt ce (ad_baseUrl ad)"
  "ad_kind ad = Anthropic \<Longrightarrow> complete rt ce ad = complete_anthropic rt ce (ad_baseUrl ad)"
  by (simp_all add: fun_eq_iff complete_def)

interpretation reg: provider_adapter "complete rt ce ad" "assertEgressAllowed rt (ce_allow ce)" "worst_case rt"
    "\<lambda>b. lit ''0x'' @ sha256Hex rt (utf8 b)" for rt ce ad
  by (cases "ad_kind ad") (simp_all add: complete_kinds oai.provider_adapter_axioms ant.provider_adapter_axioms)

section \<open>Accounting for every answer\<close>

lemma read_usage:
  "read_openai js = Read t i j \<Longrightarrow> 0 \<le> i \<and> 0 \<le> j" "read_anthropic js = Read t i j \<Longrightarrow> 0 \<le> i \<and> 0 \<le> j"
proof -
  have v: "validUsage x = Some n \<Longrightarrow> 0 \<le> n" for x n by (cases x) (auto split: if_splits)
  have f: "read_fields c x y = Read t i j \<Longrightarrow> 0 \<le> i \<and> 0 \<le> j" for c x y
    by (auto simp: read_fields_def dest: v split: option.splits)
  show "read_openai js = Read t i j \<Longrightarrow> 0 \<le> i \<and> 0 \<le> j" "read_anthropic js = Read t i j \<Longrightarrow> 0 \<le> i \<and> 0 \<le> j"
    by (auto simp: read_openai_def read_anthropic_def dest: f split: if_splits)
qed

lemma complete_sent_exact:
  assumes "fst (complete rt ce ad a c) = [q]"
  obtains rd where "rd = read_openai \<or> rd = read_anthropic"
    "snd (complete rt ce ad a c) = after_fetch rt a (lit ''0x'' @ sha256Hex rt (utf8 (out_body q))) rd (ce_net ce q)"
proof (cases "ad_kind ad")
  case OpenAICompatible
  with assms show thesis
    by (intro that [of read_openai]) (auto simp: complete_kinds complete_openai_def Let_def split: if_splits)
next
  case Anthropic
  with assms show thesis
    by (intro that [of read_anthropic]) (auto simp: complete_kinds complete_anthropic_def Let_def split: if_splits)
qed

lemma complete_sent:
  assumes "fst (complete rt ce ad a c) = [q]"
  obtains rd h where "rd = read_openai \<or> rd = read_anthropic" "snd (complete rt ce ad a c) = after_fetch rt a h rd (ce_net ce q)"
  using assms by (rule complete_sent_exact) (rule that)

definition endpoint :: "adapter \<Rightarrow> jstr" where
  "endpoint ad = ad_baseUrl ad @ (case ad_kind ad of OpenAICompatible \<Rightarrow> lit ''/v1/chat/completions'' | Anthropic \<Rightarrow> lit ''/v1/messages'')"

lemma complete_nothing_sent:
  "fst (complete rt ce ad a c) = [] \<longleftrightarrow>
     assertPriced (req_model (aq_request a)) = None \<or> \<not> assertEgressAllowed rt (ce_allow ce) (endpoint ad)"
  by (cases "ad_kind ad") (auto simp: complete_def complete_openai_def complete_anthropic_def endpoint_def Let_def)

lemma complete_sent_to: "fst (complete rt ce ad a c) = [q] \<Longrightarrow> out_url q = endpoint ad"
  by (cases "ad_kind ad")
     (auto simp: complete_def complete_openai_def complete_anthropic_def endpoint_def Let_def split: if_splits)

text \<open>The answer of the network decides what the adapter reports.\<close>

definition accounted :: "runtime \<Rightarrow> AuthorizedRequest \<Rightarrow> outbound \<Rightarrow> fetch_result \<Rightarrow> ProviderOutcome \<Rightarrow> bool" where
  "accounted rt a q answer outcome \<longleftrightarrow> (case answer of
      Rejected aborted latency \<Rightarrow> (\<exists>f. outcome = Failure f \<and> fo_upstreamOutcomeUnknown f \<and> fo_assumedSpendMicroUsd f = worst_case rt a
        \<and> fo_classification f = (if aborted then timeout else server_error))
    | Responded st latency body \<Rightarrow>
        if 200 \<le> st \<and> st < 300
        then (\<exists>r js. outcome = Completed r \<and> body = Body js \<and> rp_httpStatus r = st \<and> 0 \<le> rp_inputTokens r \<and> 0 \<le> rp_outputTokens r
                \<and> estimateCostMicroUsd rt (req_model (aq_request a)) (rp_inputTokens r) (rp_outputTokens r) = Some (rp_estimatedCostMicroUsd r)
                \<and> rp_upstreamRequestHash r = lit ''0x'' @ sha256Hex rt (utf8 (out_body q)))
           \<or> (\<exists>f. outcome = Failure f \<and> fo_upstreamOutcomeUnknown f \<and> fo_assumedSpendMicroUsd f = worst_case rt a
                \<and> fo_classification f \<in> {malformed_response, server_error})
        else (\<exists>f. outcome = Failure f \<and> \<not> fo_upstreamOutcomeUnknown f \<and> fo_httpStatus f = st \<and> fo_latencyMs f = latency
                \<and> fo_classification f = (if 300 \<le> st \<and> st < 400 then redirect_refused
                    else if st = 401 \<or> st = 403 then auth_failed else if st = 429 then rate_limited else server_error)))"

lemma after_fetch_accounted:
  assumes "rd = read_openai \<or> rd = read_anthropic"
  shows "accounted rt a q answer (after_fetch rt a (lit ''0x'' @ sha256Hex rt (utf8 (out_body q))) rd answer)"
proof (cases answer)
  case (Rejected aborted latency)
  then show ?thesis by (simp add: accounted_def outcome_defs)
next
  case (Responded st latency body)
  have usage: "0 \<le> i \<and> 0 \<le> j" if "rd js = Read t i j" for js t i j using assms that read_usage by auto
  show ?thesis
    by (auto simp: accounted_def Responded outcome_defs dest: usage split: response_body.splits reading.splits option.splits)
qed

text \<open>C15. Every call of an adapter is accounted for. No request leaves exactly when the outcome is one of the two
  pre-dispatch classes, which happens exactly when the model has no price or the adapter's endpoint is not on the
  egress allowlist, and then the failure is of status 0 and known outcome. Otherwise exactly one request leaves, to that
  endpoint, and the network's answer decides: a 3xx is \<open>redirect_refused\<close>, 401 and 403 are \<open>auth_failed\<close>, 429 is
  \<open>rate_limited\<close>, any other non-2xx a \<open>server_error\<close>, all with that status; a 2xx is a success with non-negative token
  counts, the estimate of exactly those counts and the hash of the bytes sent, or an unknown outcome that assumes the
  worst case; so is a lost connection or a timeout. A 200 is never a free success.\<close>

theorem no_unaccounted_dispatch:
  assumes "complete rt ce ad a c = (sent, outcome)"
  shows "(sent = [] \<longleftrightarrow> (\<exists>f. outcome = Failure f \<and> fo_classification f \<in> {egress_denied, unpriced_model}))
    \<and> (sent = [] \<longleftrightarrow> assertPriced (req_model (aq_request a)) = None \<or> \<not> assertEgressAllowed rt (ce_allow ce) (endpoint ad))
    \<and> (sent = [] \<longrightarrow> (\<exists>f. outcome = Failure f \<and> fo_httpStatus f = 0 \<and> \<not> fo_upstreamOutcomeUnknown f))
    \<and> (sent \<noteq> [] \<longrightarrow> (\<exists>q. sent = [q] \<and> out_url q = endpoint ad \<and> accounted rt a q (ce_net ce q) outcome))"
proof -
  have s: "fst (complete rt ce ad a c) = sent" "snd (complete rt ce ad a c) = outcome" using assms by simp_all
  have quiet: "sent = [] \<longleftrightarrow> (\<exists>f. outcome = Failure f \<and> fo_classification f \<in> {egress_denied, unpriced_model})"
    using reg.quiet_iff [of rt ce ad a c] by (auto simp: s PRE_DISPATCH_CLASSIFICATIONS_def)
  moreover have "\<exists>f. outcome = Failure f \<and> fo_httpStatus f = 0 \<and> \<not> fo_upstreamOutcomeUnknown f" if "sent = []"
    using that quiet reg.quiet_status [of rt ce ad a c] by (auto simp: s PRE_DISPATCH_CLASSIFICATIONS_def)
  moreover have "\<exists>q. sent = [q] \<and> out_url q = endpoint ad \<and> accounted rt a q (ce_net ce q) outcome" if ne: "sent \<noteq> []"
  proof -
    from ne obtain q where q: "fst (complete rt ce ad a c) = [q]" using reg.sent_or_quiet [of rt ce ad a c] s by auto
    from q obtain rd where "rd = read_openai \<or> rd = read_anthropic"
      "outcome = after_fetch rt a (lit ''0x'' @ sha256Hex rt (utf8 (out_body q))) rd (ce_net ce q)"
      using complete_sent_exact s(2) by metis
    with q show ?thesis using after_fetch_accounted complete_sent_to [OF q] s(1) by auto
  qed
  ultimately show ?thesis using complete_nothing_sent [of rt ce ad a c] unfolding s(1) by (intro conjI impI)
qed

definition sample_net :: "outbound \<Rightarrow> fetch_result" where
  "sample_net q = Responded 200 5 (Body (JObj []))"

definition sample_adapter :: adapter where
  "sample_adapter = \<lparr> ad_kind = OpenAICompatible, ad_name = lit ''openai'', ad_baseUrl = lit ''https://api.openai.com'', ad_models = [lit ''ctn/demo-model-a''] \<rparr>"

definition sample_env :: call_env where
  "sample_env = \<lparr> ce_allow = [], ce_preMs = 0, ce_net = sample_net \<rparr>"

definition sample_credential :: AuthorizedCredential where
  "sample_credential = \<lparr> ac_credentialId = lit ''c1'', ac_contributorId = lit ''u1'', ac_provider = lit ''openai'', ac_secret = lit ''sk-1'', ac_capability = sample_capability \<rparr>"

lemma sample_egress: "assertEgressAllowed sample_runtime extra (lit ''https://api.openai.com/v1/chat/completions'')"
proof -
  have "parse_url sample_runtime (lit ''https://api.openai.com/v1/chat/completions'') = Some (lit ''https:'', lit ''api.openai.com'', [])"
    by (simp add: sample_parse_url_def starts_with_def lit_def)
  then show ?thesis by (simp add: assertEgressAllowed_def allowlist_def Let_def) (simp add: lit_def)
qed

lemma sample_priced: "assertPriced (lit ''ctn/demo-model-a'') = Some ()"
  by (simp add: assertPriced_def price_def PRICING_TABLE_def)

lemma sample_sent: "\<exists>q. fst (complete sample_runtime sample_env sample_adapter sample_authorized sample_credential) = [q]"
proof -
  have u: "lit ''https://api.openai.com'' @ lit ''/v1/chat/completions'' = lit ''https://api.openai.com/v1/chat/completions''" by (simp add: lit_def)
  show ?thesis using sample_egress sample_priced
    by (simp add: complete_def sample_adapter_def complete_openai_def sample_authorized_def u Let_def)
qed

theorem no_unaccounted_dispatch_witness:
  "\<exists>f. snd (complete sample_runtime sample_env sample_adapter sample_authorized sample_credential) = Failure f
     \<and> fo_classification f = malformed_response \<and> fo_assumedSpendMicroUsd f = worst_case sample_runtime sample_authorized"
proof -
  obtain q where q: "fst (complete sample_runtime sample_env sample_adapter sample_authorized sample_credential) = [q]" using sample_sent by blast
  from complete_sent [OF q] obtain rd h where rd: "rd = read_openai \<or> rd = read_anthropic"
    "snd (complete sample_runtime sample_env sample_adapter sample_authorized sample_credential) = after_fetch sample_runtime sample_authorized h rd (ce_net sample_env q)" .
  have "rd (JObj []) = Malformed" using rd(1)
    by (auto simp: read_openai_def read_anthropic_def opt_prop_def read_fields_def)
  then have u: "snd (complete sample_runtime sample_env sample_adapter sample_authorized sample_credential) = unknownOutcome sample_runtime sample_authorized 5 malformed_response"
    using rd(2) by (simp add: sample_env_def sample_net_def)
  from no_unaccounted_dispatch [OF prod.collapse [symmetric]] q u show ?thesis
    by (fastforce simp: accounted_def sample_env_def sample_net_def unknownOutcome_def)
qed

end
