(* ===== verification/Gate.thy ===== *)
theory Gate
  imports Pending_Gates Prover Insights Providers
begin

text \<open>
  The gate of the enclave (\<open>gateRequest\<close>, \<open>witnessFor\<close>, \<open>replyGateError\<close>, \<^verbatim>\<open>POST /gate\<close> and
  \<^verbatim>\<open>POST /policy-test\<close> of \<^verbatim>\<open>services/tee-sim/src/index.ts\<close>) and the state of the process. \<open>gateRequest\<close> is cut
  where it awaits: \<open>gate_open\<close> up to the decryption, \<open>gate_admit\<close> up to the call of the guest executor,
  \<open>gate_finish\<close> after its answer; \<open>gateRequest\<close> composes the three, with what other handlers did in between as
  an argument. A decrypted payload is any JSON value: every access to it that can throw is a branch.
\<close>

section \<open>State\<close>

record GateOutcome =
  go_requestId :: jstr
  go_canonical :: CanonicalRequest
  go_payload :: json
  go_commitment :: jstr
  go_decision :: PolicyDecision
  go_authorized :: "AuthorizedRequest option"
  go_decisionReceipt :: SignedPolicyDecisionReceiptV1
  go_gateWallMs :: int
  go_decryptMs :: int

text \<open>\<open>Map\<close> keys compare by value for primitives and by identity for objects, so a nonce that is an object or an
  array carries the identity of the parsed value.\<close>

fun nonce_key :: "nat \<Rightarrow> json \<Rightarrow> json \<times> nat" where
  "nonce_key ref (JObj kvs) = (JObj kvs, Suc ref)"
| "nonce_key ref (JArr vs) = (JArr vs, Suc ref)"
| "nonce_key ref v = (v, 0)"

record enclave = ingest_state +
  en_seenNonces :: "((json \<times> nat) \<times> int) list"
  en_pending :: "GateOutcome PendingGates"
  en_prover :: prover_state
  en_insights :: BulletinAccumulator

definition enclave_boot :: enclave where
  "enclave_boot = \<lparr> st_guestHealth = None, st_consumedIntentDigests = [], en_seenNonces = [],
     en_pending = pendingGates, en_prover = prover_boot, en_insights = newAccumulator \<rparr>"

text \<open>What is fixed at boot: libraries, keys, vault key, registry, rule package, pinned manifest.\<close>

record enclave_cfg =
  ec_rt :: runtime
  ec_lib :: crypto_lib
  ec_tee :: SimulatedTEE
  ec_vaultKey :: "byte list"
  ec_registry :: "(jstr \<times> adapter) list"
  ec_rules :: PolicyRules
  ec_policyId :: jstr
  ec_manifest :: ReleaseManifest

text \<open>What one call reads from outside: clocks, random values, the daemon, the engine's text for a \<open>TypeError\<close>.\<close>

record gate_io =
  gi_now :: int
  gi_ref :: nat
  gi_decryptMs :: int
  gi_gateMs :: int
  gi_proofNonce :: jstr
  gi_daemon :: daemon
  gi_engineText :: jstr
  gi_startedAt :: int
  gi_jobNonce :: jstr
  gi_job :: run_io
  gi_parkAt :: int

datatype gate_error = GE_ProverUnavailable | GE_CommitmentMismatch | GateError int string jstr | GE_Other

section \<open>gateRequest\<close>

definition gate_open :: "enclave_cfg \<Rightarrow> gate_io \<Rightarrow> SecureRequestEnvelope option \<Rightarrow> gate_error + SecureRequestEnvelope \<times> json \<times> int" where
  "gate_open cfg io envelope =
     (case envelope of
        None \<Rightarrow> Inl (GateError 400 ''CTN_INVALID_ENVELOPE'' (lit ''bad envelope version''))
      | Some env \<Rightarrow>
          if env_version env \<noteq> lit ''ctn-1'' then Inl (GateError 400 ''CTN_INVALID_ENVELOPE'' (lit ''bad envelope version''))
          else if env_enclaveKeyId env \<noteq> tee_enclaveKeyId (ec_tee cfg)
          then Inl (GateError 400 ''CTN_INVALID_ENVELOPE'' (lit ''envelope encrypted to an unknown enclave key id''))
          else (case canonicalJson (ec_rt cfg) (aad_json (env_aad env)) of
                  None \<Rightarrow> Inl GE_Other
                | Some aad \<Rightarrow>
                    (case Option.bind (openIngress (ec_lib cfg) (ec_tee cfg) (env_enc env) (env_ciphertext env) (Some (utf8 aad)))
                            (\<lambda>opened. json_parse (ec_rt cfg) (text_decode opened)) of
                       None \<Rightarrow> Inl (GateError 400 ''CTN_INVALID_ENVELOPE'' (lit ''envelope failed authenticated decryption''))
                     | Some payload \<Rightarrow> Inr (env, payload, max 1 (gi_decryptMs io)))))"

record gate_ticket =
  gt_requestId :: jstr
  gt_payload :: json
  gt_nonce :: json
  gt_canonical :: CanonicalRequest
  gt_bytes :: jstr
  gt_decryptMs :: int

fun canon_message_text :: "gate_io \<Rightarrow> canon_error \<Rightarrow> jstr" where
  "canon_message_text io (CanonicalizationError m) = m"
| "canon_message_text io TypeError = gi_engineText io"

definition gate_admit ::
  "enclave_cfg \<Rightarrow> gate_io \<Rightarrow> SecureRequestEnvelope \<times> json \<times> int \<Rightarrow> 'z enclave_scheme \<Rightarrow> (gate_error + gate_ticket) \<times> 'z enclave_scheme" where
  "gate_admit cfg io opened s = (case opened of (env, payload, decryptMs) \<Rightarrow>
     (case get_prop payload ''requestNonce'' of
        None \<Rightarrow> (Inl GE_Other, s)
      | Some nonce \<Rightarrow>
          (let (fresh, seen) = rememberNonce (gi_now io) (nonce_key (gi_ref io) nonce) (en_seenNonces s);
               s1 = s\<lparr> en_seenNonces := seen \<rparr> in
           if \<not> fresh then (Inl (GateError 409 ''CTN_INVALID_ENVELOPE'' (lit ''request nonce already used (replay rejected)'')), s1)
           else (case toCanonicalRequest (ec_rt cfg) (the (get_prop payload ''request'')) of
                   Inl e \<Rightarrow> (Inl (GateError 400 ''CTN_INVALID_ENVELOPE'' (canon_message_text io e)), s1)
                 | Inr canonical \<Rightarrow>
                     if aad_model (env_aad env) \<noteq> req_model canonical
                     then (Inl (GateError 400 ''CTN_INVALID_ENVELOPE'' (lit ''routing header model does not match the sealed request model'')), s1)
                     else (case canonicalJson (ec_rt cfg) (request_json canonical) of
                             None \<Rightarrow> (Inl GE_Other, s1)
                           | Some bytes \<Rightarrow>
                               (Inr \<lparr> gt_requestId = env_requestId env, gt_payload = payload, gt_nonce = nonce, gt_canonical = canonical,
                                      gt_bytes = bytes, gt_decryptMs = decryptMs \<rparr>, s1))))))"

definition gate_execute :: "gate_io \<Rightarrow> gate_ticket \<Rightarrow> gate_error + GuestExecution" where
  "gate_execute io tk =
     (case execute (gi_daemon io) (gt_bytes tk) (gt_nonce tk) (gi_proofNonce io) True of
        ProverOk x \<Rightarrow> Inr x
      | ProverUnavailable _ \<Rightarrow> Inl GE_ProverUnavailable
      | ProverFault _ \<Rightarrow> Inl (GateError 500 ''CTN_INTERNAL'' (lit ''the guest executor rejected the gate request'')))"

definition gate_journal :: "enclave_cfg \<Rightarrow> gate_ticket \<Rightarrow> PolicyJournal \<Rightarrow> int \<Rightarrow> (gate_decision \<times> jstr) guarded" where
  "gate_journal cfg tk journal gateWallMs =
     (case as_str (gt_nonce tk) of
        None \<Rightarrow> Threw
      | Some nonce \<Rightarrow> fromGuestJournal (ec_rt cfg) (gt_canonical tk) nonce journal gateWallMs)"

text \<open>The classifier reads the decrypted messages, before canonicalization.\<close>

definition raw_pairs :: "json \<Rightarrow> (jstr \<times> jstr) list" where
  "raw_pairs payload = (case get_prop (the (get_prop payload ''request'')) ''messages'' of
     Some (JArr ms) \<Rightarrow> map (\<lambda>m. (str_or (get_prop m ''role'') '''', str_or (get_prop m ''content'') '''')) ms
   | _ \<Rightarrow> [])"

definition gate_classify :: "enclave_cfg \<Rightarrow> gate_ticket \<Rightarrow> GuestExecution \<Rightarrow> PolicyDecision \<Rightarrow> Facet" where
  "gate_classify cfg tk x decision =
     (let cats = (case gx_privateScores x of Some cs \<Rightarrow> cs | None \<Rightarrow> []) in
      classify (normalize_text (ec_rt cfg) (requestText (raw_pairs (gt_payload tk)))) decision
        (fold (\<lambda>c. map_put (pcs_category c) (pcs_score c)) cats [])
        (fold (\<lambda>c. map_put (pcs_category c) (pcs_threshold c)) cats []))"

fun gate_verdict :: "gate_decision \<Rightarrow> PolicyDecision" where
  "gate_verdict (GateAllow _) = ALLOW"
| "gate_verdict GateDeny = DENY"

fun gate_authorized :: "gate_decision \<Rightarrow> AuthorizedRequest option" where
  "gate_authorized (GateAllow a) = Some a"
| "gate_authorized GateDeny = None"

definition gate_finish ::
  "enclave_cfg \<Rightarrow> gate_io \<Rightarrow> gate_ticket \<Rightarrow> 'z enclave_scheme \<Rightarrow> (gate_error + GateOutcome) \<times> 'z enclave_scheme" where
  "gate_finish cfg io tk s =
     (case gate_execute io tk of
        Inl e \<Rightarrow> (Inl e, s)
      | Inr x \<Rightarrow>
          (let gateWallMs = max 1 (gi_gateMs io) in
           (case gate_journal cfg tk (gx_journal x) gateWallMs of
              Threw \<Rightarrow> (Inl GE_Other, s)
            | CommitmentMismatch \<Rightarrow> (Inl GE_CommitmentMismatch, s)
            | Guarded (gate, commitment) \<Rightarrow>
                (case getGuestHealth (gi_daemon io) s of
                   (ProverOk h, s1) \<Rightarrow>
                     (let rcpt = \<lparr> dr_requestId = gt_requestId tk, dr_requestCommitment = commitment,
                            dr_policyId = jr_policyId (gx_journal x), dr_decision = gate_verdict gate,
                            dr_imageId = ph_imageIdHex h, dr_gateWallMs = gateWallMs \<rparr> in
                      (case signReceipt (ec_rt cfg) (ec_tee cfg) (decision_receipt_json rcpt) of
                         None \<Rightarrow> (Inl GE_Other, s1)
                       | Some sg \<Rightarrow>
                           (Inr \<lparr> go_requestId = gt_requestId tk, go_canonical = gt_canonical tk, go_payload = gt_payload tk,
                                  go_commitment = commitment, go_decision = gate_verdict gate, go_authorized = gate_authorized gate,
                                  go_decisionReceipt = \<lparr> sdr_receipt = rcpt, sdr_enclaveSignature = sg \<rparr>,
                                  go_gateWallMs = gateWallMs, go_decryptMs = gt_decryptMs tk \<rparr>,
                            s1\<lparr> en_insights := record_request (gate_classify cfg tk x (gate_verdict gate)) (gate_verdict gate) (en_insights s1) \<rparr>)))
                 | (ProverUnavailable _, s1) \<Rightarrow> (Inl GE_ProverUnavailable, s1)
                 | (ProverFault _, s1) \<Rightarrow> (Inl GE_Other, s1)))))"

definition gateRequest ::
  "enclave_cfg \<Rightarrow> gate_io \<Rightarrow> ('z enclave_scheme \<Rightarrow> 'z enclave_scheme) \<Rightarrow> ('z enclave_scheme \<Rightarrow> 'z enclave_scheme)
   \<Rightarrow> SecureRequestEnvelope option \<Rightarrow> 'z enclave_scheme \<Rightarrow> (gate_error + GateOutcome) \<times> 'z enclave_scheme" where
  "gateRequest cfg io opening executing envelope s =
     (case gate_open cfg io envelope of
        Inl e \<Rightarrow> (Inl e, s)
      | Inr opened \<Rightarrow>
          (case gate_admit cfg io opened (opening s) of
             (Inl e, s1) \<Rightarrow> (Inl e, s1)
           | (Inr tk, s1) \<Rightarrow> gate_finish cfg io tk (executing s1)))"

fun replyGateError :: "gate_error \<Rightarrow> 'a enclave_reply" where
  "replyGateError GE_ProverUnavailable = Refused 503 ''PROVER_UNAVAILABLE'' (lit ''the guest executor (policy gate) is unavailable'')"
| "replyGateError GE_CommitmentMismatch =
     Refused 500 ''CTN_COMMITMENT_MISMATCH'' (lit ''guest journal commitment does not match the enclave recomputation'')"
| "replyGateError (GateError st code m) = Refused st code m"
| "replyGateError GE_Other = Crashed"

definition witnessFor :: "enclave_cfg \<Rightarrow> GateOutcome \<Rightarrow> ProofWitness option" where
  "witnessFor cfg outcome = map_option (\<lambda>t. \<lparr> pw_canonicalRequest = t,
      pw_requestNonce = str_or (get_prop (go_payload outcome) ''requestNonce'') '''',
      pw_requestCommitment = go_commitment outcome, pw_decision = go_decision outcome,
      pw_decisionReceipt = sdr_receipt (go_decisionReceipt outcome) \<rparr>)
     (canonicalJson (ec_rt cfg) (request_json (go_canonical outcome)))"

section \<open>POST /gate\<close>

record gate_reply = GateResult +
  gy_requestId :: jstr
  gy_model :: jstr
  gy_enclaveDecryptMs :: int

definition start_proof :: "enclave_cfg \<Rightarrow> gate_io \<Rightarrow> jstr \<Rightarrow> ProofWitness \<Rightarrow> 'z enclave_scheme \<Rightarrow> 'z enclave_scheme" where
  "start_proof cfg io requestId w s = s\<lparr> en_prover := start (ec_rt cfg) (ec_tee cfg) (ec_rules cfg) (ec_manifest cfg)
     requestId w (gi_startedAt io) (gi_jobNonce io) (gi_job io) (en_prover s) \<rparr>"

definition gate_body :: "GateOutcome \<Rightarrow> gate_reply" where
  "gate_body outcome = \<lparr> gr_decision = go_decision outcome, gr_commitment = go_commitment outcome,
     gr_policyId = dr_policyId (sdr_receipt (go_decisionReceipt outcome)), gr_imageId = dr_imageId (sdr_receipt (go_decisionReceipt outcome)),
     gr_decisionReceipt = go_decisionReceipt outcome, gr_proofStarted = True, gr_gateWallMs = go_gateWallMs outcome,
     gy_requestId = go_requestId outcome, gy_model = req_model (go_canonical outcome), gy_enclaveDecryptMs = go_decryptMs outcome \<rparr>"

definition gate_park ::
  "enclave_cfg \<Rightarrow> gate_io \<Rightarrow> (gate_error + GateOutcome) \<times> 'z enclave_scheme \<Rightarrow> gate_reply enclave_reply \<times> 'z enclave_scheme" where
  "gate_park cfg io r = (case r of
      (Inl e, s) \<Rightarrow> (replyGateError e, s)
    | (Inr outcome, s) \<Rightarrow>
        (case witnessFor cfg outcome of
           None \<Rightarrow> (Crashed, s)
         | Some w \<Rightarrow>
             (let s1 = start_proof cfg io (go_requestId outcome) w s;
                  s2 = (if go_decision outcome = ALLOW
                        then s1\<lparr> en_pending := remember (gi_parkAt io) (go_requestId outcome) (go_commitment outcome) outcome (en_pending s1) \<rparr>
                        else s1)
              in (Accepted (gate_body outcome), s2))))"

definition postGate ::
  "enclave_cfg \<Rightarrow> gate_io \<Rightarrow> ('z enclave_scheme \<Rightarrow> 'z enclave_scheme) \<Rightarrow> ('z enclave_scheme \<Rightarrow> 'z enclave_scheme)
   \<Rightarrow> SecureRequestEnvelope option \<Rightarrow> 'z enclave_scheme \<Rightarrow> gate_reply enclave_reply \<times> 'z enclave_scheme" where
  "postGate cfg io opening executing envelope s = gate_park cfg io (gateRequest cfg io opening executing envelope s)"

section \<open>POST /policy-test\<close>

record policy_test_reply =
  pt_decision :: PolicyDecision
  pt_commitment :: jstr
  pt_policyId :: jstr
  pt_policyMs :: int

text \<open>The preview: the TypeScript engine, no nonce check, no proof and no state. Canonicalization is not guarded here.\<close>

definition postPolicyTest :: "enclave_cfg \<Rightarrow> int \<Rightarrow> SecureRequestEnvelope option \<Rightarrow> policy_test_reply enclave_reply" where
  "postPolicyTest cfg elapsed envelope =
     (case envelope of
        None \<Rightarrow> Refused 400 ''CTN_INVALID_ENVELOPE'' (lit ''bad envelope'')
      | Some env \<Rightarrow>
          if env_enclaveKeyId env \<noteq> tee_enclaveKeyId (ec_tee cfg) then Refused 400 ''CTN_INVALID_ENVELOPE'' (lit ''bad envelope'')
          else (case canonicalJson (ec_rt cfg) (aad_json (env_aad env)) of
                  None \<Rightarrow> Crashed
                | Some aad \<Rightarrow>
                    (case Option.bind (openIngress (ec_lib cfg) (ec_tee cfg) (env_enc env) (env_ciphertext env) (Some (utf8 aad)))
                            (\<lambda>opened. json_parse (ec_rt cfg) (text_decode opened)) of
                       None \<Rightarrow> Refused 400 ''CTN_INVALID_ENVELOPE'' (lit ''envelope failed authenticated decryption'')
                     | Some payload \<Rightarrow>
                         (case get_prop payload ''request'' of
                            None \<Rightarrow> Crashed
                          | Some req \<Rightarrow>
                              (case (toCanonicalRequest (ec_rt cfg) req, as_str (the (get_prop payload ''requestNonce''))) of
                                 (Inr canonical, Some nonce) \<Rightarrow>
                                   (case evaluate_request (ec_rt cfg) canonical nonce (ec_rules cfg) (ec_policyId cfg) elapsed of
                                      None \<Rightarrow> Crashed
                                    | Some (g, ev, commitment, policyMs) \<Rightarrow>
                                        Accepted \<lparr> pt_decision = gate_verdict g, pt_commitment = commitment, pt_policyId = ec_policyId cfg, pt_policyMs = policyMs \<rparr>)
                               | _ \<Rightarrow> Crashed)))))"

section \<open>What an admitted request is\<close>

text \<open>An admitted ticket: some envelope, addressed to this enclave and opened under the header it carried, sealed exactly
  this payload, and the ticket's canonical request and bytes are computed from it.\<close>

definition sealed_ticket :: "enclave_cfg \<Rightarrow> gate_ticket \<Rightarrow> bool" where
  "sealed_ticket cfg tk \<longleftrightarrow> (\<exists>(env :: SecureRequestEnvelope) aad opened. env_enclaveKeyId env = tee_enclaveKeyId (ec_tee cfg)
     \<and> canonicalJson (ec_rt cfg) (aad_json (env_aad env)) = Some aad
     \<and> openIngress (ec_lib cfg) (ec_tee cfg) (env_enc env) (env_ciphertext env) (Some (utf8 aad)) = Some opened
     \<and> json_parse (ec_rt cfg) (text_decode opened) = Some (gt_payload tk)
     \<and> get_prop (gt_payload tk) ''requestNonce'' = Some (gt_nonce tk)
     \<and> toCanonicalRequest (ec_rt cfg) (the (get_prop (gt_payload tk) ''request'')) = Inr (gt_canonical tk)
     \<and> canonicalJson (ec_rt cfg) (request_json (gt_canonical tk)) = Some (gt_bytes tk)
     \<and> aad_model (env_aad env) = req_model (gt_canonical tk) \<and> gt_requestId tk = env_requestId env)"

lemma gate_open_Inr:
  "gate_open cfg io envelope = Inr (env, payload, ms) \<Longrightarrow>
     envelope = Some env \<and> env_enclaveKeyId env = tee_enclaveKeyId (ec_tee cfg) \<and> ms = max 1 (gi_decryptMs io)
     \<and> (\<exists>aad opened. canonicalJson (ec_rt cfg) (aad_json (env_aad env)) = Some aad
          \<and> openIngress (ec_lib cfg) (ec_tee cfg) (env_enc env) (env_ciphertext env) (Some (utf8 aad)) = Some opened
          \<and> json_parse (ec_rt cfg) (text_decode opened) = Some payload)"
  unfolding gate_open_def
  by (simp split: option.splits if_splits del: canonicalJson.simps) (auto simp: bind_eq_Some_conv simp del: canonicalJson.simps)

lemma gate_admit_Inr:
  assumes "gate_admit cfg io (env, payload, ms) s = (Inr tk, s')"
  shows "gt_payload tk = payload \<and> get_prop payload ''requestNonce'' = Some (gt_nonce tk)
     \<and> toCanonicalRequest (ec_rt cfg) (the (get_prop payload ''request'')) = Inr (gt_canonical tk)
     \<and> canonicalJson (ec_rt cfg) (request_json (gt_canonical tk)) = Some (gt_bytes tk)
     \<and> aad_model (env_aad env) = req_model (gt_canonical tk) \<and> gt_requestId tk = env_requestId env \<and> gt_decryptMs tk = ms
     \<and> fst (rememberNonce (gi_now io) (nonce_key (gi_ref io) (gt_nonce tk)) (en_seenNonces s))"
  using assms unfolding gate_admit_def
  by (auto simp: Let_def split: option.splits prod.splits if_splits sum.splits simp del: canonicalJson.simps)

lemma gate_admit_frame:
  "gate_admit cfg io opened s = (r, s') \<Longrightarrow> \<exists>seen. s' = s\<lparr> en_seenNonces := seen \<rparr>"
  unfolding gate_admit_def
  by (auto simp: Let_def split: option.splits prod.splits if_splits sum.splits simp del: canonicalJson.simps) (metis enclave.surjective enclave.update_convs(1))+

lemma admitted_sealed:
  assumes "gate_open cfg io envelope = Inr opened" "gate_admit cfg io' opened s = (Inr tk, s')"
  shows "sealed_ticket cfg tk"
proof -
  obtain env payload ms where o: "opened = (env, payload, ms)" by (cases opened)
  note gate_open_Inr [OF assms(1) [unfolded o]] and gate_admit_Inr [OF assms(2) [unfolded o]]
  then show ?thesis unfolding sealed_ticket_def by (simp del: canonicalJson.simps) blast
qed

section \<open>What an outcome is\<close>

definition judged :: "enclave_cfg \<Rightarrow> gate_ticket \<Rightarrow> GuestExecution \<Rightarrow> GateOutcome \<Rightarrow> bool" where
  "judged cfg tk x out \<longleftrightarrow> (\<exists>nonce. gt_nonce tk = JStr nonce
     \<and> commitment_of (ec_rt cfg) (gt_canonical tk) nonce = Some (go_commitment out)
     \<and> jr_requestCommitment (gx_journal x) = go_commitment out
     \<and> go_decision out = jr_decision (gx_journal x)
     \<and> go_authorized out = (case jr_decision (gx_journal x) of DENY \<Rightarrow> None
          | ALLOW \<Rightarrow> Some \<lparr> aq_request = gt_canonical tk, aq_requestCommitment = go_commitment out, aq_requestNonce = nonce,
                           aq_policyId = jr_policyId (gx_journal x), aq_policyMs = go_gateWallMs out \<rparr>))
     \<and> go_requestId out = gt_requestId tk \<and> go_canonical out = gt_canonical tk \<and> go_payload out = gt_payload tk
     \<and> dr_requestId (sdr_receipt (go_decisionReceipt out)) = gt_requestId tk
     \<and> dr_requestCommitment (sdr_receipt (go_decisionReceipt out)) = go_commitment out
     \<and> dr_policyId (sdr_receipt (go_decisionReceipt out)) = jr_policyId (gx_journal x)
     \<and> dr_decision (sdr_receipt (go_decisionReceipt out)) = jr_decision (gx_journal x)
     \<and> signReceipt (ec_rt cfg) (ec_tee cfg) (decision_receipt_json (sdr_receipt (go_decisionReceipt out)))
         = Some (sdr_enclaveSignature (go_decisionReceipt out))"

lemma as_str_Some [simp]: "as_str v = Some t \<longleftrightarrow> v = JStr t"
  by (cases v) auto

lemma gate_journal_Guarded:
  assumes "gate_journal cfg tk j ms = Guarded (d, c)"
  shows "\<exists>nonce. gt_nonce tk = JStr nonce \<and> commitment_of (ec_rt cfg) (gt_canonical tk) nonce = Some c \<and> jr_requestCommitment j = c
     \<and> gate_verdict d = jr_decision j
     \<and> gate_authorized d = (case jr_decision j of DENY \<Rightarrow> None
          | ALLOW \<Rightarrow> Some \<lparr> aq_request = gt_canonical tk, aq_requestCommitment = c, aq_requestNonce = nonce,
                           aq_policyId = jr_policyId j, aq_policyMs = ms \<rparr>)"
proof -
  obtain nonce where n: "gt_nonce tk = JStr nonce" and f: "fromGuestJournal (ec_rt cfg) (gt_canonical tk) nonce j ms = Guarded (d, c)"
    using assms by (auto simp: gate_journal_def split: option.splits)
  from fromGuestJournal_Guarded [OF f] n show ?thesis by (cases "jr_decision j") auto
qed

lemma getGuestHealth_frame: "getGuestHealth dm s = (r, s') \<Longrightarrow> s' = s \<or> (\<exists>h. s' = s\<lparr> st_guestHealth := Some h \<rparr>)"
  by (auto simp: getGuestHealth_def split: option.splits prover_result.splits)

lemma gate_finish_Inr:
  assumes "gate_finish cfg io tk s = (Inr out, s')"
  obtains x where "gate_execute io tk = Inr x" "judged cfg tk x out"
    "en_pending s' = en_pending s" "en_prover s' = en_prover s" "en_seenNonces s' = en_seenNonces s"
    "en_insights s' = record_request (gate_classify cfg tk x (go_decision out)) (go_decision out) (en_insights s)"
proof -
  obtain x where x: "gate_execute io tk = Inr x" using assms by (auto simp: gate_finish_def split: sum.splits)
  obtain d c where j: "gate_journal cfg tk (gx_journal x) (max 1 (gi_gateMs io)) = Guarded (d, c)"
    using assms x by (auto simp: gate_finish_def Let_def split: guarded.splits)
  obtain h s1 where h: "getGuestHealth (gi_daemon io) s = (ProverOk h, s1)"
    using assms x j by (cases "getGuestHealth (gi_daemon io) s"; cases "fst (getGuestHealth (gi_daemon io) s)") (auto simp: gate_finish_def Let_def)
  let ?rc = "\<lparr> dr_requestId = gt_requestId tk, dr_requestCommitment = c, dr_policyId = jr_policyId (gx_journal x),
     dr_decision = gate_verdict d, dr_imageId = ph_imageIdHex h, dr_gateWallMs = max 1 (gi_gateMs io) \<rparr>"
  obtain sg where sg: "signReceipt (ec_rt cfg) (ec_tee cfg) (decision_receipt_json ?rc) = Some sg"
    and o: "out = \<lparr> go_requestId = gt_requestId tk, go_canonical = gt_canonical tk, go_payload = gt_payload tk, go_commitment = c,
        go_decision = gate_verdict d, go_authorized = gate_authorized d,
        go_decisionReceipt = \<lparr> sdr_receipt = ?rc, sdr_enclaveSignature = sg \<rparr>, go_gateWallMs = max 1 (gi_gateMs io), go_decryptMs = gt_decryptMs tk \<rparr>"
    and s': "s' = s1\<lparr> en_insights := record_request (gate_classify cfg tk x (gate_verdict d)) (gate_verdict d) (en_insights s1) \<rparr>"
    using assms x j h by (auto simp: gate_finish_def Let_def split: option.splits)
  have "judged cfg tk x out" using gate_journal_Guarded [OF j] sg unfolding judged_def o by (cases "jr_decision (gx_journal x)") auto
  moreover have "en_pending s1 = en_pending s" "en_prover s1 = en_prover s" "en_seenNonces s1 = en_seenNonces s" "en_insights s1 = en_insights s"
    using getGuestHealth_frame [OF h] by auto
  ultimately show thesis using x s' by (intro that) (simp_all add: o)
qed

lemma gate_finish_Inl:
  assumes "gate_finish cfg io tk s = (Inl e, s')"
  shows "en_pending s' = en_pending s \<and> en_prover s' = en_prover s \<and> en_insights s' = en_insights s \<and> en_seenNonces s' = en_seenNonces s
     \<and> st_consumedIntentDigests s' = st_consumedIntentDigests s"
proof -
  have "s' = s \<or> (\<exists>r. getGuestHealth (gi_daemon io) s = (r, s'))"
    using assms by (auto simp: gate_finish_def Let_def split: sum.splits guarded.splits prod.splits prover_result.splits option.splits)
  then show ?thesis using getGuestHealth_frame by fastforce
qed

lemma judged_witness:
  assumes "sealed_ticket cfg tk" "judged cfg tk x out"
  shows "\<exists>nonce. witnessFor cfg out = Some \<lparr> pw_canonicalRequest = gt_bytes tk, pw_requestNonce = nonce,
      pw_requestCommitment = go_commitment out, pw_decision = go_decision out, pw_decisionReceipt = sdr_receipt (go_decisionReceipt out) \<rparr>
    \<and> gt_nonce tk = JStr nonce"
  using assms by (auto simp: sealed_ticket_def judged_def witnessFor_def str_or_def simp del: canonicalJson.simps)

section \<open>The gate is the guest's verdict\<close>

text \<open>C5. The gate reports the guest's verdict on the sealed request and nothing else. Whatever other handlers do in
  between, if \<open>gateRequest\<close> returns an outcome then an envelope addressed to this enclave sealed the payload, its
  canonical form was sent to the guest executor, and the guest's journal names the commitment the enclave itself
  computes from that request and nonce. The outcome carries the guest's decision and policy id, an authorization
  exists exactly for ALLOW and is for that very request, and the signed decision receipt says all this under a
  signature that verifies with the attested key.\<close>

theorem gate_binds_guest_verdict:
  assumes "gateRequest cfg io opening executing envelope s = (Inr out, s')" "signer (ec_rt cfg) (ec_tee cfg)"
  shows "\<exists>tk x. sealed_ticket cfg tk \<and> gate_execute io tk = Inr x \<and> judged cfg tk x out
     \<and> verifyCanonical (ec_rt cfg) (decision_receipt_json (sdr_receipt (go_decisionReceipt out)))
         (sdr_enclaveSignature (go_decisionReceipt out)) (tee_signingPublicKey (ec_tee cfg)) = Some True"
proof -
  obtain opened where o: "gate_open cfg io envelope = Inr opened" using assms(1) by (auto simp: gateRequest_def split: sum.splits)
  obtain tk s1 where a: "gate_admit cfg io opened (opening s) = (Inr tk, s1)" and f: "gate_finish cfg io tk (executing s1) = (Inr out, s')"
    using assms(1) o by (auto simp: gateRequest_def split: prod.splits sum.splits)
  from gate_finish_Inr [OF f] obtain x where x: "gate_execute io tk = Inr x" "judged cfg tk x out" by blast
  then have "verifyCanonical (ec_rt cfg) (decision_receipt_json (sdr_receipt (go_decisionReceipt out)))
      (sdr_enclaveSignature (go_decisionReceipt out)) (tee_signingPublicKey (ec_tee cfg)) = Some True"
    by (intro signReceipt_verifies [OF assms(2)]) (simp add: judged_def)
  with admitted_sealed [OF o a] x show ?thesis by blast
qed

definition gives_verdict :: "daemon \<Rightarrow> bool" where
  "gives_verdict dm \<longleftrightarrow> (\<exists>body st x. dm_execute dm body = Status st (Parsed x) \<and> 200 \<le> st \<and> st < 300)"

lemma gate_execute_verdict: "gate_execute io tk = Inr x \<Longrightarrow> gives_verdict (gi_daemon io)"
  by (auto simp: gate_execute_def execute_def gives_verdict_def request_ok_iff split: prover_result.splits)

text \<open>C6. The gate fails closed. A \<^verbatim>\<open>POST /gate\<close> that is refused or throws for any reason starts no proof, parks nothing and
  counts nothing in the insights; and while the guest executor gives no verdict (it is unreachable, aborts, faults or
  answers garbage) no request is ever accepted.\<close>

theorem gate_fails_closed:
  assumes "postGate cfg io (\<lambda>x. x) (\<lambda>x. x) envelope s = (r, s')"
  shows "((\<forall>b. r \<noteq> Accepted b) \<longrightarrow> en_pending s' = en_pending s \<and> en_prover s' = en_prover s \<and> en_insights s' = en_insights s)
     \<and> (\<not> gives_verdict (gi_daemon io) \<longrightarrow> (\<forall>b. r \<noteq> Accepted b))"
proof (cases "gateRequest cfg io (\<lambda>x. x) (\<lambda>x. x) envelope s")
  case (Pair g s1)
  show ?thesis
  proof (cases g)
    case (Inl e)
    have "en_pending s1 = en_pending s \<and> en_prover s1 = en_prover s \<and> en_insights s1 = en_insights s"
      using Pair unfolding Inl gateRequest_def
      by (auto split: sum.splits prod.splits dest!: gate_admit_frame gate_finish_Inl)
    moreover have "r = replyGateError e" "s' = s1" using assms Pair by (auto simp: postGate_def gate_park_def Inl)
    ultimately show ?thesis by (cases e) auto
  next
    case (Inr out)
    then obtain opened tk s0 where o: "gate_open cfg io envelope = Inr opened" and a: "gate_admit cfg io opened s = (Inr tk, s0)"
      and f: "gate_finish cfg io tk s0 = (Inr out, s1)"
      using Pair by (auto simp: gateRequest_def split: sum.splits prod.splits)
    from gate_finish_Inr [OF f] obtain x where x: "gate_execute io tk = Inr x" "judged cfg tk x out" by blast
    from judged_witness [OF admitted_sealed [OF o a] x(2)] have "\<exists>b. r = Accepted b"
      using assms Pair by (auto simp: postGate_def gate_park_def Inr Let_def)
    then show ?thesis using gate_execute_verdict [OF x(1)] by auto
  qed
qed

section \<open>A request through the gate\<close>

definition sample_canonical :: CanonicalRequest where
  "sample_canonical = sample_request\<lparr> req_model := lit ''ctn/demo-model-a'' \<rparr>"

definition sample_inner :: "(jstr \<times> json) list" where
  "sample_inner = [(lit ''max_tokens'', JInt 1024),
     (lit ''messages'', JArr [JObj [(lit ''content'', JStr (lit ''hi'')), (lit ''role'', JStr (lit ''user''))]]),
     (lit ''model'', JStr (lit ''ctn/demo-model-a'')), (lit ''temperature_millis'', JInt 500)]"

definition sample_payload :: json where
  "sample_payload = JObj [(lit ''request'', JObj sample_inner), (lit ''requestNonce'', JStr sample_nonce),
     (lit ''responsePublicKey'', JStr (lit ''cHVi''))]"

definition sample_aad :: Aad where
  "sample_aad = \<lparr> aad_apiVersion = lit ''1'', aad_requestedPolicy = lit ''safety-v1'', aad_model = lit ''ctn/demo-model-a'' \<rparr>"

definition sample_envelope :: SecureRequestEnvelope where
  "sample_envelope = \<lparr> env_version = lit ''ctn-1'', env_requestId = lit ''r1'', env_enclaveKeyId = tee_enclaveKeyId sample_tee, env_enc = [],
     env_ciphertext = toB64 (utf8 (the (canonicalJson sample_runtime sample_payload))), env_aad = sample_aad \<rparr>"

definition sample_commitment :: jstr where
  "sample_commitment = the (commitment_of sample_runtime sample_canonical sample_nonce)"

definition sample_guest :: daemon where
  "sample_guest = \<lparr> dm_health = Status 200 (Parsed sample_health),
     dm_execute = (\<lambda>_. Status 200 (Parsed \<lparr> gx_journal = \<lparr> jr_protocolVersion = 1, jr_requestCommitment = sample_commitment,
        jr_policyId = lit ''p2'', jr_decision = ALLOW, jr_proofNonce = [] \<rparr>, gx_privateScores = None, gx_execWallMs = 3 \<rparr>)),
     dm_prove = (\<lambda>_. Fetch_failed) \<rparr>"

definition sample_cfg :: enclave_cfg where
  "sample_cfg = \<lparr> ec_rt = sample_runtime, ec_lib = sample_lib, ec_tee = sample_tee, ec_vaultKey = [5], ec_registry = buildRegistry (lit ''https://api.openai.com''),
     ec_rules = sample_rules, ec_policyId = lit ''p1'', ec_manifest = sample_manifest \<rparr>"

definition sample_gate_io :: "daemon \<Rightarrow> gate_io" where
  "sample_gate_io dm = \<lparr> gi_now = 0, gi_ref = 0, gi_decryptMs = 2, gi_gateMs = 1, gi_proofNonce = lit ''aa'', gi_daemon = dm, gi_engineText = [],
     gi_startedAt = 0, gi_jobNonce = lit ''0xn'', gi_job = sample_io, gi_parkAt = 5 \<rparr>"

lemma small_safe: "\<bar>n\<bar> \<le> 1024 \<Longrightarrow> isSafeInteger (Fin (rat_of_int n))"
  by (simp add: MAX_SAFE_def is_integral_def)

lemma sample_payload_text:
  obtains t where "canonicalJson sample_runtime sample_payload = Some t" "json_parse sample_runtime (text_decode (utf8 t)) = Some sample_payload"
proof -
  have hx: "\<forall>c \<in> set sample_nonce. c < 65536" by (auto simp: sample_nonce_def toHex_def digit_def)
  have "serialisable sample_payload"
    using small_safe [of 1024] small_safe [of 500] by (simp add: sample_payload_def sample_inner_def del: isSafeInteger.simps)
  then obtain t where t: "canonicalJson sample_runtime sample_payload = Some t" using canonicalJson_Some by blast
  have wf: "json_wf sample_payload" by (simp add: sample_payload_def sample_inner_def lit_def)
  have units: "json_units sample_runtime sample_payload" using hx by (simp add: sample_payload_def sample_inner_def lit_def)
  have "canon_form sample_runtime sample_payload = sample_payload"
    by (simp add: sample_payload_def sample_inner_def lit_def)
  with canonical_bytes_back [OF _ wf units t] t show thesis by (intro that) (simp_all add: ints_exact_def del: canonicalJson.simps canon_form.simps)
qed

lemma sample_cfg_simps [simp]:
  "ec_rt sample_cfg = sample_runtime" "ec_lib sample_cfg = sample_lib" "ec_tee sample_cfg = sample_tee" "ec_vaultKey sample_cfg = [5]"
  "ec_registry sample_cfg = buildRegistry (lit ''https://api.openai.com'')"
  by (simp_all add: sample_cfg_def)

lemma sample_gate_opens: "gate_open sample_cfg (sample_gate_io dm) (Some sample_envelope) = Inr (sample_envelope, sample_payload, 2)"
proof -
  obtain t where t: "canonicalJson sample_runtime sample_payload = Some t" "json_parse sample_runtime (text_decode (utf8 t)) = Some sample_payload"
    by (rule sample_payload_text)
  have "serialisable (aad_json sample_aad)" by (simp add: aad_json_def)
  then obtain a where a: "canonicalJson sample_runtime (aad_json sample_aad) = Some a" using canonicalJson_Some by blast
  have "openIngress sample_lib sample_tee e (toB64 (utf8 t)) aad = Some (utf8 t)" for e aad
    by (simp add: openIngress_def hpkeOpen_def sample_lib_def fromB64_toB64)
  with a t show ?thesis
    by (simp add: gate_open_def sample_envelope_def sample_gate_io_def del: canonicalJson.simps)
qed

lemma sample_inner_canonical: "toCanonicalRequest sample_runtime (JObj sample_inner) = Inr sample_canonical"
proof -
  have "is_integral 1024" "floor (1024 :: rat) = 1024" "is_integral 500" "floor (500 :: rat) = 500"
    by (simp_all add: is_integral_def floor_eq_iff)
  then show ?thesis
    by (simp add: toCanonicalRequest_def sample_inner_def sample_canonical_def sample_request_def canon_message_def
        canon_temperature_def MAX_SAFE_def)
qed

lemma sample_canonical_bytes: "\<exists>t. canonicalJson sample_runtime (request_json sample_canonical) = Some t"
  using small_safe [of 1024] small_safe [of 500]
  by (intro canonicalJson_Some)
     (simp add: request_json_def message_json_def sample_canonical_def sample_request_def del: isSafeInteger.simps)

definition sample_ticket :: gate_ticket where
  "sample_ticket = \<lparr> gt_requestId = lit ''r1'', gt_payload = sample_payload, gt_nonce = JStr sample_nonce, gt_canonical = sample_canonical,
     gt_bytes = the (canonicalJson sample_runtime (request_json sample_canonical)), gt_decryptMs = 2 \<rparr>"

lemma sample_gate_admits:
  assumes "en_seenNonces s = []"
  shows "gate_admit sample_cfg (sample_gate_io dm) (sample_envelope, sample_payload, 2) s
    = (Inr sample_ticket, s\<lparr> en_seenNonces := [((JStr sample_nonce, 0), 0)] \<rparr>)"
proof -
  obtain t where t: "canonicalJson sample_runtime (request_json sample_canonical) = Some t" using sample_canonical_bytes by blast
  have p: "get_prop sample_payload ''requestNonce'' = Some (JStr sample_nonce)" "get_prop sample_payload ''request'' = Some (JObj sample_inner)"
    by (simp_all add: sample_payload_def lit_def)
  have r: "rememberNonce 0 (JStr sample_nonce, 0::nat) [] = (True, [((JStr sample_nonce, 0), 0)])"
    by (simp add: rememberNonce_def Let_def NONCE_MAX_def)
  have m: "aad_model (env_aad sample_envelope) = req_model sample_canonical" "env_requestId sample_envelope = lit ''r1''"
    by (simp_all add: sample_envelope_def sample_aad_def sample_canonical_def)
  show ?thesis
    by (simp add: gate_admit_def p r m assms sample_inner_canonical t sample_ticket_def sample_gate_io_def del: canonicalJson.simps)
qed

lemma sample_commits: "commitment_of sample_runtime sample_canonical sample_nonce = Some sample_commitment"
proof -
  obtain t where t: "canonicalJson sample_runtime (request_json sample_canonical) = Some t" using sample_canonical_bytes by blast
  have "\<exists>c. commitment_of sample_runtime sample_canonical sample_nonce = Some c"
    using t by (simp add: commitment_of_def canonicalBytes_def requestCommitment_def sample_nonce_def hexc.dec_enc del: canonicalJson.simps)
  then show ?thesis by (auto simp: sample_commitment_def)
qed

lemma sample_gate_finishes:
  assumes tk: "gt_nonce tk = JStr sample_nonce" "gt_canonical tk = sample_canonical"
  shows "\<exists>out s'. gate_finish sample_cfg (sample_gate_io sample_guest) tk s = (Inr out, s') \<and> go_decision out = ALLOW
     \<and> go_requestId out = gt_requestId tk \<and> go_commitment out = sample_commitment \<and> go_payload out = gt_payload tk \<and> go_gateWallMs out = 1
     \<and> go_authorized out = Some (sample_authorized\<lparr> aq_requestCommitment := sample_commitment \<rparr>)"
proof -
  have x: "gate_execute (sample_gate_io sample_guest) tk = Inr \<lparr> gx_journal = \<lparr> jr_protocolVersion = 1, jr_requestCommitment = sample_commitment,
        jr_policyId = lit ''p2'', jr_decision = ALLOW, jr_proofNonce = [] \<rparr>, gx_privateScores = None, gx_execWallMs = 3 \<rparr>"
    by (simp add: gate_execute_def execute_def sample_gate_io_def sample_guest_def)
  obtain h s1 where h: "getGuestHealth sample_guest s = (ProverOk h, s1)"
    by (cases "st_guestHealth s") (auto simp: getGuestHealth_def health_def sample_guest_def)
  have sg: "\<exists>sg. signReceipt sample_runtime sample_tee (decision_receipt_json \<lparr> dr_requestId = gt_requestId tk, dr_requestCommitment = sample_commitment,
        dr_policyId = lit ''p2'', dr_decision = ALLOW, dr_imageId = ph_imageIdHex h, dr_gateWallMs = 1 \<rparr>) = Some sg"
    by (rule signReceipt_defined) (use one_safe in \<open>simp add: decision_receipt_json_def del: isSafeInteger.simps\<close>)
  then obtain g where g: "signReceipt sample_runtime sample_tee (decision_receipt_json \<lparr> dr_requestId = gt_requestId tk, dr_requestCommitment = sample_commitment,
        dr_policyId = lit ''p2'', dr_decision = ALLOW, dr_imageId = ph_imageIdHex h, dr_gateWallMs = 1 \<rparr>) = Some g" by blast
  have io: "gi_daemon (sample_gate_io sample_guest) = sample_guest" "gi_gateMs (sample_gate_io sample_guest) = 1"
    by (simp_all add: sample_gate_io_def)
  show ?thesis
    by (simp add: gate_finish_def x h Let_def gate_journal_def io tk fromGuestJournal_def sample_commits assertGuestCommitment_def g)
       (simp add: sample_authorized_def sample_canonical_def)
qed

lemma sample_ticket_fields: "gt_nonce sample_ticket = JStr sample_nonce" "gt_canonical sample_ticket = sample_canonical"
  "gt_requestId sample_ticket = lit ''r1''" "gt_payload sample_ticket = sample_payload"
  by (simp_all add: sample_ticket_def)

lemma sample_gate_run:
  assumes "en_seenNonces s = []"
  obtains out s' where "gateRequest sample_cfg (sample_gate_io sample_guest) (\<lambda>x. x) (\<lambda>x. x) (Some sample_envelope) s = (Inr out, s')"
    "go_decision out = ALLOW" "go_commitment out = sample_commitment"
proof -
  obtain out s' where "gate_finish sample_cfg (sample_gate_io sample_guest) sample_ticket (s\<lparr> en_seenNonces := [((JStr sample_nonce, 0), 0)] \<rparr>) = (Inr out, s')"
    "go_decision out = ALLOW" "go_commitment out = sample_commitment" using sample_gate_finishes [OF sample_ticket_fields(1,2)] by blast
  then show thesis by (intro that) (simp_all add: gateRequest_def sample_gate_opens sample_gate_admits [OF assms])
qed

theorem gate_binds_guest_verdict_witness:
  "\<exists>out s'. gateRequest sample_cfg (sample_gate_io sample_guest) (\<lambda>x. x) (\<lambda>x. x) (Some sample_envelope) enclave_boot = (Inr out, s')
     \<and> go_decision out = ALLOW \<and> (\<exists>tk x. sealed_ticket sample_cfg tk \<and> judged sample_cfg tk x out)"
proof -
  obtain out s' where o: "gateRequest sample_cfg (sample_gate_io sample_guest) (\<lambda>x. x) (\<lambda>x. x) (Some sample_envelope) enclave_boot = (Inr out, s')"
    "go_decision out = ALLOW" by (rule sample_gate_run [of enclave_boot]) (simp_all add: enclave_boot_def)
  from gate_binds_guest_verdict [OF o(1)] o show ?thesis by (simp add: sample_signer) blast
qed

theorem gate_fails_closed_witness:
  "\<exists>s'. postGate sample_cfg (sample_gate_io down_daemon) (\<lambda>x. x) (\<lambda>x. x) (Some sample_envelope) enclave_boot
       = (Refused 503 ''PROVER_UNAVAILABLE'' (lit ''the guest executor (policy gate) is unavailable''), s')
     \<and> en_pending s' = pendingGates \<and> en_prover s' = prover_boot \<and> en_insights s' = newAccumulator"
proof -
  have x: "gate_execute (sample_gate_io down_daemon) sample_ticket = Inl GE_ProverUnavailable"
    by (simp add: gate_execute_def execute_def sample_gate_io_def down_daemon_def)
  obtain s' where p: "postGate sample_cfg (sample_gate_io down_daemon) (\<lambda>x. x) (\<lambda>x. x) (Some sample_envelope) enclave_boot
       = (Refused 503 ''PROVER_UNAVAILABLE'' (lit ''the guest executor (policy gate) is unavailable''), s')"
    by (simp add: postGate_def gate_park_def gateRequest_def sample_gate_opens sample_gate_admits enclave_boot_def gate_finish_def x)
  from gate_fails_closed [OF p] p show ?thesis by (auto simp: enclave_boot_def)
qed

end
