(* ===== verification/Dispatch.thy ===== *)
theory Dispatch
  imports Gate
begin

text \<open>
  The dispatch phase of the enclave (\<open>deniedBody\<close>, \<open>runDispatch\<close> and \<^verbatim>\<open>POST /execute\<close> of
  \<^verbatim>\<open>services/tee-sim/src/index.ts\<close>). The result of a call comes with the list of requests that left the enclave,
  in order. The handler is cut where it suspends: \<open>execute_begin\<close> consumes a parked gate or gates inline, and
  \<open>runDispatch\<close> does the upstream work, reading the prover's records as it finds them at the end.
\<close>

section \<open>The routing loop\<close>

fun class_str :: "failure_class \<Rightarrow> jstr" where
  "class_str auth_failed = lit ''auth_failed''"
| "class_str rate_limited = lit ''rate_limited''"
| "class_str server_error = lit ''server_error''"
| "class_str timeout = lit ''timeout''"
| "class_str egress_denied = lit ''egress_denied''"
| "class_str redirect_refused = lit ''redirect_refused''"
| "class_str malformed_response = lit ''malformed_response''"
| "class_str unpriced_model = lit ''unpriced_model''"

text \<open>A number as a JSON integer; \<open>None\<close> for what has no integer value.\<close>

fun int_of_num :: "jsnum \<Rightarrow> int option" where
  "int_of_num (Fin q) = (if of_int (floor q) = q then Some (floor q) else None)"
| "int_of_num _ = None"

definition attempt_of :: "Candidate \<Rightarrow> int \<Rightarrow> ProviderOutcome \<Rightarrow> AttemptResult" where
  "attempt_of cand n outcome = (case outcome of
     Completed r \<Rightarrow> \<lparr> ar_credentialId = cd_credentialId cand, ar_contributorId = cd_contributorId cand, ar_attemptNumber = n,
       ar_status = SUCCESS, ar_httpStatus = rp_httpStatus r, ar_latencyMs = rp_latencyMs r, ar_classification = None,
       ar_upstreamOutcomeUnknown = False, ar_assumedSpendMicroUsd = None \<rparr>
   | Failure f \<Rightarrow> \<lparr> ar_credentialId = cd_credentialId cand, ar_contributorId = cd_contributorId cand, ar_attemptNumber = n,
       ar_status = ATTEMPT_FAILED, ar_httpStatus = fo_httpStatus f, ar_latencyMs = fo_latencyMs f,
       ar_classification = Some (class_str (fo_classification f)),
       ar_upstreamOutcomeUnknown = fo_upstreamOutcomeUnknown f,
       ar_assumedSpendMicroUsd = Option.bind (fo_assumedSpendMicroUsd f) int_of_num \<rparr>)"

datatype loop_end = Succeeded Candidate int ProviderResponse | Exhausted "ProviderFailure option" | Loop_threw

record dispatch_log =
  dl_out :: "outbound list"
  dl_attempts :: "AttemptResult list"
  dl_failures :: "AuthorizationFailure list"
  dl_end :: loop_end

definition log_end :: "loop_end \<Rightarrow> dispatch_log" where
  "log_end e = \<lparr> dl_out = [], dl_attempts = [], dl_failures = [], dl_end = e \<rparr>"

definition log_failure :: "AuthorizationFailure \<Rightarrow> dispatch_log \<Rightarrow> dispatch_log" where
  "log_failure f l = l\<lparr> dl_failures := f # dl_failures l \<rparr>"

definition log_attempt :: "outbound list \<Rightarrow> AttemptResult \<Rightarrow> dispatch_log \<Rightarrow> dispatch_log" where
  "log_attempt out att l = l\<lparr> dl_out := out @ dl_out l, dl_attempts := att # dl_attempts l \<rparr>"

text \<open>One authorization of a candidate inside the enclave, with the vault key.\<close>

definition authorize :: "enclave_cfg \<Rightarrow> Candidate \<Rightarrow> AuthorizedRequest \<Rightarrow> (AuthorizationFailure + AuthorizedCredential) option" where
  "authorize cfg cand a = authorizeCandidate (ec_rt cfg) cand a (tee_signingPublicKey (ec_tee cfg)) (vaultDecrypt (ec_lib cfg) (ec_vaultKey cfg))"

definition serving_adapter :: "enclave_cfg \<Rightarrow> Candidate \<Rightarrow> AuthorizedRequest \<Rightarrow> adapter option" where
  "serving_adapter cfg cand a = (case map_of (ec_registry cfg) (cd_provider cand) of
     Some ad \<Rightarrow> if supportsModel ad (req_model (aq_request a)) then Some ad else None
   | None \<Rightarrow> None)"

text \<open>\<open>env n\<close> is the environment of the n-th attempt; \<open>lastFailure\<close> is \<open>lastFailure\<close>.\<close>

fun dispatch_loop ::
  "enclave_cfg \<Rightarrow> (int \<Rightarrow> call_env) \<Rightarrow> AuthorizedRequest \<Rightarrow> int \<Rightarrow> ProviderFailure option \<Rightarrow> Candidate list \<Rightarrow> dispatch_log" where
  "dispatch_loop cfg env a n lastFailure [] = log_end (Exhausted lastFailure)"
| "dispatch_loop cfg env a n lastFailure (cand # cands) =
     (case authorize cfg cand a of
        None \<Rightarrow> log_end Loop_threw
      | Some (Inl f) \<Rightarrow> log_failure f (dispatch_loop cfg env a n lastFailure cands)
      | Some (Inr cred) \<Rightarrow>
          (case serving_adapter cfg cand a of
             None \<Rightarrow> log_failure \<lparr> af_credentialId = cd_credentialId cand, af_reason = AF_model_not_allowed \<rparr>
                       (dispatch_loop cfg env a n lastFailure cands)
           | Some ad \<Rightarrow>
               (case complete (ec_rt cfg) (env (n + 1)) ad a cred of
                  (out, outcome) \<Rightarrow>
                    log_attempt out (attempt_of cand (n + 1) outcome)
                      (case outcome of
                         Completed r \<Rightarrow> log_end (Succeeded cand (n + 1) r)
                       | Failure f \<Rightarrow>
                           if fo_classification f \<notin> set PRE_DISPATCH_CLASSIFICATIONS then log_end (Exhausted (Some f))
                           else dispatch_loop cfg env a (n + 1) (Some f) cands))))"

section \<open>Bodies\<close>

record execute_reply = ExecuteResult +
  xr_requestId :: jstr
  xr_policyDecision :: PolicyDecision
  xr_model :: jstr
  xr_authorizationFailures :: "AuthorizationFailure list"
  xr_decisionReceipt :: SignedPolicyDecisionReceiptV1
  xr_proofStarted :: bool
  xr_enclaveDecryptMs :: int
  xr_totalMs :: int

definition deniedBody :: "GateOutcome \<Rightarrow> execute_reply" where
  "deniedBody outcome = \<lparr> er_status = EX_DENIED, er_commitment = go_commitment outcome,
     er_policyId = dr_policyId (sdr_receipt (go_decisionReceipt outcome)), er_policyMs = go_gateWallMs outcome,
     er_encryptedResponse = None, er_receipt = None, er_attempts = [], er_selected = None,
     er_inputTokens = None, er_outputTokens = None, er_estimatedCostMicroUsd = None, er_providerTotalMs = None,
     er_error = Some (lit ''CTN_POLICY_DENIED'', lit ''Request was not eligible under Safety Policy v1.''),
     xr_requestId = go_requestId outcome, xr_policyDecision = DENY, xr_model = req_model (go_canonical outcome),
     xr_authorizationFailures = [], xr_decisionReceipt = go_decisionReceipt outcome, xr_proofStarted = True,
     xr_enclaveDecryptMs = go_decryptMs outcome, xr_totalMs = go_gateWallMs outcome \<rparr>"

definition failure_code :: "ProviderFailure option \<Rightarrow> jstr" where
  "failure_code lastFailure = (case lastFailure of
     None \<Rightarrow> lit ''CTN_NO_CAPACITY''
   | Some f \<Rightarrow> (case fo_classification f of
       auth_failed \<Rightarrow> lit ''CTN_PROVIDER_AUTH_FAILED''
     | rate_limited \<Rightarrow> lit ''CTN_PROVIDER_RATE_LIMITED''
     | _ \<Rightarrow> lit ''CTN_PROVIDER_ERROR''))"

definition failedBody :: "GateOutcome \<Rightarrow> AuthorizedRequest \<Rightarrow> dispatch_log \<Rightarrow> ProviderFailure option \<Rightarrow> int \<Rightarrow> execute_reply" where
  "failedBody outcome a l lastFailure totalMs = \<lparr> er_status = EX_FAILED, er_commitment = aq_requestCommitment a,
     er_policyId = dr_policyId (sdr_receipt (go_decisionReceipt outcome)), er_policyMs = go_gateWallMs outcome,
     er_encryptedResponse = None, er_receipt = None, er_attempts = dl_attempts l, er_selected = None,
     er_inputTokens = None, er_outputTokens = None, er_estimatedCostMicroUsd = None, er_providerTotalMs = None,
     er_error = Some (failure_code lastFailure,
        if failure_code lastFailure = lit ''CTN_NO_CAPACITY'' then lit ''No eligible contributed capacity is available for this model and policy.''
        else lit ''All eligible credentials failed for this request.''),
     xr_requestId = go_requestId outcome, xr_policyDecision = ALLOW, xr_model = req_model (go_canonical outcome),
     xr_authorizationFailures = dl_failures l, xr_decisionReceipt = go_decisionReceipt outcome, xr_proofStarted = True,
     xr_enclaveDecryptMs = go_decryptMs outcome, xr_totalMs = totalMs \<rparr>"

section \<open>The compute receipt\<close>

definition receipt_digest :: "prover_state \<Rightarrow> jstr \<Rightarrow> jstr" where
  "receipt_digest ps requestId = (case getProof ps requestId of
     Some r \<Rightarrow> (case prec_state r of
         PS_GENERATED _ d _ \<Rightarrow> d
       | PS_VERIFIED _ d _ _ _ _ \<Rightarrow> d
       | _ \<Rightarrow> lit ''pending'')
   | None \<Rightarrow> lit ''pending'')"

text \<open>What the dispatch reads besides its arguments: the clock for \<open>receivedAt\<close> (as the ISO text) and for the
  attestation, and the elapsed time.\<close>

record dispatch_io =
  di_receivedAt :: jstr
  di_attestAt :: int
  di_totalMs :: int
  di_env :: "int \<Rightarrow> call_env"

definition compute_receipt ::
  "enclave_cfg \<Rightarrow> dispatch_io \<Rightarrow> prover_state \<Rightarrow> GateOutcome \<Rightarrow> AuthorizedRequest \<Rightarrow> Candidate \<Rightarrow> int \<Rightarrow> ProviderResponse \<Rightarrow> ComputeReceipt option" where
  "compute_receipt cfg io ps outcome a cand n r =
     (case (attestationDigest (ec_rt cfg) (ec_tee cfg) (di_attestAt io), int_of_num (rp_estimatedCostMicroUsd r)) of
        (Some ad, Some cost) \<Rightarrow> Some \<lparr> cr_requestId = go_requestId outcome, cr_requestCommitment = aq_requestCommitment a,
          cr_teeMode = tee_mode, cr_buildId = tee_buildId (ec_tee cfg), cr_attestationDigest = ad,
          cr_policyId = dr_policyId (sdr_receipt (go_decisionReceipt outcome)), cr_decision = ALLOW,
          cr_zkReceiptDigest = receipt_digest ps (go_requestId outcome),
          cr_provider = cd_provider cand, cr_model = req_model (aq_request a), cr_credentialId = cd_credentialId cand,
          cr_contributorId = cd_contributorId cand, cr_attempt = n,
          cr_inputTokens = Some (rp_inputTokens r), cr_outputTokens = Some (rp_outputTokens r),
          cr_estimatedCostMicroUsd = Some cost, cr_pricingTableDigest = rp_pricingTableDigest r,
          cr_receivedAt = di_receivedAt io, cr_policyMs = go_gateWallMs outcome, cr_proofMs = None,
          cr_providerTotalMs = rp_latencyMs r, cr_upstreamRequestHash = rp_upstreamRequestHash r,
          cr_upstreamResponseHash = rp_upstreamResponseHash r \<rparr>
      | _ \<Rightarrow> None)"

definition response_plaintext :: "GateOutcome \<Rightarrow> AuthorizedRequest \<Rightarrow> ProviderResponse \<Rightarrow> json" where
  "response_plaintext outcome a r = JObj [(lit ''requestId'', JStr (go_requestId outcome)), (lit ''model'', JStr (req_model (aq_request a))),
     (lit ''content'', JStr (rp_content r)),
     (lit ''usage'', JObj [(lit ''inputTokens'', JInt (rp_inputTokens r)), (lit ''outputTokens'', JInt (rp_outputTokens r))])]"

definition seal_response :: "enclave_cfg \<Rightarrow> GateOutcome \<Rightarrow> AuthorizedRequest \<Rightarrow> ProviderResponse \<Rightarrow> SecureResponse option" where
  "seal_response cfg outcome a r =
     Option.bind (as_str (the (get_prop (go_payload outcome) ''responsePublicKey'')))
       (\<lambda>pk. hpkeSeal (ec_lib cfg) pk (utf8 (stringify (ec_rt cfg) (response_plaintext outcome a r))) None)"

definition completeBody ::
  "dispatch_io \<Rightarrow> GateOutcome \<Rightarrow> AuthorizedRequest \<Rightarrow> dispatch_log \<Rightarrow> SignedComputeReceipt \<Rightarrow> SecureResponse \<Rightarrow> execute_reply" where
  "completeBody io outcome a l scr sealed = (let rc = scr_receipt scr in \<lparr> er_status = EX_COMPLETE,
     er_commitment = aq_requestCommitment a,
     er_policyId = dr_policyId (sdr_receipt (go_decisionReceipt outcome)), er_policyMs = go_gateWallMs outcome,
     er_encryptedResponse = Some sealed, er_receipt = Some scr, er_attempts = dl_attempts l,
     er_selected = Some \<lparr> sel_credentialId = cr_credentialId rc, sel_contributorId = cr_contributorId rc,
        sel_provider = cr_provider rc, sel_model = cr_model rc, sel_attempt = cr_attempt rc \<rparr>,
     er_inputTokens = cr_inputTokens rc, er_outputTokens = cr_outputTokens rc, er_estimatedCostMicroUsd = cr_estimatedCostMicroUsd rc,
     er_providerTotalMs = Some (cr_providerTotalMs rc), er_error = None,
     xr_requestId = go_requestId outcome, xr_policyDecision = ALLOW, xr_model = req_model (aq_request a),
     xr_authorizationFailures = dl_failures l, xr_decisionReceipt = go_decisionReceipt outcome, xr_proofStarted = True,
     xr_enclaveDecryptMs = go_decryptMs outcome, xr_totalMs = di_totalMs io \<rparr>)"

section \<open>runDispatch and POST /execute\<close>

text \<open>Everything after the loop can still throw (the receipt holds an unsafe number, the response key is unusable):
  then the server answers 500 although a request left.\<close>

definition runDispatch ::
  "enclave_cfg \<Rightarrow> dispatch_io \<Rightarrow> prover_state \<Rightarrow> GateOutcome \<Rightarrow> Candidate list \<Rightarrow> execute_reply enclave_reply \<times> outbound list" where
  "runDispatch cfg io ps outcome cands =
     (case go_authorized outcome of
        None \<Rightarrow> (Crashed, [])
      | Some a \<Rightarrow>
          (let l = dispatch_loop cfg (di_env io) a 0 None cands in
           ((case dl_end l of
               Loop_threw \<Rightarrow> Crashed
             | Exhausted lastFailure \<Rightarrow> Accepted (failedBody outcome a l lastFailure (di_totalMs io))
             | Succeeded cand n r \<Rightarrow>
                 (case compute_receipt cfg io ps outcome a cand n r of
                    None \<Rightarrow> Crashed
                  | Some rc \<Rightarrow>
                      (case (signReceipt (ec_rt cfg) (ec_tee cfg) (compute_receipt_json rc), seal_response cfg outcome a r) of
                         (Some sg, Some sealed) \<Rightarrow>
                           Accepted (completeBody io outcome a l \<lparr> scr_receipt = rc, scr_enclaveSignature = sg \<rparr> sealed)
                       | _ \<Rightarrow> Crashed))), dl_out l)))"

text \<open>The first half of \<^verbatim>\<open>POST /execute\<close>: a parked gate is consumed against the presented commitment; without one, the
  request is gated inline and its proof started.\<close>

definition consume_parked ::
  "int \<Rightarrow> SecureRequestEnvelope option \<Rightarrow> jstr option \<Rightarrow> 'z enclave_scheme \<Rightarrow> GateOutcome ConsumeResult \<times> 'z enclave_scheme" where
  "consume_parked now envelope presented s = (case envelope of
     Some env \<Rightarrow> if env_requestId env = [] then (MISS, s)
       else (case consume now (env_requestId env) (case presented of Some c \<Rightarrow> c | None \<Rightarrow> []) (en_pending s) of
               (r, p) \<Rightarrow> (r, s\<lparr> en_pending := p \<rparr>))
   | None \<Rightarrow> (MISS, s))"

definition execute_gated ::
  "enclave_cfg \<Rightarrow> gate_io \<Rightarrow> (gate_error + GateOutcome) \<times> 'z enclave_scheme \<Rightarrow> (execute_reply enclave_reply + GateOutcome) \<times> 'z enclave_scheme" where
  "execute_gated cfg io r = (case r of
      (Inl e, s) \<Rightarrow> (Inl (replyGateError e), s)
    | (Inr outcome, s) \<Rightarrow>
        (case witnessFor cfg outcome of
           None \<Rightarrow> (Inl Crashed, s)
         | Some w \<Rightarrow> (Inr outcome, start_proof cfg io (go_requestId outcome) w s)))"

definition MISMATCH_REPLY :: "execute_reply enclave_reply" where
  "MISMATCH_REPLY = Refused 400 ''CTN_INVALID_ENVELOPE'' (lit ''execute does not match the parked gate commitment'')"

definition execute_begin ::
  "enclave_cfg \<Rightarrow> gate_io \<Rightarrow> ('z enclave_scheme \<Rightarrow> 'z enclave_scheme) \<Rightarrow> ('z enclave_scheme \<Rightarrow> 'z enclave_scheme)
   \<Rightarrow> SecureRequestEnvelope option \<Rightarrow> jstr option \<Rightarrow> 'z enclave_scheme \<Rightarrow> (execute_reply enclave_reply + GateOutcome) \<times> 'z enclave_scheme" where
  "execute_begin cfg io opening executing envelope presented s =
     (case consume_parked (gi_now io) envelope presented s of
        (MISMATCH, s1) \<Rightarrow> (Inl MISMATCH_REPLY, s1)
      | (HIT outcome, s1) \<Rightarrow> (Inr outcome, s1)
      | (MISS, s1) \<Rightarrow> execute_gated cfg io (gateRequest cfg io opening executing envelope s1))"

definition dispatch_or_deny ::
  "enclave_cfg \<Rightarrow> dispatch_io \<Rightarrow> prover_state \<Rightarrow> GateOutcome \<Rightarrow> Candidate list \<Rightarrow> execute_reply enclave_reply \<times> outbound list" where
  "dispatch_or_deny cfg dio ps outcome cands =
     (if go_decision outcome = DENY then (Accepted (deniedBody outcome), []) else runDispatch cfg dio ps outcome cands)"

definition postExecute ::
  "enclave_cfg \<Rightarrow> gate_io \<Rightarrow> dispatch_io \<Rightarrow> ('z enclave_scheme \<Rightarrow> 'z enclave_scheme) \<Rightarrow> ('z enclave_scheme \<Rightarrow> 'z enclave_scheme) \<Rightarrow> ('z enclave_scheme \<Rightarrow> 'z enclave_scheme)
   \<Rightarrow> SecureRequestEnvelope option \<Rightarrow> Candidate list \<Rightarrow> jstr option \<Rightarrow> 'z enclave_scheme
   \<Rightarrow> (execute_reply enclave_reply \<times> outbound list) \<times> 'z enclave_scheme" where
  "postExecute cfg io dio opening executing dispatching envelope cands presented s =
     (case execute_begin cfg io opening executing envelope presented s of
        (Inl r, s1) \<Rightarrow> ((r, []), s1)
      | (Inr outcome, s1) \<Rightarrow>
          (let s2 = dispatching s1 in (dispatch_or_deny cfg dio (en_prover s2) outcome cands, s2)))"

section \<open>What the loop does\<close>

lemmas log_simps = log_end_def log_failure_def log_attempt_def

lemma authorize_ok_provider: "authorize cfg cand a = Some (Inr c) \<Longrightarrow> cd_status cand = lit ''ACTIVE'' \<and> ac_provider c = cd_provider cand"
  by (auto simp: authorize_def authorizeCandidate_ok)

lemma dispatch_loop_sends:
  "length (dl_out (dispatch_loop cfg env a n lf cands)) \<le> 1
   \<and> (dl_out (dispatch_loop cfg env a n lf cands) = [q] \<longrightarrow>
        (\<exists>cand cred ad k. cand \<in> set cands \<and> authorize cfg cand a = Some (Inr cred) \<and> serving_adapter cfg cand a = Some ad
          \<and> fst (complete (ec_rt cfg) (env k) ad a cred) = [q]))"
proof (induction cands arbitrary: n lf)
  case (Cons cand cands)
  show ?case
  proof (cases "\<exists>cred ad. authorize cfg cand a = Some (Inr cred) \<and> serving_adapter cfg cand a = Some ad")
    case False
    then show ?thesis using Cons.IH [of n lf]
      by (cases "authorize cfg cand a"; cases "the (authorize cfg cand a)"; cases "serving_adapter cfg cand a") (auto simp: log_simps)
  next
    case True
    then obtain cred ad where c: "authorize cfg cand a = Some (Inr cred)" "serving_adapter cfg cand a = Some ad" by blast
    obtain out outcome where o: "complete (ec_rt cfg) (env (n + 1)) ad a cred = (out, outcome)" by (cases "complete (ec_rt cfg) (env (n + 1)) ad a cred")
    have sq: "out = [] \<or> (\<exists>q. out = [q])" using reg.sent_or_quiet [of "ec_rt cfg" "env (n + 1)" ad a cred] o by auto
    show ?thesis
    proof (cases "\<exists>f. outcome = Failure f \<and> fo_classification f \<in> set PRE_DISPATCH_CLASSIFICATIONS")
      case True
      then obtain f where f: "outcome = Failure f" "fo_classification f \<in> set PRE_DISPATCH_CLASSIFICATIONS" by blast
      then have "out = []" using reg.quiet_iff [of "ec_rt cfg" "env (n + 1)" ad a cred] o by auto
      with f c o show ?thesis using Cons.IH [of "n + 1" "Some f"] by (auto simp: log_simps)
    next
      case F: False
      then have "dl_out (dispatch_loop cfg env a n lf (cand # cands)) = out"
        using c o by (cases outcome) (auto simp: log_simps)
      moreover have "\<exists>cred ad k. authorize cfg cand a = Some (Inr cred) \<and> serving_adapter cfg cand a = Some ad
          \<and> fst (complete (ec_rt cfg) (env k) ad a cred) = out" using c o by (metis fst_conv)
      ultimately show ?thesis using sq by auto (metis list.set_intros(1))
    qed
  qed
qed (simp add: log_simps)

lemma dispatch_loop_success:
  "dl_end (dispatch_loop cfg env a n lf cands) = Succeeded cand m r \<Longrightarrow>
     \<exists>cred ad q. cand \<in> set cands \<and> authorize cfg cand a = Some (Inr cred) \<and> serving_adapter cfg cand a = Some ad
       \<and> complete (ec_rt cfg) (env m) ad a cred = ([q], Completed r) \<and> dl_out (dispatch_loop cfg env a n lf cands) = [q]"
proof (induction cands arbitrary: n lf)
  case (Cons c cands)
  show ?case
  proof (cases "\<exists>cred ad. authorize cfg c a = Some (Inr cred) \<and> serving_adapter cfg c a = Some ad")
    case False
    then show ?thesis using Cons
      by (cases "authorize cfg c a"; cases "the (authorize cfg c a)"; cases "serving_adapter cfg c a") (auto simp: log_simps)
  next
    case True
    then obtain cred ad where c: "authorize cfg c a = Some (Inr cred)" "serving_adapter cfg c a = Some ad" by blast
    obtain out outcome where o: "complete (ec_rt cfg) (env (n + 1)) ad a cred = (out, outcome)" by (cases "complete (ec_rt cfg) (env (n + 1)) ad a cred")
    show ?thesis
    proof (cases outcome)
      case (Completed r')
      then obtain q where "out = [q]" using reg.bound [of "ec_rt cfg" "env (n + 1)" ad a cred r'] o by auto
      with Completed Cons.prems c o show ?thesis by (auto simp: log_simps)
    next
      case (Failure f)
      show ?thesis
      proof (cases "fo_classification f \<in> set PRE_DISPATCH_CLASSIFICATIONS")
        case True
        then have "out = []" using reg.quiet_iff [of "ec_rt cfg" "env (n + 1)" ad a cred] o Failure by auto
        with True Failure Cons.prems c o Cons.IH [of "n + 1" "Some f"] show ?thesis by (auto simp: log_simps)
      qed (use Failure Cons.prems c o in \<open>auto simp: log_simps\<close>)
    qed
  qed
qed (simp add: log_simps)

text \<open>A quiet attempt: refused inside the enclave, before any byte left.\<close>

definition quiet_attempt :: "AttemptResult \<Rightarrow> bool" where
  "quiet_attempt att \<longleftrightarrow> ar_status att = ATTEMPT_FAILED \<and> ar_httpStatus att = 0 \<and> \<not> ar_upstreamOutcomeUnknown att
     \<and> (\<exists>k \<in> set PRE_DISPATCH_CLASSIFICATIONS. ar_classification att = Some (class_str k))"

lemma class_str_inject [simp]: "class_str x = class_str y \<longleftrightarrow> x = y"
  by (cases x; cases y) simp_all

lemma attempt_quiet_iff:
  assumes "complete rt ce ad a cred = (out, outcome)"
  shows "quiet_attempt (attempt_of cand n outcome) \<longleftrightarrow> out = []"
proof (cases outcome)
  case (Completed r)
  then show ?thesis using reg.quiet_iff [of rt ce ad a cred] assms by (auto simp: quiet_attempt_def attempt_of_def)
next
  case (Failure f)
  have "out = [] \<longleftrightarrow> fo_classification f \<in> set PRE_DISPATCH_CLASSIFICATIONS"
    using reg.quiet_iff [of rt ce ad a cred] assms Failure by auto
  moreover have "fo_classification f \<in> set PRE_DISPATCH_CLASSIFICATIONS \<Longrightarrow> fo_httpStatus f = 0 \<and> \<not> fo_upstreamOutcomeUnknown f"
    using reg.quiet_status [of rt ce ad a cred f] assms Failure by auto
  ultimately show ?thesis using Failure by (auto simp: quiet_attempt_def attempt_of_def)
qed

definition attempts_ok :: "int \<Rightarrow> AttemptResult list \<Rightarrow> outbound list \<Rightarrow> bool" where
  "attempts_ok n atts sent \<longleftrightarrow> map ar_attemptNumber atts = map (\<lambda>i. n + 1 + int i) [0..<length atts]
     \<and> list_all quiet_attempt (butlast atts) \<and> (sent = [] \<longleftrightarrow> list_all quiet_attempt atts)"

lemma attempts_ok_Cons:
  assumes "ar_attemptNumber att = n + 1" "quiet_attempt att" "attempts_ok (n + 1) atts sent"
  shows "attempts_ok n (att # atts) sent"
proof -
  have "map (\<lambda>i. n + 1 + int i) [0..<Suc (length atts)] = (n + 1) # map (\<lambda>i. n + 1 + 1 + int i) [0..<length atts]"
    by (simp add: upt_conv_Cons flip: map_Suc_upt del: upt_Suc)
  with assms show ?thesis by (auto simp: attempts_ok_def)
qed

lemma dispatch_loop_attempts:
  "attempts_ok n (dl_attempts (dispatch_loop cfg env a n lf cands)) (dl_out (dispatch_loop cfg env a n lf cands))"
proof (induction cands arbitrary: n lf)
  case (Cons c cands)
  show ?case
  proof (cases "\<exists>cred ad. authorize cfg c a = Some (Inr cred) \<and> serving_adapter cfg c a = Some ad")
    case False
    then show ?thesis using Cons.IH [of n lf]
      by (cases "authorize cfg c a"; cases "the (authorize cfg c a)"; cases "serving_adapter cfg c a") (auto simp: log_simps attempts_ok_def)
  next
    case True
    then obtain cred ad where c: "authorize cfg c a = Some (Inr cred)" "serving_adapter cfg c a = Some ad" by blast
    obtain out outcome where o: "complete (ec_rt cfg) (env (n + 1)) ad a cred = (out, outcome)" by (cases "complete (ec_rt cfg) (env (n + 1)) ad a cred")
    have num: "ar_attemptNumber (attempt_of c (n + 1) outcome) = n + 1" by (cases outcome) (simp_all add: attempt_of_def)
    note quiet = attempt_quiet_iff [OF o, of c "n + 1"]
    show ?thesis
    proof (cases "out = []")
      case True
      then obtain f where f: "outcome = Failure f" "fo_classification f \<in> set PRE_DISPATCH_CLASSIFICATIONS"
        using reg.quiet_iff [of "ec_rt cfg" "env (n + 1)" ad a cred] o by auto
      from attempts_ok_Cons [OF num _ Cons.IH [of "n + 1" "Some f"]] quiet True f c o show ?thesis by (auto simp: log_simps)
    next
      case False
      then have "\<not> (\<exists>f. outcome = Failure f \<and> fo_classification f \<in> set PRE_DISPATCH_CLASSIFICATIONS)"
        using reg.quiet_iff [of "ec_rt cfg" "env (n + 1)" ad a cred] o by auto
      with False quiet num c o show ?thesis by (cases outcome) (auto simp: log_simps attempts_ok_def)
    qed
  qed
qed (simp add: log_simps attempts_ok_def)

section \<open>The adapter calls of a dispatch\<close>

text \<open>Which adapters a dispatch calls, said without the loop. The candidates it may use are those before the first
  whose authorization throws, that are authorized and served by a registered adapter; they are numbered from 1 and
  called in order, up to and including the first call that is not refused before anything left.\<close>

definition usable :: "enclave_cfg \<Rightarrow> AuthorizedRequest \<Rightarrow> Candidate \<Rightarrow> (Candidate \<times> AuthorizedCredential \<times> adapter) option" where
  "usable cfg a cand = (case authorize cfg cand a of
     Some (Inr cred) \<Rightarrow> map_option (\<lambda>ad. (cand, cred, ad)) (serving_adapter cfg cand a)
   | _ \<Rightarrow> None)"

record adapter_call =
  cl_candidate :: Candidate
  cl_number :: int
  cl_sent :: "outbound list"
  cl_outcome :: ProviderOutcome

definition call_numbered :: "enclave_cfg \<Rightarrow> (int \<Rightarrow> call_env) \<Rightarrow> AuthorizedRequest \<Rightarrow> int \<Rightarrow> Candidate \<times> AuthorizedCredential \<times> adapter \<Rightarrow> adapter_call" where
  "call_numbered cfg env a i = (\<lambda>(cand, cred, ad). \<lparr> cl_candidate = cand, cl_number = i,
     cl_sent = fst (complete (ec_rt cfg) (env i) ad a cred), cl_outcome = snd (complete (ec_rt cfg) (env i) ad a cred) \<rparr>)"

fun pre_dispatch :: "ProviderOutcome \<Rightarrow> bool" where
  "pre_dispatch (Failure f) \<longleftrightarrow> fo_classification f \<in> {egress_denied, unpriced_model}"
| "pre_dispatch (Completed r) \<longleftrightarrow> False"

definition upto_first :: "('a \<Rightarrow> bool) \<Rightarrow> 'a list \<Rightarrow> 'a list" where
  "upto_first P xs = takeWhile (\<lambda>x. \<not> P x) xs @ take 1 (dropWhile (\<lambda>x. \<not> P x) xs)"

definition calls_from :: "enclave_cfg \<Rightarrow> (int \<Rightarrow> call_env) \<Rightarrow> AuthorizedRequest \<Rightarrow> int \<Rightarrow> Candidate list \<Rightarrow> adapter_call list" where
  "calls_from cfg env a n cands =
     (let us = List.map_filter (usable cfg a) (takeWhile (\<lambda>c. authorize cfg c a \<noteq> None) cands) in
      upto_first (\<lambda>c. \<not> pre_dispatch (cl_outcome c))
        (map (\<lambda>(i, u). call_numbered cfg env a (n + 1 + int i) u) (enumerate 0 us)))"

abbreviation adapter_calls :: "enclave_cfg \<Rightarrow> (int \<Rightarrow> call_env) \<Rightarrow> AuthorizedRequest \<Rightarrow> Candidate list \<Rightarrow> adapter_call list" where
  "adapter_calls cfg env a \<equiv> calls_from cfg env a 0"

definition reported :: "adapter_call \<Rightarrow> AttemptResult" where
  "reported c = attempt_of (cl_candidate c) (cl_number c) (cl_outcome c)"

lemma upto_first_simps [simp]:
  "upto_first P [] = []"
  "upto_first P (x # xs) = x # (if P x then [] else upto_first P xs)"
  by (simp_all add: upto_first_def)

lemma calls_from_Nil [simp]: "calls_from cfg env a n [] = []"
  by (simp add: calls_from_def List.map_filter_def)

lemma calls_from_Cons:
  "calls_from cfg env a n (cand # cands) = (if authorize cfg cand a = None then [] else
     (case usable cfg a cand of
        None \<Rightarrow> calls_from cfg env a n cands
      | Some u \<Rightarrow> call_numbered cfg env a (n + 1) u #
          (if pre_dispatch (cl_outcome (call_numbered cfg env a (n + 1) u)) then calls_from cfg env a (n + 1) cands else [])))"
proof -
  have e: "map (\<lambda>(i, u). f (n + 1 + int i) u) (enumerate (Suc 0) us) = map (\<lambda>(i, u). f (n + 1 + 1 + int i) u) (enumerate 0 us)"
    for f :: "int \<Rightarrow> _ \<Rightarrow> adapter_call" and us
    by (simp add: enumerate_Suc_eq comp_def case_prod_beta ac_simps)
  show ?thesis
    by (cases "usable cfg a cand") (simp_all add: calls_from_def Let_def List.map_filter_simps e)
qed

text \<open>The loop makes exactly these calls and logs every one of them; it succeeds only with the last call, and it
  throws only when nothing has left.\<close>

fun end_ok :: "loop_end \<Rightarrow> adapter_call list \<Rightarrow> bool" where
  "end_ok (Succeeded cand m r) cs \<longleftrightarrow> cs \<noteq> [] \<and> cl_candidate (last cs) = cand \<and> cl_number (last cs) = m \<and> cl_outcome (last cs) = Completed r"
| "end_ok Loop_threw cs \<longleftrightarrow> concat (map cl_sent cs) = []"
| "end_ok (Exhausted f) cs \<longleftrightarrow> True"

lemma end_ok_Cons: "end_ok e cs \<Longrightarrow> cl_sent c = [] \<Longrightarrow> end_ok e (c # cs)"
  by (cases e) auto

lemma dispatch_loop_calls:
  "dl_attempts (dispatch_loop cfg env a n lf cands) = map reported (calls_from cfg env a n cands)
   \<and> dl_out (dispatch_loop cfg env a n lf cands) = concat (map cl_sent (calls_from cfg env a n cands))
   \<and> end_ok (dl_end (dispatch_loop cfg env a n lf cands)) (calls_from cfg env a n cands)"
proof (induction cands arbitrary: n lf)
  case (Cons cand cands)
  show ?case
  proof (cases "\<exists>cred ad. authorize cfg cand a = Some (Inr cred) \<and> serving_adapter cfg cand a = Some ad")
    case False
    then show ?thesis using Cons.IH [of n lf]
      by (cases "authorize cfg cand a"; cases "the (authorize cfg cand a)"; cases "serving_adapter cfg cand a")
         (auto simp: log_simps calls_from_Cons usable_def)
  next
    case True
    then obtain cred ad where c: "authorize cfg cand a = Some (Inr cred)" "serving_adapter cfg cand a = Some ad" by blast
    obtain out outcome where o: "complete (ec_rt cfg) (env (n + 1)) ad a cred = (out, outcome)" by (cases "complete (ec_rt cfg) (env (n + 1)) ad a cred")
    have u: "usable cfg a cand = Some (cand, cred, ad)" using c by (simp add: usable_def)
    have call: "call_numbered cfg env a (n + 1) (cand, cred, ad) = \<lparr> cl_candidate = cand, cl_number = n + 1, cl_sent = out, cl_outcome = outcome \<rparr>"
      using o by (simp add: call_numbered_def)
    show ?thesis
    proof (cases outcome)
      case (Completed r)
      then show ?thesis using c o u call by (simp add: calls_from_Cons log_simps reported_def)
    next
      case (Failure f)
      show ?thesis
      proof (cases "fo_classification f \<in> set PRE_DISPATCH_CLASSIFICATIONS")
        case True
        then have "out = []" using reg.quiet_iff [of "ec_rt cfg" "env (n + 1)" ad a cred] o Failure by auto
        with True Failure c o u call Cons.IH [of "n + 1" "Some f"] show ?thesis
          by (auto simp: calls_from_Cons log_simps reported_def PRE_DISPATCH_CLASSIFICATIONS_def intro: end_ok_Cons)
      next
        case False
        with Failure c o u call show ?thesis
          by (simp add: calls_from_Cons log_simps reported_def PRE_DISPATCH_CLASSIFICATIONS_def)
      qed
    qed
  qed
qed (simp add: log_simps)

section \<open>Single dispatch\<close>

lemma runDispatch_sent:
  "snd (runDispatch cfg dio ps out cands) = [] \<or>
   (\<exists>a q cand cred ad k. go_authorized out = Some a \<and> snd (runDispatch cfg dio ps out cands) = [q] \<and> cand \<in> set cands
     \<and> authorize cfg cand a = Some (Inr cred) \<and> serving_adapter cfg cand a = Some ad
     \<and> fst (complete (ec_rt cfg) (di_env dio k) ad a cred) = [q])"
proof (cases "go_authorized out")
  case (Some a)
  let ?l = "dispatch_loop cfg (di_env dio) a 0 None cands"
  have "snd (runDispatch cfg dio ps out cands) = dl_out ?l" using Some by (simp add: runDispatch_def Let_def)
  moreover have "dl_out ?l = [] \<or> (\<exists>q. dl_out ?l = [q])"
    using dispatch_loop_sends [of cfg "di_env dio" a 0 None cands] by (cases "dl_out ?l") auto
  ultimately show ?thesis using Some dispatch_loop_sends [of cfg "di_env dio" a 0 None cands] by fastforce
qed (simp add: runDispatch_def)

lemma runDispatch_attempts:
  "runDispatch cfg dio ps out cands = (Accepted b, sent) \<Longrightarrow> attempts_ok 0 (er_attempts b) sent"
  using dispatch_loop_attempts [where n = 0 and lf = None and cfg = cfg and env = "di_env dio" and cands = cands]
  by (auto simp: runDispatch_def Let_def failedBody_def completeBody_def split: option.splits loop_end.splits)

text \<open>The calls one judged request makes: none when it is denied.\<close>

definition calls_made :: "enclave_cfg \<Rightarrow> dispatch_io \<Rightarrow> GateOutcome \<Rightarrow> Candidate list \<Rightarrow> adapter_call list" where
  "calls_made cfg dio outcome cands = (case go_authorized outcome of
     Some a \<Rightarrow> if go_decision outcome = DENY then [] else adapter_calls cfg (di_env dio) a cands
   | None \<Rightarrow> [])"

lemma runDispatch_calls:
  assumes "runDispatch cfg dio ps out cands = (reply, sent)" "go_decision out \<noteq> DENY"
  shows "sent = concat (map cl_sent (calls_made cfg dio out cands))
    \<and> (case reply of Accepted b \<Rightarrow> er_attempts b = map reported (calls_made cfg dio out cands)
       | Crashed \<Rightarrow> sent = [] \<or> (\<exists>r. cl_outcome (last (calls_made cfg dio out cands)) = Completed r)
       | Refused _ _ _ \<Rightarrow> False)"
proof (cases "go_authorized out")
  case None
  then show ?thesis using assms(1) by (auto simp: runDispatch_def calls_made_def)
next
  case (Some a)
  let ?l = "dispatch_loop cfg (di_env dio) a 0 None cands"
  have m: "calls_made cfg dio out cands = adapter_calls cfg (di_env dio) a cands" using Some assms(2) by (simp add: calls_made_def)
  note l = dispatch_loop_calls [of cfg "di_env dio" a 0 None cands]
  show ?thesis using assms(1) Some l unfolding m
    by (cases "dl_end ?l") (auto simp: runDispatch_def Let_def failedBody_def completeBody_def split: option.splits)
qed

lemma dispatch_or_deny_accounts:
  assumes "dispatch_or_deny cfg dio ps out cands = (reply, sent)"
  shows "length sent \<le> 1 \<and> sent = concat (map cl_sent (calls_made cfg dio out cands))
    \<and> (case reply of
         Accepted b \<Rightarrow> er_attempts b = map reported (calls_made cfg dio out cands) \<and> attempts_ok 0 (er_attempts b) sent
       | Crashed \<Rightarrow> sent = [] \<or> (\<exists>r. cl_outcome (last (calls_made cfg dio out cands)) = Completed r)
       | Refused _ _ _ \<Rightarrow> False)"
proof (cases "go_decision out = DENY")
  case True
  then show ?thesis using assms
    by (auto simp: dispatch_or_deny_def deniedBody_def attempts_ok_def calls_made_def split: option.splits)
next
  case False
  then have r: "runDispatch cfg dio ps out cands = (reply, sent)" using assms by (simp add: dispatch_or_deny_def)
  then have "length sent \<le> 1" using runDispatch_sent [of cfg dio ps out cands] by auto
  moreover have "attempts_ok 0 (er_attempts b) sent" if "reply = Accepted b" for b using runDispatch_attempts r that by blast
  ultimately show ?thesis using runDispatch_calls [OF r False] by (cases reply) auto
qed

text \<open>C3. A request is dispatched at most once, and a reply that is given reports every adapter call. Whatever candidates
  the coordinator lists, whatever the providers answer and however other handlers interleave, one \<^verbatim>\<open>POST /execute\<close>
  sends at most one request upstream. A request that fails before it is judged calls no adapter. A judged one makes
  exactly the calls of \<open>calls_made\<close>, which names them without the loop (the authorized and served candidates in order,
  up to the first call not refused before anything left; none for a denial), and what left is what these calls sent. An
  accepted reply lists one attempt per call, in order, with its candidate and outcome: numbered consecutively from 1,
  every attempt before the last refused inside the enclave, nothing sent exactly when all were. A crash reports no
  attempt; it can follow a send only when the last call was answered and completed, and the receipt or the response
  could then not be made.\<close>

theorem single_dispatch:
  "case postExecute cfg io dio opening executing dispatching envelope cands presented s of
     ((reply, sent), s') \<Rightarrow> length sent \<le> 1
       \<and> (case fst (execute_begin cfg io opening executing envelope presented s) of
            Inl r \<Rightarrow> reply = r \<and> sent = [] \<and> (\<forall>b. reply \<noteq> Accepted b)
          | Inr outcome \<Rightarrow> sent = concat (map cl_sent (calls_made cfg dio outcome cands))
             \<and> (case reply of
                  Accepted b \<Rightarrow> er_attempts b = map reported (calls_made cfg dio outcome cands)
                    \<and> map ar_attemptNumber (er_attempts b) = map (\<lambda>i. 1 + int i) [0..<length (er_attempts b)]
                    \<and> list_all quiet_attempt (butlast (er_attempts b)) \<and> (sent = [] \<longleftrightarrow> list_all quiet_attempt (er_attempts b))
                | Crashed \<Rightarrow> sent = [] \<or> (\<exists>r. cl_outcome (last (calls_made cfg dio outcome cands)) = Completed r)
                | Refused _ _ _ \<Rightarrow> False))"
proof (cases "execute_begin cfg io opening executing envelope presented s")
  case (Pair g s1)
  show ?thesis
  proof (cases g)
    case (Inl r)
    have "(\<nexists>b. r = Accepted b)" using Pair unfolding Inl execute_begin_def execute_gated_def MISMATCH_REPLY_def
      by (auto split: prod.splits ConsumeResult.splits sum.splits option.splits dest: sym elim!: replyGateError.elims)
    then show ?thesis by (simp add: postExecute_def Pair Inl)
  next
    case (Inr out)
    obtain reply sent where d: "dispatch_or_deny cfg dio (en_prover (dispatching s1)) out cands = (reply, sent)"
      by (cases "dispatch_or_deny cfg dio (en_prover (dispatching s1)) out cands")
    have p: "postExecute cfg io dio opening executing dispatching envelope cands presented s = ((reply, sent), dispatching s1)"
      by (simp add: postExecute_def Pair Inr Let_def d)
    show ?thesis unfolding p Pair Inr prod.case fst_conv sum.case
      using dispatch_or_deny_accounts [OF d] unfolding attempts_ok_def by (cases reply) auto
  qed
qed

section \<open>The receipt and the response\<close>

definition hpke_pair :: "crypto_lib \<Rightarrow> jstr \<Rightarrow> jstr \<Rightarrow> bool" where
  "hpke_pair lib pk sk \<longleftrightarrow> (\<forall>pt aad e ct. suite_seal lib (fromB64 pk) pt aad = Some (e, ct) \<longrightarrow> suite_open lib (fromB64 sk) e ct aad = Some pt)"

lemma hpke_opens:
  "hpke_pair lib pk sk \<Longrightarrow> hpkeSeal lib pk pt aad = Some box \<Longrightarrow> hpkeOpen lib sk (resp_enc box) (resp_ciphertext box) aad = Some pt"
  by (auto simp: hpke_pair_def hpkeSeal_def hpkeOpen_def fromB64_toB64)

lemma int_of_num_Some: "int_of_num x = Some n \<Longrightarrow> x = Fin (of_int n)"
  by (cases x) (auto split: if_splits)

lemma dispatch_completed:
  assumes run: "runDispatch cfg dio ps out cands = (Accepted b, sent)" "er_status b = EX_COMPLETE"
    and sg: "signer (ec_rt cfg) (ec_tee cfg)"
    and pk: "get_prop (go_payload out) ''responsePublicKey'' = Some (JStr pk)" "hpke_pair (ec_lib cfg) pk sk"
  shows "\<exists>a cand cred ad n q r rc sgn box. go_authorized out = Some a \<and> cand \<in> set cands
     \<and> authorize cfg cand a = Some (Inr cred) \<and> serving_adapter cfg cand a = Some ad
     \<and> complete (ec_rt cfg) (di_env dio n) ad a cred = ([q], Completed r) \<and> sent = [q]
     \<and> er_receipt b = Some \<lparr> scr_receipt = rc, scr_enclaveSignature = sgn \<rparr>
     \<and> verifyCanonical (ec_rt cfg) (compute_receipt_json rc) sgn (tee_signingPublicKey (ec_tee cfg)) = Some True
     \<and> cr_requestId rc = go_requestId out \<and> cr_requestCommitment rc = aq_requestCommitment a \<and> cr_decision rc = ALLOW
     \<and> cr_policyId rc = dr_policyId (sdr_receipt (go_decisionReceipt out))
     \<and> cr_provider rc = ac_provider cred \<and> cr_model rc = req_model (aq_request a)
     \<and> cr_credentialId rc = ac_credentialId cred \<and> cr_contributorId rc = ac_contributorId cred \<and> cr_attempt rc = n
     \<and> cr_inputTokens rc = Some (rp_inputTokens r) \<and> cr_outputTokens rc = Some (rp_outputTokens r)
     \<and> estimateCostMicroUsd (ec_rt cfg) (cr_model rc) (rp_inputTokens r) (rp_outputTokens r)
         = map_option (\<lambda>c. Fin (of_int c)) (cr_estimatedCostMicroUsd rc)
     \<and> cr_upstreamRequestHash rc = lit ''0x'' @ sha256Hex (ec_rt cfg) (utf8 (out_body q))
     \<and> er_encryptedResponse b = Some box
     \<and> hpkeOpen (ec_lib cfg) sk (resp_enc box) (resp_ciphertext box) None
         = Some (utf8 (stringify (ec_rt cfg) (response_plaintext out a r)))"
proof -
  obtain a where a: "go_authorized out = Some a" using run(1) by (auto simp: runDispatch_def split: option.splits)
  let ?l = "dispatch_loop cfg (di_env dio) a 0 None cands"
  have sent: "sent = dl_out ?l" using run(1) a by (auto simp: runDispatch_def Let_def)
  obtain cand n r where e: "dl_end ?l = Succeeded cand n r"
    using run a by (cases "dl_end ?l") (auto simp: runDispatch_def Let_def failedBody_def)
  from dispatch_loop_success [OF e] obtain cred ad q where
    c: "cand \<in> set cands" "authorize cfg cand a = Some (Inr cred)" "serving_adapter cfg cand a = Some ad"
      "complete (ec_rt cfg) (di_env dio n) ad a cred = ([q], Completed r)" "dl_out ?l = [q]" by blast
  obtain rc sgn box where rc: "compute_receipt cfg dio ps out a cand n r = Some rc"
    and s: "signReceipt (ec_rt cfg) (ec_tee cfg) (compute_receipt_json rc) = Some sgn" "seal_response cfg out a r = Some box"
    and b: "b = completeBody dio out a ?l \<lparr> scr_receipt = rc, scr_enclaveSignature = sgn \<rparr> box"
    using run(1) a e by (auto simp: runDispatch_def Let_def split: option.splits)
  obtain digest cost where rc': "int_of_num (rp_estimatedCostMicroUsd r) = Some cost"
      "attestationDigest (ec_rt cfg) (ec_tee cfg) (di_attestAt dio) = Some digest"
    using rc by (auto simp: compute_receipt_def split: option.splits)
  obtain rd h where rd: "snd (complete (ec_rt cfg) (di_env dio n) ad a cred) = after_fetch (ec_rt cfg) a h rd (ce_net (di_env dio n) q)"
    by (rule complete_sent [of "ec_rt cfg" "di_env dio n" ad a cred q]) (simp add: c)
  then have "estimateCostMicroUsd (ec_rt cfg) (req_model (aq_request a)) (rp_inputTokens r) (rp_outputTokens r) = Some (Fin (of_int cost))"
    using after_fetch_completed [of "ec_rt cfg" a h rd _ r] int_of_num_Some [OF rc'(1)] by (auto simp: c)
  moreover have "rp_upstreamRequestHash r = lit ''0x'' @ sha256Hex (ec_rt cfg) (utf8 (out_body q))"
    using reg.bound [of "ec_rt cfg" "di_env dio n" ad a cred r] c(4) by auto
  moreover have "hpkeOpen (ec_lib cfg) sk (resp_enc box) (resp_ciphertext box) None = Some (utf8 (stringify (ec_rt cfg) (response_plaintext out a r)))"
    by (rule hpke_opens [OF pk(2)]) (use s(2) pk(1) in \<open>simp add: seal_response_def\<close>)
  moreover have "verifyCanonical (ec_rt cfg) (compute_receipt_json rc) sgn (tee_signingPublicKey (ec_tee cfg)) = Some True"
    by (rule signReceipt_verifies [OF sg s(1)])
  moreover have "ac_credentialId cred = cd_credentialId cand" "ac_contributorId cred = cd_contributorId cand" "ac_provider cred = cd_provider cand"
    using c(2) by (auto simp: authorize_def authorizeCandidate_ok)
  ultimately show ?thesis using a c rc rc' b sent
    by (intro exI [of _ a] exI [of _ cand] exI [of _ cred] exI [of _ ad] exI [of _ n] exI [of _ q] exI [of _ r] exI [of _ rc] exI [of _ sgn] exI [of _ box])
       (auto simp: completeBody_def Let_def compute_receipt_def)
qed

text \<open>C4. A completed dispatch is what its receipt says. When \<open>runDispatch\<close> answers COMPLETE, exactly one request was
  sent, for an authorized candidate, and the signed receipt verifies under the attested key and names the commitment
  of the authorized request, the guest's policy id, the provider, model, credential and contributor that served it, the token
  counts the provider reported with the estimate of their cost, and the digest of the bytes that left; and the holder of
  the response key sealed in the request opens the answer to the provider's content.\<close>

theorem receipt_states_dispatch:
  assumes run: "runDispatch cfg dio ps out cands = (Accepted b, sent)" "er_status b = EX_COMPLETE"
    and sg: "signer (ec_rt cfg) (ec_tee cfg)"
    and pk: "get_prop (go_payload out) ''responsePublicKey'' = Some (JStr pk)" "hpke_pair (ec_lib cfg) pk sk"
  shows "\<exists>a cand cred ad n q r rc sgn box. go_authorized out = Some a \<and> cand \<in> set cands
     \<and> authorize cfg cand a = Some (Inr cred) \<and> serving_adapter cfg cand a = Some ad
     \<and> complete (ec_rt cfg) (di_env dio n) ad a cred = ([q], Completed r) \<and> sent = [q]
     \<and> er_receipt b = Some \<lparr> scr_receipt = rc, scr_enclaveSignature = sgn \<rparr>
     \<and> verifyCanonical (ec_rt cfg) (compute_receipt_json rc) sgn (tee_signingPublicKey (ec_tee cfg)) = Some True
     \<and> cr_requestId rc = go_requestId out \<and> cr_requestCommitment rc = aq_requestCommitment a \<and> cr_decision rc = ALLOW
     \<and> cr_policyId rc = dr_policyId (sdr_receipt (go_decisionReceipt out))
     \<and> cr_provider rc = ac_provider cred \<and> cr_model rc = req_model (aq_request a)
     \<and> cr_credentialId rc = ac_credentialId cred \<and> cr_contributorId rc = ac_contributorId cred \<and> cr_attempt rc = n
     \<and> cr_inputTokens rc = Some (rp_inputTokens r) \<and> cr_outputTokens rc = Some (rp_outputTokens r)
     \<and> estimateCostMicroUsd (ec_rt cfg) (cr_model rc) (rp_inputTokens r) (rp_outputTokens r)
         = map_option (\<lambda>c. Fin (of_int c)) (cr_estimatedCostMicroUsd rc)
     \<and> cr_upstreamRequestHash rc = lit ''0x'' @ sha256Hex (ec_rt cfg) (utf8 (out_body q))
     \<and> er_encryptedResponse b = Some box
     \<and> hpkeOpen (ec_lib cfg) sk (resp_enc box) (resp_ciphertext box) None
         = Some (utf8 (stringify (ec_rt cfg) (response_plaintext out a r)))"
  using assms by (rule dispatch_completed)

text \<open>The receipt and the response are produced after the request left, and either can throw: a response key the
  enclave cannot use, or a cost outside the safe integers, turns a served and billed dispatch into a 500 whose attempts
  are never reported.\<close>

lemma dispatch_lost_after_send:
  assumes "go_authorized out = Some a" "dl_end (dispatch_loop cfg (di_env dio) a 0 None cands) = Succeeded cand n r"
    and "as_str (the (get_prop (go_payload out) ''responsePublicKey'')) = None \<or> int_of_num (rp_estimatedCostMicroUsd r) = None"
  shows "fst (runDispatch cfg dio ps out cands) = Crashed \<and> (\<exists>q. snd (runDispatch cfg dio ps out cands) = [q])"
  using assms dispatch_loop_success [OF assms(2)]
  by (auto simp: runDispatch_def Let_def seal_response_def compute_receipt_def split: option.splits)

section \<open>A request through the dispatch\<close>

definition ok_body :: json where
  "ok_body = JObj [(lit ''choices'', JArr [JObj [(lit ''message'', JObj [(lit ''content'', JStr (lit ''hello''))])]]),
     (lit ''usage'', JObj [(lit ''prompt_tokens'', JInt 3), (lit ''completion_tokens'', JInt 2)])]"

definition ok_dispatch :: dispatch_io where
  "ok_dispatch = \<lparr> di_receivedAt = lit ''2026-01-01T00:00:00.000Z'', di_attestAt = 1, di_totalMs = 9,
     di_env = (\<lambda>_. \<lparr> ce_allow = [], ce_preMs = 0, ce_net = (\<lambda>_. Responded 200 5 (Body ok_body)) \<rparr>) \<rparr>"

definition committed :: AuthorizedRequest where
  "committed = sample_authorized\<lparr> aq_requestCommitment := sample_commitment \<rparr>"

definition sample_serving :: adapter where
  "sample_serving = \<lparr> ad_kind = OpenAICompatible, ad_name = lit ''mock'', ad_baseUrl = lit ''https://api.openai.com'', ad_models = catalog_models ''mock'' \<rparr>"

lemma sample_authorizes:
  obtains r where "authorize sample_cfg (candidate_of r) committed = Some (Inr \<lparr> ac_credentialId = lit ''cred_0123456789ab'',
      ac_contributorId = lit ''alice'', ac_provider = lit ''mock'', ac_secret = lit ''sk-0123456'', ac_capability = ing_capability r \<rparr>)"
    "cd_provider (candidate_of r) = lit ''mock''"
proof -
  obtain r where r: "authorizeCandidate sample_runtime (candidate_of r) sample_authorized (tee_signingPublicKey sample_tee) (vaultDecrypt sample_lib [5])
       = Some (Inr \<lparr> ac_credentialId = lit ''cred_0123456789ab'', ac_contributorId = lit ''alice'', ac_provider = lit ''mock'',
           ac_secret = lit ''sk-0123456'', ac_capability = ing_capability r \<rparr>)" using sample_minted by blast
  then have "cd_provider (candidate_of r) = lit ''mock''" by (simp add: authorizeCandidate_ok)
  moreover have "authorize sample_cfg (candidate_of r) committed = Some (Inr \<lparr> ac_credentialId = lit ''cred_0123456789ab'',
      ac_contributorId = lit ''alice'', ac_provider = lit ''mock'', ac_secret = lit ''sk-0123456'', ac_capability = ing_capability r \<rparr>)"
    using r by (simp add: authorize_def authorizeCandidate_ok committed_def)
  ultimately show thesis using that by blast
qed

lemma sample_serves:
  assumes "cd_provider cand = lit ''mock''"
  shows "serving_adapter sample_cfg cand committed = Some sample_serving"
proof -
  have "supportsModel sample_serving (lit ''ctn/demo-model-a'')"
    by (simp add: supportsModel_def sample_serving_def catalog_models_def MODEL_CATALOG_def isPriced_def price_def PRICING_TABLE_def)
  then show ?thesis using assms
    by (simp add: serving_adapter_def buildRegistry_def sample_serving_def committed_def sample_authorized_def)
qed

lemma sample_cost: "\<exists>c. estimateCostMicroUsd sample_runtime (lit ''ctn/demo-model-a'') 3 2 = Some (Fin (of_int c)) \<and> \<bar>c\<bar> \<le> 1024"
  by (simp add: estimateCostMicroUsd_def price_def PRICING_TABLE_def micro_usd_def)

lemma sample_completes:
  "\<exists>q r. complete sample_runtime (di_env ok_dispatch n) sample_serving committed cred = ([q], Completed r)
     \<and> rp_content r = lit ''hello'' \<and> rp_inputTokens r = 3 \<and> rp_outputTokens r = 2 \<and> rp_latencyMs r = 5 \<and> (\<exists>c. rp_estimatedCostMicroUsd r = Fin (of_int c) \<and> \<bar>c\<bar> \<le> 1024)"
proof -
  have u: "lit ''https://api.openai.com'' @ lit ''/v1/chat/completions'' = lit ''https://api.openai.com/v1/chat/completions''" by (simp add: lit_def)
  have m: "req_model (aq_request committed) = lit ''ctn/demo-model-a''" by (simp add: committed_def sample_authorized_def)
  obtain c where c: "estimateCostMicroUsd sample_runtime (lit ''ctn/demo-model-a'') 3 2 = Some (Fin (of_int c))" "\<bar>c\<bar> \<le> 1024" using sample_cost by blast
  have "serialisable (response_json (lit ''hello'') 3 2)"
    using small_safe [of 3] small_safe [of 2] by (simp add: response_json_def del: isSafeInteger.simps)
  then obtain h where h: "canonicalHash sample_runtime (response_json (lit ''hello'') 3 2) = Some h"
    using canonicalJson_Some by (fastforce simp: canonicalHash_def simp del: canonicalJson.simps)
  have v: "validUsage (JInt 3) = Some 3" "validUsage (JInt 2) = Some 2" by (simp_all add: MAX_SAFE_def is_integral_def)
  have rd: "read_openai ok_body = Read (lit ''hello'') 3 2"
    using v by (simp add: read_openai_def ok_body_def opt_prop_def read_fields_def del: validUsage.simps)
  show ?thesis using sample_egress sample_priced c h
    by (simp add: complete_def sample_serving_def complete_openai_def u m Let_def ok_dispatch_def rd)
qed

lemma sample_attests: "\<exists>d. attestationDigest sample_runtime sample_tee 1 = Some d"
proof -
  have "serialisable (unsigned_document_json (attestation_document sample_tee 1) None)"
    using one_safe by (auto simp: unsigned_document_json_def pcrs_json_def user_data_json_def attestation_document_def list_all_iff simp del: isSafeInteger.simps)
  then obtain t where "signReceipt sample_runtime sample_tee (unsigned_document_json (attestation_document sample_tee 1) None) = Some t"
    using signReceipt_defined by blast
  then show ?thesis by (simp add: attestationDigest_def attestation_def Let_def signReceipt_def)
qed

lemma sample_dispatch:
  assumes "go_authorized out = Some committed" "get_prop (go_payload out) ''responsePublicKey'' = Some (JStr (lit ''cHVi''))" "go_gateWallMs out = 1"
  obtains r b q where "runDispatch sample_cfg ok_dispatch ps out [candidate_of r] = (Accepted b, [q])" "er_status b = EX_COMPLETE"
proof -
  obtain r where r: "authorize sample_cfg (candidate_of r) committed = Some (Inr \<lparr> ac_credentialId = lit ''cred_0123456789ab'',
      ac_contributorId = lit ''alice'', ac_provider = lit ''mock'', ac_secret = lit ''sk-0123456'', ac_capability = ing_capability r \<rparr>)"
    "cd_provider (candidate_of r) = lit ''mock''" by (rule sample_authorizes)
  note sv = sample_serves [OF r(2)]
  obtain q p c where q: "complete sample_runtime (di_env ok_dispatch 1) sample_serving committed \<lparr> ac_credentialId = lit ''cred_0123456789ab'',
      ac_contributorId = lit ''alice'', ac_provider = lit ''mock'', ac_secret = lit ''sk-0123456'', ac_capability = ing_capability r \<rparr> = ([q], Completed p)"
    "rp_inputTokens p = 3" "rp_outputTokens p = 2" "rp_latencyMs p = 5" "rp_estimatedCostMicroUsd p = Fin (of_int c)" "\<bar>c\<bar> \<le> 1024"
    using sample_completes by blast
  have l: "dl_end (dispatch_loop sample_cfg (di_env ok_dispatch) committed 0 None [candidate_of r]) = Succeeded (candidate_of r) 1 p"
      "dl_out (dispatch_loop sample_cfg (di_env ok_dispatch) committed 0 None [candidate_of r]) = [q]"
    using r sv q(1) by (simp_all add: log_simps)
  obtain d where d: "attestationDigest sample_runtime sample_tee 1 = Some d" using sample_attests by blast
  then obtain rc where rc: "compute_receipt sample_cfg ok_dispatch ps out committed (candidate_of r) 1 p = Some rc"
    using q by (simp add: compute_receipt_def ok_dispatch_def)
  have "cr_attempt rc = 1" "cr_inputTokens rc = Some 3" "cr_outputTokens rc = Some 2" "cr_estimatedCostMicroUsd rc = Some c"
      "cr_policyMs rc = 1" "cr_proofMs rc = None" "cr_providerTotalMs rc = 5"
    using rc d q assms(3) by (auto simp: compute_receipt_def ok_dispatch_def)
  then have "serialisable (compute_receipt_json rc)"
    using small_safe [of 1] small_safe [of 3] small_safe [of 2] small_safe [of 5] small_safe [OF q(6)]
    by (auto simp: compute_receipt_json_def opt_json_def split: option.splits simp del: isSafeInteger.simps)
  then obtain sg where sg: "signReceipt sample_runtime sample_tee (compute_receipt_json rc) = Some sg" using signReceipt_defined by blast
  obtain box where box: "seal_response sample_cfg out committed p = Some box"
    using assms(2) by (simp add: seal_response_def hpkeSeal_def sample_lib_def)
  show thesis
    by (rule that [of r "completeBody ok_dispatch out committed (dispatch_loop sample_cfg (di_env ok_dispatch) committed 0 None [candidate_of r])
          \<lparr> scr_receipt = rc, scr_enclaveSignature = sg \<rparr> box" q])
       (use assms(1) l rc sg box in \<open>simp_all add: runDispatch_def Let_def completeBody_def del: dispatch_loop.simps\<close>)
qed

lemma sample_outcome:
  obtains out s' where "gateRequest sample_cfg (sample_gate_io sample_guest) (\<lambda>x. x) (\<lambda>x. x) (Some sample_envelope) enclave_boot = (Inr out, s')"
    "go_authorized out = Some committed" "get_prop (go_payload out) ''responsePublicKey'' = Some (JStr (lit ''cHVi''))" "go_gateWallMs out = 1"
proof -
  obtain out s' where f: "gate_finish sample_cfg (sample_gate_io sample_guest) sample_ticket (enclave_boot\<lparr> en_seenNonces := [((JStr sample_nonce, 0), 0)] \<rparr>) = (Inr out, s')"
    "go_authorized out = Some (sample_authorized\<lparr> aq_requestCommitment := sample_commitment \<rparr>)" "go_payload out = sample_payload" "go_gateWallMs out = 1"
    using sample_gate_finishes [OF sample_ticket_fields(1,2)] unfolding sample_ticket_fields by blast
  moreover have "get_prop sample_payload ''responsePublicKey'' = Some (JStr (lit ''cHVi''))" by (simp add: sample_payload_def lit_def)
  moreover have "gateRequest sample_cfg (sample_gate_io sample_guest) (\<lambda>x. x) (\<lambda>x. x) (Some sample_envelope) enclave_boot = (Inr out, s')"
    using f(1) by (simp add: gateRequest_def sample_gate_opens sample_gate_admits enclave_boot_def)
  ultimately show thesis using f(2-4) by (intro that) (simp_all add: committed_def)
qed

theorem receipt_states_dispatch_witness:
  "\<exists>out cands b q rc sgn. runDispatch sample_cfg ok_dispatch prover_boot out cands = (Accepted b, [q]) \<and> er_receipt b = Some \<lparr> scr_receipt = rc, scr_enclaveSignature = sgn \<rparr>
     \<and> verifyCanonical sample_runtime (compute_receipt_json rc) sgn (tee_signingPublicKey sample_tee) = Some True
     \<and> cr_requestCommitment rc = sample_commitment
     \<and> cr_upstreamRequestHash rc = lit ''0x'' @ sha256Hex sample_runtime (utf8 (out_body q))"
proof -
  obtain out :: GateOutcome where o: "go_authorized out = Some committed" "get_prop (go_payload out) ''responsePublicKey'' = Some (JStr (lit ''cHVi''))" "go_gateWallMs out = 1"
    using sample_outcome by blast
  obtain r b q where d: "runDispatch sample_cfg ok_dispatch prover_boot out [candidate_of r] = (Accepted b, [q])" "er_status b = EX_COMPLETE"
    by (rule sample_dispatch [OF o])
  have k: "hpke_pair sample_lib (lit ''cHVi'') []" by (simp add: hpke_pair_def sample_lib_def)
  have c: "aq_requestCommitment committed = sample_commitment" by (simp add: committed_def)
  from receipt_states_dispatch [OF d _ o(2)] o(1) k c sample_signer d(1) show ?thesis by fastforce
qed

end
