(* ===== verification/Enclave.thy ===== *)
theory Enclave
  imports Dispatch "HOL-Library.Multiset"
begin

text \<open>
  The enclave process as a whole: all handlers of \<^verbatim>\<open>services/tee-sim/src/index.ts\<close> running concurrently on one
  state. JavaScript interleaves handlers exactly at their \<open>await\<close>s, so a step of the system is one section of a
  handler between two of them; the suspended handlers are part of the state. Any number of requests may be in
  flight, with any envelopes, candidates, clocks, daemon and network behaviour.
\<close>

section \<open>Steps\<close>

datatype gate_route = ToGate | ToExecute "Candidate list"

text \<open>\<open>sys_gates\<close>: handlers that wait for the guest executor; \<open>sys_dispatches\<close>: \<^verbatim>\<open>/execute\<close> handlers that wait for a
  provider. Three history lists record the payloads admitted, the guest's answers (with the ticket each was given
  for and the outcome the handler made of it) and the requests that left.\<close>

record system =
  sys_state :: enclave
  sys_gates :: "(gate_route \<times> gate_ticket) list"
  sys_dispatches :: "(GateOutcome \<times> Candidate list) list"
  sys_admitted :: "json list"
  sys_answers :: "(gate_ticket \<times> GuestExecution \<times> GateOutcome) list"
  sys_sent :: "(GateOutcome \<times> outbound) list"

definition system_boot :: system where
  "system_boot = \<lparr> sys_state = enclave_boot, sys_gates = [], sys_dispatches = [], sys_admitted = [],
     sys_answers = [], sys_sent = [] \<rparr>"

definition answered :: "enclave_cfg \<Rightarrow> gate_io \<Rightarrow> gate_ticket \<Rightarrow> enclave \<Rightarrow> (gate_ticket \<times> GuestExecution \<times> GateOutcome) list" where
  "answered cfg io tk s = (case (gate_execute io tk, fst (gate_finish cfg io tk s)) of
     (Inr g, Inr out) \<Rightarrow> [(tk, g, out)] | _ \<Rightarrow> [])"

inductive sys_step :: "enclave_cfg \<Rightarrow> system \<Rightarrow> system \<Rightarrow> bool" for cfg where
  admit: "gate_open cfg io envelope = Inr opened \<Longrightarrow> gate_admit cfg io opened (sys_state x) = (Inr tk, s') \<Longrightarrow>
    sys_step cfg x (x\<lparr> sys_state := s', sys_gates := (route, tk) # sys_gates x, sys_admitted := gt_payload tk # sys_admitted x \<rparr>)"
| refuse: "gate_open cfg io envelope = Inr opened \<Longrightarrow> gate_admit cfg io opened (sys_state x) = (Inl e, s') \<Longrightarrow>
    sys_step cfg x (x\<lparr> sys_state := s' \<rparr>)"
| gate_done: "sys_gates x = g1 @ (ToGate, tk) # g2 \<Longrightarrow> gate_park cfg io (gate_finish cfg io tk (sys_state x)) = (r, s') \<Longrightarrow>
    sys_step cfg x (x\<lparr> sys_state := s', sys_gates := g1 @ g2, sys_answers := answered cfg io tk (sys_state x) @ sys_answers x \<rparr>)"
| inline_done: "sys_gates x = g1 @ (ToExecute cands, tk) # g2 \<Longrightarrow> execute_gated cfg io (gate_finish cfg io tk (sys_state x)) = (Inr out, s') \<Longrightarrow>
    sys_step cfg x (x\<lparr> sys_state := s', sys_gates := g1 @ g2, sys_dispatches := (out, cands) # sys_dispatches x,
      sys_answers := answered cfg io tk (sys_state x) @ sys_answers x \<rparr>)"
| inline_failed: "sys_gates x = g1 @ (ToExecute cands, tk) # g2 \<Longrightarrow> execute_gated cfg io (gate_finish cfg io tk (sys_state x)) = (Inl rep, s') \<Longrightarrow>
    sys_step cfg x (x\<lparr> sys_state := s', sys_gates := g1 @ g2, sys_answers := answered cfg io tk (sys_state x) @ sys_answers x \<rparr>)"
| consume_hit: "consume_parked now envelope presented (sys_state x) = (HIT out, s') \<Longrightarrow>
    sys_step cfg x (x\<lparr> sys_state := s', sys_dispatches := (out, cands) # sys_dispatches x \<rparr>)"
| consume_none: "consume_parked now envelope presented (sys_state x) = (c, s') \<Longrightarrow> (\<And>out. c \<noteq> HIT out) \<Longrightarrow>
    sys_step cfg x (x\<lparr> sys_state := s' \<rparr>)"
| dispatched: "sys_dispatches x = d1 @ (out, cands) # d2 \<Longrightarrow> dispatch_or_deny cfg dio (en_prover (sys_state x)) out cands = (rep, sent) \<Longrightarrow>
    sys_step cfg x (x\<lparr> sys_dispatches := d1 @ d2, sys_sent := map (Pair out) sent @ sys_sent x \<rparr>)"
| ingested: "ingest_finish (ec_rt cfg) (ec_lib cfg) (ec_tee cfg) dm now ticket (sys_state x) = (ing, s') \<Longrightarrow>
    sys_step cfg x (x\<lparr> sys_state := s' \<rparr>)"
| health_read: "getGuestHealth dm (sys_state x) = (h, s') \<Longrightarrow> sys_step cfg x (x\<lparr> sys_state := s' \<rparr>)"
| proved: "prover_step (ec_rt cfg) (ec_tee cfg) (ec_rules cfg) (ec_manifest cfg) (en_prover (sys_state x)) p \<Longrightarrow>
    sys_step cfg x (x\<lparr> sys_state := (sys_state x)\<lparr> en_prover := p \<rparr> \<rparr>)"
| swept: "sys_step cfg x (x\<lparr> sys_state := (sys_state x)\<lparr> en_pending := snd (sweep now (en_pending (sys_state x))) \<rparr> \<rparr>)"

abbreviation run_reaches :: "enclave_cfg \<Rightarrow> system \<Rightarrow> bool" where
  "run_reaches cfg \<equiv> (sys_step cfg)\<^sup>*\<^sup>* system_boot"

section \<open>The parked store and payloads\<close>

abbreviation parked_payloads :: "GateOutcome PendingGates \<Rightarrow> json multiset" where
  "parked_payloads p \<equiv> image_mset (\<lambda>e. go_payload (ge_value (snd e))) (mset (pg_entries p))"

lemma map_put_mset: "image_mset f (mset (map_put k v m)) \<subseteq># add_mset (f (k, v)) (image_mset f (mset m))"
  by (induction m) (auto simp: subset_mset.add_increasing2 add_mset_commute intro: subset_mset.order_trans)

lemma make_room_mset: "mset (make_room n xs) \<subseteq># mset xs"
  by (induction n xs rule: make_room.induct) (auto intro: subset_mset.order_trans)

lemma map_del_mset:
  assumes "map_of m k = Some v"
  shows "add_mset (f (k, v)) (image_mset f (mset (map_del k m))) \<subseteq># image_mset f (mset m)"
  using assms
proof (induction m)
  case (Cons e m)
  obtain a b where e: "e = (a, b)" by (cases e)
  show ?case
  proof (cases "a = k")
    case True
    with Cons.prems e have "b = v" by simp
    moreover have "image_mset f (mset (map_del k m)) \<subseteq># image_mset f (mset m)"
      by (simp add: map_del_def image_mset_subseteq_mono)
    ultimately show ?thesis using True e by (simp add: map_del_def)
  next
    case False
    with Cons e have "add_mset (f (k, v)) (image_mset f (mset (map_del k m))) \<subseteq># image_mset f (mset m)" by simp
    then have "add_mset (f (a, b)) (add_mset (f (k, v)) (image_mset f (mset (map_del k m)))) \<subseteq># add_mset (f (a, b)) (image_mset f (mset m))" by simp
    then show ?thesis using False e by (simp add: map_del_def add_mset_commute)
  qed
qed simp

lemma remember_payloads: "parked_payloads (remember now k c v p) \<subseteq># add_mset (go_payload v) (parked_payloads p)"
proof -
  let ?f = "\<lambda>e. go_payload (ge_value (snd e))" and ?live = "filter (\<lambda>(_, e). \<not> expired now (pg_ttlMs p) e) (pg_entries p)"
  have "mset ?live \<subseteq># mset (pg_entries p)" by simp
  then have "mset (make_room (pg_max p) ?live) \<subseteq># mset (pg_entries p)" by (rule subset_mset.order_trans [OF make_room_mset])
  then have "image_mset ?f (mset (make_room (pg_max p) ?live)) \<subseteq># parked_payloads p" by (rule image_mset_subseteq_mono)
  moreover have "parked_payloads (remember now k c v p) \<subseteq># add_mset (go_payload v) (image_mset ?f (mset (make_room (pg_max p) ?live)))"
    using map_put_mset [of ?f k "\<lparr> ge_value = v, ge_commitment = c, ge_at = now \<rparr>"] by (simp add: remember_def reap_def Let_def)
  ultimately show ?thesis by (meson mset_subset_eq_add_mset_cancel subset_mset.order_trans)
qed

lemma remember_values: "e \<in> set (pg_entries (remember now k c v p)) \<Longrightarrow> ge_value (snd e) = v \<or> e \<in> set (pg_entries p)"
  using set_put_subset [of k "\<lparr> ge_value = v, ge_commitment = c, ge_at = now \<rparr>"] set_make_room
  by (fastforce simp: remember_def reap_def Let_def)

lemma sweep_entries: "set (pg_entries (snd (sweep now p))) \<subseteq> set (pg_entries p)" "parked_payloads (snd (sweep now p)) \<subseteq># parked_payloads p"
  by (auto simp: sweep_def reap_def Let_def image_mset_subseteq_mono)

lemma consume_entries: "set (pg_entries (snd (consume now k c p))) \<subseteq> set (pg_entries p)" "parked_payloads (snd (consume now k c p)) \<subseteq># parked_payloads p"
  by (auto simp: consume_def map_del_def image_mset_subseteq_mono split: option.splits)

lemma consume_hit_entry:
  assumes "consume now k c p = (HIT out, p')"
  shows "(\<exists>e. (k, e) \<in> set (pg_entries p) \<and> ge_value e = out) \<and> add_mset (go_payload out) (parked_payloads p') \<subseteq># parked_payloads p"
proof -
  obtain e where e: "map_of (pg_entries p) k = Some e" "out = ge_value e" "p' = p\<lparr> pg_entries := map_del k (pg_entries p) \<rparr>"
    using assms by (auto simp: consume_def split: option.splits if_splits)
  from map_del_mset [OF e(1), of "\<lambda>e. go_payload (ge_value (snd e))"] e map_of_SomeD [OF e(1)] show ?thesis by auto
qed

lemma consume_parked_cases:
  assumes "consume_parked now envelope presented s = (r, s')"
  obtains "s' = s" "r = MISS" | k c where "s' = s\<lparr> en_pending := snd (consume now k c (en_pending s)) \<rparr>" "r = fst (consume now k c (en_pending s))"
proof (cases "\<exists>env. envelope = Some env \<and> env_requestId env \<noteq> []")
  case True
  then obtain env where env: "envelope = Some env" "env_requestId env \<noteq> []" by blast
  let ?c = "case presented of Some c \<Rightarrow> c | None \<Rightarrow> []"
  show thesis using assms env
    by (intro that(2) [of "env_requestId env" ?c]) (auto simp: consume_parked_def split: prod.splits)
next
  case False
  then show thesis using assms by (intro that(1)) (auto simp: consume_parked_def split: option.splits if_splits)
qed

section \<open>The invariant\<close>

text \<open>An outcome the guest stands behind: it was made from a recorded answer to a sealed ticket, and says what that
  answer's journal says.\<close>

definition gated :: "enclave_cfg \<Rightarrow> (gate_ticket \<times> GuestExecution \<times> GateOutcome) list \<Rightarrow> GateOutcome \<Rightarrow> bool" where
  "gated cfg answers out \<longleftrightarrow> (\<exists>tk g. (tk, g, out) \<in> set answers \<and> sealed_ticket cfg tk \<and> judged cfg tk g out)"

lemma gated_later: "gated cfg answers out \<Longrightarrow> gated cfg (new @ answers) out"
  by (auto simp: gated_def)

lemma gated_now: "gated cfg new out \<Longrightarrow> gated cfg (new @ answers) out"
  by (auto simp: gated_def)

definition leaves_for :: "enclave_cfg \<Rightarrow> GateOutcome \<Rightarrow> outbound \<Rightarrow> bool" where
  "leaves_for cfg out q \<longleftrightarrow> (\<exists>a cand cred ad ce. go_authorized out = Some a \<and> authorize cfg cand a = Some (Inr cred)
     \<and> serving_adapter cfg cand a = Some ad \<and> fst (complete (ec_rt cfg) ce ad a cred) = [q])"

definition in_system :: "system \<Rightarrow> json multiset" where
  "in_system x = image_mset (\<lambda>g. gt_payload (snd g)) (mset (sys_gates x)) + parked_payloads (en_pending (sys_state x))
     + image_mset (\<lambda>d. go_payload (fst d)) (mset (sys_dispatches x)) + image_mset (\<lambda>d. go_payload (fst d)) (mset (sys_sent x))"

definition sys_inv :: "enclave_cfg \<Rightarrow> system \<Rightarrow> bool" where
  "sys_inv cfg x \<longleftrightarrow> (\<forall>g \<in> set (sys_gates x). sealed_ticket cfg (snd g))
     \<and> (\<forall>e \<in> set (pg_entries (en_pending (sys_state x))). gated cfg (sys_answers x) (ge_value (snd e)))
     \<and> (\<forall>d \<in> set (sys_dispatches x). gated cfg (sys_answers x) (fst d))
     \<and> (\<forall>d \<in> set (sys_sent x). gated cfg (sys_answers x) (fst d) \<and> leaves_for cfg (fst d) (snd d))
     \<and> in_system x \<subseteq># mset (sys_admitted x)"

lemma finished_gated:
  assumes "gate_finish cfg io tk s = (Inr out, s1)" "sealed_ticket cfg tk"
  shows "gated cfg (answered cfg io tk s) out \<and> go_payload out = gt_payload tk \<and> en_pending s1 = en_pending s"
proof -
  from gate_finish_Inr [OF assms(1)] obtain x where x: "gate_execute io tk = Inr x" "judged cfg tk x out" "en_pending s1 = en_pending s" by blast
  then have "gated cfg (answered cfg io tk s) out" using assms by (auto simp: gated_def answered_def)
  with x show ?thesis by (auto simp: judged_def)
qed

lemma gate_park_effect:
  assumes "gate_park cfg io (gate_finish cfg io tk s) = (r, s')" "sealed_ticket cfg tk"
  shows "en_pending s' = en_pending s \<or> (\<exists>out now. gated cfg (answered cfg io tk s) out \<and> go_payload out = gt_payload tk
     \<and> en_pending s' = remember now (go_requestId out) (go_commitment out) out (en_pending s))"
proof (cases "gate_finish cfg io tk s")
  case (Pair g s1)
  show ?thesis
  proof (cases g)
    case (Inl e)
    then show ?thesis using assms Pair gate_finish_Inl [of cfg io tk s e s1] by (auto simp: gate_park_def)
  next
    case (Inr out)
    note f = finished_gated [OF Pair [unfolded Inr] assms(2)]
    moreover have "en_pending s' = en_pending s \<or> en_pending s' = remember (gi_parkAt io) (go_requestId out) (go_commitment out) out (en_pending s)"
      using assms(1) Pair f by (auto simp: Inr gate_park_def start_proof_def Let_def split: option.splits if_splits)
    ultimately show ?thesis by blast
  qed
qed

lemma execute_gated_effect:
  assumes "execute_gated cfg io (gate_finish cfg io tk s) = (r, s')" "sealed_ticket cfg tk"
  shows "en_pending s' = en_pending s
    \<and> (\<forall>out. r = Inr out \<longrightarrow> gated cfg (answered cfg io tk s) out \<and> go_payload out = gt_payload tk)"
proof (cases "gate_finish cfg io tk s")
  case (Pair g s1)
  show ?thesis
  proof (cases g)
    case (Inl e)
    then show ?thesis using assms Pair gate_finish_Inl [of cfg io tk s e s1] by (auto simp: execute_gated_def)
  next
    case (Inr out)
    from finished_gated [OF Pair [unfolded Inr] assms(2)] show ?thesis
      using assms(1) Pair by (auto simp: Inr execute_gated_def start_proof_def split: option.splits)
  qed
qed

lemma dispatch_sends:
  assumes "dispatch_or_deny cfg dio ps out cands = (rep, sent)"
  shows "sent = [] \<or> (\<exists>q. sent = [q] \<and> leaves_for cfg out q)"
  using assms runDispatch_sent [of cfg dio ps out cands]
  by (auto simp: dispatch_or_deny_def leaves_for_def split: if_splits)

lemma ingest_finish_pending: "ingest_finish rt lib tee dm now tk s = (r, s') \<Longrightarrow> en_pending s' = en_pending s"
  by (auto simp: ingest_finish_def Let_def split: prod.splits prover_result.splits option.splits dest!: getGuestHealth_frame)

lemma health_pending: "getGuestHealth dm s = (r, s') \<Longrightarrow> en_pending s' = en_pending s"
  using getGuestHealth_frame by fastforce

text \<open>A step that leaves the parked store and the suspended handlers alone keeps the invariant.\<close>

lemma inv_quiet: "sys_inv cfg x \<Longrightarrow> en_pending s' = en_pending (sys_state x) \<Longrightarrow> sys_inv cfg (x\<lparr> sys_state := s' \<rparr>)"
  by (simp add: sys_inv_def in_system_def)

lemma inv_shrink:
  assumes "sys_inv cfg x" "set (pg_entries p) \<subseteq> set (pg_entries (en_pending (sys_state x)))" "parked_payloads p \<subseteq># parked_payloads (en_pending (sys_state x))"
  shows "sys_inv cfg (x\<lparr> sys_state := (sys_state x)\<lparr> en_pending := p \<rparr> \<rparr>)"
proof -
  have "in_system (x\<lparr> sys_state := (sys_state x)\<lparr> en_pending := p \<rparr> \<rparr>) \<subseteq># in_system x"
    using assms(3) by (simp add: in_system_def)
  with assms show ?thesis by (auto simp: sys_inv_def intro: subset_mset.order_trans)
qed

lemma inv_gate_done:
  assumes "sys_inv cfg x" "sys_gates x = g1 @ (route, tk) # g2"
    and "en_pending s' = en_pending (sys_state x) \<or> (\<exists>out now. gated cfg new out \<and> go_payload out = gt_payload tk
     \<and> en_pending s' = remember now (go_requestId out) (go_commitment out) out (en_pending (sys_state x)))"
  shows "sys_inv cfg (x\<lparr> sys_state := s', sys_gates := g1 @ g2, sys_answers := new @ sys_answers x \<rparr>)"
proof -
  let ?y = "x\<lparr> sys_state := s', sys_gates := g1 @ g2, sys_answers := new @ sys_answers x \<rparr>"
  have "parked_payloads (en_pending s') \<subseteq># add_mset (gt_payload tk) (parked_payloads (en_pending (sys_state x)))"
    using assms(3)
  proof (elim disjE exE conjE)
    fix out now assume "go_payload out = gt_payload tk"
      "en_pending s' = remember now (go_requestId out) (go_commitment out) out (en_pending (sys_state x))"
    then show ?thesis using remember_payloads [of now "go_requestId out" "go_commitment out" out "en_pending (sys_state x)"] by simp
  qed (simp add: subset_mset.add_increasing2)
  then have "in_system ?y \<subseteq># in_system x"
    using assms(2) by (simp add: in_system_def subset_mset.add_mono)
  moreover have "gated cfg (new @ sys_answers x) (ge_value (snd e))" if e: "e \<in> set (pg_entries (en_pending s'))" for e
  proof -
    have "e \<in> set (pg_entries (en_pending (sys_state x))) \<or> gated cfg new (ge_value (snd e))"
      using e assms(3) by (metis remember_values)
    then show ?thesis using assms(1) gated_later gated_now by (auto simp: sys_inv_def)
  qed
  ultimately show ?thesis using assms(1,2) by (auto simp: sys_inv_def gated_later intro: subset_mset.order_trans)
qed

lemma move_in:
  assumes "add_mset p P' \<subseteq># P"
  shows "add_mset p (A + P' + D + S) \<subseteq># A + P + D + S"
proof -
  have "add_mset p (A + P' + D + S) = (A + D + S) + add_mset p P'" by (simp add: ac_simps)
  also have "\<dots> \<subseteq># (A + D + S) + P" using assms by simp
  also have "\<dots> = A + P + D + S" by (simp add: ac_simps)
  finally show ?thesis .
qed

lemma sys_inv_step: "sys_step cfg x y \<Longrightarrow> sys_inv cfg x \<Longrightarrow> sys_inv cfg y"
proof (induction rule: sys_step.induct)
  case (admit io envelope opened x tk s' route)
  from gate_admit_frame [OF admit.hyps(2)] have "en_pending s' = en_pending (sys_state x)" by auto
  with admit.prems admitted_sealed [OF admit.hyps] show ?case by (auto simp: sys_inv_def in_system_def add.assoc)
next
  case (refuse io envelope opened x e s')
  from gate_admit_frame [OF refuse.hyps(2)] have "en_pending s' = en_pending (sys_state x)" by auto
  with refuse.prems show ?case by (rule inv_quiet)
next
  case (gate_done x g1 tk g2 io r s')
  then have "sealed_ticket cfg tk" by (simp add: sys_inv_def)
  from inv_gate_done [OF gate_done.prems gate_done.hyps(1) gate_park_effect [OF gate_done.hyps(2) this]] show ?case .
next
  case (inline_done x g1 cands tk g2 io out s')
  then have sl: "sealed_ticket cfg tk" by (simp add: sys_inv_def)
  from execute_gated_effect [OF inline_done.hyps(2) sl] have e: "en_pending s' = en_pending (sys_state x)"
    "gated cfg (answered cfg io tk (sys_state x)) out" "go_payload out = gt_payload tk" by auto
  from e(2) have "gated cfg (answered cfg io tk (sys_state x) @ sys_answers x) out" by (rule gated_now)
  with inline_done.prems inline_done.hyps(1) e show ?case by (auto simp: sys_inv_def in_system_def add.assoc gated_later)
next
  case (inline_failed x g1 cands tk g2 io rep s')
  then have sl: "sealed_ticket cfg tk" by (simp add: sys_inv_def)
  from execute_gated_effect [OF inline_failed.hyps(2) sl] have "en_pending s' = en_pending (sys_state x)" by simp
  then show ?case using inv_gate_done [OF inline_failed.prems inline_failed.hyps(1)] by blast
next
  case (consume_hit now envelope presented x out s' cands)
  from consume_parked_cases [OF consume_hit.hyps] obtain k c where
    k: "s' = (sys_state x)\<lparr> en_pending := snd (consume now k c (en_pending (sys_state x))) \<rparr>" "HIT out = fst (consume now k c (en_pending (sys_state x)))"
    by (metis ConsumeResult.distinct(3))
  then have h: "consume now k c (en_pending (sys_state x)) = (HIT out, en_pending s')" by (cases "consume now k c (en_pending (sys_state x))") auto
  note c = consume_hit_entry [OF h]
  have "gated cfg (sys_answers x) out" using c consume_hit.prems by (fastforce simp: sys_inv_def)
  moreover have "\<forall>e \<in> set (pg_entries (en_pending s')). gated cfg (sys_answers x) (ge_value (snd e))"
    using consume_entries(1) [of now k c "en_pending (sys_state x)"] h consume_hit.prems by (auto simp: sys_inv_def)
  moreover have "in_system (x\<lparr> sys_state := s', sys_dispatches := (out, cands) # sys_dispatches x \<rparr>) \<subseteq># in_system x"
    using c move_in by (simp add: in_system_def)
  ultimately show ?case using consume_hit.prems by (auto simp: sys_inv_def intro: subset_mset.order_trans)
next
  case (consume_none now envelope presented x c s')
  from consume_parked_cases [OF consume_none.hyps(1)] show ?case
  proof cases
    case 1
    with consume_none.prems show ?thesis by simp
  next
    case (2 k c)
    then show ?thesis using inv_shrink [OF consume_none.prems consume_entries] by simp
  qed
next
  case (dispatched x d1 out cands d2 dio rep sent)
  then have g: "gated cfg (sys_answers x) out" by (simp add: sys_inv_def)
  from dispatch_sends [OF dispatched.hyps(2)] show ?case
  proof (elim disjE exE conjE)
    assume "sent = []"
    then have "in_system (x\<lparr> sys_dispatches := d1 @ d2, sys_sent := map (Pair out) sent @ sys_sent x \<rparr>) \<subseteq># in_system x"
      using dispatched.hyps(1) by (simp add: in_system_def)
    then show ?thesis using dispatched.prems dispatched.hyps(1) \<open>sent = []\<close> by (auto simp: sys_inv_def intro: subset_mset.order_trans)
  next
    fix q assume "sent = [q]" "leaves_for cfg out q"
    then show ?thesis using dispatched.prems dispatched.hyps(1) g by (auto simp: sys_inv_def in_system_def add.assoc)
  qed
next
  case (swept x now)
  then show ?case using inv_shrink [OF _ sweep_entries] by simp
qed (auto intro!: inv_quiet dest: ingest_finish_pending health_pending)

lemma sys_inv_reaches: "run_reaches cfg x \<Longrightarrow> sys_inv cfg x"
proof (induction rule: rtranclp_induct)
  case base
  show ?case by (simp add: sys_inv_def in_system_def system_boot_def enclave_boot_def pendingGates_def newPendingGates_def)
qed (rule sys_inv_step)

section \<open>What can leave the enclave\<close>

text \<open>C1. Nothing leaves the enclave that the guest did not allow. In every reachable state of the process, under any
  interleaving of any number of gates, executions, ingestions, proofs and sweeps, every request that ever left was sent
  for an outcome that a gate handler made from an answer the guest executor gave it: the history of answers holds the
  ticket, that answer and that outcome. The ticket is of a payload some client sealed to this enclave and that was
  admitted past the replay check; the journal of that very answer says ALLOW, under the commitment the enclave computes
  for the ticket's canonical request and nonce; and what left is the request an adapter builds from that canonical
  request, with the key of a candidate that passed every authorization check under the journal's policy, to a host on the
  allowlist.\<close>

theorem egress_needs_guest_allow:
  assumes "run_reaches cfg x" "(out, q) \<in> set (sys_sent x)"
  shows "\<exists>tk g nonce a cand cred ad ce. (tk, g, out) \<in> set (sys_answers x) \<and> sealed_ticket cfg tk
     \<and> gt_payload tk = go_payload out \<and> gt_payload tk \<in> set (sys_admitted x)
     \<and> gt_nonce tk = JStr nonce \<and> jr_decision (gx_journal g) = ALLOW
     \<and> commitment_of (ec_rt cfg) (gt_canonical tk) nonce = Some (jr_requestCommitment (gx_journal g))
     \<and> go_authorized out = Some a \<and> aq_request a = gt_canonical tk
     \<and> aq_requestCommitment a = jr_requestCommitment (gx_journal g) \<and> aq_policyId a = jr_policyId (gx_journal g)
     \<and> authorize cfg cand a = Some (Inr cred) \<and> serving_adapter cfg cand a = Some ad
     \<and> fst (complete (ec_rt cfg) ce ad a cred) = [q] \<and> assertEgressAllowed (ec_rt cfg) (ce_allow ce) (out_url q)"
proof -
  note inv = sys_inv_reaches [OF assms(1)]
  from inv assms(2) have "gated cfg (sys_answers x) out" "leaves_for cfg out q" by (auto simp: sys_inv_def)
  then obtain tk g a cand cred ad ce where *: "(tk, g, out) \<in> set (sys_answers x)" "sealed_ticket cfg tk" "judged cfg tk g out"
    "go_authorized out = Some a" "authorize cfg cand a = Some (Inr cred)" "serving_adapter cfg cand a = Some ad"
    "fst (complete (ec_rt cfg) ce ad a cred) = [q]" unfolding gated_def leaves_for_def by blast
  from *(3,4) obtain nonce where n: "gt_nonce tk = JStr nonce" "jr_decision (gx_journal g) = ALLOW"
    "commitment_of (ec_rt cfg) (gt_canonical tk) nonce = Some (jr_requestCommitment (gx_journal g))"
    "aq_request a = gt_canonical tk" "aq_requestCommitment a = jr_requestCommitment (gx_journal g)"
    "aq_policyId a = jr_policyId (gx_journal g)" "gt_payload tk = go_payload out"
    by (cases "jr_decision (gx_journal g)") (auto simp: judged_def)
  have "go_payload out \<in># in_system x" using assms(2) by (force simp: in_system_def)
  then have "gt_payload tk \<in> set (sys_admitted x)" using inv n(7) by (auto simp: sys_inv_def dest: mset_subset_eqD)
  moreover have "assertEgressAllowed (ec_rt cfg) (ce_allow ce) (out_url q)"
    by (rule reg.egress [of q "ec_rt cfg" ce ad a cred]) (simp add: *(7))
  ultimately show ?thesis using * n by blast
qed

text \<open>C2. One admission, at most one request. In every reachable state, for every payload, the number of requests that
  left on its behalf plus the number still parked or in flight is at most the number of times it was admitted past the
  replay check, so no interleaving of \<^verbatim>\<open>/gate\<close> and \<^verbatim>\<open>/execute\<close> calls can spend an admission twice.\<close>

theorem one_dispatch_per_admission:
  assumes "run_reaches cfg x"
  shows "count (image_mset (\<lambda>d. go_payload (fst d)) (mset (sys_sent x))) p
       + count (image_mset (\<lambda>d. go_payload (fst d)) (mset (sys_dispatches x))) p
       + count (parked_payloads (en_pending (sys_state x))) p
       + count (image_mset (\<lambda>g. gt_payload (snd g)) (mset (sys_gates x))) p \<le> count (mset (sys_admitted x)) p"
proof -
  have "count (in_system x) p \<le> count (mset (sys_admitted x)) p"
    using sys_inv_reaches [OF assms] by (simp add: sys_inv_def mset_subset_eq_count)
  then show ?thesis by (simp add: in_system_def)
qed

section \<open>A run of the system\<close>

lemma sample_system:
  obtains x out q where "run_reaches sample_cfg x" "sys_sent x = [(out, q)]" "sys_admitted x = [sample_payload]"
proof -
  let ?io = "sample_gate_io sample_guest" and ?s1 = "enclave_boot\<lparr> en_seenNonces := [((JStr sample_nonce, 0), 0)] \<rparr>"
  obtain out s2 where o: "gateRequest sample_cfg ?io (\<lambda>x. x) (\<lambda>x. x) (Some sample_envelope) enclave_boot = (Inr out, s2)"
    "go_authorized out = Some committed" "get_prop (go_payload out) ''responsePublicKey'' = Some (JStr (lit ''cHVi''))" "go_gateWallMs out = 1"
    by (rule sample_outcome)
  have a: "gate_admit sample_cfg ?io (sample_envelope, sample_payload, 2) enclave_boot = (Inr sample_ticket, ?s1)"
    by (rule sample_gate_admits) (simp add: enclave_boot_def)
  have f: "gate_finish sample_cfg ?io sample_ticket ?s1 = (Inr out, s2)" using o(1) by (simp add: gateRequest_def sample_gate_opens a)
  from gate_finish_Inr [OF f] obtain g where "judged sample_cfg sample_ticket g out" by blast
  from judged_witness [OF admitted_sealed [OF sample_gate_opens a] this] obtain w where w: "witnessFor sample_cfg out = Some w" by blast
  let ?s3 = "start_proof sample_cfg ?io (go_requestId out) w s2"
  obtain r b q where d: "runDispatch sample_cfg ok_dispatch (en_prover ?s3) out [candidate_of r] = (Accepted b, [q])"
    by (rule sample_dispatch [OF o(2-4)])
  have dd: "go_decision out = ALLOW" using o(2) \<open>judged sample_cfg sample_ticket g out\<close> by (cases "jr_decision (gx_journal g)") (auto simp: judged_def)
  let ?x1 = "system_boot\<lparr> sys_state := ?s1, sys_gates := [(ToExecute [candidate_of r], sample_ticket)], sys_admitted := [sample_payload] \<rparr>"
  let ?x2 = "?x1\<lparr> sys_state := ?s3, sys_gates := [], sys_dispatches := [(out, [candidate_of r])],
      sys_answers := answered sample_cfg ?io sample_ticket ?s1 \<rparr>"
  let ?x3 = "?x2\<lparr> sys_dispatches := [], sys_sent := [(out, q)] \<rparr>"
  have pay: "gt_payload sample_ticket = sample_payload" by (simp add: sample_ticket_def)
  have a': "gate_admit sample_cfg ?io (sample_envelope, sample_payload, 2) (sys_state system_boot) = (Inr sample_ticket, ?s1)"
    using a by (simp add: system_boot_def)
  have 1: "sys_step sample_cfg system_boot ?x1"
    using sys_step.admit [OF sample_gate_opens a', where route = "ToExecute [candidate_of r]"] by (simp add: system_boot_def pay)
  have 2: "sys_step sample_cfg ?x1 ?x2"
    using sys_step.inline_done [of ?x1 "[]" "[candidate_of r]" sample_ticket "[]" sample_cfg ?io out ?s3] f w
    by (simp add: execute_gated_def system_boot_def)
  have 3: "sys_step sample_cfg ?x2 ?x3"
    using sys_step.dispatched [of ?x2 "[]" out "[candidate_of r]" "[]" sample_cfg ok_dispatch "Accepted b" "[q]"] d dd
    by (simp add: dispatch_or_deny_def system_boot_def)
  from 1 2 3 have "run_reaches sample_cfg ?x3" by (meson rtranclp.rtrancl_into_rtrancl r_into_rtranclp)
  then show thesis by (rule that) (simp_all add: system_boot_def)
qed

theorem egress_needs_guest_allow_witness:
  "\<exists>x out q tk g. run_reaches sample_cfg x \<and> sys_sent x = [(out, q)] \<and> (tk, g, out) \<in> set (sys_answers x)
     \<and> gt_payload tk = sample_payload \<and> jr_decision (gx_journal g) = ALLOW
     \<and> (\<exists>ce :: call_env. assertEgressAllowed sample_runtime (ce_allow ce) (out_url q))"
proof -
  obtain x out q where x: "run_reaches sample_cfg x" "sys_sent x = [(out, q)]" "sys_admitted x = [sample_payload]" by (rule sample_system)
  have "(out, q) \<in> set (sys_sent x)" by (simp add: x(2))
  from egress_needs_guest_allow [OF x(1) this] obtain tk g and ce :: call_env where "(tk, g, out) \<in> set (sys_answers x)"
    "gt_payload tk \<in> set (sys_admitted x)" "jr_decision (gx_journal g) = ALLOW" "assertEgressAllowed (ec_rt sample_cfg) (ce_allow ce) (out_url q)"
    by blast
  with x show ?thesis by (intro exI [of _ x] exI [of _ out] exI [of _ q] exI [of _ tk] exI [of _ g]) auto
qed

theorem one_dispatch_per_admission_witness:
  "\<exists>x. run_reaches sample_cfg x \<and> length (sys_sent x) = 1
     \<and> count (image_mset (\<lambda>d. go_payload (fst d)) (mset (sys_sent x))) sample_payload \<le> 1"
proof -
  obtain x out q where x: "run_reaches sample_cfg x" "sys_sent x = [(out, q)]" "sys_admitted x = [sample_payload]" by (rule sample_system)
  from one_dispatch_per_admission [OF x(1), of sample_payload] x show ?thesis by (intro exI [of _ x]) simp
qed

end
