(* ===== verification/Receipts.thy ===== *)
theory Receipts
  imports Enclave
begin

text \<open>
  Verification by third parties: the receipt verifier of \<^verbatim>\<open>packages/verify/src/verify.ts\<close>, which checks everything a
  proof receipt reveals short of its seal, and the checks of \<^verbatim>\<open>services/tee-sim/src/verify.ts\<close> on proofs, compute
  receipts and attestations. A check is its name and whether it passed (and, in the first verifier, whether it is
  delegated to the server); the explanatory texts shown beside it are left out. Receipt bytes are lists of 8-bit words;
  multi-byte fields are little-endian.
\<close>

section \<open>Framing the journal\<close>

definition META_LEN :: nat where
  "META_LEN = 32"

definition INNER_TAG_GROTH16 :: nat where
  "INNER_TAG_GROTH16 = 2"

definition INNER_TAG_FAKE :: nat where
  "INNER_TAG_FAKE = 3"

definition JOURNAL_KEYS :: "jstr list" where
  "JOURNAL_KEYS = map lit [''decision'', ''policyId'', ''proofNonce'', ''protocolVersion'', ''requestCommitment'']"

definition readU32LE :: "byte list \<Rightarrow> nat \<Rightarrow> nat" where
  "readU32LE bytes off = unat (bytes ! off) + unat (bytes ! (off + 1)) * 256 + unat (bytes ! (off + 2)) * 65536 + unat (bytes ! (off + 3)) * 16777216"

definition u64LEEquals :: "byte list \<Rightarrow> nat \<Rightarrow> nat \<Rightarrow> bool" where
  "u64LEEquals bytes off expected \<longleftrightarrow> readU32LE bytes (off + 4) = 0 \<and> readU32LE bytes off = expected"

text \<open>\<open>new TextDecoder("utf-8", { fatal: true })\<close>: malformed input throws. A byte string is well formed exactly when
  decoding it with replacement characters and encoding the result gives it back.\<close>

definition text_decode_fatal :: "byte list \<Rightarrow> jstr option" where
  "text_decode_fatal bs = (if utf8 (code_units (utf8_points bs)) = bs then Some (text_decode bs) else None)"

fun scan_frames :: "runtime \<Rightarrow> byte list \<Rightarrow> nat \<Rightarrow> nat list \<Rightarrow> json option" where
  "scan_frames rt bytes journalEnd [] = None"
| "scan_frames rt bytes journalEnd (len # lens) =
     (let start = journalEnd - len in
      if bytes ! start \<noteq> 0x7b then scan_frames rt bytes journalEnd lens
      else if \<not> u64LEEquals bytes (start - 8) len then scan_frames rt bytes journalEnd lens
      else (case Option.bind (text_decode_fatal (take len (drop start bytes))) (json_parse rt) of
              None \<Rightarrow> scan_frames rt bytes journalEnd lens
            | Some journal \<Rightarrow> Some journal))"

definition frameJournal :: "runtime \<Rightarrow> byte list \<Rightarrow> (nat \<times> json) option" where
  "frameJournal rt bytes =
     (if length bytes < META_LEN + 8 + 2 then None
      else (let innerTag = readU32LE bytes 0; journalEnd = length bytes - META_LEN in
            if bytes ! (journalEnd - 1) \<noteq> 0x7d then None
            else map_option (Pair innerTag) (scan_frames rt bytes journalEnd [2 ..< Suc (min 65536 (journalEnd - 8))])))"

section \<open>Shapes\<close>

definition hex64 :: "jstr \<Rightarrow> bool" where
  "hex64 s \<longleftrightarrow> length s = 64 \<and> list_all lower_hex s"

definition is0xSha256 :: "json \<Rightarrow> bool" where
  "is0xSha256 v = (case v of JStr s \<Rightarrow> starts_with (lit ''0x'') s \<and> hex64 (drop 2 s) | _ \<Rightarrow> False)"

definition isImageIdHex :: "json \<Rightarrow> bool" where
  "isImageIdHex v = (case v of JStr s \<Rightarrow> hex64 s | _ \<Rightarrow> False)"

text \<open>\<^verbatim>\<open>/^(0x)?[0-9a-f]{1,64}$/\<close>.\<close>

definition nonce_digits :: "jstr \<Rightarrow> bool" where
  "nonce_digits s \<longleftrightarrow> 1 \<le> length s \<and> length s \<le> 64 \<and> list_all lower_hex s"

definition proof_nonce_ok :: "json \<Rightarrow> bool" where
  "proof_nonce_ok v = (case v of
     JStr s \<Rightarrow> nonce_digits s \<or> (starts_with (lit ''0x'') s \<and> nonce_digits (drop 2 s))
   | _ \<Rightarrow> False)"

record VerifyManifest =
  vm_imageIdHex :: json
  vm_policyId :: json
  vm_rulesDigest :: json
  vm_journalVersion :: "int option"
  vm_receiptCodec :: "jstr option"

record VerifyExpect =
  ve_commitment :: "jstr option"
  ve_decision :: "PolicyDecision option"
  ve_proofNonce :: "jstr option"

record VerifyCheck =
  vc_name :: string
  vc_ok :: bool
  vc_delegated :: bool

record VerifyResult =
  vr_ok :: bool
  vr_checks :: "VerifyCheck list"
  vr_delegated :: "string list"

record DecodedJournal =
  dj_protocolVersion :: int
  dj_requestCommitment :: jstr
  dj_policyId :: jstr
  dj_decision :: PolicyDecision
  dj_proofNonce :: jstr

fun decision_of :: "json \<Rightarrow> PolicyDecision option" where
  "decision_of (JStr s) = (if s = lit ''ALLOW'' then Some ALLOW else if s = lit ''DENY'' then Some DENY else None)"
| "decision_of _ = None"

fun str_of :: "json \<Rightarrow> jstr" where
  "str_of (JStr s) = s"
| "str_of _ = []"

section \<open>verifyReceipt\<close>

text \<open>The verifier stops at the first local failure. A test is either local, with its verdict, or delegated; running a
  list of tests yields the checks up to and including the first failure.\<close>

datatype test = Local string bool | Delegated string

fun run_tests :: "test list \<Rightarrow> VerifyCheck list \<times> bool" where
  "run_tests [] = ([], True)"
| "run_tests (Delegated n # ts) = (let r = run_tests ts in (\<lparr> vc_name = n, vc_ok = False, vc_delegated = True \<rparr> # fst r, snd r))"
| "run_tests (Local n True # ts) = (let r = run_tests ts in (\<lparr> vc_name = n, vc_ok = True, vc_delegated = False \<rparr> # fst r, snd r))"
| "run_tests (Local n False # ts) = ([\<lparr> vc_name = n, vc_ok = False, vc_delegated = False \<rparr>], False)"

definition finish :: "VerifyCheck list \<times> bool \<Rightarrow> VerifyResult" where
  "finish r = \<lparr> vr_ok = snd r, vr_checks = fst r, vr_delegated = map vc_name (filter vc_delegated (fst r)) \<rparr>"

definition manifest_ok :: "VerifyManifest \<Rightarrow> bool" where
  "manifest_ok m \<longleftrightarrow> isImageIdHex (vm_imageIdHex m) \<and> is0xSha256 (vm_policyId m) \<and> is0xSha256 (vm_rulesDigest m)
     \<and> (case vm_journalVersion m of None \<Rightarrow> 1 | Some v \<Rightarrow> v) = (1 :: int)"

definition codec_ok :: "VerifyManifest \<Rightarrow> bool" where
  "codec_ok m \<longleftrightarrow> (case vm_receiptCodec m of None \<Rightarrow> lit ''bincode-v1'' | Some c \<Rightarrow> c) = lit ''bincode-v1''"

definition expect_tests :: "VerifyExpect option \<Rightarrow> (jstr \<times> json) list \<Rightarrow> test list" where
  "expect_tests expect kvs = (case expect of None \<Rightarrow> [] | Some e \<Rightarrow>
     (case ve_commitment e of None \<Rightarrow> [] | Some c \<Rightarrow> [Local ''expect-commitment'' (JStr c = field kvs ''requestCommitment'')])
     @ (case ve_decision e of None \<Rightarrow> [] | Some d \<Rightarrow> [Local ''expect-decision'' (Some d = decision_of (field kvs ''decision''))])
     @ (case ve_proofNonce e of None \<Rightarrow> [] | Some n \<Rightarrow> [Local ''expect-proof-nonce'' (JStr n = field kvs ''proofNonce'')]))"

definition journal_tests :: "VerifyManifest \<Rightarrow> VerifyExpect option \<Rightarrow> (jstr \<times> json) list \<Rightarrow> test list" where
  "journal_tests m expect kvs =
     [Local ''journal-key-set'' (sort (map fst kvs) = JOURNAL_KEYS),
      Local ''journal-protocol-version'' (field kvs ''protocolVersion'' = JInt 1),
      Local ''journal-decision'' (decision_of (field kvs ''decision'') \<noteq> None),
      Local ''journal-request-commitment'' (is0xSha256 (field kvs ''requestCommitment'')),
      Local ''journal-proof-nonce'' (proof_nonce_ok (field kvs ''proofNonce'')),
      Local ''policy-id'' (is0xSha256 (field kvs ''policyId'') \<and> field kvs ''policyId'' = vm_policyId m),
      Delegated ''rules-digest''] @ expect_tests expect kvs"

definition framed_tests :: "VerifyManifest \<Rightarrow> VerifyExpect option \<Rightarrow> nat \<times> json \<Rightarrow> test list" where
  "framed_tests m expect framed = (case framed of (innerTag, journal) \<Rightarrow>
     Delegated ''image-id'' # (if innerTag = INNER_TAG_FAKE then Local ''seal'' False else Delegated ''seal'')
     # (case journal of
          JObj kvs \<Rightarrow> Local ''journal-parses'' True # journal_tests m expect kvs
        | _ \<Rightarrow> [Local ''journal-parses'' False]))"

definition verifyReceipt :: "runtime \<Rightarrow> byte list \<Rightarrow> VerifyManifest \<Rightarrow> VerifyExpect option \<Rightarrow> VerifyResult" where
  "verifyReceipt rt receiptBytes m expect = finish (run_tests
     (Local ''manifest'' (manifest_ok m) # Local ''receipt-codec'' (codec_ok m)
      # (case frameJournal rt receiptBytes of
           None \<Rightarrow> [Local ''receipt-decodes'' False]
         | Some framed \<Rightarrow> Local ''receipt-decodes'' True # framed_tests m expect framed)))"

definition decodeJournal :: "runtime \<Rightarrow> byte list \<Rightarrow> DecodedJournal option" where
  "decodeJournal rt receiptBytes =
     (case frameJournal rt receiptBytes of
        Some (tag, JObj kvs) \<Rightarrow>
          if sort (map fst kvs) \<noteq> JOURNAL_KEYS then None
          else if field kvs ''protocolVersion'' \<noteq> JInt 1 then None
          else (case decision_of (field kvs ''decision'') of
                  None \<Rightarrow> None
                | Some d \<Rightarrow>
                    if \<not> is0xSha256 (field kvs ''requestCommitment'') \<or> \<not> is0xSha256 (field kvs ''policyId'') then None
                    else if \<not> proof_nonce_ok (field kvs ''proofNonce'') then None
                    else Some \<lparr> dj_protocolVersion = 1, dj_requestCommitment = str_of (field kvs ''requestCommitment''),
                                dj_policyId = str_of (field kvs ''policyId''), dj_decision = d,
                                dj_proofNonce = str_of (field kvs ''proofNonce'') \<rparr>)
      | _ \<Rightarrow> None)"

section \<open>What a passed verification says\<close>

fun passes :: "test \<Rightarrow> bool" where
  "passes (Local n b) = b"
| "passes (Delegated n) = True"

fun delegated_name :: "test \<Rightarrow> string list" where
  "delegated_name (Local n b) = []"
| "delegated_name (Delegated n) = [n]"

lemma run_tests_ok: "snd (run_tests ts) \<longleftrightarrow> list_all passes ts"
  by (induction ts rule: run_tests.induct) (auto simp: Let_def)

lemma run_tests_delegated:
  "list_all passes ts \<Longrightarrow> map vc_name (filter vc_delegated (fst (run_tests ts))) = concat (map delegated_name ts)"
  by (induction ts rule: run_tests.induct) (auto simp: Let_def)

lemma run_tests_no_claim:
  "c \<in> set (fst (run_tests ts)) \<Longrightarrow> vc_ok c \<Longrightarrow> Local (vc_name c) True \<in> set ts \<and> \<not> vc_delegated c"
  by (induction ts rule: run_tests.induct) (auto simp: Let_def)

definition expected :: "VerifyExpect option \<Rightarrow> DecodedJournal \<Rightarrow> bool" where
  "expected expect d \<longleftrightarrow> (case expect of None \<Rightarrow> True | Some e \<Rightarrow>
     (ve_commitment e = None \<or> ve_commitment e = Some (dj_requestCommitment d))
     \<and> (ve_decision e = None \<or> ve_decision e = Some (dj_decision d))
     \<and> (ve_proofNonce e = None \<or> ve_proofNonce e = Some (dj_proofNonce d)))"

lemma is0xSha256_str: "is0xSha256 v \<Longrightarrow> v = JStr (str_of v)"
  by (cases v) (auto simp: is0xSha256_def)

lemma proof_nonce_str: "proof_nonce_ok v \<Longrightarrow> v = JStr (str_of v)"
  by (cases v) (auto simp: proof_nonce_ok_def)

lemma journal_tests_decode:
  assumes "frameJournal rt bytes = Some (tag, JObj kvs)"
  shows "list_all passes (journal_tests m expect kvs) \<longleftrightarrow>
     (\<exists>d. decodeJournal rt bytes = Some d \<and> JStr (dj_policyId d) = vm_policyId m \<and> expected expect d)"
proof (cases "sort (map fst kvs) = JOURNAL_KEYS \<and> field kvs ''protocolVersion'' = JInt 1 \<and> decision_of (field kvs ''decision'') \<noteq> None
     \<and> is0xSha256 (field kvs ''requestCommitment'') \<and> is0xSha256 (field kvs ''policyId'') \<and> proof_nonce_ok (field kvs ''proofNonce'')")
  case True
  then obtain d where d: "decision_of (field kvs ''decision'') = Some d" by blast
  obtain c p n where str: "field kvs ''requestCommitment'' = JStr c" "field kvs ''policyId'' = JStr p" "field kvs ''proofNonce'' = JStr n"
    using True is0xSha256_str proof_nonce_str by meson
  have "decodeJournal rt bytes = Some \<lparr> dj_protocolVersion = 1, dj_requestCommitment = c, dj_policyId = p, dj_decision = d, dj_proofNonce = n \<rparr>"
    using True assms d str by (simp add: decodeJournal_def)
  moreover have "list_all passes (expect_tests expect kvs) \<longleftrightarrow>
      expected expect \<lparr> dj_protocolVersion = 1, dj_requestCommitment = c, dj_policyId = p, dj_decision = d, dj_proofNonce = n \<rparr>"
    using d str by (auto simp: expect_tests_def expected_def split: option.splits)
  ultimately show ?thesis using True d str by (auto simp: journal_tests_def)
next
  case False
  then have "decodeJournal rt bytes = None" using assms by (auto simp: decodeJournal_def split: option.splits)
  moreover have "\<not> list_all passes (journal_tests m expect kvs)" using False by (auto simp: journal_tests_def)
  ultimately show ?thesis by simp
qed

lemma decode_framed: "decodeJournal rt bytes = Some d \<Longrightarrow> \<exists>tag kvs. frameJournal rt bytes = Some (tag, JObj kvs)"
  by (auto simp: decodeJournal_def split: option.splits json.splits)

text \<open>The list of tests behind a verdict.\<close>

definition receipt_tests :: "runtime \<Rightarrow> byte list \<Rightarrow> VerifyManifest \<Rightarrow> VerifyExpect option \<Rightarrow> test list" where
  "receipt_tests rt bytes m expect = Local ''manifest'' (manifest_ok m) # Local ''receipt-codec'' (codec_ok m)
     # (case frameJournal rt bytes of None \<Rightarrow> [Local ''receipt-decodes'' False]
        | Some framed \<Rightarrow> Local ''receipt-decodes'' True # framed_tests m expect framed)"

lemma verdict_tests:
  "vr_ok (verifyReceipt rt bytes m expect) \<longleftrightarrow> list_all passes (receipt_tests rt bytes m expect)"
  "vr_checks (verifyReceipt rt bytes m expect) = fst (run_tests (receipt_tests rt bytes m expect))"
  "vr_delegated (verifyReceipt rt bytes m expect) = map vc_name (filter vc_delegated (fst (run_tests (receipt_tests rt bytes m expect))))"
  unfolding verifyReceipt_def finish_def receipt_tests_def by (simp_all only: run_tests_ok VerifyResult.simps)

lemma run_tests_all: "snd (run_tests ts) \<longleftrightarrow> list_all (\<lambda>c. vc_delegated c \<or> vc_ok c) (fst (run_tests ts))"
  by (induction ts rule: run_tests.induct) (auto simp: Let_def)

lemma verdict_all_checks: "vr_ok (verifyReceipt rt bytes m expect) \<longleftrightarrow> list_all (\<lambda>c. vc_delegated c \<or> vc_ok c) (vr_checks (verifyReceipt rt bytes m expect))"
  by (simp add: verdict_tests run_tests_all [symmetric] run_tests_ok)

lemma receipt_accepted_iff:
  "vr_ok (verifyReceipt rt bytes m expect) \<longleftrightarrow> manifest_ok m \<and> codec_ok m
     \<and> (\<exists>tag j. frameJournal rt bytes = Some (tag, j) \<and> tag \<noteq> INNER_TAG_FAKE)
     \<and> (\<exists>d. decodeJournal rt bytes = Some d \<and> JStr (dj_policyId d) = vm_policyId m \<and> expected expect d)"
proof (cases "\<exists>tag kvs. frameJournal rt bytes = Some (tag, JObj kvs)")
  case True
  then obtain tag kvs where f: "frameJournal rt bytes = Some (tag, JObj kvs)" by blast
  with journal_tests_decode [OF f, of m expect] show ?thesis by (auto simp: verdict_tests receipt_tests_def framed_tests_def)
next
  case False
  then have "decodeJournal rt bytes = None" using decode_framed by (cases "decodeJournal rt bytes") auto
  with False show ?thesis by (auto simp: verdict_tests receipt_tests_def framed_tests_def split: option.splits json.splits)
qed

text \<open>C8. The verifier accepts exactly what it claims to check, and never claims the seal. On every byte string,
  \<open>verifyReceipt\<close> answers \<open>ok\<close> exactly when the manifest is well formed, the bytes frame a journal, the inner receipt
  is not the dev-mode stub, \<open>decodeJournal\<close> reads the same journal, its policy id is the pinned one and it meets the
  caller's expectations; the seal, the image id and the rules digest are then reported as delegated, and no check of
  those three names is ever reported as passed.\<close>

theorem verify_receipt_exact:
  "(vr_ok (verifyReceipt rt bytes m expect) \<longleftrightarrow> manifest_ok m \<and> codec_ok m
     \<and> (\<exists>tag j. frameJournal rt bytes = Some (tag, j) \<and> tag \<noteq> INNER_TAG_FAKE)
     \<and> (\<exists>d. decodeJournal rt bytes = Some d \<and> JStr (dj_policyId d) = vm_policyId m \<and> expected expect d))
   \<and> (\<not> (vr_ok (verifyReceipt rt bytes m expect) \<and> vr_delegated (verifyReceipt rt bytes m expect) \<noteq> [''image-id'', ''seal'', ''rules-digest'']))
   \<and> list_all (\<lambda>c. \<not> (vc_ok c \<and> vc_name c \<in> {''image-id'', ''seal'', ''rules-digest''})) (vr_checks (verifyReceipt rt bytes m expect))"
proof -
  let ?ts = "receipt_tests rt bytes m expect"
  have dn: "concat (map delegated_name (expect_tests e kvs)) = []" for e kvs by (auto simp: expect_tests_def split: option.splits)
  have 1: "vr_delegated (verifyReceipt rt bytes m expect) = [''image-id'', ''seal'', ''rules-digest'']" if p: "list_all passes ?ts"
  proof -
    have "vr_delegated (verifyReceipt rt bytes m expect) = concat (map delegated_name ?ts)"
      unfolding verdict_tests(3) by (rule run_tests_delegated [OF p])
    also have "\<dots> = [''image-id'', ''seal'', ''rules-digest'']"
      using p by (auto simp: receipt_tests_def framed_tests_def journal_tests_def dn split: option.splits json.splits)
    finally show ?thesis .
  qed
  have ex: "Local n b \<notin> set (expect_tests e kvs)" if "n \<in> {''image-id'', ''seal'', ''rules-digest''}" for n b e kvs
    using that by (auto simp: expect_tests_def split: option.splits)
  have "Local n True \<notin> set ?ts" if n: "n \<in> {''image-id'', ''seal'', ''rules-digest''}" for n
    using ex [OF n] n by (auto simp: receipt_tests_def framed_tests_def journal_tests_def split: option.splits json.splits if_splits)
  then have "list_all (\<lambda>c. \<not> (vc_ok c \<and> vc_name c \<in> {''image-id'', ''seal'', ''rules-digest''})) (vr_checks (verifyReceipt rt bytes m expect))"
    unfolding verdict_tests(2) list_all_iff using run_tests_no_claim by blast
  with 1 verdict_tests(1) receipt_accepted_iff show ?thesis by blast
qed

section \<open>Canonical text has no zero byte\<close>

lemma digits_nonzero: "0 \<notin> set (int_digits i)"
proof -
  have "0 \<notin> set (nat_digits n)" for n using nat_digits_all [of n] by (auto simp: is_digit_def)
  then show ?thesis by (simp add: int_digits_def)
qed

lemma escape_nonzero: "0 \<notin> set (escape_str s)"
proof (induction s rule: escape_str.induct)
  have u: "0 \<notin> set (u_escape c)" for c by (simp add: u_escape_def digit_def)
  have e: "0 \<notin> set (escape_unit c)" for c using u by (simp add: escape_unit_def)
  { case (2 a) then show ?case using u e by simp }
  { case (3 a b s) then show ?case using u e by (auto simp: high_surrogate_def low_surrogate_def) }
qed simp

lemma quote_nonzero: "0 \<notin> set (quote s)"
  by (simp add: quote_def escape_nonzero)

lemma join_nonzero: "0 \<notin> set (join sep parts)" if "0 \<notin> set sep" "\<forall>t \<in> set parts. 0 \<notin> set t"
  using that by (induction sep parts rule: join.induct) auto

lemma canonicalJson_nonzero: "canonicalJson rt v = Some s \<Longrightarrow> 0 \<notin> set s"
proof (induction rt v arbitrary: s rule: canonicalJson.induct)
  case (5 rt vs)
  then obtain parts where p: "those (map (canonicalJson rt) vs) = Some parts" "s = 91 # join [44] parts @ [93]" by auto
  have "0 \<notin> set t" if "t \<in> set parts" for t using those_set [OF p(1) that] 5 by auto
  then show ?case unfolding p(2) using join_nonzero [of "[44]" parts] by simp
next
  case (6 rt kvs)
  then obtain parts where p: "those (map (member_text rt) (filter (\<lambda>(k, v). v \<noteq> JUndef) (sort_key fst kvs))) = Some parts"
    "s = 123 # join [44] parts @ [125]"
    unfolding canonicalJson.simps member_text_fun by auto
  have "0 \<notin> set t" if "t \<in> set parts" for t
  proof -
    from those_set [OF p(1) that] obtain k v where kv: "(k, v) \<in> set kvs" "v \<noteq> JUndef" "member_text rt (k, v) = Some t" by auto
    then obtain u where u: "canonicalJson rt v = Some u" "t = quote k @ 58 # u" by (auto simp: member_text_pair)
    have "0 \<notin> set u" using 6(1) [OF _ refl] kv u(1) by auto
    then show ?thesis unfolding u(2) by (simp add: quote_nonzero)
  qed
  then show ?case unfolding p(2) using join_nonzero [of "[44]" parts] by simp
qed (auto simp: digits_nonzero quote_nonzero lit_def split: if_splits)

lemma byte_zero: "(of_nat n :: byte) = 0 \<Longrightarrow> n = 0 \<or> 256 \<le> n"
  using unat_byte [of n] by (metis not_le unat_0)

lemma utf8_point_nonzero: "0 < c \<Longrightarrow> c < 1114112 \<Longrightarrow> 0 \<notin> set (utf8_point c)"
  unfolding utf8_point_def Let_def
  by (auto simp del: of_nat_add simp: eq_commute [of "0 :: byte"] dest!: byte_zero)

lemma code_points_nonzero: "0 \<notin> set s \<Longrightarrow> 0 \<notin> set (code_points s)"
  by (induction s rule: code_points.induct) auto

lemma utf8_nonzero:
  assumes "wf16 s" "0 \<notin> set s"
  shows "0 \<notin> set (utf8 s)"
proof -
  have "0 \<notin> set (utf8_point c)" if "c \<in> set (code_points s)" for c
  proof (rule utf8_point_nonzero)
    show "0 < c" using that code_points_nonzero [OF assms(2)] by (metis gr0I)
    show "c < 1114112" using that wf16_points [OF assms(1)] by (simp add: scalar_def)
  qed
  then show ?thesis by (simp add: utf8_def)
qed

lemma code_points_last: "code_points (s @ [125]) = code_points s @ [125]"
  by (induction s rule: code_points.induct) (auto simp: low_surrogate_def)

lemma utf8_braces: "utf8 (123 # s @ [125]) = 0x7b # utf8 s @ [0x7d]"
proof -
  have p: "utf8_point 123 = [0x7b]" "utf8_point 125 = [0x7d]" by (simp_all add: utf8_point_def high_surrogate_def low_surrogate_def)
  have "code_points (123 # t) = 123 # code_points t" for t by (cases t) (auto simp: high_surrogate_def)
  then show ?thesis using code_points_last [of s] p by (simp add: utf8_def)
qed

section \<open>Framing an honest receipt\<close>

text \<open>The little-endian 64-bit length prefix of a vector shorter than 4 GiB.\<close>

definition u64le :: "nat \<Rightarrow> byte list" where
  "u64le n = map of_nat [n mod 256, n div 256 mod 256, n div 65536 mod 256, n div 16777216 mod 256, 0, 0, 0, 0]"

lemma u64le_equals:
  assumes "n < 65536 * 65536"
  shows "u64LEEquals (pre @ u64le n @ rest) (length pre) n"
proof -
  have b: "unat (of_nat k :: byte) = k mod 256" for k by (simp add: unat_of_nat)
  have "n = n mod 256 + n div 256 mod 256 * 256 + n div 65536 mod 256 * 65536 + n div 16777216 mod 256 * 16777216"
  proof -
    define a where "a = n div 256"
    define b where "b = a div 256"
    define c where "c = b div 256"
    have "n div 65536 = b" "n div 16777216 = c" by (simp_all add: a_def b_def c_def flip: div_mult2_eq)
    moreover have "n = a * 256 + n mod 256" "a = b * 256 + a mod 256" "b = c * 256 + b mod 256" by (simp_all add: a_def b_def c_def)
    moreover have "c < 256" using assms by (simp add: a_def b_def c_def less_mult_imp_div_less flip: div_mult2_eq)
    ultimately show ?thesis unfolding a_def [symmetric] by (simp; linarith)
  qed
  moreover have "n div 16777216 mod 256 = n div 16777216" using assms by (simp add: less_mult_imp_div_less)
  ultimately show ?thesis by (simp add: u64LEEquals_def readU32LE_def u64le_def nth_append b)
qed

lemma u64LE_prev_zero: "u64LEEquals bytes (at0 - 8) len \<Longrightarrow> 8 \<le> at0 \<Longrightarrow> bytes ! (at0 - 1) = 0"
proof -
  assume u: "u64LEEquals bytes (at0 - 8) len" and s: "8 \<le> at0"
  then have "unat (bytes ! (at0 - 8 + 4 + 3)) = 0" by (simp add: u64LEEquals_def readU32LE_def)
  moreover have "at0 - 8 + 4 + 3 = at0 - 1" using s by simp
  ultimately show ?thesis by (simp add: unat_eq_zero)
qed

lemma scan_frames_skip:
  assumes "\<forall>len \<in> set lens. \<not> u64LEEquals bytes (journalEnd - len - 8) len"
  shows "scan_frames rt bytes journalEnd (lens @ lens2) = scan_frames rt bytes journalEnd lens2"
  using assms by (induction lens) (auto simp: Let_def)

lemma upt_around: "a \<le> m \<Longrightarrow> m < b \<Longrightarrow> [a ..< b] = [a ..< m] @ m # [Suc m ..< b]"
  by (metis le_add_diff_inverse less_imp_le upt_add_eq_append upt_conv_Cons)

lemma frame_journal_back:
  assumes b: "bytes = inner @ u64le (length t) @ t @ meta" and l: "4 \<le> length inner" "length meta = META_LEN" "2 \<le> length t" "length t \<le> 65536"
    and t: "hd t = 0x7b" "last t = 0x7d" "0 \<notin> set t" and p: "text_decode_fatal t = Some txt" "json_parse rt txt = Some j"
  shows "frameJournal rt bytes = Some (readU32LE inner 0, j)"
proof -
  define s where "s = length inner + 8"
  have u: "length (u64le n) = 8" for n by (simp add: u64le_def)
  have len: "length bytes = s + length t + 32" using b l by (simp add: s_def u META_LEN_def)
  have at: "bytes ! (s + i) = t ! i" if "i < length t" for i
    using that by (simp add: b s_def nth_append u)
  have nz: "t \<noteq> []" using l(3) by auto
  have first: "bytes ! s = 0x7b" using at [of 0] t(1) nz by (simp add: hd_conv_nth)
  have last: "bytes ! (s + length t - 1) = 0x7d"
    using at [of "length t - 1"] t(2) nz l(3) by (simp add: last_conv_nth)
  have tag: "readU32LE bytes 0 = readU32LE inner 0" 
  proof -
    have "bytes ! k = inner ! k" if "k < 4" for k using that l(1) by (simp add: b nth_append)
    then show ?thesis by (simp add: readU32LE_def)
  qed
  have e: "length bytes - META_LEN = s + length t" using len by (simp add: META_LEN_def)
  have skip: "\<not> u64LEEquals bytes (s + length t - k - 8) k" if "k \<in> set [2 ..< length t]" for k
  proof
    assume "u64LEEquals bytes (s + length t - k - 8) k"
    moreover have "8 \<le> s + length t - k" using that by (auto simp: s_def)
    ultimately have "bytes ! (s + length t - k - 1) = 0" by (rule u64LE_prev_zero)
    moreover have "bytes ! (s + length t - k - 1) = t ! (length t - k - 1)"
      using at [of "length t - k - 1"] that by (auto simp: s_def)
    ultimately show False using t(3) that by (metis nth_mem diff_less diff_diff_left zero_less_Suc nz length_greater_0_conv add.commute plus_1_eq_Suc)
  qed
  have pre: "u64LEEquals bytes (s + length t - length t - 8) (length t)"
    using u64le_equals [of "length t" inner "t @ meta"] l(4) by (simp add: b s_def)
  have window: "take (length t) (drop s bytes) = t" by (simp add: b s_def u)
  have lens: "[2 ..< Suc (min 65536 (s + length t - 8))] = [2 ..< length t] @ length t # [Suc (length t) ..< Suc (min 65536 (s + length t - 8))]"
  proof -
    have "length t \<le> min 65536 (s + length t - 8)" using l(4) by (simp add: s_def)
    then show ?thesis using l(3) by (intro upt_around le_imp_less_Suc)
  qed
  have "scan_frames rt bytes (s + length t) [2 ..< Suc (min 65536 (s + length t - 8))] = Some j"
    unfolding lens by (subst scan_frames_skip) (use skip first pre window p in \<open>simp_all add: Let_def\<close>)
  moreover have "\<not> length bytes < META_LEN + 8 + 2" using len l(3) by (simp add: s_def META_LEN_def)
  ultimately show ?thesis using last tag e by (simp add: frameJournal_def Let_def del: upt_Suc)
qed

section \<open>The journal of a receipt reads back\<close>

definition journal_members :: "DecodedJournal \<Rightarrow> (jstr \<times> json) list" where
  "journal_members d = [(lit ''decision'', JStr (decision_str (dj_decision d))), (lit ''policyId'', JStr (dj_policyId d)),
     (lit ''proofNonce'', JStr (dj_proofNonce d)), (lit ''protocolVersion'', JInt (dj_protocolVersion d)),
     (lit ''requestCommitment'', JStr (dj_requestCommitment d))]"

definition journal_shape :: "DecodedJournal \<Rightarrow> bool" where
  "journal_shape d \<longleftrightarrow> dj_protocolVersion d = 1 \<and> is0xSha256 (JStr (dj_requestCommitment d)) \<and> is0xSha256 (JStr (dj_policyId d))
     \<and> proof_nonce_ok (JStr (dj_proofNonce d))"

lemma hex_ascii: "list_all lower_hex s \<Longrightarrow> list_all (\<lambda>c. c < 128) s"
  by (auto simp: list_all_iff lower_hex_def)

lemma prefixed_ascii: "starts_with (lit ''0x'') s \<Longrightarrow> list_all lower_hex (drop 2 s) \<Longrightarrow> list_all (\<lambda>c. c < 128) s"
proof -
  assume "starts_with (lit ''0x'') s" "list_all lower_hex (drop 2 s)"
  moreover from this(1) obtain r where "s = lit ''0x'' @ r" by (auto simp: starts_with_iff)
  ultimately show ?thesis using hex_ascii by (auto simp: lit_def)
qed

lemma journal_ascii:
  assumes "journal_shape d"
  shows "list_all (\<lambda>c. c < 128) (dj_requestCommitment d)" "list_all (\<lambda>c. c < 128) (dj_policyId d)" "list_all (\<lambda>c. c < 128) (dj_proofNonce d)"
    "list_all (\<lambda>c. c < 128) (decision_str (dj_decision d))"
proof -
  show "list_all (\<lambda>c. c < 128) (decision_str (dj_decision d))" by (cases "dj_decision d") (simp_all add: lit_def)
qed (use assms prefixed_ascii hex_ascii in \<open>auto simp: journal_shape_def is0xSha256_def proof_nonce_ok_def hex64_def nonce_digits_def\<close>)

lemma journal_text:
  assumes "ints_exact rt" "ascii_normal rt" "journal_shape d"
  obtains t where "canonicalJson rt (JObj (journal_members d)) = Some t" "json_parse rt (text_decode (utf8 t)) = Some (JObj (journal_members d))"
    "wf16 t" "\<exists>u. t = 123 # u @ [125]"
proof -
  note asc = journal_ascii [OF assms(3)]
  have n: "nfc rt (dj_requestCommitment d) = dj_requestCommitment d" "nfc rt (dj_policyId d) = dj_policyId d"
      "nfc rt (dj_proofNonce d) = dj_proofNonce d" "nfc rt (decision_str (dj_decision d)) = decision_str (dj_decision d)"
    using asc assms(2) by (simp_all add: ascii_normal_def)
  have v: "dj_protocolVersion d = 1" using assms(3) by (simp add: journal_shape_def)
  have "serialisable (JObj (journal_members d))" using one_safe v by (simp add: journal_members_def del: isSafeInteger.simps)
  then obtain t where t: "canonicalJson rt (JObj (journal_members d)) = Some t" using canonicalJson_Some by blast
  have wf: "json_wf (JObj (journal_members d))" by (simp add: journal_members_def lit_def)
  have un: "json_units rt (JObj (journal_members d))"
  proof -
    have small: "\<forall>c \<in> set x. c < 65536" if "list_all (\<lambda>c. c < 128) x" for x :: jstr using that by (auto simp: list_all_iff)
    show ?thesis using asc [THEN small] by (simp add: journal_members_def n) (simp add: lit_def)
  qed
  have "sort_key fst (journal_members d) = journal_members d"
    by (rule sort_key_id_if_sorted) (simp add: journal_members_def lit_def)
  then have cf: "canon_form rt (JObj (journal_members d)) = JObj (journal_members d)"
    by simp (simp add: journal_members_def n)
  have "\<exists>u. t = 123 # u @ [125]" using t by auto
  with canonical_bytes_back [OF assms(1) wf un t] cf canonicalJson_wf16 [OF t un] t show thesis
    by (intro that) (simp_all del: canonicalJson.simps canon_form.simps)
qed

lemma decode_fatal_utf8: "wf16 t \<Longrightarrow> text_decode_fatal (utf8 t) = Some (text_decode (utf8 t))"
  by (simp add: text_decode_fatal_def utf8_text_back)

lemma decode_members:
  assumes "journal_shape d" "frameJournal rt bytes = Some (tag, JObj (journal_members d))"
  shows "decodeJournal rt bytes = Some d"
proof -
  have k: "sort (map fst (journal_members d)) = JOURNAL_KEYS" by (simp add: journal_members_def JOURNAL_KEYS_def lit_def)
  have f: "field (journal_members d) ''protocolVersion'' = JInt 1" "field (journal_members d) ''decision'' = JStr (decision_str (dj_decision d))"
    "field (journal_members d) ''requestCommitment'' = JStr (dj_requestCommitment d)" "field (journal_members d) ''policyId'' = JStr (dj_policyId d)"
    "field (journal_members d) ''proofNonce'' = JStr (dj_proofNonce d)"
    using assms(1) by (simp_all add: field_def journal_members_def journal_shape_def)
  have "decision_of (JStr (decision_str (dj_decision d))) = Some (dj_decision d)" by (cases "dj_decision d") simp_all
  then show ?thesis using assms by (simp add: decodeJournal_def k f journal_shape_def)
qed

text \<open>A receipt reads back. Encode any well-shaped journal as canonical JSON, put it behind any inner receipt with its
  length prefix and before any 32-byte metadata trailer: whatever those other bytes are (they may contain copies of
  the journal, as composite receipts do), the frame scanner finds exactly that journal, \<open>decodeJournal\<close> returns it, and
  \<open>verifyReceipt\<close> accepts it under a well-formed manifest that pins its policy unless the inner receipt is the dev-mode stub.\<close>

theorem receipt_reads_back:
  assumes rt: "ints_exact rt" "ascii_normal rt" and d: "journal_shape d" "canonicalJson rt (JObj (journal_members d)) = Some t"
    and len: "length (utf8 t) \<le> 65536" "4 \<le> length inner" "length meta = META_LEN"
    and m: "manifest_ok m" "codec_ok m" "vm_policyId m = JStr (dj_policyId d)"
  shows "decodeJournal rt (inner @ u64le (length (utf8 t)) @ utf8 t @ meta) = Some d
     \<and> (vr_ok (verifyReceipt rt (inner @ u64le (length (utf8 t)) @ utf8 t @ meta) m
          (Some \<lparr> ve_commitment = Some (dj_requestCommitment d), ve_decision = Some (dj_decision d), ve_proofNonce = Some (dj_proofNonce d) \<rparr>))
        \<longleftrightarrow> readU32LE inner 0 \<noteq> INNER_TAG_FAKE)"
proof -
  let ?b = "inner @ u64le (length (utf8 t)) @ utf8 t @ meta"
  let ?e = "Some \<lparr> ve_commitment = Some (dj_requestCommitment d), ve_decision = Some (dj_decision d), ve_proofNonce = Some (dj_proofNonce d) \<rparr>"
  obtain t' u where t: "canonicalJson rt (JObj (journal_members d)) = Some t'" "json_parse rt (text_decode (utf8 t')) = Some (JObj (journal_members d))"
    "wf16 t'" "t' = 123 # u @ [125]" by (rule journal_text [OF rt d(1)]) blast
  have tt: "t' = t" using t(1) d(2) by (simp del: canonicalJson.simps)
  have br: "utf8 t = 0x7b # utf8 u @ [0x7d]" using t(4) tt utf8_braces by simp
  have f: "frameJournal rt ?b = Some (readU32LE inner 0, JObj (journal_members d))"
  proof (rule frame_journal_back [OF refl len(2,3) _ len(1)])
    show "2 \<le> length (utf8 t)" "hd (utf8 t) = 0x7b" "last (utf8 t) = 0x7d" by (simp_all add: br)
    show "0 \<notin> set (utf8 t)" using utf8_nonzero t(3) canonicalJson_nonzero [OF d(2)] tt by blast
    show "text_decode_fatal (utf8 t) = Some (text_decode (utf8 t))" using decode_fatal_utf8 t(3) tt by simp
    show "json_parse rt (text_decode (utf8 t)) = Some (JObj (journal_members d))" using t(2) tt by simp
  qed
  have dd: "decodeJournal rt ?b = Some d" by (rule decode_members [OF d(1) f])
  have "list_all passes (journal_tests m ?e (journal_members d))"
    unfolding journal_tests_decode [OF f] using dd m(3) by (simp add: expected_def)
  then have "vr_ok (verifyReceipt rt ?b m ?e) \<longleftrightarrow> readU32LE inner 0 \<noteq> INNER_TAG_FAKE"
    using m(1,2) f by (simp add: verifyReceipt_def finish_def run_tests_ok framed_tests_def)
  with dd show ?thesis by blast
qed

lemma escape_plain: "list_all (\<lambda>c. 35 \<le> c \<and> c < 128 \<and> c \<noteq> 92) s \<Longrightarrow> escape_str s = s"
  by (induction s rule: escape_str.induct) (auto simp: escape_unit_def high_surrogate_def low_surrogate_def)

definition sample_zeros :: jstr where
  "sample_zeros = replicate 64 48"

definition sample_decoded :: DecodedJournal where
  "sample_decoded = \<lparr> dj_protocolVersion = 1, dj_requestCommitment = lit ''0x'' @ sample_zeros, dj_policyId = lit ''0x'' @ sample_zeros,
     dj_decision = ALLOW, dj_proofNonce = lit ''ab'' \<rparr>"

definition sample_verify_manifest :: VerifyManifest where
  "sample_verify_manifest = \<lparr> vm_imageIdHex = JStr sample_zeros, vm_policyId = JStr (lit ''0x'' @ sample_zeros),
     vm_rulesDigest = JStr (lit ''0x'' @ sample_zeros), vm_journalVersion = None, vm_receiptCodec = None \<rparr>"

lemma sample_shapes: "hex64 sample_zeros" "journal_shape sample_decoded" "manifest_ok sample_verify_manifest" "codec_ok sample_verify_manifest"
proof -
  show z: "hex64 sample_zeros" by (simp add: hex64_def sample_zeros_def lower_hex_def list_all_iff)
  have p: "is0xSha256 (JStr (lit ''0x'' @ sample_zeros))" using z by (simp add: is0xSha256_def starts_with_iff)
  show "journal_shape sample_decoded" using p
    by (simp add: journal_shape_def sample_decoded_def proof_nonce_ok_def nonce_digits_def) (simp add: lit_def lower_hex_def)
  show "manifest_ok sample_verify_manifest" "codec_ok sample_verify_manifest"
    using p z by (simp_all add: manifest_ok_def codec_ok_def sample_verify_manifest_def isImageIdHex_def)
qed

lemma sample_journal_text:
  obtains t where "canonicalJson sample_runtime (JObj (journal_members sample_decoded)) = Some t" "length (utf8 t) \<le> 65536"
proof -
  have q: "quote x = 34 # x @ [34]" if "list_all (\<lambda>c. 35 \<le> c \<and> c < 128 \<and> c \<noteq> 92) x" for x
    using escape_plain [OF that] by (simp add: quote_def)
  have z: "quote (lit ''0x'' @ sample_zeros) = 34 # (lit ''0x'' @ sample_zeros) @ [34]"
    unfolding quote_def by (subst escape_plain) (auto simp: sample_zeros_def lit_def list_all_iff)
  have srt: "sort_key fst (journal_members sample_decoded) = journal_members sample_decoded"
    by (rule sort_key_id_if_sorted) (simp add: journal_members_def lit_def)
  have one: "canonicalJson sample_runtime (JInt 1) = Some [49]"
    using one_safe by (simp add: int_digits_def digit_def nat_digits.simps [of "Suc 0"] del: isSafeInteger.simps)
  let ?parts = "[34 # lit ''decision'' @ [34, 58, 34] @ lit ''ALLOW'' @ [34], 34 # lit ''policyId'' @ [34, 58, 34] @ (lit ''0x'' @ sample_zeros) @ [34],
     34 # lit ''proofNonce'' @ [34, 58, 34] @ lit ''ab'' @ [34], 34 # lit ''protocolVersion'' @ [34, 58, 49],
     34 # lit ''requestCommitment'' @ [34, 58, 34] @ (lit ''0x'' @ sample_zeros) @ [34]]"
  let ?t = "123 # join [44] ?parts @ [125]"
  have t: "canonicalJson sample_runtime (JObj (journal_members sample_decoded)) = Some ?t"
    unfolding canonicalJson.simps(6) srt
    using one z by (simp add: journal_members_def sample_decoded_def q lit_def del: isSafeInteger.simps)
  have "\<forall>c \<in> set ?t. c < 128" by (auto simp: lit_def sample_zeros_def)
  from utf8_ascii [OF this] have "length (utf8 ?t) = length ?t" by simp
  also have "\<dots> \<le> 65536" by (simp add: lit_def sample_zeros_def)
  finally show thesis using t by (rule that [rotated])
qed

theorem receipt_reads_back_witness:
  "\<exists>bytes. decodeJournal sample_runtime bytes = Some sample_decoded \<and> vr_ok (verifyReceipt sample_runtime bytes sample_verify_manifest
     (Some \<lparr> ve_commitment = Some (dj_requestCommitment sample_decoded), ve_decision = Some (dj_decision sample_decoded), ve_proofNonce = Some (dj_proofNonce sample_decoded) \<rparr>))"
proof -
  obtain t where t: "canonicalJson sample_runtime (JObj (journal_members sample_decoded)) = Some t" "length (utf8 t) \<le> 65536"
    by (rule sample_journal_text)
  have "ints_exact sample_runtime" "ascii_normal sample_runtime" by (simp_all add: ints_exact_def ascii_normal_def)
  moreover have "vm_policyId sample_verify_manifest = JStr (dj_policyId sample_decoded)" by (simp add: sample_verify_manifest_def sample_decoded_def)
  ultimately have "decodeJournal sample_runtime ([0, 0, 0, 0] @ u64le (length (utf8 t)) @ utf8 t @ replicate 32 9) = Some sample_decoded
     \<and> (vr_ok (verifyReceipt sample_runtime ([0, 0, 0, 0] @ u64le (length (utf8 t)) @ utf8 t @ replicate 32 9) sample_verify_manifest
          (Some \<lparr> ve_commitment = Some (dj_requestCommitment sample_decoded), ve_decision = Some (dj_decision sample_decoded), ve_proofNonce = Some (dj_proofNonce sample_decoded) \<rparr>))
        \<longleftrightarrow> readU32LE [0, 0, 0, 0] 0 \<noteq> INNER_TAG_FAKE)"
    by (intro receipt_reads_back sample_shapes t) (simp_all add: META_LEN_def)
  moreover have "readU32LE [0, 0, 0, 0] 0 \<noteq> INNER_TAG_FAKE" by (simp add: readU32LE_def INNER_TAG_FAKE_def)
  ultimately show ?thesis by blast
qed

end
