(* ===== verification/Artifact_Verify.thy ===== *)
theory Artifact_Verify
  imports Receipts
begin

text \<open>
  The checks of \<^verbatim>\<open>services/tee-sim/src/verify.ts\<close> on simulated proofs, compute receipts and attestation bundles, with
  \<^verbatim>\<open>POST /verify\<close> and \<^verbatim>\<open>GET /attestation\<close> of \<^verbatim>\<open>services/tee-sim/src/index.ts\<close>. A check is its name and its verdict; explanatory details are left out.
  \<open>None\<close> stands for the exception \<open>canonicalHash\<close> raises on a value with no canonical form, before any signature is
  looked at.
\<close>

section \<open>Checks\<close>

record VerificationCheck =
  ck_name :: string
  ck_pass :: bool

record VerificationResult =
  vf_valid :: bool
  vf_checks :: "VerificationCheck list"

definition check :: "string \<Rightarrow> bool \<Rightarrow> VerificationCheck" where
  "check n p = \<lparr> ck_name = n, ck_pass = p \<rparr>"

definition every_pass :: "VerificationCheck list \<Rightarrow> VerificationResult" where
  "every_pass cs = \<lparr> vf_valid = list_all ck_pass cs, vf_checks = cs \<rparr>"

section \<open>verifyProof\<close>

text \<open>The journal arrives as an object whose own keys are inspected, so it stays a list of members.\<close>

record ProofReceipt =
  pr_guestImageId :: jstr
  pr_journal :: "(jstr \<times> json) list"
  pr_seal :: jstr

record proof_expected =
  pe_guestImageId :: jstr
  pe_policyId :: jstr
  pe_commitment :: "jstr option"
  pe_decision :: "PolicyDecision option"
  pe_proverPublicKey :: jstr

definition allowedKeys :: "jstr list" where
  "allowedKeys = map lit [''protocolVersion'', ''requestCommitment'', ''policyId'', ''decision'', ''proofNonce'']"

definition expectedDecision :: "proof_expected \<Rightarrow> PolicyDecision" where
  "expectedDecision e = (case pe_decision e of Some d \<Rightarrow> d | None \<Rightarrow> ALLOW)"

definition verifyProof :: "runtime \<Rightarrow> ProofReceipt \<Rightarrow> proof_expected \<Rightarrow> VerificationResult option" where
  "verifyProof rt proof e =
     map_option (\<lambda>sealValid. every_pass
        ([check ''proof seal valid'' sealValid,
          check ''guest image id matches Safety Policy v1'' (pr_guestImageId proof = pe_guestImageId e),
          check ''journal policy id matches expected policy'' (field (pr_journal proof) ''policyId'' = JStr (pe_policyId e))]
         @ (case pe_commitment e of None \<Rightarrow> []
            | Some c \<Rightarrow> [check ''request commitment matches receipt'' (field (pr_journal proof) ''requestCommitment'' = JStr c)])
         @ [check (case expectedDecision e of ALLOW \<Rightarrow> ''decision is ALLOW'' | DENY \<Rightarrow> ''decision is DENY'')
              (field (pr_journal proof) ''decision'' = JStr (decision_str (expectedDecision e))),
            check ''journal contains no prompt-derived fields'' (filter (\<lambda>k. k \<notin> set allowedKeys) (map fst (pr_journal proof)) = [])]))
       (verifyCanonical rt (JObj [(lit ''guestImageId'', JStr (pr_guestImageId proof)), (lit ''journal'', JObj (pr_journal proof))])
          (pr_seal proof) (pe_proverPublicKey e))"

section \<open>verifyComputeReceipt\<close>

definition binding_checks :: "jstr \<Rightarrow> SignedComputeReceipt \<Rightarrow> SignedProofBindingV2 \<Rightarrow> bool \<Rightarrow> VerificationCheck list" where
  "binding_checks artifactDigest signed_rc sb sigOk = (let b = sb_binding sb in
     [check ''proof binding signature valid under attested enclave signing key'' sigOk,
      check ''proof binding commits to this artifact digest'' (bind_artifactDigest b = artifactDigest),
      check ''proof binding decision id matches the receipt policy id'' (bind_policyId b = cr_policyId (scr_receipt signed_rc)),
      check ''proof binding carries a decision-receipt digest'' (0 < length (bind_decisionReceiptDigest b)),
      check ''proof binding reports the proof verified'' (bind_proofVerified b = True \<and> bind_decision b = ALLOW)])"

definition artifact_checks :: "runtime \<Rightarrow> SignedComputeReceipt \<Rightarrow> ProofArtifactV1 \<Rightarrow> VerificationCheck list" where
  "artifact_checks rt signed_rc artifact =
     (let journal = art_decodedJournal artifact; rc = scr_receipt signed_rc in
      [check ''proof journal commitment equals receipt commitment'' (jr_requestCommitment journal = cr_requestCommitment rc),
       check ''proof policy id equals receipt policy id'' (jr_policyId journal = cr_policyId rc),
       if cr_zkReceiptDigest rc = lit ''pending'' then check ''receipt was signed before proving finished'' True
       else check ''receipt zkReceiptDigest matches the artifact digest''
              (cr_zkReceiptDigest rc = zkArtifactDigest rt (art_receiptBytes artifact))])"

definition verifyComputeReceipt ::
  "runtime \<Rightarrow> SignedComputeReceipt \<Rightarrow> jstr \<Rightarrow> ProofArtifactV1 option \<Rightarrow> SignedProofBindingV2 option \<Rightarrow> VerificationResult option" where
  "verifyComputeReceipt rt signed_rc key artifact binding =
     (case verifyCanonical rt (compute_receipt_json (scr_receipt signed_rc)) (scr_enclaveSignature signed_rc) key of
        None \<Rightarrow> None
      | Some sigOk \<Rightarrow>
          (let cs = [check ''receipt signature valid under attested enclave signing key'' sigOk,
                     check ''receipt policy decision is ALLOW'' (cr_decision (scr_receipt signed_rc) = ALLOW)] in
           case artifact of
             None \<Rightarrow> Some (every_pass cs)
           | Some a \<Rightarrow>
               (let cs2 = cs @ artifact_checks rt signed_rc a in
                case binding of
                  None \<Rightarrow> Some (every_pass cs2)
                | Some sb \<Rightarrow>
                    map_option (\<lambda>bOk. every_pass (cs2 @ binding_checks (zkArtifactDigest rt (art_receiptBytes a)) signed_rc sb bOk))
                      (verifyCanonical rt (binding_json (sb_binding sb)) (sb_enclaveSignature sb) key))))"

section \<open>verifyAttestation\<close>

text \<open>An empty \<open>approvedPcr0\<close> is falsy and leaves the measurement unchecked. The hardware check is reported and not
  counted.\<close>

definition HARDWARE :: string where
  "HARDWARE = ''hardware root of trust''"

definition verifyAttestation :: "runtime \<Rightarrow> AttestationBundle \<Rightarrow> jstr option \<Rightarrow> VerificationResult option" where
  "verifyAttestation rt b approvedPcr0 =
     map_option (\<lambda>sigOk.
       (let cs = [check ''attestation document signature valid'' sigOk,
                  check ''attested ingress key equals presented ingress key'' (ad_ingressPublicKey (ab_document b) = ab_ingressPublicKey b),
                  check ''attested signing key equals presented signing key'' (ad_signingPublicKey (ab_document b) = ab_enclaveSigningPublicKey b)]
              @ (case approvedPcr0 of
                   Some (c # p) \<Rightarrow> [check ''PCR0 matches approved measurement'' (map_of (ad_pcrs (ab_document b)) (lit ''0'') = Some (c # p))]
                 | _ \<Rightarrow> [])
              @ [check HARDWARE (ab_teeMode b = lit ''nitro'')]
        in \<lparr> vf_valid = list_all ck_pass (filter (\<lambda>c. ck_name c \<noteq> HARDWARE) cs), vf_checks = cs \<rparr>))
      (verifyCanonical rt (unsigned_document_json (ab_document b) (ab_nonce b)) (ad_platformSignature (ab_document b))
         (ab_enclaveSigningPublicKey b))"

section \<open>The endpoints\<close>

text \<open>\<open>GET /attestation\<close>: a fresh bundle, what the enclave's own verifier says of it, and the digest of a second fresh
  one. \<open>None\<close> is a 500.\<close>

definition getAttestation ::
  "runtime \<Rightarrow> SimulatedTEE \<Rightarrow> int \<Rightarrow> int \<Rightarrow> jstr option \<Rightarrow> (AttestationBundle \<times> VerificationResult \<times> jstr) option" where
  "getAttestation rt tee now later nonce =
     (case attestation rt tee now nonce of
        None \<Rightarrow> None
      | Some bundle \<Rightarrow>
          (case (verifyAttestation rt bundle None, attestationDigest rt tee later) of
             (Some v, Some d) \<Rightarrow> Some (bundle, v, d)
           | _ \<Rightarrow> None))"

record verify_body =
  vb_artifact :: "ProofArtifactWireV1 option"
  vb_receipt :: "SignedComputeReceipt option"
  vb_binding :: "SignedProofBindingV2 option"

record verify_answer =
  va_proof :: "(bool \<times> SubprocessCheck list) option"
  va_receipt :: "VerificationResult option"

definition reference_verdict :: "(byte list \<Rightarrow> ProofExpectations \<Rightarrow> verifier_run) \<Rightarrow> ProofArtifactV1 \<Rightarrow> SubprocessVerification" where
  "reference_verdict verifier a = runReferenceVerify (verifier (art_receiptBytes a)
     \<lparr> px_commitment = jr_requestCommitment (art_decodedJournal a), px_decision = jr_decision (art_decodedJournal a),
       px_proofNonce = jr_proofNonce (art_decodedJournal a) \<rparr>)"

text \<open>\<open>POST /verify\<close>; without a receipt in the body its section is left out, and \<open>None\<close> is the 500 of a receipt with
  no canonical form.\<close>

definition postVerify ::
  "runtime \<Rightarrow> SimulatedTEE \<Rightarrow> (byte list \<Rightarrow> ProofExpectations \<Rightarrow> verifier_run) \<Rightarrow> verify_body \<Rightarrow> verify_answer option" where
  "postVerify rt tee verifier body =
     (let artifact = map_option artifactFromWire (vb_artifact body);
          proof = map_option (\<lambda>a. (sv_ok (reference_verdict verifier a), sv_checks (reference_verdict verifier a))) artifact in
      case vb_receipt body of
        None \<Rightarrow> Some \<lparr> va_proof = proof, va_receipt = None \<rparr>
      | Some rc \<Rightarrow>
          map_option (\<lambda>v. \<lparr> va_proof = proof, va_receipt = Some v \<rparr>)
            (verifyComputeReceipt rt rc (tee_signingPublicKey tee) artifact (vb_binding body)))"

section \<open>Honest artifacts verify\<close>

lemmas check_simps = check_def every_pass_def artifact_checks_def binding_checks_def Let_def

lemma domain_digest_nonempty: "domain_digest rt tag bs \<noteq> []"
  by (simp add: domain_digest_def lit_def)

lemma decisionReceiptDigest_nonempty: "decisionReceiptDigest rt v = Some d \<Longrightarrow> d \<noteq> []"
  by (auto simp: decisionReceiptDigest_def domain_digest_nonempty)

lemma completed_receipt:
  assumes "runDispatch cfg dio ps out cands = (Accepted b, sent)" "er_status b = EX_COMPLETE"
  obtains a rc sgn where "go_authorized out = Some a" "er_receipt b = Some \<lparr> scr_receipt = rc, scr_enclaveSignature = sgn \<rparr>"
    "signReceipt (ec_rt cfg) (ec_tee cfg) (compute_receipt_json rc) = Some sgn" "cr_requestCommitment rc = aq_requestCommitment a"
    "cr_decision rc = ALLOW" "cr_policyId rc = dr_policyId (sdr_receipt (go_decisionReceipt out))"
    "cr_zkReceiptDigest rc = receipt_digest ps (go_requestId out)" "er_commitment b = aq_requestCommitment a"
proof -
  obtain a where a: "go_authorized out = Some a" using assms(1) by (auto simp: runDispatch_def split: option.splits)
  let ?l = "dispatch_loop cfg (di_env dio) a 0 None cands"
  obtain cand n r where e: "dl_end ?l = Succeeded cand n r"
    using assms a by (cases "dl_end ?l") (auto simp: runDispatch_def Let_def failedBody_def)
  obtain rc sgn box where rc: "compute_receipt cfg dio ps out a cand n r = Some rc"
    and s: "signReceipt (ec_rt cfg) (ec_tee cfg) (compute_receipt_json rc) = Some sgn"
    and b: "b = completeBody dio out a ?l \<lparr> scr_receipt = rc, scr_enclaveSignature = sgn \<rparr> box"
    using assms(1) a e by (auto simp: runDispatch_def Let_def split: option.splits)
  show thesis by (rule that [OF a _ s]) (use rc b in \<open>auto simp: completeBody_def Let_def compute_receipt_def split: option.splits\<close>)
qed

lemma verified_artifact_checks:
  assumes v: "verified_by rt tee m w nonce io (PS_VERIFIED art d rd bnd v ms)" and sg: "signer rt tee"
  shows "art_decodedJournal art = \<lparr> jr_protocolVersion = 1, jr_requestCommitment = pw_requestCommitment w, jr_policyId = rm_policyId m,
       jr_decision = pw_decision w, jr_proofNonce = nonce \<rparr>"
    "d = zkArtifactDigest rt (art_receiptBytes art)" "reference_verdict (io_verifier io) art = v" "sv_ok v"
    "sb_binding bnd = proof_binding m w rd d" "rd \<noteq> []"
    "verifyCanonical rt (binding_json (sb_binding bnd)) (sb_enclaveSignature bnd) (tee_signingPublicKey tee) = Some True"
  using v signReceipt_verifies [OF sg]
  by (auto simp: verified_by_def proof_artifact_def reference_verdict_def expectations_def dest: decisionReceiptDigest_nonempty)

lemma gateRequest_judged:
  assumes "gateRequest cfg io opening executing envelope s = (Inr out, s')"
  shows "\<exists>tk x. sealed_ticket cfg tk \<and> judged cfg tk x out"
proof -
  obtain opened where o: "gate_open cfg io envelope = Inr opened" using assms by (auto simp: gateRequest_def split: sum.splits)
  obtain tk s1 where a: "gate_admit cfg io opened (opening s) = (Inr tk, s1)" and f: "gate_finish cfg io tk (executing s1) = (Inr out, s')"
    using assms o by (auto simp: gateRequest_def split: prod.splits sum.splits)
  from gate_finish_Inr [OF f] admitted_sealed [OF o a] show ?thesis by blast
qed

lemma judged_authorized:
  assumes "judged cfg tk x out" "go_authorized out = Some a"
  shows "gt_canonical tk = aq_request a" "go_decision out = ALLOW" "aq_requestCommitment a = go_commitment out"
  using assms by (cases "jr_decision (gx_journal x)"; auto simp: judged_def)+

text \<open>C29. What the enclave issues, the enclave's verifier accepts. Take a request through its whole life: the gate
  returned an outcome, the dispatch of that outcome completed, the prover's run on that outcome's witness wrote
  VERIFIED, and the release manifest pins the policy the guest judged by. Then \<^verbatim>\<open>POST /verify\<close>, handed the receipt, the
  wire form of the artifact and the binding, runs the reference verifier on the original bytes with the original
  expectations and reports its acceptance, and reports the compute receipt valid exactly when the digest signed into it
  is still \<open>"pending"\<close> or is this artifact's digest; the receipt alone is always reported valid.\<close>

theorem honest_artifacts_verify:
  assumes sg: "signer (ec_rt cfg) (ec_tee cfg)"
    and gt: "gateRequest cfg io opening executing envelope s = (Inr out, s')" and w: "witnessFor cfg out = Some w"
    and vfd: "PS_VERIFIED art d rd bnd v ms \<in> set (fst (run (ec_rt cfg) (ec_tee cfg) rules m cl w t0 nonce pio))"
    and pin: "rm_policyId m = dr_policyId (sdr_receipt (go_decisionReceipt out))"
    and disp: "runDispatch cfg dio ps out cands = (Accepted b, sent)" "er_status b = EX_COMPLETE"
  shows "\<exists>scr vr. er_receipt b = Some scr
     \<and> postVerify (ec_rt cfg) (ec_tee cfg) (io_verifier pio) \<lparr> vb_artifact = Some (artifactToWire art), vb_receipt = Some scr, vb_binding = Some bnd \<rparr>
         = Some \<lparr> va_proof = Some (True, sv_checks v), va_receipt = Some vr \<rparr>
     \<and> (vf_valid vr \<longleftrightarrow> receipt_digest ps (go_requestId out) \<in> {lit ''pending'', d})
     \<and> (\<exists>alone. verifyComputeReceipt (ec_rt cfg) scr (tee_signingPublicKey (ec_tee cfg)) None None = Some alone \<and> vf_valid alone)"
proof -
  obtain tk x where j: "judged cfg tk x out" using gateRequest_judged [OF gt] by blast
  obtain a rc sgn where r: "go_authorized out = Some a" "er_receipt b = Some \<lparr> scr_receipt = rc, scr_enclaveSignature = sgn \<rparr>"
    "signReceipt (ec_rt cfg) (ec_tee cfg) (compute_receipt_json rc) = Some sgn" "cr_requestCommitment rc = aq_requestCommitment a"
    "cr_decision rc = ALLOW" "cr_policyId rc = dr_policyId (sdr_receipt (go_decisionReceipt out))"
    "cr_zkReceiptDigest rc = receipt_digest ps (go_requestId out)" by (rule completed_receipt [OF disp])
  have vr: "verifyCanonical (ec_rt cfg) (compute_receipt_json rc) sgn (tee_signingPublicKey (ec_tee cfg)) = Some True"
    by (rule signReceipt_verifies [OF sg r(3)])
  note c = judged_authorized [OF j r(1)]
  have pw: "pw_requestCommitment w = go_commitment out" "pw_decision w = go_decision out" using w by (auto simp: witnessFor_def)
  note pv = verified_artifact_checks [OF run_verified [OF vfd] sg]
  have wire: "artifactFromWire (artifactToWire art) = art" by (cases art) (simp add: artifactFromWire_def artifactToWire_def fromB64_toB64)
  show ?thesis
    by (rule exI [of _ "\<lparr> scr_receipt = rc, scr_enclaveSignature = sgn \<rparr>"])
       (use r vr c pw pv wire pin in \<open>auto simp: postVerify_def verifyComputeReceipt_def check_simps proof_binding_def\<close>)
qed

section \<open>Attestation bundles verify\<close>

definition hardware_checks :: "VerificationResult \<Rightarrow> bool list" where
  "hardware_checks r = map ck_pass (filter (\<lambda>c. ck_name c = HARDWARE) (vf_checks r))"

definition presented_keys_attested :: "AttestationBundle \<Rightarrow> bool" where
  "presented_keys_attested b \<longleftrightarrow> ad_ingressPublicKey (ab_document b) = ab_ingressPublicKey b
     \<and> ad_signingPublicKey (ab_document b) = ab_enclaveSigningPublicKey b"

definition pcr0_approved :: "AttestationBundle \<Rightarrow> jstr option \<Rightarrow> bool" where
  "pcr0_approved b approved \<longleftrightarrow> approved = None \<or> approved = Some [] \<or> map_of (ad_pcrs (ab_document b)) (lit ''0'') = approved"

lemma verifyAttestation_exact:
  assumes "verifyAttestation rt b approved = Some r"
  shows "vf_valid r \<longleftrightarrow> verifyCanonical rt (unsigned_document_json (ab_document b) (ab_nonce b)) (ad_platformSignature (ab_document b))
       (ab_enclaveSigningPublicKey b) = Some True \<and> presented_keys_attested b \<and> pcr0_approved b approved"
    "hardware_checks r = [ab_teeMode b = lit ''nitro'']"
  using assms
  by (auto simp: verifyAttestation_def check_def HARDWARE_def hardware_checks_def presented_keys_attested_def pcr0_approved_def Let_def
      split: option.splits list.splits)

lemma bundle_fields:
  assumes "attestation rt tee now nonce = Some b"
  shows "\<exists>sg. b = \<lparr> ab_teeMode = tee_mode, ab_document = (attestation_document tee now)\<lparr> ad_platformSignature := sg \<rparr>,
          ab_enclaveSigningPublicKey = tee_signingPublicKey tee, ab_ingressPublicKey = tee_ingressPublicKey tee,
          ab_enclaveKeyId = tee_enclaveKeyId tee, ab_enclaveBuildId = tee_buildId tee,
          ab_policyIds = tee_policyIds tee, ab_nonce = nonce \<rparr>
     \<and> signReceipt rt tee (unsigned_document_json (attestation_document tee now) nonce) = Some sg"
  using assms by (auto simp: attestation_def signReceipt_def Let_def)

lemma bundle_signed:
  assumes sg: "signer rt tee" and att: "attestation rt tee now nonce = Some b"
  shows "verifyCanonical rt (unsigned_document_json (ab_document b) (ab_nonce b)) (ad_platformSignature (ab_document b)) (ab_enclaveSigningPublicKey b) = Some True"
proof -
  obtain sgn where b: "b = \<lparr> ab_teeMode = tee_mode, ab_document = (attestation_document tee now)\<lparr> ad_platformSignature := sgn \<rparr>,
          ab_enclaveSigningPublicKey = tee_signingPublicKey tee, ab_ingressPublicKey = tee_ingressPublicKey tee,
          ab_enclaveKeyId = tee_enclaveKeyId tee, ab_enclaveBuildId = tee_buildId tee,
          ab_policyIds = tee_policyIds tee, ab_nonce = nonce \<rparr>"
    and s: "signReceipt rt tee (unsigned_document_json (attestation_document tee now) nonce) = Some sgn"
    using bundle_fields [OF att] by blast
  have "unsigned_document_json (ab_document b) n = unsigned_document_json (attestation_document tee now) n" for n
    by (simp add: b unsigned_document_json_def pcrs_json_def user_data_json_def)
  with signReceipt_verifies [OF sg s] show ?thesis by (simp add: b)
qed

text \<open>An attestation bundle of the simulated enclave verifies and never claims hardware. Whatever nonce was asked
  for, the verifier accepts the bundle (when an approved PCR0 is given, exactly if it is the enclave's), the document
  it signed binds the ingress and signing keys the bundle presents, the signature also covers the nonce, and the one
  hardware check reported is a failure; presenting other keys with the same document is rejected.\<close>

theorem attestation_verifies:
  assumes sg: "signer rt tee" and att: "attestation rt tee now nonce = Some b"
  shows "\<exists>r. verifyAttestation rt b approved = Some r
     \<and> (vf_valid r \<longleftrightarrow> approved = None \<or> approved = Some [] \<or> map_of (tee_pcrs tee) (lit ''0'') = approved)
     \<and> hardware_checks r = [False]
     \<and> ab_nonce b = nonce \<and> ad_ingressPublicKey (ab_document b) = tee_ingressPublicKey tee
     \<and> (\<forall>ingress r2. ingress = tee_ingressPublicKey tee \<or> verifyAttestation rt (b\<lparr> ab_ingressPublicKey := ingress \<rparr>) approved \<noteq> Some r2 \<or> vf_valid r2 = False)"
proof -
  obtain sgn where b: "b = \<lparr> ab_teeMode = tee_mode, ab_document = (attestation_document tee now)\<lparr> ad_platformSignature := sgn \<rparr>,
          ab_enclaveSigningPublicKey = tee_signingPublicKey tee, ab_ingressPublicKey = tee_ingressPublicKey tee,
          ab_enclaveKeyId = tee_enclaveKeyId tee, ab_enclaveBuildId = tee_buildId tee,
          ab_policyIds = tee_policyIds tee, ab_nonce = nonce \<rparr>"
    using bundle_fields [OF att] by blast
  note v = bundle_signed [OF sg att]
  then obtain r where r: "verifyAttestation rt b approved = Some r" by (simp add: verifyAttestation_def)
  have "vf_valid r \<longleftrightarrow> approved = None \<or> approved = Some [] \<or> map_of (tee_pcrs tee) (lit ''0'') = approved"
    using verifyAttestation_exact(1) [OF r] v by (simp add: presented_keys_attested_def pcr0_approved_def) (simp add: b attestation_document_def)
  moreover have "hardware_checks r = [False]"
    using verifyAttestation_exact(2) [OF r] by (simp add: b tee_mode_def lit_def)
  moreover have "vf_valid r2 = False" if "ingress \<noteq> tee_ingressPublicKey tee" "verifyAttestation rt (b\<lparr> ab_ingressPublicKey := ingress \<rparr>) approved = Some r2" for ingress r2
    using verifyAttestation_exact(1) [OF that(2)] that(1) by (auto simp: presented_keys_attested_def b attestation_document_def)
  ultimately show ?thesis using r by (intro exI [of _ r]) (auto simp: b attestation_document_def)
qed

section \<open>One request, verified\<close>

lemma sample_outcome_witness:
  obtains out s' w t rd where "gateRequest sample_cfg (sample_gate_io sample_guest) (\<lambda>x. x) (\<lambda>x. x) (Some sample_envelope) enclave_boot = (Inr out, s')"
    "go_authorized out = Some committed" "get_prop (go_payload out) ''responsePublicKey'' = Some (JStr (lit ''cHVi''))" "go_gateWallMs out = 1"
    "witnessFor sample_cfg out = Some w" "pw_decision w = ALLOW" "reexec_text sample_runtime (pw_canonicalRequest w) = Some t"
    "decisionReceiptDigest sample_runtime (decision_receipt_json (pw_decisionReceipt w)) = Some rd"
proof -
  obtain out s' where o: "gateRequest sample_cfg (sample_gate_io sample_guest) (\<lambda>x. x) (\<lambda>x. x) (Some sample_envelope) enclave_boot = (Inr out, s')"
    "go_authorized out = Some committed" "get_prop (go_payload out) ''responsePublicKey'' = Some (JStr (lit ''cHVi''))" "go_gateWallMs out = 1"
    by (rule sample_outcome)
  obtain tk x where j: "sealed_ticket sample_cfg tk" "judged sample_cfg tk x out" using gateRequest_judged [OF o(1)] by blast
  obtain n where w: "witnessFor sample_cfg out = Some \<lparr> pw_canonicalRequest = gt_bytes tk, pw_requestNonce = n,
      pw_requestCommitment = go_commitment out, pw_decision = go_decision out, pw_decisionReceipt = sdr_receipt (go_decisionReceipt out) \<rparr>"
    using judged_witness [OF j] by blast
  note c = judged_authorized [OF j(2) o(2)]
  have t: "canonicalJson sample_runtime (request_json (gt_canonical tk)) = Some (gt_bytes tk)" using j(1) by (auto simp: sealed_ticket_def simp del: canonicalJson.simps)
  have "normalized_request sample_runtime (gt_canonical tk)"
    using sample_request_normalized c(1) by (simp add: committed_def sample_authorized_def normalized_request_def lit_def)
  from reexec_canonical [OF _ this t] have r: "reexec_text sample_runtime (gt_bytes tk) = Some (requestText (message_pairs (gt_canonical tk)))"
    by (simp add: ints_exact_def)
  obtain rd where "decisionReceiptDigest sample_runtime (decision_receipt_json (sdr_receipt (go_decisionReceipt out))) = Some rd"
    using j(2) by (auto simp: judged_def signReceipt_def signCanonical_def canonicalHash_def decisionReceiptDigest_def split: option.splits simp del: canonicalJson.simps)
  with that [OF o w, of "requestText (message_pairs (gt_canonical tk))" rd] c(2) r show thesis by simp
qed

theorem honest_artifacts_verify_witness:
  "\<exists>out b scr art bnd vr. postVerify sample_runtime sample_tee (io_verifier sample_io) \<lparr> vb_artifact = Some (artifactToWire art), vb_receipt = Some scr, vb_binding = Some bnd \<rparr>
         = Some \<lparr> va_proof = Some (True, []), va_receipt = Some vr \<rparr> \<and> vf_valid vr \<and> cr_requestCommitment (scr_receipt scr) = sample_commitment"
proof -
  obtain out s' w t rd where o: "gateRequest sample_cfg (sample_gate_io sample_guest) (\<lambda>x. x) (\<lambda>x. x) (Some sample_envelope) enclave_boot = (Inr out, s')"
    "go_authorized out = Some committed" "get_prop (go_payload out) ''responsePublicKey'' = Some (JStr (lit ''cHVi''))" "go_gateWallMs out = 1"
    "witnessFor sample_cfg out = Some w" "pw_decision w = ALLOW" "reexec_text sample_runtime (pw_canonicalRequest w) = Some t"
    "decisionReceiptDigest sample_runtime (decision_receipt_json (pw_decisionReceipt w)) = Some rd" by (rule sample_outcome_witness)
  let ?m = "sample_manifest\<lparr> rm_policyId := dr_policyId (sdr_receipt (go_decisionReceipt out)) \<rparr>"
  obtain g a d rd2 bnd v ms where vr: "fst (run sample_runtime sample_tee no_rules ?m DEFAULT_CEILING_MS w 0 (lit ''0xn'') sample_io) = [g, PS_VERIFIED a d rd2 bnd v ms]"
    using agreeing_run_verifies [OF o(7,6,8)] by blast
  obtain r b q where dsp: "runDispatch sample_cfg ok_dispatch prover_boot out [candidate_of r] = (Accepted b, [q])" "er_status b = EX_COMPLETE"
    by (rule sample_dispatch [OF o(2-4)])
  obtain rc sgn where rc: "er_receipt b = Some \<lparr> scr_receipt = rc, scr_enclaveSignature = sgn \<rparr>" "cr_requestCommitment rc = sample_commitment"
    by (rule completed_receipt [OF dsp]) (auto simp: o(2) committed_def)
  have pend: "receipt_digest prover_boot (go_requestId out) = lit ''pending''" by (simp add: receipt_digest_def getProof_def prover_boot_def)
  have mem: "PS_VERIFIED a d rd2 bnd v ms \<in> set (fst (run sample_runtime sample_tee no_rules ?m DEFAULT_CEILING_MS w 0 (lit ''0xn'') sample_io))"
    unfolding vr by simp
  have io: "io_verifier sample_io bs e = Exited_clean []" for bs e by (simp add: sample_io_def)
  have vv: "sv_checks v = []"
    using verified_artifact_checks(3) [OF run_verified [OF mem] sample_signer]
    by (auto simp: reference_verdict_def io parseReport_def report_line_def starts_with_iff)
  obtain scr res where "er_receipt b = Some scr"
     "postVerify sample_runtime sample_tee (io_verifier sample_io) \<lparr> vb_artifact = Some (artifactToWire a), vb_receipt = Some scr, vb_binding = Some bnd \<rparr>
         = Some \<lparr> va_proof = Some (True, sv_checks v), va_receipt = Some res \<rparr>" "vf_valid res"
    using honest_artifacts_verify [where cfg = sample_cfg, OF _ o(1,5) _ _ dsp, unfolded sample_cfg_simps, OF sample_signer mem] pend by auto
  with rc vv show ?thesis by (metis SignedComputeReceipt.select_convs(1) option.inject)
qed

lemma sample_attestation: "\<exists>b. attestation sample_runtime sample_tee 1 None = Some b"
  using sample_attests by (auto simp: attestationDigest_def)

theorem attestation_verifies_witness:
  "\<exists>b r. attestation sample_runtime sample_tee 1 None = Some b \<and> verifyAttestation sample_runtime b None = Some r \<and> vf_valid r \<and> hardware_checks r = [False]"
  using sample_attestation attestation_verifies [OF sample_signer, of 1 None _ None] by blast

end
