(* ===== verification/Client.thy ===== *)
theory Client
  imports Artifact_Verify Coordinator
begin

text \<open>
  The secure client (\<^verbatim>\<open>packages/client/src/index.ts\<close>): the check of an attestation bundle, sealing a request or a
  contributed credential to the attested key, reading the answer, and waiting for a proof. Random values, the clock and
  the HTTP exchange are arguments; what a call sends is returned beside its result, so that a statement can say what
  left the client. Answers are JSON values, since the client casts them without validation.
\<close>

section \<open>Attestation\<close>

record bundle_verdict =
  bv_keyBindingValid :: bool
  bv_documentSignatureValid :: bool
  bv_nonceFresh :: bool
  bv_hardwareBacked :: bool
  bv_valid :: bool
  bv_checks :: "VerificationCheck list"

text \<open>\<open>{ ...unsigned, platformSignature: undefined, nonce: bundle.nonce ?? null }\<close>.\<close>

definition presented_document_json :: "AttestationBundle \<Rightarrow> json" where
  "presented_document_json b = (let d = ab_document b in
     JObj [(lit ''moduleId'', JStr (ad_moduleId d)), (lit ''digest'', JStr (ad_digest d)),
       (lit ''pcrs'', pcrs_json d), (lit ''userData'', user_data_json d), (lit ''timestamp'', JInt (ad_timestamp d)),
       (lit ''warning'', JStr (ad_warning d)), (lit ''platformSignature'', JUndef),
       (lit ''nonce'', case ab_nonce b of None \<Rightarrow> JNull | Some n \<Rightarrow> JStr n)])"

definition verifyAttestationBundle :: "runtime \<Rightarrow> AttestationBundle \<Rightarrow> jstr option \<Rightarrow> bundle_verdict option" where
  "verifyAttestationBundle rt b expectedNonce =
     map_option (\<lambda>documentSignatureValid.
       (let keyBindingValid = (ad_ingressPublicKey (ab_document b) = ab_ingressPublicKey b
              \<and> ad_signingPublicKey (ab_document b) = ab_enclaveSigningPublicKey b);
            nonceFresh = (expectedNonce = None \<or> ab_nonce b = expectedNonce);
            nitro = (ab_teeMode b = lit ''nitro'')
        in \<lparr> bv_keyBindingValid = keyBindingValid, bv_documentSignatureValid = documentSignatureValid, bv_nonceFresh = nonceFresh,
             bv_hardwareBacked = nitro, bv_valid = (documentSignatureValid \<and> keyBindingValid \<and> nonceFresh),
             bv_checks = [check ''attestation document signature valid'' documentSignatureValid,
                          check ''attested keys equal presented keys'' keyBindingValid]
               @ (if expectedNonce = None then [] else [check ''attestation is fresh for this request's nonce'' nonceFresh])
               @ [check HARDWARE nitro] \<rparr>))
      (verifyCanonical rt (presented_document_json b) (ad_platformSignature (ab_document b)) (ab_enclaveSigningPublicKey b))"

section \<open>Errors\<close>

datatype client_error =
    PolicyDeniedError (denied_policyId: json) (denied_requestId: jstr) (denied_commitment: json)
  | CtnApiError (api_code: json) (api_message: json) (api_requestId: "jstr option")
  | BadRequest canon_error
  | ClientThrew

text \<open>\<open>attestation()\<close>: no answer, a status, and the body when it parses.\<close>

definition fetchAttestation :: "(int \<times> AttestationBundle option) option \<Rightarrow> client_error + AttestationBundle" where
  "fetchAttestation h = (case h of
     None \<Rightarrow> Inl ClientThrew
   | Some (st, body) \<Rightarrow>
       if \<not> (200 \<le> st \<and> st < 300) then Inl (CtnApiError (JStr (lit ''CTN_ENCLAVE_UNAVAILABLE'')) (JStr (lit ''attestation unavailable'')) None)
       else (case body of None \<Rightarrow> Inl ClientThrew | Some b \<Rightarrow> Inr b))"

section \<open>Sealing a request\<close>

text \<open>\<open>randomHex(32)\<close>, \<open>randomHex(16)\<close> and \<open>generateHpkeKeyPair()\<close>.\<close>

record client_random =
  rnd_nonce :: "byte list"
  rnd_id :: "byte list"
  rnd_responsePublic :: "byte list"
  rnd_responsePrivate :: jstr

definition payload_json :: "SecurePayload \<Rightarrow> json" where
  "payload_json p = JObj [(lit ''request'', request_json (pl_request p)), (lit ''requestNonce'', JStr (pl_requestNonce p)),
     (lit ''responsePublicKey'', JStr (pl_responsePublicKey p))]"

definition request_aad :: "CanonicalRequest \<Rightarrow> Aad" where
  "request_aad r = \<lparr> aad_apiVersion = lit ''v1'', aad_requestedPolicy = lit ''safety-v1'', aad_model = req_model r \<rparr>"

definition seal_payload :: "runtime \<Rightarrow> crypto_lib \<Rightarrow> jstr \<Rightarrow> SecurePayload \<Rightarrow> SecureResponse option" where
  "seal_payload rt lib pk p =
     Option.bind (canonicalJson rt (aad_json (request_aad (pl_request p))))
       (\<lambda>aad. hpkeSeal lib pk (utf8 (stringify rt (payload_json p))) (Some (utf8 aad)))"

definition sealRequest ::
  "runtime \<Rightarrow> crypto_lib \<Rightarrow> client_random \<Rightarrow> AttestationBundle \<Rightarrow> json \<Rightarrow> client_error + SecureRequestEnvelope \<times> jstr \<times> jstr" where
  "sealRequest rt lib rnd b input =
     (case toCanonicalRequest rt input of
        Inl e \<Rightarrow> Inl (BadRequest e)
      | Inr canonical \<Rightarrow>
          (let nonce = toHex (rnd_nonce rnd) in
           (case seal_payload rt lib (ab_ingressPublicKey b)
                   \<lparr> pl_request = canonical, pl_requestNonce = nonce, pl_responsePublicKey = toB64 (rnd_responsePublic rnd) \<rparr> of
              None \<Rightarrow> Inl ClientThrew
            | Some box \<Rightarrow>
                Inr (\<lparr> env_version = lit ''ctn-1'', env_requestId = lit ''req_'' @ toHex (rnd_id rnd), env_enclaveKeyId = ab_enclaveKeyId b,
                       env_enc = resp_enc box, env_ciphertext = resp_ciphertext box, env_aad = request_aad canonical \<rparr>,
                     rnd_responsePrivate rnd, nonce))))"

section \<open>Asking for a completion\<close>

record CompletionResult =
  cs_requestId :: jstr
  cs_content :: json
  cs_model :: json
  cs_usage :: json
  cs_commitment :: json
  cs_receipt :: json
  cs_receiptId :: json
  cs_route :: json
  cs_timings :: json
  cs_trustStatus :: json

text \<open>\<open>x ?? d\<close>; \<open>v?.k\<close> is \<open>opt_prop\<close>.\<close>

definition nullish :: "json \<Rightarrow> bool" where
  "nullish v \<longleftrightarrow> v = JNull \<or> v = JUndef"

definition or_else :: "json \<Rightarrow> json \<Rightarrow> json" where
  "or_else v d = (if nullish v then d else v)"

definition open_answer :: "runtime \<Rightarrow> crypto_lib \<Rightarrow> jstr \<Rightarrow> json \<Rightarrow> json option" where
  "open_answer rt lib sk box =
     (case (opt_prop box ''enc'', opt_prop box ''ciphertext'') of
        (JStr e, JStr ct) \<Rightarrow> Option.bind (hpkeOpen lib sk e ct None) (\<lambda>opened. json_parse rt (text_decode opened))
      | _ \<Rightarrow> None)"

definition refused :: "jstr \<Rightarrow> json \<Rightarrow> client_error" where
  "refused requestId body = (case get_prop body ''error'' of
     None \<Rightarrow> ClientThrew
   | Some error \<Rightarrow>
       if opt_prop error ''code'' = JStr (lit ''CTN_POLICY_DENIED'')
       then PolicyDeniedError (or_else (opt_prop error ''policy_id'') (JStr [])) requestId (opt_prop body ''request_commitment'')
       else CtnApiError (or_else (opt_prop error ''code'') (JStr (lit ''CTN_INTERNAL'')))
              (or_else (opt_prop error ''message'') (JStr (lit ''request failed''))) (Some requestId))"

definition read_completion :: "runtime \<Rightarrow> crypto_lib \<Rightarrow> jstr \<Rightarrow> jstr \<Rightarrow> json \<Rightarrow> client_error + CompletionResult" where
  "read_completion rt lib sk requestId body =
     (case Option.bind (get_prop body ''encrypted_response'') (open_answer rt lib sk) of
        None \<Rightarrow> Inl ClientThrew
      | Some decoded \<Rightarrow>
          if nullish decoded then Inl ClientThrew
          else (let receipt = opt_prop body ''receipt'' in
            Inr \<lparr> cs_requestId = requestId, cs_content = opt_prop decoded ''content'', cs_model = opt_prop decoded ''model'',
                  cs_usage = opt_prop decoded ''usage'', cs_commitment = or_else (opt_prop receipt ''request_commitment'') (JStr []),
                  cs_receipt = or_else (opt_prop receipt ''signed_receipt'') JNull,
                  cs_receiptId = or_else (opt_prop receipt ''receipt_id'') JNull,
                  cs_route = or_else (opt_prop body ''route'') JNull, cs_timings = or_else (opt_prop body ''timings'') (JObj []),
                  cs_trustStatus = or_else (opt_prop body ''trust_status'') (JStr (lit ''UNKNOWN'')) \<rparr>))"

text \<open>The request body \<open>{ envelope }\<close> is represented by the envelope. \<open>fetched\<close> is the attestation given by the caller or
  fetched; the verdict is asked for without an expected nonce.\<close>

definition completion ::
  "runtime \<Rightarrow> crypto_lib \<Rightarrow> client_random \<Rightarrow> client_error + AttestationBundle \<Rightarrow> (SecureRequestEnvelope \<Rightarrow> http_outcome) \<Rightarrow> json
   \<Rightarrow> SecureRequestEnvelope list \<times> (client_error + CompletionResult)" where
  "completion rt lib rnd fetched post input =
     (case fetched of
        Inl e \<Rightarrow> ([], Inl e)
      | Inr b \<Rightarrow>
          (case verifyAttestationBundle rt b None of
             None \<Rightarrow> ([], Inl ClientThrew)
           | Some v \<Rightarrow>
               if \<not> bv_valid v
               then ([], Inl (CtnApiError (JStr (lit ''CTN_ATTESTATION_REQUIRED''))
                                (JStr (lit ''refusing to encrypt: enclave attestation failed verification'')) None))
               else (case sealRequest rt lib rnd b input of
                       Inl e \<Rightarrow> ([], Inl e)
                     | Inr (env, sk, nonce) \<Rightarrow>
                         ([env], case post env of
                            Answered st (Some body) \<Rightarrow>
                              if 200 \<le> st \<and> st < 300 then read_completion rt lib sk (env_requestId env) body
                              else Inl (refused (env_requestId env) body)
                          | _ \<Rightarrow> Inl ClientThrew))))"

section \<open>Policy tests, contributions and proofs\<close>

definition api_failure :: "json \<Rightarrow> client_error" where
  "api_failure body = (case Option.bind (get_prop body ''error'') (\<lambda>e. get_prop e ''code'') of
     None \<Rightarrow> ClientThrew
   | Some code \<Rightarrow> CtnApiError code (opt_prop (opt_prop body ''error'') ''message'') None)"

definition user_prompt :: "jstr \<Rightarrow> jstr \<Rightarrow> json" where
  "user_prompt prompt model = JObj [(lit ''model'', JStr model),
     (lit ''messages'', JArr [JObj [(lit ''role'', JStr (lit ''user'')), (lit ''content'', JStr prompt)]])]"

definition read_json :: "http_outcome \<Rightarrow> client_error + json" where
  "read_json h = (case h of
     Answered st (Some body) \<Rightarrow> if 200 \<le> st \<and> st < 300 then Inr body else Inl (api_failure body)
   | _ \<Rightarrow> Inl ClientThrew)"

text \<open>Unlike \<open>completion\<close>, the policy test seals to the fetched bundle without verifying it.\<close>

definition policyTest ::
  "runtime \<Rightarrow> crypto_lib \<Rightarrow> client_random \<Rightarrow> client_error + AttestationBundle \<Rightarrow> (SecureRequestEnvelope \<Rightarrow> http_outcome) \<Rightarrow> jstr \<Rightarrow> jstr
   \<Rightarrow> SecureRequestEnvelope list \<times> (client_error + json)" where
  "policyTest rt lib rnd fetched post prompt model =
     (case fetched of
        Inl e \<Rightarrow> ([], Inl e)
      | Inr b \<Rightarrow>
          (case sealRequest rt lib rnd b (user_prompt prompt model) of
             Inl e \<Rightarrow> ([], Inl e)
           | Inr (env, _, _) \<Rightarrow> ([env], read_json (post env))))"

record contribution =
  ct_contributorId :: jstr
  ct_label :: jstr
  ct_provider :: jstr
  ct_apiKey :: jstr
  ct_allowedModels :: "jstr list"
  ct_weight :: "int option"
  ct_operationalLimits :: json

text \<open>What is posted: the label, the weight and the limits in the clear, the key and its constraints sealed.\<close>

record contribution_body = IngestBody +
  cb_contributorId :: jstr
  cb_label :: jstr
  cb_weight :: int
  cb_operationalLimits :: json

definition contribution_intent :: "contribution \<Rightarrow> byte list \<Rightarrow> byte list \<Rightarrow> CredentialIntentV1" where
  "contribution_intent c idBytes nonceBytes = \<lparr> int_credentialId = lit ''cred_'' @ toHex idBytes, int_secret = ct_apiKey c,
     int_provider = ct_provider c, int_allowedModels = ct_allowedModels c, int_allowedPolicies = [lit ''safety-v1''],
     int_contributorId = ct_contributorId c, int_intentNonce = toHex nonceBytes \<rparr>"

definition intent_json :: "CredentialIntentV1 \<Rightarrow> json" where
  "intent_json i = JObj [(lit ''version'', JInt 1), (lit ''credentialId'', JStr (int_credentialId i)), (lit ''secret'', JStr (int_secret i)),
     (lit ''provider'', JStr (int_provider i)), (lit ''allowedModels'', strs_json (int_allowedModels i)),
     (lit ''allowedPolicies'', strs_json (int_allowedPolicies i)), (lit ''contributorId'', JStr (int_contributorId i)),
     (lit ''intentNonce'', JStr (int_intentNonce i))]"

definition contributeCredential ::
  "runtime \<Rightarrow> crypto_lib \<Rightarrow> byte list \<Rightarrow> byte list \<Rightarrow> client_error + AttestationBundle \<Rightarrow> (contribution_body \<Rightarrow> http_outcome) \<Rightarrow> contribution
   \<Rightarrow> contribution_body list \<times> (client_error + json)" where
  "contributeCredential rt lib idBytes nonceBytes fetched post c =
     (case fetched of
        Inl e \<Rightarrow> ([], Inl e)
      | Inr b \<Rightarrow>
          (case verifyAttestationBundle rt b None of
             None \<Rightarrow> ([], Inl ClientThrew)
           | Some v \<Rightarrow>
               if \<not> bv_valid v
               then ([], Inl (CtnApiError (JStr (lit ''CTN_ATTESTATION_REQUIRED''))
                                (JStr (lit ''refusing to encrypt credential: enclave attestation failed verification'')) None))
               else (let i = contribution_intent c idBytes nonceBytes in
                     (case Option.bind (canonicalJson rt (intent_json i)) (\<lambda>t. hpkeSeal lib (ab_ingressPublicKey b) (utf8 t) None) of
                        None \<Rightarrow> ([], Inl ClientThrew)
                      | Some box \<Rightarrow>
                          (let body = \<lparr> ib_enclaveKeyId = ab_enclaveKeyId b, ib_enc = resp_enc box, ib_encryptedSecret = resp_ciphertext box,
                                 ib_credentialId = int_credentialId i, cb_contributorId = ct_contributorId c, cb_label = ct_label c,
                                 cb_weight = (case ct_weight c of None \<Rightarrow> 1 | Some w \<Rightarrow> w), cb_operationalLimits = ct_operationalLimits c \<rparr>
                           in ([body], read_json (post body)))))))"

text \<open>\<open>waitForProof\<close>: the \<open>n\<close>-th poll reads an answer and then the clock; the loop has no other end, so not returning is
  the value \<open>None\<close>.\<close>

record proof_poll =
  pp_answer :: http_outcome
  pp_now :: int

definition settled :: "json \<Rightarrow> bool" where
  "settled body \<longleftrightarrow> (let st = opt_prop body ''proof_status'' in truthy st \<and> st \<noteq> JStr (lit ''PROVING'') \<and> st \<noteq> JStr (lit ''QUEUED''))"

definition poll_once :: "int \<Rightarrow> proof_poll \<Rightarrow> (client_error + json) option" where
  "poll_once deadline p = (case pp_answer p of
     Answered st (Some body) \<Rightarrow>
       if nullish body then Some (Inl ClientThrew)
       else if settled body then Some (Inr body)
       else if deadline < pp_now p then Some (Inr body)
       else None
   | _ \<Rightarrow> Some (Inl ClientThrew))"

partial_function (option) wait_loop :: "(nat \<Rightarrow> proof_poll) \<Rightarrow> int \<Rightarrow> nat \<Rightarrow> (client_error + json) option" where
  "wait_loop polls deadline n =
     (case poll_once deadline (polls n) of Some r \<Rightarrow> Some r | None \<Rightarrow> wait_loop polls deadline (Suc n))"

definition waitForProof :: "int \<Rightarrow> int \<Rightarrow> (nat \<Rightarrow> proof_poll) \<Rightarrow> (client_error + json) option" where
  "waitForProof now timeoutMs polls = wait_loop polls (now + timeoutMs) 0"

section \<open>What the enclave opens is what the client sealed\<close>

definition units16 :: "jstr \<Rightarrow> bool" where
  "units16 s \<longleftrightarrow> (\<forall>c \<in> set s. c < 65536)"

definition request16 :: "CanonicalRequest \<Rightarrow> bool" where
  "request16 r \<longleftrightarrow> units16 (req_model r) \<and> (\<forall>m \<in> set (req_messages r). units16 (msg_content m))"

lemma units16_simps [simp]: "units16 (lit s)" "units16 (toHex bs)" "units16 (toB64 bs)" "units16 (role_str x)"
proof -
  show "units16 (lit s)" by (auto simp: units16_def lit_def intro: less_trans [OF nat_of_char_less_256])
  have b: "unat (y :: byte) div 16 < 16" for y using byte_lt [of y] by (simp add: less_mult_imp_div_less)
  show "units16 (toHex bs)" by (auto simp: units16_def toHex_def digit_def intro: less_trans [OF b])
  show "units16 (role_str x)" using role_str_units by (simp add: units16_def)
  have "b64_char n < 65536" for n by (auto simp: b64_char_def)
  then show "units16 (toB64 bs)" unfolding units16_def by (induction bs rule: toB64.induct) auto
qed

lemma small_int_plain: "\<bar>n\<bar> \<le> MAX_SAFE \<Longrightarrow> plain_json (JInt n)"
  by (simp add: is_integral_def)

lemma payload_plain:
  assumes "toCanonicalRequest rt input = Inr r" "request16 r"
  shows "plain_json (payload_json \<lparr> pl_request = r, pl_requestNonce = toHex n, pl_responsePublicKey = toB64 k \<rparr>)"
proof -
  obtain m ms where "0 \<le> temperature_millis r" "temperature_millis r \<le> 2000" "1 \<le> max_tokens r" "max_tokens r \<le> 128000"
    using assms(1) by (rule toCanonicalRequest_Inr)
  then have i: "plain_json (JInt (temperature_millis r))" "plain_json (JInt (max_tokens r))"
    by (intro small_int_plain; simp add: MAX_SAFE_def)+
  have k: "\<forall>c \<in> set (lit k). c < 65536" for k using units16_simps(1) by (simp add: units16_def)
  have "plain_json (message_json m)" if "m \<in> set (req_messages r)" for m
    using assms(2) that k units16_simps(4) by (simp add: message_json_def request16_def units16_def)
  moreover have "plain_json (JStr (req_model r))" using assms(2) by (simp add: request16_def units16_def)
  ultimately show ?thesis
    using i k units16_simps(2,3) by (simp add: payload_json_def request_json_def units16_def del: plain_json.simps(3))
qed

lemma sealRequest_Inr:
  assumes "sealRequest rt lib rnd b input = Inr (env, sk, nonce)"
  obtains r box where "toCanonicalRequest rt input = Inr r" "nonce = toHex (rnd_nonce rnd)" "sk = rnd_responsePrivate rnd"
    "seal_payload rt lib (ab_ingressPublicKey b) \<lparr> pl_request = r, pl_requestNonce = nonce, pl_responsePublicKey = toB64 (rnd_responsePublic rnd) \<rparr> = Some box"
    "env = \<lparr> env_version = lit ''ctn-1'', env_requestId = lit ''req_'' @ toHex (rnd_id rnd), env_enclaveKeyId = ab_enclaveKeyId b,
       env_enc = resp_enc box, env_ciphertext = resp_ciphertext box, env_aad = request_aad r \<rparr>"
  using assms that by (auto simp: sealRequest_def Let_def split: sum.splits option.splits)

lemma sealed_fields:
  assumes "sealRequest rt lib rnd b input = Inr (env, sk, nonce)" "toCanonicalRequest rt input = Inr r"
  shows "env_requestId env = lit ''req_'' @ toHex (rnd_id rnd)" "env_aad env = request_aad r" "nonce = toHex (rnd_nonce rnd)"
    "sk = rnd_responsePrivate rnd"
  by (rule sealRequest_Inr [OF assms(1)]; use assms(2) in simp)+

definition lawful_platform :: "runtime \<Rightarrow> bool" where
  "lawful_platform rt \<longleftrightarrow> ints_exact rt \<and> ints_print rt \<and> (\<forall>s. nfc rt (nfc rt s) = nfc rt s)"

lemma sealed_opens:
  assumes pf: "lawful_platform (ec_rt cfg)"
    and key: "hpke_pair (ec_lib cfg) (tee_ingressPublicKey (ec_tee cfg)) (tee_ingressPrivateKey (ec_tee cfg))"
    and b: "ab_ingressPublicKey b = tee_ingressPublicKey (ec_tee cfg)" "ab_enclaveKeyId b = tee_enclaveKeyId (ec_tee cfg)"
    and s: "sealRequest (ec_rt cfg) (ec_lib cfg) rnd b input = Inr (env, sk, nonce)"
    and r: "toCanonicalRequest (ec_rt cfg) input = Inr r" "request16 r"
  shows "gate_open cfg io (Some env) = Inr (env, payload_json \<lparr> pl_request = r, pl_requestNonce = nonce,
     pl_responsePublicKey = toB64 (rnd_responsePublic rnd) \<rparr>, max 1 (gi_decryptMs io))"
proof -
  let ?p = "\<lparr> pl_request = r, pl_requestNonce = nonce, pl_responsePublicKey = toB64 (rnd_responsePublic rnd) \<rparr>"
  obtain box where box: "seal_payload (ec_rt cfg) (ec_lib cfg) (ab_ingressPublicKey b) ?p = Some box" "nonce = toHex (rnd_nonce rnd)"
    "env = \<lparr> env_version = lit ''ctn-1'', env_requestId = lit ''req_'' @ toHex (rnd_id rnd), env_enclaveKeyId = ab_enclaveKeyId b,
       env_enc = resp_enc box, env_ciphertext = resp_ciphertext box, env_aad = request_aad r \<rparr>"
    using s r(1) by (auto elim: sealRequest_Inr)
  obtain aad where aad: "canonicalJson (ec_rt cfg) (aad_json (request_aad r)) = Some aad"
    "hpkeSeal (ec_lib cfg) (tee_ingressPublicKey (ec_tee cfg)) (utf8 (stringify (ec_rt cfg) (payload_json ?p))) (Some (utf8 aad)) = Some box"
    using box(1) b(1) by (auto simp: seal_payload_def bind_eq_Some_conv simp del: canonicalJson.simps)
  have "json_parse (ec_rt cfg) (text_decode (utf8 (stringify (ec_rt cfg) (payload_json ?p)))) = Some (payload_json ?p)"
    using pf payload_plain [OF r] by (intro stringify_bytes_back) (auto simp: lawful_platform_def box(2))
  moreover have "openIngress (ec_lib cfg) (ec_tee cfg) (resp_enc box) (resp_ciphertext box) (Some (utf8 aad))
      = Some (utf8 (stringify (ec_rt cfg) (payload_json ?p)))"
    unfolding openIngress_def by (rule hpke_opens [OF key aad(2)])
  ultimately show ?thesis
    using aad(1) b(2) by (simp add: gate_open_def box(3) del: canonicalJson.simps)
qed

lemma payload_props:
  "get_prop (payload_json p) ''request'' = Some (request_json (pl_request p))"
  "get_prop (payload_json p) ''requestNonce'' = Some (JStr (pl_requestNonce p))"
  "get_prop (payload_json p) ''responsePublicKey'' = Some (JStr (pl_responsePublicKey p))"
  by (simp_all add: payload_json_def lit_def)

lemma canonical_serialises:
  assumes "toCanonicalRequest rt input = Inr r"
  shows "\<exists>t. canonicalJson rt (request_json r) = Some t"
proof -
  obtain m ms where "0 \<le> temperature_millis r" "temperature_millis r \<le> 2000" "1 \<le> max_tokens r" "max_tokens r \<le> 128000"
    using assms by (rule toCanonicalRequest_Inr)
  then have "isSafeInteger (Fin (rat_of_int (temperature_millis r)))" "isSafeInteger (Fin (rat_of_int (max_tokens r)))"
    by (simp_all add: MAX_SAFE_def)
  then show ?thesis
    by (intro canonicalJson_Some) (auto simp: request_json_def message_json_def list_all_iff simp del: isSafeInteger.simps)
qed

lemma sealed_admits:
  assumes pf: "lawful_platform (ec_rt cfg)" and r: "toCanonicalRequest (ec_rt cfg) input = Inr r"
    and m: "aad_model (env_aad env) = req_model r" and p: "pl_request p = r"
    and fresh: "fst (rememberNonce (gi_now io) (JStr (pl_requestNonce p), 0) (en_seenNonces st))"
  shows "\<exists>tk st'. gate_admit cfg io (env, payload_json p, ms) st = (Inr tk, st') \<and> gt_canonical tk = r \<and> gt_nonce tk = JStr (pl_requestNonce p)
     \<and> gt_requestId tk = env_requestId env \<and> gt_payload tk = payload_json p"
proof -
  obtain t where t: "canonicalJson (ec_rt cfg) (request_json r) = Some t" using canonical_serialises [OF r] by blast
  have c: "toCanonicalRequest (ec_rt cfg) (request_json r) = Inr r" using canonical_again [OF _ r] pf by (simp add: lawful_platform_def)
  show ?thesis using fresh m p t c
    by (auto simp: gate_admit_def payload_props Let_def split: prod.splits simp del: canonicalJson.simps)
qed

lemma attested_keys:
  "attestation rt tee now n = Some b \<Longrightarrow> ab_ingressPublicKey b = tee_ingressPublicKey tee \<and> ab_enclaveKeyId b = tee_enclaveKeyId tee"
  by (auto simp: attestation_def Let_def)

text \<open>C12. The enclave gates what the client meant. A client holds an attestation bundle of the enclave and seals a
  request to it. Then the enclave opens the envelope, finds in it exactly the client's canonical request, its nonce and
  its response key, and admits it (unless the fresh nonce was seen before); the routing header the coordinator reads
  names the sealed model.\<close>

theorem sealed_request_admitted:
  assumes pf: "lawful_platform (ec_rt cfg)"
    and key: "hpke_pair (ec_lib cfg) (tee_ingressPublicKey (ec_tee cfg)) (tee_ingressPrivateKey (ec_tee cfg))"
    and att: "attestation (ec_rt cfg) (ec_tee cfg) now n = Some b"
    and s: "sealRequest (ec_rt cfg) (ec_lib cfg) rnd b input = Inr (env, sk, nonce)"
    and r: "toCanonicalRequest (ec_rt cfg) input = Inr r" "request16 r"
    and fresh: "fst (rememberNonce (gi_now io) (JStr nonce, 0) (en_seenNonces st))"
  shows "\<exists>opened tk st'. gate_open cfg io (Some env) = Inr opened \<and> gate_admit cfg io opened st = (Inr tk, st')
     \<and> gt_canonical tk = r \<and> gt_nonce tk = JStr nonce \<and> gt_requestId tk = env_requestId env
     \<and> get_prop (gt_payload tk) ''responsePublicKey'' = Some (JStr (toB64 (rnd_responsePublic rnd)))
     \<and> aad_model (env_aad env) = req_model r \<and> nonce = toHex (rnd_nonce rnd) \<and> sk = rnd_responsePrivate rnd"
proof -
  note e = sealed_fields [OF s r(1)]
  then have m: "aad_model (env_aad env) = req_model r" by (simp add: request_aad_def)
  let ?p = "\<lparr> pl_request = r, pl_requestNonce = nonce, pl_responsePublicKey = toB64 (rnd_responsePublic rnd) \<rparr>"
  have "gate_open cfg io (Some env) = Inr (env, payload_json ?p, max 1 (gi_decryptMs io))"
    using attested_keys [OF att] by (intro sealed_opens [OF pf key _ _ s r]) simp_all
  with sealed_admits [OF pf r(1) m, of ?p io st "max 1 (gi_decryptMs io)"] fresh m e show ?thesis
    by (auto simp: payload_props)
qed

section \<open>The answer comes back\<close>

lemma those_defined: "those xs = Some ys \<Longrightarrow> x \<in> set xs \<Longrightarrow> x \<noteq> None"
  by (induction xs arbitrary: ys) (auto split: option.splits)

lemma member_serialises:
  "canonicalJson rt (JObj kvs) = Some t \<Longrightarrow> (k, v) \<in> set kvs \<Longrightarrow> v \<noteq> JUndef \<Longrightarrow> \<exists>u. canonicalJson rt v = Some u"
proof -
  assume a: "canonicalJson rt (JObj kvs) = Some t" "(k, v) \<in> set kvs" "v \<noteq> JUndef"
  then obtain parts where "those (map (member_text rt) (filter (\<lambda>(k, v). v \<noteq> JUndef) (sort_key fst kvs))) = Some parts"
    unfolding canonicalJson.simps member_text_fun by auto
  from those_defined [OF this, of "member_text rt (k, v)"] a(2,3) show ?thesis by (force simp: member_text_def)
qed

lemma answer_opens:
  assumes "lawful_platform rt" and o: "hpkeOpen lib sk (resp_enc box) (resp_ciphertext box) None = Some (utf8 (stringify rt v))" and "plain_json v"
  shows "open_answer rt lib sk (JObj [(lit ''enc'', JStr (resp_enc box)), (lit ''ciphertext'', JStr (resp_ciphertext box))]) = Some v"
  using assms stringify_bytes_back [of rt v]
  by (simp add: open_answer_def opt_prop_def lawful_platform_def lit_def)

lemma gated_request:
  assumes pf: "lawful_platform (ec_rt cfg)"
    and key: "hpke_pair (ec_lib cfg) (tee_ingressPublicKey (ec_tee cfg)) (tee_ingressPrivateKey (ec_tee cfg))"
    and b: "ab_ingressPublicKey b = tee_ingressPublicKey (ec_tee cfg)" "ab_enclaveKeyId b = tee_enclaveKeyId (ec_tee cfg)"
    and s: "sealRequest (ec_rt cfg) (ec_lib cfg) rnd b input = Inr (env, sk, nonce)"
    and r: "toCanonicalRequest (ec_rt cfg) input = Inr r" "request16 r"
    and gt: "gateRequest cfg io opening executing (Some env) st = (Inr out, st')"
  shows "get_prop (go_payload out) ''responsePublicKey'' = Some (JStr (toB64 (rnd_responsePublic rnd)))"
    "go_requestId out = lit ''req_'' @ toHex (rnd_id rnd)" "commitment_of (ec_rt cfg) r nonce = Some (go_commitment out)"
    "go_authorized out = Some a \<Longrightarrow> aq_request a = r \<and> aq_requestCommitment a = go_commitment out"
proof -
  let ?p = "\<lparr> pl_request = r, pl_requestNonce = nonce, pl_responsePublicKey = toB64 (rnd_responsePublic rnd) \<rparr>"
  have o: "gate_open cfg io (Some env) = Inr (env, payload_json ?p, max 1 (gi_decryptMs io))"
    by (rule sealed_opens [OF pf key b s r])
  then obtain tk s1 where t: "gate_admit cfg io (env, payload_json ?p, max 1 (gi_decryptMs io)) (opening st) = (Inr tk, s1)"
    "gate_finish cfg io tk (executing s1) = (Inr out, st')"
    using gt by (auto simp: gateRequest_def split: sum.splits prod.splits)
  note tk = gate_admit_Inr [OF t(1)]
  have "toCanonicalRequest (ec_rt cfg) (request_json r) = Inr r" using canonical_again [OF _ r(1)] pf by (simp add: lawful_platform_def)
  then have c: "gt_canonical tk = r" "gt_nonce tk = JStr nonce" "gt_payload tk = payload_json ?p" "gt_requestId tk = env_requestId env"
    using tk by (auto simp: payload_props)
  obtain x where j: "judged cfg tk x out" using gate_finish_Inr [OF t(2)] by blast
  show "get_prop (go_payload out) ''responsePublicKey'' = Some (JStr (toB64 (rnd_responsePublic rnd)))"
    "go_requestId out = lit ''req_'' @ toHex (rnd_id rnd)" "commitment_of (ec_rt cfg) r nonce = Some (go_commitment out)"
    using j c sealed_fields(1) [OF s r(1)] by (auto simp: judged_def payload_props)
  show "aq_request a = r \<and> aq_requestCommitment a = go_commitment out" if "go_authorized out = Some a"
    using j c that by (auto simp: judged_def split: PolicyDecision.splits)
qed

lemma serialised_int: "canonicalJson rt (JInt n) = Some u \<Longrightarrow> \<bar>n\<bar> \<le> MAX_SAFE"
  by (simp split: if_splits)

lemma receipt_tokens_safe:
  assumes "verifyCanonical rt (compute_receipt_json rc) sg pk = Some True" "cr_inputTokens rc = Some i" "cr_outputTokens rc = Some j"
  shows "\<bar>i\<bar> \<le> MAX_SAFE" "\<bar>j\<bar> \<le> MAX_SAFE"
proof -
  obtain t where t: "canonicalJson rt (compute_receipt_json rc) = Some t"
    using assms(1) by (auto simp: verifyCanonical_def canonicalHash_def simp del: canonicalJson.simps)
  let ?u = "[(lit ''inputTokens'', opt_json JInt (cr_inputTokens rc)), (lit ''outputTokens'', opt_json JInt (cr_outputTokens rc)),
        (lit ''estimatedCostMicroUsd'', opt_json JInt (cr_estimatedCostMicroUsd rc)), (lit ''pricingTableDigest'', opt_json JStr (cr_pricingTableDigest rc))]"
  obtain u where u: "canonicalJson rt (JObj ?u) = Some u"
    using member_serialises [OF t [unfolded compute_receipt_json_def], of "lit ''usage''" "JObj ?u"] by (auto simp del: canonicalJson.simps)
  from member_serialises [OF u, of "lit ''inputTokens''" "JInt i"] member_serialises [OF u, of "lit ''outputTokens''" "JInt j"] assms(2,3)
  show "\<bar>i\<bar> \<le> MAX_SAFE" "\<bar>j\<bar> \<le> MAX_SAFE" using serialised_int by (auto simp: opt_json_def simp del: canonicalJson.simps)
qed

lemma response_plain:
  assumes "units16 (go_requestId out)" "units16 (req_model (aq_request a))" "units16 (rp_content r)"
    "\<bar>rp_inputTokens r\<bar> \<le> MAX_SAFE" "\<bar>rp_outputTokens r\<bar> \<le> MAX_SAFE"
  shows "plain_json (response_plaintext out a r)"
proof -
  have k: "\<forall>c \<in> set (lit k). c < 65536" for k using units16_simps(1) by (simp add: units16_def)
  show ?thesis using assms(1-3) small_int_plain [OF assms(4)] small_int_plain [OF assms(5)] k
    by (simp add: response_plaintext_def units16_def del: plain_json.simps(3))
qed

lemma sort_members:
  "mset kvs = mset kvs' \<Longrightarrow> distinct (map fst kvs) \<Longrightarrow> canonicalJson rt (JObj kvs) = canonicalJson rt (JObj kvs')"
proof -
  assume m: "mset kvs = mset kvs'" and d: "distinct (map fst kvs)"
  have "sort_key fst kvs = sort_key fst kvs'"
    using m d by (intro sort_key_inj_key_eq) (auto simp: distinct_map)
  then show ?thesis by (simp only: canonicalJson.simps)
qed

lemma presented_text: "canonicalJson rt (presented_document_json b) = canonicalJson rt (unsigned_document_json (ab_document b) (ab_nonce b))"
  unfolding presented_document_json_def unsigned_document_json_def Let_def by (rule sort_members) (simp_all add: lit_def)

lemma bundle_verdict_exact:
  "verifyAttestationBundle rt b asked = Some v \<Longrightarrow>
     bv_valid v \<longleftrightarrow> verifyCanonical rt (unsigned_document_json (ab_document b) (ab_nonce b)) (ad_platformSignature (ab_document b)) (ab_enclaveSigningPublicKey b) = Some True
       \<and> presented_keys_attested b \<and> (asked = None \<or> ab_nonce b = asked)"
  by (auto simp: verifyAttestationBundle_def presented_keys_attested_def Let_def verifyCanonical_def canonicalHash_def presented_text
      simp del: canonicalJson.simps)

lemma own_bundle_accepted:
  assumes sg: "signer rt tee" and att: "attestation rt tee now n = Some b"
  shows "\<exists>v. verifyAttestationBundle rt b None = Some v \<and> bv_valid v \<and> \<not> bv_hardwareBacked v"
proof -
  have v: "verifyCanonical rt (unsigned_document_json (ab_document b) (ab_nonce b)) (ad_platformSignature (ab_document b)) (ab_enclaveSigningPublicKey b) = Some True"
    "presented_keys_attested b" "ab_teeMode b = tee_mode"
    using bundle_signed [OF sg att] bundle_fields [OF att] by (auto simp: presented_keys_attested_def attestation_document_def)
  then obtain w where w: "verifyAttestationBundle rt b None = Some w"
    by (auto simp: verifyAttestationBundle_def verifyCanonical_def canonicalHash_def presented_text simp del: canonicalJson.simps)
  then have "\<not> bv_hardwareBacked w" using v(3) by (auto simp: verifyAttestationBundle_def Let_def tee_mode_def lit_def)
  with w v bundle_verdict_exact [OF w] show ?thesis by simp
qed

lemma reply_props:
  "get_prop (reply_body (complete_reply ms rid result sel scr)) ''encrypted_response'' =
     Some (opt_json (\<lambda>b. JObj [(lit ''enc'', JStr (resp_enc b)), (lit ''ciphertext'', JStr (resp_ciphertext b))]) (er_encryptedResponse result))"
  "opt_prop (opt_prop (reply_body (complete_reply ms rid result sel scr)) ''receipt'') ''request_commitment'' = JStr (er_commitment result)"
  "opt_prop (opt_prop (reply_body (complete_reply ms rid result sel scr)) ''receipt'') ''signed_receipt'' =
     JObj [(lit ''receipt'', compute_receipt_json (scr_receipt scr)), (lit ''enclaveSignature'', JStr (scr_enclaveSignature scr))]"
  by (simp_all add: complete_reply_def opt_prop_def lit_def)

lemma or_else_simps: "or_else (JStr s) d = JStr s" "or_else (JObj kvs) d = JObj kvs"
  by (simp_all add: or_else_def nullish_def)

lemma plaintext_props:
  "opt_prop (response_plaintext out a r) ''content'' = JStr (rp_content r)"
  "opt_prop (response_plaintext out a r) ''model'' = JStr (req_model (aq_request a))"
  "opt_prop (response_plaintext out a r) ''usage'' = JObj [(lit ''inputTokens'', JInt (rp_inputTokens r)), (lit ''outputTokens'', JInt (rp_outputTokens r))]"
  "\<not> nullish (response_plaintext out a r)"
  by (simp_all add: response_plaintext_def opt_prop_def nullish_def lit_def)

text \<open>C11. A confidential completion, end to end. The client holds the enclave's attestation and asks for a completion;
  the coordinator relays the envelope; the gate returns an outcome for it, the dispatch of that outcome completes and the
  coordinator relays the result. Then the one request that went upstream was made for exactly the client's canonical
  request and its commitment, and the client's call returns exactly what the provider answered to it, the model, the
  token counts, the commitment and the signed receipt. All the coordinator handled in between was the
  sealed envelope and the sealed response.\<close>

theorem completion_end_to_end:
  assumes pf: "lawful_platform (ec_rt cfg)" and sg: "signer (ec_rt cfg) (ec_tee cfg)"
    and key: "hpke_pair (ec_lib cfg) (tee_ingressPublicKey (ec_tee cfg)) (tee_ingressPrivateKey (ec_tee cfg))"
    and resp: "hpke_pair (ec_lib cfg) (toB64 (rnd_responsePublic rnd)) (rnd_responsePrivate rnd)"
    and att: "attestation (ec_rt cfg) (ec_tee cfg) now n = Some b"
    and s: "sealRequest (ec_rt cfg) (ec_lib cfg) rnd b input = Inr (env, sk, nonce)"
    and r: "toCanonicalRequest (ec_rt cfg) input = Inr r" "request16 r"
    and gt: "gateRequest cfg io opening executing (Some env) st = (Inr out, st')"
    and run: "runDispatch cfg dio ps out cands = (Accepted body, sent)" "er_status body = EX_COMPLETE"
    and post: "\<And>scr. er_receipt body = Some scr \<Longrightarrow>
      post env = Answered 200 (Some (reply_body (complete_reply ms (env_requestId env) (ExecuteResult.truncate body) sel scr)))"
  shows "\<exists>a cand cred ad k q answer. go_authorized out = Some a \<and> cand \<in> set cands \<and> authorize cfg cand a = Some (Inr cred)
     \<and> serving_adapter cfg cand a = Some ad \<and> sent = [q] \<and> complete (ec_rt cfg) (di_env dio k) ad a cred = ([q], Completed answer)
     \<and> aq_request a = r \<and> commitment_of (ec_rt cfg) r nonce = Some (aq_requestCommitment a)
     \<and> (units16 (rp_content answer) \<longrightarrow>
         (\<exists>c rc sgn. completion (ec_rt cfg) (ec_lib cfg) rnd (Inr b) post input = ([env], Inr c)
           \<and> cs_content c = JStr (rp_content answer) \<and> cs_model c = JStr (req_model r)
           \<and> cs_usage c = JObj [(lit ''inputTokens'', JInt (rp_inputTokens answer)), (lit ''outputTokens'', JInt (rp_outputTokens answer))]
           \<and> cs_commitment c = JStr (aq_requestCommitment a)
           \<and> cs_receipt c = JObj [(lit ''receipt'', compute_receipt_json rc), (lit ''enclaveSignature'', JStr sgn)]
           \<and> verifyCanonical (ec_rt cfg) (compute_receipt_json rc) sgn (tee_signingPublicKey (ec_tee cfg)) = Some True))"
proof -
  have keys: "ab_ingressPublicKey b = tee_ingressPublicKey (ec_tee cfg)" "ab_enclaveKeyId b = tee_enclaveKeyId (ec_tee cfg)"
    using attested_keys [OF att] by simp_all
  note g = gated_request [OF pf key keys s r gt]
  obtain a cand cred ad k q answer rc sg' box where d: "go_authorized out = Some a"
      "complete (ec_rt cfg) (di_env dio k) ad a cred = ([q], Completed answer)" "sent = [q]"
      "er_receipt body = Some \<lparr> scr_receipt = rc, scr_enclaveSignature = sg' \<rparr>"
      "verifyCanonical (ec_rt cfg) (compute_receipt_json rc) sg' (tee_signingPublicKey (ec_tee cfg)) = Some True"
      "cr_requestCommitment rc = aq_requestCommitment a"
      "cr_inputTokens rc = Some (rp_inputTokens answer)" "cr_outputTokens rc = Some (rp_outputTokens answer)"
      "er_encryptedResponse body = Some box"
      "hpkeOpen (ec_lib cfg) (rnd_responsePrivate rnd) (resp_enc box) (resp_ciphertext box) None
         = Some (utf8 (stringify (ec_rt cfg) (response_plaintext out a answer)))"
      "cand \<in> set cands" "authorize cfg cand a = Some (Inr cred)" "serving_adapter cfg cand a = Some ad"
    using dispatch_completed [OF run sg g(1) resp] by blast
  note a = g(4) [OF d(1)]
  have commit: "er_commitment body = aq_requestCommitment a" using completed_receipt [OF run] d(1) by (metis option.inject)
  obtain v where v: "verifyAttestationBundle (ec_rt cfg) b None = Some v" "bv_valid v" using own_bundle_accepted [OF sg att] by blast
  { assume u: "units16 (rp_content answer)"
    have "plain_json (response_plaintext out a answer)"
      using r(2) a g(2) u receipt_tokens_safe [OF d(5,7,8)]
      by (intro response_plain) (auto simp: request16_def units16_def units16_simps [unfolded units16_def])
    from answer_opens [OF pf d(10) this] have "open_answer (ec_rt cfg) (ec_lib cfg) (rnd_responsePrivate rnd)
        (JObj [(lit ''enc'', JStr (resp_enc box)), (lit ''ciphertext'', JStr (resp_ciphertext box))]) = Some (response_plaintext out a answer)" .
    then have "\<exists>c. completion (ec_rt cfg) (ec_lib cfg) rnd (Inr b) post input = ([env], Inr c)
           \<and> cs_content c = JStr (rp_content answer) \<and> cs_model c = JStr (req_model r)
           \<and> cs_usage c = JObj [(lit ''inputTokens'', JInt (rp_inputTokens answer)), (lit ''outputTokens'', JInt (rp_outputTokens answer))]
           \<and> cs_commitment c = JStr (aq_requestCommitment a)
           \<and> cs_receipt c = JObj [(lit ''receipt'', compute_receipt_json rc), (lit ''enclaveSignature'', JStr sg')]"
      using v s sealed_fields(4) [OF s r(1)] post [OF d(4)] a commit d(9)
      by (simp add: completion_def read_completion_def reply_props ExecuteResult.truncate_def opt_json_def plaintext_props Let_def or_else_simps) }
  then show ?thesis using d(1-3,5,11-13) a g(3)
    by (intro exI [of _ a] exI [of _ cand] exI [of _ cred] exI [of _ ad] exI [of _ k] exI [of _ q] exI [of _ answer]) auto
qed

section \<open>Where the client sends its secrets\<close>

definition attested_signature :: "runtime \<Rightarrow> AttestationBundle \<Rightarrow> bool" where
  "attested_signature rt b \<longleftrightarrow>
     verifyCanonical rt (unsigned_document_json (ab_document b) (ab_nonce b)) (ad_platformSignature (ab_document b)) (ab_enclaveSigningPublicKey b) = Some True"

text \<open>C13. The client seals only to an attested key. Whatever the attestation endpoint returned, \<open>completion\<close> and
  \<open>contributeCredential\<close> send at most one message, and only when the document in the bundle is signed and contains the very
  ingress and signing keys the bundle presents; the message is sealed to that ingress key. Otherwise nothing is sent.\<close>

theorem client_seals_to_attested_key:
  "(case completion rt lib rnd fetched post input of (sent, res) \<Rightarrow>
      sent = [] \<or> (\<exists>b env sk nonce. fetched = Inr b \<and> attested_signature rt b \<and> presented_keys_attested b
        \<and> sealRequest rt lib rnd b input = Inr (env, sk, nonce) \<and> sent = [env]))
   \<and> (case contributeCredential rt lib idBytes nonceBytes fetched2 post2 c of (sent, res) \<Rightarrow>
      sent = [] \<or> (\<exists>b body t box. fetched2 = Inr b \<and> attested_signature rt b \<and> presented_keys_attested b \<and> sent = [body]
        \<and> canonicalJson rt (intent_json (contribution_intent c idBytes nonceBytes)) = Some t
        \<and> hpkeSeal lib (ab_ingressPublicKey b) (utf8 t) None = Some box
        \<and> ib_enc body = resp_enc box \<and> ib_encryptedSecret body = resp_ciphertext box \<and> ib_enclaveKeyId body = ab_enclaveKeyId b))"
proof
  show "case completion rt lib rnd fetched post input of (sent, res) \<Rightarrow>
      sent = [] \<or> (\<exists>b env sk nonce. fetched = Inr b \<and> attested_signature rt b \<and> presented_keys_attested b
        \<and> sealRequest rt lib rnd b input = Inr (env, sk, nonce) \<and> sent = [env])"
    using bundle_verdict_exact [of rt _ None] by (auto simp: completion_def attested_signature_def split: sum.splits option.splits prod.splits)
next
  show "case contributeCredential rt lib idBytes nonceBytes fetched2 post2 c of (sent, res) \<Rightarrow>
      sent = [] \<or> (\<exists>b body t box. fetched2 = Inr b \<and> attested_signature rt b \<and> presented_keys_attested b \<and> sent = [body]
        \<and> canonicalJson rt (intent_json (contribution_intent c idBytes nonceBytes)) = Some t
        \<and> hpkeSeal lib (ab_ingressPublicKey b) (utf8 t) None = Some box
        \<and> ib_enc body = resp_enc box \<and> ib_encryptedSecret body = resp_ciphertext box \<and> ib_enclaveKeyId body = ab_enclaveKeyId b)"
    using bundle_verdict_exact [of rt _ None]
    by (auto simp: contributeCredential_def attested_signature_def Let_def bind_eq_Some_conv split: sum.splits option.splits prod.splits
        simp del: canonicalJson.simps)
qed

text \<open>The policy test does not look at the verdict: with a substituted ingress key \<open>completion\<close> sends nothing and
  \<open>policyTest\<close> seals the prompt to that key.\<close>

lemma policy_test_trusts_any_key:
  assumes att: "attestation rt tee now n = Some b" and evil: "evil \<noteq> tee_ingressPublicKey tee"
    and s: "sealRequest rt lib rnd (b\<lparr> ab_ingressPublicKey := evil \<rparr>) (user_prompt prompt model) = Inr (env, sk, nonce)"
  shows "fst (completion rt lib rnd (Inr (b\<lparr> ab_ingressPublicKey := evil \<rparr>)) post (user_prompt prompt model)) = []"
    "fst (policyTest rt lib rnd (Inr (b\<lparr> ab_ingressPublicKey := evil \<rparr>)) post2 prompt model) = [env]"
proof -
  have "\<not> presented_keys_attested (b\<lparr> ab_ingressPublicKey := evil \<rparr>)"
    using bundle_fields [OF att] evil by (auto simp: presented_keys_attested_def attestation_document_def)
  then show "fst (completion rt lib rnd (Inr (b\<lparr> ab_ingressPublicKey := evil \<rparr>)) post (user_prompt prompt model)) = []"
    using bundle_verdict_exact [of rt "b\<lparr> ab_ingressPublicKey := evil \<rparr>" None] by (auto simp: completion_def split: option.splits)
  show "fst (policyTest rt lib rnd (Inr (b\<lparr> ab_ingressPublicKey := evil \<rparr>)) post2 prompt model) = [env]"
    using s by (simp add: policyTest_def)
qed

section \<open>Waiting for a proof\<close>

lemma wait_loop_first:
  "poll_once deadline (polls (n + k)) = Some y \<Longrightarrow> \<forall>j < k. poll_once deadline (polls (n + j)) = None \<Longrightarrow> wait_loop polls deadline n = Some y"
proof (induction k arbitrary: n)
  case 0
  then show ?case by (simp add: wait_loop.simps)
next
  case (Suc k)
  have "poll_once deadline (polls n) = None" using Suc.prems(2) by fastforce
  moreover have "wait_loop polls deadline (Suc n) = Some y"
    using Suc.IH [of "Suc n"] Suc.prems by fastforce
  ultimately show ?case by (subst wait_loop.simps) simp
qed

text \<open>C30. Waiting for a proof ends. With a clock that moves by at least the 300 ms of the sleep between two polls,
  \<open>waitForProof\<close> returns after at most \<open>timeoutMs / 300 + 1\<close> further polls, with the answer of the first poll that failed, was
  settled, or came after the deadline.\<close>

theorem wait_for_proof_returns:
  assumes start: "now \<le> pp_now (polls 0)" and tick: "\<And>k. pp_now (polls k) + 300 \<le> pp_now (polls (Suc k))"
  shows "\<exists>k y. waitForProof now timeoutMs polls = Some y \<and> 300 * int k \<le> max 0 timeoutMs + 300
     \<and> poll_once (now + timeoutMs) (polls k) = Some y \<and> (\<forall>j < k. poll_once (now + timeoutMs) (polls j) = None)"
proof -
  have clock: "now + 300 * int k \<le> pp_now (polls k)" for k
  proof (induction k)
    case (Suc k)
    then show ?case using tick [of k] by simp
  qed (use start in simp)
  have late: "poll_once (now + timeoutMs) (polls k) \<noteq> None" if "timeoutMs < 300 * int k" for k
    using clock [of k] that by (auto simp: poll_once_def split: http_outcome.splits option.splits)
  define k where "k = (LEAST k. poll_once (now + timeoutMs) (polls k) \<noteq> None)"
  define m where "m = max 0 timeoutMs"
  have le: "timeoutMs \<le> m" "0 \<le> m" by (simp_all add: m_def)
  obtain d where d: "m < 300 * int (d + 1)" "300 * int d \<le> m"
  proof
    show "m < 300 * int (nat (m div 300) + 1)" "300 * int (nat (m div 300)) \<le> m" using le(2) by (simp_all, presburger+)
  qed
  then have "timeoutMs < 300 * int (d + 1)" using le(1) by simp
  note late [OF this]
  then have k: "poll_once (now + timeoutMs) (polls k) \<noteq> None" "k \<le> d + 1"
    unfolding k_def by (rule LeastI, rule Least_le)
  have first: "\<forall>j < k. poll_once (now + timeoutMs) (polls j) = None" unfolding k_def using not_less_Least by blast
  obtain y where y: "poll_once (now + timeoutMs) (polls k) = Some y" using k(1) by blast
  with first wait_loop_first [of "now + timeoutMs" polls 0 k y] have "waitForProof now timeoutMs polls = Some y" by (simp add: waitForProof_def)
  moreover have "300 * int k \<le> max 0 timeoutMs + 300" using k(2) d(2) unfolding m_def [symmetric] by simp
  ultimately show ?thesis using y first by blast
qed

theorem wait_for_proof_returns_witness:
  "\<exists>k y. waitForProof 5 600 (\<lambda>k. \<lparr> pp_answer = Answered 200 (Some (JObj [(lit ''proof_status'', JStr (lit ''QUEUED''))])), pp_now = 5 + 300 * int k \<rparr>) = Some y
     \<and> 300 * int k \<le> 900"
  using wait_for_proof_returns [of 5 "\<lambda>k. \<lparr> pp_answer = Answered 200 (Some (JObj [(lit ''proof_status'', JStr (lit ''QUEUED''))])), pp_now = 5 + 300 * int k \<rparr>" 600]
  by fastforce

text \<open>A receipt that was generated and not verified counts as settled.\<close>

lemma generated_counts_as_settled: "settled (JObj [(lit ''proof_status'', JStr (lit ''GENERATED''))])"
  by (simp add: settled_def opt_prop_def Let_def lit_def)

section \<open>What a contributor seals is what the enclave signs\<close>

definition normal_str :: "runtime \<Rightarrow> jstr \<Rightarrow> bool" where
  "normal_str rt s \<longleftrightarrow> nfc rt s = s \<and> units16 s"

definition normal_intent :: "runtime \<Rightarrow> CredentialIntentV1 \<Rightarrow> bool" where
  "normal_intent rt i \<longleftrightarrow> list_all (normal_str rt) ([int_credentialId i, int_secret i, int_provider i, int_contributorId i, int_intentNonce i]
     @ int_allowedModels i @ int_allowedPolicies i)"

lemma those_strs: "those (map as_str (map JStr xs)) = Some xs"
  by (induction xs) simp_all

definition intent_members :: "CredentialIntentV1 \<Rightarrow> (jstr \<times> json) list" where
  "intent_members i = [(lit ''allowedModels'', strs_json (int_allowedModels i)), (lit ''allowedPolicies'', strs_json (int_allowedPolicies i)),
     (lit ''contributorId'', JStr (int_contributorId i)), (lit ''credentialId'', JStr (int_credentialId i)), (lit ''intentNonce'', JStr (int_intentNonce i)),
     (lit ''provider'', JStr (int_provider i)), (lit ''secret'', JStr (int_secret i)), (lit ''version'', JInt 1)]"

lemma intent_sorted:
  assumes "intent_json i = JObj kvs"
  shows "sort_key fst kvs = intent_members i"
proof (rule sort_key_inj_key_eq)
  show "mset kvs = mset (intent_members i)" using assms by (auto simp: intent_json_def intent_members_def)
  have "distinct (map fst kvs)" using assms by (auto simp: intent_json_def lit_def)
  then show "inj_on fst (set kvs)" by (simp add: distinct_map)
  show "sorted (map fst (intent_members i))" by (simp add: intent_members_def lit_def)
qed

lemma intent_canon:
  assumes "normal_intent rt i"
  shows "canon_form rt (intent_json i) = JObj (intent_members i)"
proof -
  obtain kvs where k: "intent_json i = JObj kvs" by (simp add: intent_json_def)
  have "map (\<lambda>(k, v). (k, canon_form rt v)) (filter (\<lambda>(k, v). v \<noteq> JUndef) (intent_members i)) = intent_members i"
    using assms by (simp add: intent_members_def normal_intent_def normal_str_def list_all_iff strs_json_def)
  then show ?thesis unfolding k canon_form.simps intent_sorted [OF k] by simp
qed

lemma intent_member_keys: "sort (map fst (intent_members i)) = INTENT_KEYS"
proof -
  have "sort (map fst (intent_members i)) = map fst (intent_members i)" by (rule sort_key_id_if_sorted) (simp add: intent_members_def lit_def)
  also have "\<dots> = INTENT_KEYS" unfolding INTENT_KEYS_def intent_members_def
    by (rule sym, rule properties_for_sort) (simp_all add: lit_def)
  finally show ?thesis .
qed

lemma intent_fields:
  "field (intent_members i) ''version'' = JInt 1" "field (intent_members i) ''credentialId'' = JStr (int_credentialId i)"
  "field (intent_members i) ''secret'' = JStr (int_secret i)" "field (intent_members i) ''provider'' = JStr (int_provider i)"
  "field (intent_members i) ''allowedModels'' = strs_json (int_allowedModels i)" "field (intent_members i) ''allowedPolicies'' = strs_json (int_allowedPolicies i)"
  "field (intent_members i) ''contributorId'' = JStr (int_contributorId i)" "field (intent_members i) ''intentNonce'' = JStr (int_intentNonce i)"
  by (simp_all add: field_def intent_members_def lit_def)

lemma strs_checked: "string_list_ok allowed (strs_json ss) = (if ss = [] \<or> \<not> list_all (\<lambda>s. s \<in> set allowed) ss \<or> \<not> distinct ss then None else Some ss)"
  using those_strs by (simp add: string_list_ok_def strs_json_def)

lemma members_checked:
  "check_intent MODEL_CATALOG (intent_members i) = Inr i' \<Longrightarrow> i' = i\<lparr> int_secret := trim (int_secret i) \<rparr>"
  unfolding check_intent_def intent_member_keys intent_fields strs_checked by (auto split: option.splits if_splits)

lemma sealed_intent_text:
  assumes rt: "ints_exact rt" and n: "normal_intent rt i" and t: "canonicalJson rt (intent_json i) = Some t"
  shows "parseIntent rt (utf8 t) MODEL_CATALOG = check_intent MODEL_CATALOG (intent_members i)"
proof -
  have w: "json_wf (intent_json i)" by (simp add: intent_json_def strs_json_def lit_def)
  have k: "\<forall>c \<in> set (lit k). c < 65536" for k using units16_simps(1) by (simp add: units16_def)
  have str: "json_units rt (JStr x)" if "normal_str rt x" for x using that by (simp add: normal_str_def units16_def)
  have u: "json_units rt (intent_json i)" using n k
    by (simp add: intent_json_def strs_json_def normal_intent_def list_all_iff str del: json_units.simps(1))
  show ?thesis unfolding parseIntent_def canonical_bytes_back [OF rt w u t] intent_canon [OF n] by simp
qed

text \<open>C31. A contribution is signed as it was meant. A contributor's client seals a key with its constraints to the
  attested enclave. Whenever the enclave accepts what was posted, the capability it signs names exactly the credential id,
  provider, contributor and models the contributor chose, and the blob it stores holds exactly the contributor's key, trimmed,
  whoever relayed the message.\<close>

theorem contribution_signed_as_meant:
  assumes pf: "lawful_platform rt" and sg: "signer rt tee" and gcm: "gcm_lawful lib" "length iv = 12"
    and key: "hpke_pair lib (tee_ingressPublicKey tee) (tee_ingressPrivateKey tee)"
    and att: "attestation rt tee now n = Some b"
    and sent: "contributeCredential rt lib idBytes nonceBytes (Inr b) post c = ([body], res)"
    and normal: "normal_intent rt (contribution_intent c idBytes nonceBytes)"
    and ing: "ingest rt lib tee vaultKey dm iv later during (IngestBody.truncate body) s = (Accepted r, s')"
  shows "cap_credentialId (ing_capability r) = lit ''cred_'' @ toHex idBytes \<and> cap_provider (ing_capability r) = ct_provider c
     \<and> cap_contributorId (ing_capability r) = ct_contributorId c \<and> mset (cap_allowedModels (ing_capability r)) = mset (ct_allowedModels c)
     \<and> (wf16 (trim (ct_apiKey c)) \<longrightarrow> vaultDecrypt lib vaultKey (ing_encryptedBlob r) = Some (trim (ct_apiKey c)))
     \<and> verifyCanonical rt (capability_json (ing_capability r)) (ing_capabilitySignature r) (tee_signingPublicKey tee) = Some True"
proof -
  let ?i = "contribution_intent c idBytes nonceBytes"
  obtain t box where t: "canonicalJson rt (intent_json ?i) = Some t" "hpkeSeal lib (ab_ingressPublicKey b) (utf8 t) None = Some box"
     "ib_enc body = resp_enc box" "ib_encryptedSecret body = resp_ciphertext box"
    using sent by (auto simp: contributeCredential_def Let_def bind_eq_Some_conv split: option.splits if_splits simp del: canonicalJson.simps)
  obtain opened i where i: "openIngress lib tee (ib_enc body) (ib_encryptedSecret body) None = Some opened" "parseIntent rt opened MODEL_CATALOG = Inr i"
    "cap_credentialId (ing_capability r) = int_credentialId i" "cap_provider (ing_capability r) = int_provider i"
    "cap_contributorId (ing_capability r) = int_contributorId i" "mset (cap_allowedModels (ing_capability r)) = mset (int_allowedModels i)"
    "wf16 (int_secret i) \<longrightarrow> vaultDecrypt lib vaultKey (ing_encryptedBlob r) = Some (int_secret i)"
    "verifyCanonical rt (capability_json (ing_capability r)) (ing_capabilitySignature r) (tee_signingPublicKey tee) = Some True"
    using ingest_accepted [OF ing sg gcm] by (auto simp: IngestBody.truncate_def)
  have "opened = utf8 t"
    using i(1) hpke_opens [OF key t(2) [unfolded conjunct1 [OF attested_keys [OF att]]]] by (simp add: openIngress_def t(3,4))
  then have "i = ?i\<lparr> int_secret := trim (int_secret ?i) \<rparr>"
    using i(2) sealed_intent_text [OF _ normal t(1)] members_checked pf by (simp add: lawful_platform_def)
  then show ?thesis using i(3-8) by (simp add: contribution_intent_def)
qed

section \<open>A client at work\<close>

definition sample_random :: client_random where
  "sample_random = \<lparr> rnd_nonce = replicate 32 7, rnd_id = [1], rnd_responsePublic = [112, 117, 98], rnd_responsePrivate = lit ''cHJp'' \<rparr>"

definition sample_ask :: json where
  "sample_ask = JObj sample_inner"

lemma sample_pair: "hpke_pair sample_lib pk sk"
  by (simp add: hpke_pair_def sample_lib_def)

lemma sample_platform: "lawful_platform sample_runtime"
  by (simp add: lawful_platform_def ints_exact_def ints_print_def)

lemma sample_asks: "toCanonicalRequest sample_runtime sample_ask = Inr sample_canonical" "request16 sample_canonical"
  using sample_inner_canonical by (simp_all add: sample_ask_def request16_def sample_canonical_def sample_request_def)

lemma sample_seals:
  obtains env where "sealRequest sample_runtime sample_lib sample_random b sample_ask = Inr (env, lit ''cHJp'', sample_nonce)"
proof -
  have "serialisable (aad_json (request_aad sample_canonical))" by (simp add: aad_json_def)
  then obtain t where "canonicalJson sample_runtime (aad_json (request_aad sample_canonical)) = Some t" using canonicalJson_Some by blast
  then show thesis using that sample_asks(1)
    by (simp add: sealRequest_def Let_def seal_payload_def hpkeSeal_def sample_lib_def sample_random_def sample_nonce_def del: canonicalJson.simps)
qed

theorem sealed_request_admitted_witness:
  "\<exists>b env opened tk st'. attestation sample_runtime sample_tee 1 None = Some b
     \<and> sealRequest sample_runtime sample_lib sample_random b sample_ask = Inr (env, lit ''cHJp'', sample_nonce)
     \<and> gate_open sample_cfg (sample_gate_io sample_guest) (Some env) = Inr opened
     \<and> gate_admit sample_cfg (sample_gate_io sample_guest) opened enclave_boot = (Inr tk, st') \<and> gt_canonical tk = sample_canonical"
proof -
  obtain b where b: "attestation sample_runtime sample_tee 1 None = Some b" using sample_attestation by blast
  obtain env where e: "sealRequest sample_runtime sample_lib sample_random b sample_ask = Inr (env, lit ''cHJp'', sample_nonce)" by (rule sample_seals)
  have f: "fst (rememberNonce (gi_now (sample_gate_io sample_guest)) (JStr sample_nonce, 0::nat) (en_seenNonces enclave_boot))"
    by (simp add: rememberNonce_def enclave_boot_def NONCE_MAX_def Let_def)
  show ?thesis
    using sealed_request_admitted [where cfg = sample_cfg, unfolded sample_cfg_simps, OF sample_platform sample_pair b e sample_asks f] b e by blast
qed

lemma only_mock_serves: "serving_adapter sample_cfg cand committed = Some ad \<Longrightarrow> ad = sample_serving"
  by (auto simp: serving_adapter_def buildRegistry_def supportsModel_def sample_serving_def committed_def sample_authorized_def
      catalog_models_def MODEL_CATALOG_def lit_def split: if_splits option.splits)

theorem completion_end_to_end_witness:
  "\<exists>b env post c. attestation sample_runtime sample_tee 1 None = Some b
     \<and> completion sample_runtime sample_lib sample_random (Inr b) post sample_ask = ([env], Inr c)
     \<and> cs_content c = JStr (lit ''hello'') \<and> cs_model c = JStr (lit ''ctn/demo-model-a'') \<and> cs_commitment c = JStr sample_commitment"
proof -
  obtain b where b: "attestation sample_runtime sample_tee 1 None = Some b" using sample_attestation by blast
  obtain env where e: "sealRequest sample_runtime sample_lib sample_random b sample_ask = Inr (env, lit ''cHJp'', sample_nonce)" by (rule sample_seals)
  have rs: "rnd_responsePrivate sample_random = lit ''cHJp''" "toB64 (rnd_responsePublic sample_random) = lit ''cHVi''"
    by (simp_all add: sample_random_def b64_char_def lit_def)
  let ?io = "sample_gate_io sample_guest"
  have f: "fst (rememberNonce (gi_now ?io) (JStr sample_nonce, 0::nat) (en_seenNonces enclave_boot))"
    by (simp add: rememberNonce_def enclave_boot_def NONCE_MAX_def Let_def)
  have keys: "ab_ingressPublicKey b = tee_ingressPublicKey sample_tee" "ab_enclaveKeyId b = tee_enclaveKeyId sample_tee"
    using attested_keys [OF b] by simp_all
  let ?p = "\<lparr> pl_request = sample_canonical, pl_requestNonce = sample_nonce, pl_responsePublicKey = lit ''cHVi'' \<rparr>"
  have o: "gate_open sample_cfg ?io (Some env) = Inr (env, payload_json ?p, max 1 (gi_decryptMs ?io))"
    using sealed_opens [where cfg = sample_cfg, unfolded sample_cfg_simps, OF sample_platform sample_pair keys e sample_asks] rs by simp
  have m: "aad_model (env_aad env) = req_model sample_canonical" using sealed_fields(2) [OF e sample_asks(1)] by (simp add: request_aad_def)
  obtain tk st where a: "gate_admit sample_cfg ?io (env, payload_json ?p, max 1 (gi_decryptMs ?io)) enclave_boot = (Inr tk, st)"
    "gt_canonical tk = sample_canonical" "gt_nonce tk = JStr sample_nonce" "gt_payload tk = payload_json ?p"
    using sealed_admits [where cfg = sample_cfg and p = ?p, unfolded sample_cfg_simps, OF sample_platform sample_asks(1) m] f by force
  obtain out st' where g: "gate_finish sample_cfg ?io tk st = (Inr out, st')" "go_payload out = payload_json ?p" "go_gateWallMs out = 1"
     "go_authorized out = Some committed" "go_commitment out = sample_commitment"
    using sample_gate_finishes [OF a(3,2), of st] unfolding a(4) committed_def by blast
  have gt: "gateRequest sample_cfg ?io (\<lambda>x. x) (\<lambda>x. x) (Some env) enclave_boot = (Inr out, st')" by (simp add: gateRequest_def o a(1) g(1))
  have rp: "get_prop (go_payload out) ''responsePublicKey'' = Some (JStr (lit ''cHVi''))" by (simp add: g(2) payload_props)
  obtain r body q where d: "runDispatch sample_cfg ok_dispatch prover_boot out [candidate_of r] = (Accepted body, [q])" "er_status body = EX_COMPLETE"
    by (rule sample_dispatch [OF g(4) rp g(3)])
  obtain scr where scr: "er_receipt body = Some scr" by (rule completed_receipt [OF d])
  define post :: "SecureRequestEnvelope \<Rightarrow> http_outcome" where "post = (\<lambda>env. Answered 200 (Some (reply_body (complete_reply 1 (env_requestId env) (ExecuteResult.truncate body)
      \<lparr> sel_credentialId = [], sel_contributorId = [], sel_provider = [], sel_model = [], sel_attempt = 1 \<rparr> scr))))"
  have p: "post env = Answered 200 (Some (reply_body (complete_reply 1 (env_requestId env) (ExecuteResult.truncate body)
      \<lparr> sel_credentialId = [], sel_contributorId = [], sel_provider = [], sel_model = [], sel_attempt = 1 \<rparr> scr')))" if "er_receipt body = Some scr'" for scr'
    using that scr by (simp add: post_def)
  obtain cand cred ad k answer where w: "cand \<in> {candidate_of r}" "authorize sample_cfg cand committed = Some (Inr cred)" "serving_adapter sample_cfg cand committed = Some ad"
      "complete sample_runtime (di_env ok_dispatch k) ad committed cred = ([q], Completed answer)"
      "units16 (rp_content answer) \<longrightarrow>
         (\<exists>c. completion sample_runtime sample_lib sample_random (Inr b) post sample_ask = ([env], Inr c)
           \<and> cs_content c = JStr (rp_content answer) \<and> cs_model c = JStr (req_model sample_canonical) \<and> cs_commitment c = JStr (aq_requestCommitment committed))"
    using completion_end_to_end [where cfg = sample_cfg and post = post, unfolded sample_cfg_simps, OF sample_platform sample_signer sample_pair sample_pair b e sample_asks gt d p] g(4)
    by auto
  have "ad = sample_serving" by (rule only_mock_serves [OF w(3)])
  then have "rp_content answer = lit ''hello''" using w(4) sample_completes [of k cred] by auto
  then show ?thesis using w(5) b by (auto simp: committed_def sample_canonical_def)
qed

definition sample_contribution :: contribution where
  "sample_contribution = \<lparr> ct_contributorId = lit ''alice'', ct_label = lit ''mine'', ct_provider = lit ''mock'', ct_apiKey = lit '' sk-0123456 '',
     ct_allowedModels = [lit ''ctn/demo-model-a''], ct_weight = None, ct_operationalLimits = JUndef \<rparr>"

definition sample_id :: "byte list" where
  "sample_id = [0x01, 0x23, 0x45, 0x67, 0x89, 0xab]"

lemma sample_contributed:
  "contribution_intent sample_contribution sample_id (replicate 32 0) = sample_intent\<lparr> int_secret := lit '' sk-0123456 '' \<rparr>"
proof -
  have "toHex (replicate n 0) = replicate (2 * n) 48" for n
    by (induction n) (simp_all add: toHex_def digit_def)
  from this [of 32] have "toHex (replicate 32 0) = replicate 64 48" by simp
  moreover have "lit ''cred_'' @ toHex sample_id = lit ''cred_0123456789ab''" by (simp add: sample_id_def toHex_def digit_def lit_def)
  ultimately show ?thesis by (simp add: contribution_intent_def sample_contribution_def sample_intent_def)
qed

lemma sample_contribution_text:
  "canonicalJson sample_runtime (intent_json (sample_intent\<lparr> int_secret := lit '' sk-0123456 '' \<rparr>)) = canonicalJson sample_runtime (JObj sample_members)"
  unfolding intent_json_def by (rule sort_members) (simp_all add: sample_members_def sample_intent_def strs_json_def lit_def)

lemma sample_sealed_text: "canonicalJson sample_runtime (JObj sample_members) = Some t \<Longrightarrow> utf8 t = sample_sealed"
  by (simp add: sample_sealed_def del: canonicalJson.simps)

theorem contribution_signed_as_meant_witness:
  "\<exists>b body r s'. attestation sample_runtime sample_tee 1 None = Some b
     \<and> contributeCredential sample_runtime sample_lib sample_id (replicate 32 0) (Inr b) (\<lambda>_. Unreachable) sample_contribution = ([body], Inl ClientThrew)
     \<and> ingest sample_runtime sample_lib sample_tee [5] down_daemon (replicate 12 0) 7 (\<lambda>s. s) (IngestBody.truncate body) sample_ingest_state = (Accepted r, s')
     \<and> cap_contributorId (ing_capability r) = lit ''alice'' \<and> vaultDecrypt sample_lib [5] (ing_encryptedBlob r) = Some (lit ''sk-0123456'')"
proof -
  let ?i = "contribution_intent sample_contribution sample_id (replicate 32 0)"
  obtain b v where b: "attestation sample_runtime sample_tee 1 None = Some b" "verifyAttestationBundle sample_runtime b None = Some v" "bv_valid v"
    using sample_attestation own_bundle_accepted [OF sample_signer] by blast
  have "serialisable (JObj sample_members)" using one_safe by (simp add: sample_members_def del: isSafeInteger.simps)
  then obtain t where t: "canonicalJson sample_runtime (intent_json ?i) = Some t" "utf8 t = sample_sealed"
    unfolding sample_contributed sample_contribution_text using canonicalJson_Some sample_sealed_text by metis
  obtain body where body: "contributeCredential sample_runtime sample_lib sample_id (replicate 32 0) (Inr b) (\<lambda>_. Unreachable) sample_contribution = ([body], Inl ClientThrew)"
    "ib_enclaveKeyId body = tee_enclaveKeyId sample_tee" "ib_encryptedSecret body = toB64 sample_sealed" "ib_credentialId body = int_credentialId ?i"
    using b t attested_keys [OF b(1)]
    by (simp add: contributeCredential_def Let_def hpkeSeal_def sample_lib_def read_json_def del: canonicalJson.simps)
  have o: "openIngress sample_lib sample_tee (ib_enc body) (ib_encryptedSecret body) None = Some sample_sealed"
    by (simp add: body(3) openIngress_def hpkeOpen_def sample_lib_def fromB64_toB64)
  have "ingest_begin sample_runtime sample_lib sample_tee [5] (replicate 12 0) (IngestBody.truncate body) sample_ingest_state
      = ingest_begin sample_runtime sample_lib sample_tee [5] (replicate 12 0) sample_ingest_body sample_ingest_state"
    by (simp add: ingest_begin_def IngestBody.truncate_def o sample_opens sample_sealed_parses body(2,4))
       (simp add: sample_ingest_body_def sample_contributed sample_intent_def)
  then obtain r s' where r: "ingest sample_runtime sample_lib sample_tee [5] down_daemon (replicate 12 0) 7 (\<lambda>s. s) (IngestBody.truncate body) sample_ingest_state = (Accepted r, s')"
    using sample_ingest_accepted [of down_daemon] by (auto simp: ingest_def)
  have n: "normal_intent sample_runtime ?i"
    unfolding sample_contributed by (simp add: normal_intent_def normal_str_def sample_intent_def) (simp add: units16_def)
  have "trim (ct_apiKey sample_contribution) = lit ''sk-0123456''" by (simp add: sample_contribution_def trim_def js_space_def lit_def)
  moreover have "ct_contributorId sample_contribution = lit ''alice''" by (simp add: sample_contribution_def)
  ultimately show ?thesis
    using contribution_signed_as_meant [OF sample_platform sample_signer sample_lib_lawful _ sample_pair b(1) body(1) n r] b(1) body(1) r by (auto simp: wf16_lit)
qed

end
