(* ===== verification/Compat.thy ===== *)
theory Compat
  imports Client Coordinator_Runs
begin

text \<open>
  The compatibility endpoint (\<^verbatim>\<open>services/coordinator/src/compat.ts\<close> and \<^verbatim>\<open>POST /v1/chat/completions\<close>): the coordinator seals a
  plain request on behalf of the caller, keeps the response key in a map, runs the request path and opens the answer.
  Random values, the attestation answer and what other handlers did to the key map meanwhile are arguments. An
  opened answer is read at the type the source declares for it.
\<close>

section \<open>Sealing on behalf of the caller\<close>

type_synonym response_keys = "(jstr \<times> jstr) list"

datatype compat_error = CompatUnavailable | CompatRejected jstr | CompatCanon canon_error | CompatThrew

text \<open>The four members handed to \<open>toCanonicalRequest\<close>; an absent one is \<open>undefined\<close>.\<close>

definition picked :: "json \<Rightarrow> json" where
  "picked body = JObj [(lit ''model'', opt_prop body ''model''), (lit ''messages'', opt_prop body ''messages''),
     (lit ''temperature'', opt_prop body ''temperature''), (lit ''max_tokens'', opt_prop body ''max_tokens'')]"

text \<open>The identifier is \<open>req_\<close> and the 32 hexadecimal digits of a UUID. The key is stored before the payload is sealed.\<close>

definition buildSecureEnvelope ::
  "runtime \<Rightarrow> crypto_lib \<Rightarrow> client_random \<Rightarrow> AttestationBundle tee_result \<Rightarrow> json \<Rightarrow> response_keys
   \<Rightarrow> (compat_error + SecureRequestEnvelope) \<times> response_keys" where
  "buildSecureEnvelope rt lib rnd attested body keys =
     (case attested of
        EnclaveUnavailable \<Rightarrow> (Inl CompatUnavailable, keys)
      | EnclaveRejection code msg st \<Rightarrow> (Inl (CompatRejected msg), keys)
      | TeeOk b \<Rightarrow>
          (case toCanonicalRequest rt (picked body) of
             Inl e \<Rightarrow> (Inl (CompatCanon e), keys)
           | Inr canonical \<Rightarrow>
               (let requestId = lit ''req_'' @ toHex (rnd_id rnd);
                    keys1 = map_put requestId (rnd_responsePrivate rnd) keys
                in (case seal_payload rt lib (ab_ingressPublicKey b) \<lparr> pl_request = canonical, pl_requestNonce = toHex (rnd_nonce rnd),
                           pl_responsePublicKey = toB64 (rnd_responsePublic rnd) \<rparr> of
                      None \<Rightarrow> (Inl CompatThrew, keys1)
                    | Some box \<Rightarrow>
                        (Inr \<lparr> env_version = lit ''ctn-1'', env_requestId = requestId, env_enclaveKeyId = ab_enclaveKeyId b,
                               env_enc = resp_enc box, env_ciphertext = resp_ciphertext box, env_aad = request_aad canonical \<rparr>, keys1)))))"

section \<open>Opening the answer\<close>

record opened_response =
  or_model :: jstr
  or_content :: jstr
  or_inputTokens :: rat
  or_outputTokens :: rat

definition read_opened :: "json \<Rightarrow> opened_response option" where
  "read_opened v =
     (case (opt_prop v ''model'', opt_prop v ''content'', opt_prop (opt_prop v ''usage'') ''inputTokens'', opt_prop (opt_prop v ''usage'') ''outputTokens'') of
        (JStr m, JStr c, JNum (Fin i), JNum (Fin u)) \<Rightarrow> Some \<lparr> or_model = m, or_content = c, or_inputTokens = i, or_outputTokens = u \<rparr>
      | _ \<Rightarrow> None)"

text \<open>The key is deleted before it is used, so it opens at most one answer. An empty key is falsy.\<close>

definition openResponse :: "runtime \<Rightarrow> crypto_lib \<Rightarrow> jstr \<Rightarrow> json \<Rightarrow> response_keys \<Rightarrow> opened_response option \<times> response_keys" where
  "openResponse rt lib requestId encrypted keys =
     (case map_of keys requestId of
        None \<Rightarrow> (None, map_del requestId keys)
      | Some sk \<Rightarrow>
          (if sk = [] then None else Option.bind (open_answer rt lib sk encrypted) read_opened, map_del requestId keys))"

section \<open>The endpoint\<close>

definition PRIVACY_NOTE :: jstr where
  "PRIVACY_NOTE = lit ''TLS terminated at the coordinator, so this endpoint does not provide operator-blind prompt confidentiality. Use /v1/secure/chat/completions for that.''"

definition compat_body :: "runtime \<Rightarrow> int \<Rightarrow> jstr \<Rightarrow> opened_response \<Rightarrow> json \<Rightarrow> json" where
  "compat_body rt now requestId d result = JObj [(lit ''id'', JStr (lit ''chatcmpl-'' @ requestId)), (lit ''object'', JStr (lit ''chat.completion'')),
     (lit ''created'', JInt (now div 1000)), (lit ''model'', JStr (or_model d)),
     (lit ''choices'', JArr [JObj [(lit ''index'', JInt 0),
        (lit ''message'', JObj [(lit ''role'', JStr (lit ''assistant'')), (lit ''content'', JStr (or_content d))]), (lit ''finish_reason'', JStr (lit ''stop''))]]),
     (lit ''usage'', JObj [(lit ''prompt_tokens'', JNum (Fin (or_inputTokens d))), (lit ''completion_tokens'', JNum (Fin (or_outputTokens d))),
        (lit ''total_tokens'', JNum (Fin (dbl rt (or_inputTokens d + or_outputTokens d))))]),
     (lit ''ctn'', JObj [(lit ''request_id'', JStr requestId), (lit ''privacy_mode'', JStr (lit ''compatibility'')), (lit ''privacy_note'', JStr PRIVACY_NOTE),
        (lit ''receipt'', opt_prop result ''receipt''), (lit ''route'', opt_prop result ''route''), (lit ''trust_status'', JStr (lit ''COMPATIBILITY''))])]"

definition is_array :: "json \<Rightarrow> bool" where
  "is_array v = (case v of JArr _ \<Rightarrow> True | _ \<Rightarrow> False)"

text \<open>\<open>err_text\<close> is the message of a thrown error; \<open>others\<close> is what the other handlers did to the key map while this one
  was in the request path.\<close>

definition postCompat ::
  "runtime \<Rightarrow> crypto_lib \<Rightarrow> client_random \<Rightarrow> (compat_error \<Rightarrow> jstr) \<Rightarrow> AttestationBundle tee_result \<Rightarrow> (response_keys \<Rightarrow> response_keys)
   \<Rightarrow> request_world \<Rightarrow> int \<Rightarrow> json \<Rightarrow> response_keys \<Rightarrow> database \<Rightarrow> reply \<times> response_keys \<times> database" where
  "postCompat rt lib rnd err_text attested others w now body keys db =
     (if \<not> truthy (opt_prop body ''model'') \<or> \<not> is_array (opt_prop body ''messages'')
      then (Reply 400 (err_json ''CTN_INVALID_ENVELOPE'' ''model and messages are required''), keys, db)
      else (case buildSecureEnvelope rt lib rnd attested body keys of
              (Inl e, keys1) \<Rightarrow>
                (if e = CompatUnavailable then enclave_unavailable
                 else Reply 400 (JObj [(lit ''error'', JObj [(lit ''code'', JStr (lit ''CTN_INVALID_ENVELOPE'')), (lit ''message'', JStr (err_text e))])]), keys1, db)
            | (Inr env, keys1) \<Rightarrow>
                (case runSecureRequest rt w env compatibility db of
                   (r, db1) \<Rightarrow>
                     if reply_code r \<noteq> 200 then (r, others keys1, db1)
                     else (case openResponse rt lib (env_requestId env) (opt_prop (reply_body r) ''encrypted_response'') (others keys1) of
                             (None, keys2) \<Rightarrow> (internal_error, keys2, db1)
                           | (Some d, keys2) \<Rightarrow> (Reply 200 (compat_body rt now (env_requestId env) d (reply_body r)), keys2, db1)))))"

section \<open>The endpoint does what the client would have done\<close>

lemma compat_seals_as_client:
  assumes "buildSecureEnvelope rt lib rnd (TeeOk b) body keys = (Inr env, keys1)"
  shows "sealRequest rt lib rnd b (picked body) = Inr (env, rnd_responsePrivate rnd, toHex (rnd_nonce rnd))"
    "keys1 = map_put (env_requestId env) (rnd_responsePrivate rnd) keys" "env_requestId env = lit ''req_'' @ toHex (rnd_id rnd)"
  using assms by (auto simp: buildSecureEnvelope_def sealRequest_def Let_def split: sum.splits option.splits)

lemma read_opened_Some:
  assumes "read_opened v = Some d"
  shows "opt_prop v ''model'' = JStr (or_model d)" "opt_prop v ''content'' = JStr (or_content d)" "\<not> nullish v"
    "opt_prop (opt_prop v ''usage'') ''inputTokens'' = JNum (Fin (or_inputTokens d))" "opt_prop (opt_prop v ''usage'') ''outputTokens'' = JNum (Fin (or_outputTokens d))"
  using assms by (auto simp: read_opened_def nullish_def opt_prop_def split: json.splits jsnum.splits)

text \<open>C33. The compatibility endpoint changes who seals, not what is sealed or answered. When it answers 200, then a client
  with the same randomness and the same attestation, whose envelope went through the same request path, would have
  sent the same envelope and read the same content, model, token counts and commitment; the trust status the endpoint
  states is COMPATIBILITY, and the response key of the request is gone.\<close>

theorem compat_answers_as_client:
  assumes vb: "verifyAttestationBundle rt b None = Some v" "bv_valid v"
    and others: "\<And>ks. map_of (others ks) (lit ''req_'' @ toHex (rnd_id rnd)) = map_of ks (lit ''req_'' @ toHex (rnd_id rnd))"
    and relay: "\<And>env. post env = (case runSecureRequest rt w env compatibility db of (r, _) \<Rightarrow> Answered (reply_code r) (Some (reply_body r)))"
    and ans: "postCompat rt lib rnd err_text (TeeOk b) others w now body keys db = (rep, keys', db')" "reply_code rep = 200"
  shows "\<exists>env c i u. completion rt lib rnd (Inr b) post (picked body) = ([env], Inr c)
     \<and> db' = snd (runSecureRequest rt w env compatibility db)
     \<and> opt_prop (reply_body rep) ''model'' = cs_model c
     \<and> opt_prop (reply_body rep) ''choices'' = JArr [JObj [(lit ''index'', JInt 0),
          (lit ''message'', JObj [(lit ''role'', JStr (lit ''assistant'')), (lit ''content'', cs_content c)]), (lit ''finish_reason'', JStr (lit ''stop''))]]
     \<and> opt_prop (cs_usage c) ''inputTokens'' = JNum (Fin i) \<and> opt_prop (cs_usage c) ''outputTokens'' = JNum (Fin u)
     \<and> opt_prop (reply_body rep) ''usage'' = JObj [(lit ''prompt_tokens'', JNum (Fin i)), (lit ''completion_tokens'', JNum (Fin u)), (lit ''total_tokens'', JNum (Fin (dbl rt (i + u))))]
     \<and> or_else (opt_prop (opt_prop (opt_prop (reply_body rep) ''ctn'') ''receipt'') ''request_commitment'') (JStr []) = cs_commitment c
     \<and> opt_prop (opt_prop (reply_body rep) ''ctn'') ''trust_status'' = JStr (lit ''COMPATIBILITY'')
     \<and> map_of keys' (env_requestId env) = None"
proof -
  have no: "reply_code internal_error \<noteq> 200" "reply_code enclave_unavailable \<noteq> 200" by (simp_all add: internal_error_def enclave_unavailable_def)
  obtain env keys1 where e: "buildSecureEnvelope rt lib rnd (TeeOk b) body keys = (Inr env, keys1)"
    using ans no by (auto simp: postCompat_def split: if_splits sum.splits prod.splits)
  obtain r db1 where r: "runSecureRequest rt w env compatibility db = (r, db1)" by fastforce
  obtain d keys2 where d: "openResponse rt lib (env_requestId env) (opt_prop (reply_body r) ''encrypted_response'') (others keys1) = (Some d, keys2)"
    and rep: "reply_code r = 200" "rep = Reply 200 (compat_body rt now (env_requestId env) d (reply_body r))" "keys' = keys2" "db' = db1"
    using ans e r no by (auto simp: postCompat_def split: if_splits option.splits prod.splits)
  note s = compat_seals_as_client [OF e]
  have "map_of (others keys1) (env_requestId env) = Some (rnd_responsePrivate rnd)"
    using others [of keys1] s(2,3) by (simp add: map_of_put)
  then obtain opened where o: "open_answer rt lib (rnd_responsePrivate rnd) (opt_prop (reply_body r) ''encrypted_response'') = Some opened" "read_opened opened = Some d"
    and k2: "keys2 = map_del (env_requestId env) (others keys1)"
    using d by (auto simp: openResponse_def bind_eq_Some_conv split: if_splits)
  note d = read_opened_Some [OF o(2)]
  have g: "get_prop (reply_body r) ''encrypted_response'' = Some (opt_prop (reply_body r) ''encrypted_response'')"
    using o(1) by (cases "reply_body r") (auto simp: opt_prop_def open_answer_def)
  obtain c where c: "completion rt lib rnd (Inr b) post (picked body) = ([env], Inr c)" "cs_model c = JStr (or_model d)" "cs_content c = JStr (or_content d)"
     "cs_usage c = opt_prop opened ''usage''" "cs_commitment c = or_else (opt_prop (opt_prop (reply_body r) ''receipt'') ''request_commitment'') (JStr [])"
    using vb s(1) relay r rep(1) o(1) g d(1-3) by (simp add: completion_def read_completion_def Let_def)
  show ?thesis
    by (rule exI [of _ env], rule exI [of _ c], rule exI [of _ "or_inputTokens d"], rule exI [of _ "or_outputTokens d"])
       (use c d r rep k2 in \<open>simp add: compat_body_def opt_prop_def lit_def map_of_del\<close>)
qed

text \<open>The key of a request that is refused is never removed.\<close>

lemma refused_key_kept:
  assumes "buildSecureEnvelope rt lib rnd (TeeOk b) body keys = (Inr env, keys1)" "runSecureRequest rt w env compatibility db = (r, db1)" "reply_code r \<noteq> 200"
    "truthy (opt_prop body ''model'')" "is_array (opt_prop body ''messages'')"
  shows "postCompat rt lib rnd err_text (TeeOk b) (\<lambda>ks. ks) w now body keys db = (r, keys1, db1)" "map_of keys1 (env_requestId env) = Some (rnd_responsePrivate rnd)"
  using assms compat_seals_as_client(2) [OF assms(1)] by (simp_all add: postCompat_def map_of_put)

section \<open>A plain request\<close>

definition compat_plaintext :: json where
  "compat_plaintext = JObj [(lit ''requestId'', JStr (lit ''req_01'')), (lit ''model'', JStr (lit ''ctn/demo-model-a'')), (lit ''content'', JStr (lit ''hello'')),
     (lit ''usage'', JObj [(lit ''inputTokens'', JInt 1), (lit ''outputTokens'', JInt 2)])]"

definition compat_box :: SecureResponse where
  "compat_box = \<lparr> resp_enc = toB64 [], resp_ciphertext = toB64 (utf8 (stringify sample_runtime compat_plaintext)) \<rparr>"

definition compat_world :: request_world where
  "compat_world = \<lparr> rw_now = \<lambda>_. 5, rw_ms = \<lambda>_. 1, rw_gate = TeeOk run_verdict, rw_attestation = None,
     rw_execute = \<lambda>_ _. TeeOk (run_result\<lparr> er_encryptedResponse := Some compat_box \<rparr>), rw_during = \<lambda>_ d. d \<rparr>"

lemma compat_run:
  assumes e: "env_requestId env = rid" "aad_model (env_aad env) = lit ''ctn/demo-model-a''" "rid \<noteq> lit ''r1''"
  obtains d where "runSecureRequest sample_runtime compat_world env compatibility run_db
     = (complete_reply 1 rid (run_result\<lparr> er_encryptedResponse := Some compat_box \<rparr>) run_selected run_receipt, d)"
proof -
  let ?res = "run_result\<lparr> er_encryptedResponse := Some compat_box \<rparr>"
  have n: "map_of (requests run_db) (env_requestId env) = None" by (simp add: run_db_def)
  have em: "proofs run_db = []" "usage run_db = []" "compute_receipts run_db = []" by (simp_all add: run_db_def sample_db_def empty_db_def)
  obtain d1 where d1: "begin_request sample_runtime 5 env compatibility run_db = Inr d1" "map_of (requests d1) rid = Some (new_request_row 5 (lit ''ctn/demo-model-a'') compatibility)"
    "proofs d1 = []" "usage d1 = []" "compute_receipts d1 = []" "credentials d1 = credentials run_db"
    using begin_ok [OF sample_guard n, of 5 compatibility] e em by metis
  obtain d2 r where d2: "on_gate sample_runtime 5 1 rid (TeeOk run_verdict) d1 = (Inr run_verdict, d2)" "map_of (requests d2) rid = Some r"
    "proofs d2 = []" "usage d2 = []" "compute_receipts d2 = []" "credentials d2 = credentials run_db"
    using gate_ok [OF d1(2), of sample_runtime 5 1 run_verdict] d1(3-6) by metis
  have c: "candidates (fst (discoverCandidates sample_runtime 5 (aad_model (env_aad env)) (gr_policyId run_verdict) d)) \<noteq> []" if "credentials d = credentials d2" for d
    using run_offers [of d] that d2(6) e by (simp add: run_verdict_def)
  have r2: "map_of (requests d2) (env_requestId env) = Some r" and p2: "map_of (proofs d2) (proof_id (env_requestId env)) = None" using d2 e by simp_all
  have v: "gr_proofStarted run_verdict" "gr_decision run_verdict = ALLOW" by (simp_all add: run_verdict_def)
  obtain cands d3 where d3: "on_attestation sample_runtime 5 1 env compatibility run_verdict None d2 = (Inr cands, True, d3)"
    "map_of (requests d3) rid = Some (r\<lparr> rq_proof_status := QUEUED \<rparr>)" "usage d3 = []" "compute_receipts d3 = []"
    by (rule attest_ok [OF sample_guard r2 p2 v c, where ms = 1 and mode = compatibility]) (use d2 e in auto)
  have q: "map_of (usage d3) (usage_id rid) = None" "map_of (compute_receipts d3) (receipt_id rid) = None" using d3 by simp_all
  have x: "er_status ?res = EX_COMPLETE" "er_attempts ?res = []" "er_selected ?res = Some run_selected" "er_receipt ?res = Some run_receipt"
    by (simp_all add: run_result_def)
  obtain d where "on_execute sample_runtime 5 1 rid compatibility run_verdict (TeeOk ?res) d3 = (complete_reply 1 rid ?res run_selected run_receipt, d)"
    by (rule execute_ok [OF sample_guard d3(2) q x]) auto
  then show thesis using that d1(1) d2(1) d3(1) e by (simp add: runSecureRequest_def compat_world_def Let_def)
qed

lemma compat_plain: "plain_json compat_plaintext"
proof -
  have k: "\<forall>c \<in> set (lit k). c < 65536" for k using units16_simps(1) by (simp add: units16_def)
  have "plain_json (JInt 1)" "plain_json (JInt 2)" using small_int_plain [of 1] small_int_plain [of 2] by (simp_all add: MAX_SAFE_def)
  then show ?thesis using k by (simp add: compat_plaintext_def del: plain_json.simps(3))
qed

lemma compat_opens: "open_answer sample_runtime sample_lib sk (JObj [(lit ''enc'', JStr (resp_enc compat_box)), (lit ''ciphertext'', JStr (resp_ciphertext compat_box))]) = Some compat_plaintext"
  by (rule answer_opens [OF sample_platform _ compat_plain]) (simp add: compat_box_def hpkeOpen_def sample_lib_def fromB64_toB64)

lemma compat_asks: "toCanonicalRequest sample_runtime (picked sample_ask) = Inr (sample_canonical\<lparr> temperature_millis := 1000 \<rparr>)"
proof -
  have "is_integral 1024" "floor (1024 :: rat) = 1024" by (simp_all add: is_integral_def floor_eq_iff)
  then show ?thesis
    by (simp add: picked_def sample_ask_def opt_prop_def toCanonicalRequest_def sample_inner_def sample_canonical_def sample_request_def canon_message_def
        canon_temperature_def MAX_SAFE_def)
qed

theorem compat_answers_as_client_witness:
  "\<exists>b post env c rep keys' db'. attestation sample_runtime sample_tee 1 None = Some b
     \<and> postCompat sample_runtime sample_lib sample_random (\<lambda>_. []) (TeeOk b) (\<lambda>ks. ks) compat_world 1000 sample_ask [] run_db = (rep, keys', db')
     \<and> completion sample_runtime sample_lib sample_random (Inr b) post (picked sample_ask) = ([env], Inr c)
     \<and> opt_prop (reply_body rep) ''model'' = cs_model c \<and> map_of keys' (env_requestId env) = None"
proof -
  obtain b v where b: "attestation sample_runtime sample_tee 1 None = Some b" "verifyAttestationBundle sample_runtime b None = Some v" "bv_valid v"
    using sample_attestation own_bundle_accepted [OF sample_signer] by blast
  let ?can = "sample_canonical\<lparr> temperature_millis := 1000 \<rparr>"
  have "serialisable (aad_json (request_aad ?can))" by (simp add: aad_json_def)
  then obtain t where "canonicalJson sample_runtime (aad_json (request_aad ?can)) = Some t" using canonicalJson_Some by blast
  then obtain env keys1 where e: "buildSecureEnvelope sample_runtime sample_lib sample_random (TeeOk b) sample_ask [] = (Inr env, keys1)"
      "env_requestId env = lit ''req_01''" "aad_model (env_aad env) = lit ''ctn/demo-model-a''"
    using compat_asks by (simp add: buildSecureEnvelope_def Let_def seal_payload_def hpkeSeal_def sample_lib_def sample_random_def request_aad_def sample_canonical_def sample_request_def
        toHex_def digit_def lit_def del: canonicalJson.simps)
  obtain d where d: "runSecureRequest sample_runtime compat_world env compatibility run_db
     = (complete_reply 1 (lit ''req_01'') (run_result\<lparr> er_encryptedResponse := Some compat_box \<rparr>) run_selected run_receipt, d)"
    by (rule compat_run [OF e(2,3)]) (simp add: lit_def)
  have k: "map_of keys1 (lit ''req_01'') = Some (rnd_responsePrivate sample_random)" "rnd_responsePrivate sample_random \<noteq> []"
    using compat_seals_as_client(2) [OF e(1)] e(2) by (simp_all add: sample_random_def lit_def)
  have g: "truthy (opt_prop sample_ask ''model'')" "is_array (opt_prop sample_ask ''messages'')"
    by (simp_all add: sample_ask_def sample_inner_def opt_prop_def is_array_def lit_def)
  have op: "read_opened compat_plaintext \<noteq> None" by (simp add: read_opened_def compat_plaintext_def opt_prop_def lit_def)
  let ?r = "complete_reply 1 (lit ''req_01'') (run_result\<lparr> er_encryptedResponse := Some compat_box \<rparr>) run_selected run_receipt"
  have enc: "opt_prop (reply_body ?r) ''encrypted_response'' = JObj [(lit ''enc'', JStr (resp_enc compat_box)), (lit ''ciphertext'', JStr (resp_ciphertext compat_box))]"
    by (simp add: complete_reply_def opt_prop_def opt_json_def lit_def)
  have c200: "reply_code ?r = 200" by (simp add: complete_reply_def)
  obtain od keys2 where o: "openResponse sample_runtime sample_lib (lit ''req_01'') (opt_prop (reply_body ?r) ''encrypted_response'') keys1 = (Some od, keys2)"
    using k op by (auto simp: openResponse_def enc compat_opens)
  obtain rep where rep: "postCompat sample_runtime sample_lib sample_random (\<lambda>_. []) (TeeOk b) (\<lambda>ks. ks) compat_world 1000 sample_ask [] run_db = (rep, keys2, d)" "reply_code rep = 200"
    using g e(1,2) d c200 o by (simp add: postCompat_def)
  define post where "post = (\<lambda>env. case runSecureRequest sample_runtime compat_world env compatibility run_db of (r, _) \<Rightarrow> Answered (reply_code r) (Some (reply_body r)))"
  from compat_answers_as_client [where post = post and others = "\<lambda>ks. ks", OF b(2,3) refl _ rep] b(1) rep(1) show ?thesis
    unfolding post_def by blast
qed

end
