(* ===== verification/Reports.thy ===== *)
theory Reports
  imports Artifact_Verify Coordinator_Runs
begin

text \<open>
  The read side of the coordinator (\<^verbatim>\<open>services/coordinator/src/index.ts\<close>): proof, receipt and request views, the
  listings of requests, contributors and credentials, the relayed enclave endpoints with the bulletin cache, and the
  telemetry of \<^verbatim>\<open>GET /v1/stats\<close>. A JSON answer is a record with one field per member. What SQLite decides and the
  statement does not (the order of rows with equal sort keys is the table order; the rounding of \<open>SUM\<close> over reals) is
  noted or an argument.
\<close>

section \<open>Queries\<close>

definition first_where :: "('v \<Rightarrow> bool) \<Rightarrow> ('k \<times> 'v) list \<Rightarrow> ('k \<times> 'v) option" where
  "first_where p t = find (\<lambda>(k, v). p v) t"

definition rows_where :: "('v \<Rightarrow> bool) \<Rightarrow> ('k \<times> 'v) list \<Rightarrow> 'v list" where
  "rows_where p t = filter p (map snd t)"

definition order_by :: "('a \<Rightarrow> int) \<Rightarrow> 'a list \<Rightarrow> 'a list" where
  "order_by key xs = js_sort (\<lambda>x y. key x - key y) xs"

section \<open>One request\<close>

datatype 'a view = Unknown_request | Not_required | View 'a

record proof_view =
  pw_request_commitment :: "jstr option"
  pw_policy_id :: "jstr option"
  pw_view_decision :: "PolicyDecision option"
  pw_guest_image_id :: jstr
  pw_proof_status :: ProofStatus
  pw_proof_verified :: bool
  pw_proof_ms :: "int option"
  pw_error :: "jstr option"
  pw_artifact_digest :: "jstr option"
  pw_artifact :: "ProofArtifactWireV1 option"
  pw_binding :: "SignedProofBindingV2 option"
  pw_verification :: "(bool \<times> SubprocessCheck list) option"

text \<open>\<open>verify\<close> is \<open>teeClient.verify\<close>; a refusal or an outage leaves the verification \<open>null\<close>.\<close>

definition ok_or_null :: "'a tee_result \<Rightarrow> 'a option" where
  "ok_or_null r = (case r of TeeOk v \<Rightarrow> Some v | _ \<Rightarrow> None)"

definition getRequestProof :: "(verify_body \<Rightarrow> verify_answer tee_result) \<Rightarrow> database \<Rightarrow> jstr \<Rightarrow> proof_view view" where
  "getRequestProof verify db requestId =
     (case map_of (requests db) requestId of
        None \<Rightarrow> Unknown_request
      | Some req \<Rightarrow>
          (case first_where (\<lambda>p. pf_request_id p = requestId) (proofs db) of
             None \<Rightarrow> Not_required
           | Some (_, row) \<Rightarrow>
               (let artifact = pf_receipt_blob row in
                View \<lparr> pw_request_commitment = rq_request_commitment req, pw_policy_id = rq_policy_id req,
                  pw_view_decision = (case rq_policy_result req of Some d \<Rightarrow> Some d
                     | None \<Rightarrow> map_option (\<lambda>a. jr_decision (wire_decodedJournal a)) artifact),
                  pw_guest_image_id = pf_guest_image_id row, pw_proof_status = pf_status row, pw_proof_verified = pf_verified row,
                  pw_proof_ms = pf_proof_ms row, pw_error = pf_error row, pw_artifact_digest = pf_receipt_digest row,
                  pw_artifact = artifact, pw_binding = pf_binding_json row,
                  pw_verification = (case artifact of
                     None \<Rightarrow> None
                   | Some a \<Rightarrow> Option.bind (ok_or_null (verify \<lparr> vb_artifact = Some a, vb_receipt = None, vb_binding = None \<rparr>)) va_proof) \<rparr>)))"

record receipt_view =
  rv_receipt_id :: "jstr option"
  rv_proof_status :: ProofStatus
  rv_trust_status :: "TrustStatus option"
  rv_signed_receipt :: "SignedComputeReceipt option"
  rv_proof_artifact :: "ProofArtifactWireV1 option"
  rv_proof_binding :: "SignedProofBindingV2 option"
  rv_verification :: "verify_answer option"

definition getReceipt :: "(verify_body \<Rightarrow> verify_answer tee_result) \<Rightarrow> database \<Rightarrow> jstr \<Rightarrow> receipt_view option" where
  "getReceipt verify db requestId =
     (case map_of (requests db) requestId of
        None \<Rightarrow> None
      | Some req \<Rightarrow>
          (let receiptRow = first_where (\<lambda>r. cp_request_id r = requestId) (compute_receipts db);
               proofRow = map_option snd (first_where (\<lambda>p. pf_request_id p = requestId) (proofs db));
               signedReceipt = map_option (\<lambda>(_, r). \<lparr> scr_receipt = cp_receipt r, scr_enclaveSignature = cp_signature r \<rparr>) receiptRow;
               artifact = Option.bind proofRow pf_receipt_blob;
               binding = Option.bind proofRow pf_binding_json
           in Some \<lparr> rv_receipt_id = map_option fst receiptRow, rv_proof_status = rq_proof_status req, rv_trust_status = rq_trust_status req,
                rv_signed_receipt = signedReceipt, rv_proof_artifact = artifact, rv_proof_binding = binding,
                rv_verification = (case signedReceipt of
                   None \<Rightarrow> None
                 | Some sr \<Rightarrow> ok_or_null (verify \<lparr> vb_artifact = artifact, vb_receipt = Some sr, vb_binding = binding \<rparr>)) \<rparr>))"

record proof_summary =
  pm_status :: ProofStatus
  pm_verified :: bool
  pm_guestImageId :: jstr
  pm_proofMs :: "int option"
  pm_artifactDigest :: "jstr option"
  pm_decisionReceiptDigest :: "jstr option"
  pm_error :: "jstr option"

record request_view =
  qv_id :: jstr
  qv_request :: request_row
  qv_prompt :: jstr
  qv_response :: jstr
  qv_contributor :: "(jstr \<times> jstr) option"
  qv_attempts :: "provider_attempt_row list"
  qv_proof :: "proof_summary option"
  qv_policyDecisionReceipt :: "SignedPolicyDecisionReceiptV1 option"

text \<open>The view copies every column of the request row; the join finds the contributor of the credential that served.\<close>

definition getRequest :: "database \<Rightarrow> jstr \<Rightarrow> request_view option" where
  "getRequest db requestId =
     map_option (\<lambda>req.
       \<lparr> qv_id = requestId, qv_request = req, qv_prompt = lit ''PRIVATE'', qv_response = lit ''PRIVATE'',
         qv_contributor = (case rq_selected_credential_id req of
            None \<Rightarrow> None
          | Some [] \<Rightarrow> None
          | Some cid \<Rightarrow> Option.bind (map_of (credentials db) cid) (\<lambda>cr.
              map_option (\<lambda>c. (contributor_id cr, ct_display_name c)) (map_of (contributors db) (contributor_id cr)))),
         qv_attempts = order_by pa_attempt_number (rows_where (\<lambda>a. pa_request_id a = requestId) (provider_attempts db)),
         qv_proof = map_option (\<lambda>(_, p). \<lparr> pm_status = pf_status p, pm_verified = pf_verified p, pm_guestImageId = pf_guest_image_id p,
             pm_proofMs = pf_proof_ms p, pm_artifactDigest = pf_receipt_digest p,
             pm_decisionReceiptDigest = map_option (\<lambda>b. bind_decisionReceiptDigest (sb_binding b)) (pf_binding_json p), pm_error = pf_error p \<rparr>)
           (first_where (\<lambda>p. pf_request_id p = requestId) (proofs db)),
         qv_policyDecisionReceipt = map_option (\<lambda>d. \<lparr> sdr_receipt = dc_receipt d, sdr_enclaveSignature = dc_signature d \<rparr>)
           (map_of (decision_receipts db) requestId) \<rparr>)
     (map_of (requests db) requestId)"

section \<open>Listings\<close>

text \<open>\<open>LIMIT\<close>: a value that is not an integer is an error (the server answers 500), a negative one means no limit.\<close>

definition sql_limit :: "jsnum \<Rightarrow> 'a list \<Rightarrow> 'a list option" where
  "sql_limit n rows = (case n of
     Fin q \<Rightarrow> if \<not> is_integral q then None else Some (if q < 0 then rows else take (nat \<lfloor>q\<rfloor>) rows)
   | _ \<Rightarrow> None)"

definition js_min :: "jsnum \<Rightarrow> rat \<Rightarrow> jsnum" where
  "js_min x c = (case x of Fin q \<Rightarrow> Fin (min q c) | PosInf \<Rightarrow> Fin c | NegInf \<Rightarrow> NegInf | NaN \<Rightarrow> NaN)"

definition listRequests :: "jsnum option \<Rightarrow> database \<Rightarrow> (jstr \<times> request_row) list option" where
  "listRequests limit db =
     sql_limit (js_min (case limit of None \<Rightarrow> Fin 50 | Some x \<Rightarrow> x) 200) (order_by (\<lambda>(_, r). - rq_created_at r) (requests db))"

definition listContributors :: "database \<Rightarrow> (jstr \<times> contributor_row \<times> nat) list" where
  "listContributors db =
     map (\<lambda>(cid, c). (cid, c, length (rows_where (\<lambda>r. contributor_id r = cid) (credentials db))))
       (order_by (\<lambda>(_, c). ct_created_at c) (contributors db))"

record credential_view =
  kv_id :: jstr
  kv_contributorId :: jstr
  kv_label :: jstr
  kv_provider :: jstr
  kv_status :: cred_status
  kv_weight :: int
  kv_rawCredential :: jstr
  kv_keyFingerprint :: jstr
  kv_capability :: CredentialCapability
  kv_capabilitySignature :: jstr
  kv_createdAt :: int
  kv_lastUsedAt :: "int option"
  kv_cooldownUntil :: "int option"
  kv_failureCount :: int
  kv_dailyUsd :: "rat option"
  kv_dailyRequests :: "int option"
  kv_requestsToday :: int
  kv_costToday :: rat
  kv_totalRequests :: nat
  kv_totalTokens :: int
  kv_totalCost :: rat

definition round_micro :: "runtime \<Rightarrow> rat \<Rightarrow> rat" where
  "round_micro rt usd = dbl rt (of_int (js_round (dbl rt (usd * 1000000))) / 1000000)"

definition tokens_of :: "usage_row \<Rightarrow> int" where
  "tokens_of u = us_input_tokens u + us_output_tokens u"

definition credential_view_of :: "runtime \<Rightarrow> (rat list \<Rightarrow> rat) \<Rightarrow> database \<Rightarrow> jstr \<times> CredentialRow \<Rightarrow> credential_view" where
  "credential_view_of rt sql_sum db kr = (case kr of (cid, r) \<Rightarrow>
     (let used = rows_where (\<lambda>u. us_credential_id u = cid) (usage db) in
      \<lparr> kv_id = cid, kv_contributorId = contributor_id r, kv_label = label r, kv_provider = provider r, kv_status = status r,
        kv_weight = weight r, kv_rawCredential = lit ''HIDDEN'', kv_keyFingerprint = key_fingerprint r, kv_capability = capability r,
        kv_capabilitySignature = capability_signature r, kv_createdAt = created_at r, kv_lastUsedAt = last_used_at r,
        kv_cooldownUntil = cooldown_until r, kv_failureCount = failure_count r, kv_dailyUsd = operational_daily_usd_limit r,
        kv_dailyRequests = operational_daily_request_limit r, kv_requestsToday = requests_today r,
        kv_costToday = round_micro rt (estimated_cost_today_usd r), kv_totalRequests = length used,
        kv_totalTokens = sum_list (map tokens_of used), kv_totalCost = round_micro rt (sql_sum (map us_estimated_cost_usd used)) \<rparr>))"

definition listCredentials :: "runtime \<Rightarrow> (rat list \<Rightarrow> rat) \<Rightarrow> jstr option \<Rightarrow> database \<Rightarrow> credential_view list" where
  "listCredentials rt sql_sum contributorId db =
     map (credential_view_of rt sql_sum db) (order_by (\<lambda>(_, r). created_at r)
       (filter (\<lambda>(_, r). contributorId = None \<or> contributorId = Some [] \<or> contributorId = Some (contributor_id r)) (credentials db)))"

section \<open>Relayed endpoints\<close>

definition relay :: "'a tee_result \<Rightarrow> reply + 'a" where
  "relay r = (case r of TeeOk v \<Rightarrow> Inr v | _ \<Rightarrow> Inl enclave_unavailable)"

text \<open>\<^verbatim>\<open>GET /v1/insights\<close> with the module variable \<open>lastInsightsBulletin\<close>.\<close>

definition getInsightsRelay :: "SignedInsightsBulletinV1 tee_result \<Rightarrow> SignedInsightsBulletinV1 option
    \<Rightarrow> (reply + SignedInsightsBulletinV1) \<times> SignedInsightsBulletinV1 option" where
  "getInsightsRelay r lastBulletin = (case r of
     TeeOk b \<Rightarrow> (Inr b, Some b)
   | _ \<Rightarrow> (case lastBulletin of Some b \<Rightarrow> (Inr b, lastBulletin) | None \<Rightarrow> (Inl enclave_unavailable, lastBulletin)))"

text \<open>\<^verbatim>\<open>POST /v1/policy/test\<close>: an envelope without ciphertext is refused here.\<close>

definition policyTestRelay :: "SecureRequestEnvelope option \<Rightarrow> 'a tee_result \<Rightarrow> reply + 'a" where
  "policyTestRelay envelope answer =
     (if (case envelope of None \<Rightarrow> True | Some e \<Rightarrow> env_ciphertext e = [])
      then Inl (Reply 400 (err_json ''CTN_INVALID_ENVELOPE'' ''envelope is required''))
      else (case answer of
              TeeOk v \<Rightarrow> Inr v
            | EnclaveRejection code msg _ \<Rightarrow> Inl (Reply 400 (JObj [(lit ''error'', JObj [(lit ''code'', JStr code), (lit ''message'', JStr msg)])]))
            | EnclaveUnavailable \<Rightarrow> Inl enclave_unavailable))"

section \<open>Telemetry\<close>

definition percentile :: "runtime \<Rightarrow> int list \<Rightarrow> int \<Rightarrow> int option" where
  "percentile rt vals p =
     (if vals = [] then None
      else (let sorted = js_sort (\<lambda>a b. a - b) vals;
                idx = min (int (length sorted) - 1) \<lfloor>dbl rt (dbl rt (of_int p / 100) * of_nat (length sorted))\<rfloor>
            in Some (sorted ! nat idx)))"

definition positives :: "(request_row \<Rightarrow> int option) \<Rightarrow> request_row list \<Rightarrow> int list" where
  "positives key rows = filter (\<lambda>v. 0 < v) (List.map_filter key rows)"

record latency_stats =
  la_policy :: "int option \<times> int option"
  la_proof :: "int option \<times> int option"
  la_provider :: "int option \<times> int option"
  la_overall :: "int option \<times> int option"

record stats_view =
  sv_requests :: nat
  sv_complete :: nat
  sv_denied :: nat
  sv_failed :: nat
  sv_proofsVerified :: nat
  sv_proofsFailed :: nat
  sv_contributors :: nat
  sv_credentials :: nat
  sv_latency :: latency_stats
  sv_addedP50 :: "int option"
  sv_addedP95 :: "int option"
  sv_serializedP50 :: "int option"
  sv_samples :: nat
  sv_byContributor :: "(jstr \<times> jstr \<times> nat \<times> int \<times> rat) list"
  sv_totalCost :: rat
  sv_totalTokens :: int

definition closed_rows :: "database \<Rightarrow> request_row list" where
  "closed_rows db = rows_where (\<lambda>r. rq_status r \<in> {COMPLETE, DENIED, FAILED}) (requests db)"

definition added_latencies :: "request_row list \<Rightarrow> int list" where
  "added_latencies rows = List.map_filter (\<lambda>r. case (rq_total_ms r, rq_provider_ms r) of
     (Some t, Some p) \<Rightarrow> if rq_status r = COMPLETE then Some (t - p) else None | _ \<Rightarrow> None) rows"

definition serialized_latencies :: "request_row list \<Rightarrow> int list" where
  "serialized_latencies rows = List.map_filter (\<lambda>r. case (rq_proof_ms r, rq_provider_ms r) of
     (Some q, Some p) \<Rightarrow> Some (q + p) | _ \<Rightarrow> None) rows"

definition contributor_totals :: "(rat list \<Rightarrow> rat) \<Rightarrow> database \<Rightarrow> (jstr \<times> jstr \<times> nat \<times> int \<times> rat) list" where
  "contributor_totals sql_sum db = order_by (\<lambda>(_, _, n, _). - int n)
     (map (\<lambda>(cid, c). (let used = rows_where (\<lambda>u. us_contributor_id u = cid) (usage db) in
         (cid, ct_display_name c, length used, sum_list (map tokens_of used), sql_sum (map us_estimated_cost_usd used)))) (contributors db))"

definition getStats :: "runtime \<Rightarrow> (rat list \<Rightarrow> rat) \<Rightarrow> database \<Rightarrow> stats_view" where
  "getStats rt sql_sum db =
     (let rows = closed_rows db;
          policy = positives rq_policy_ms rows;
          prf = positives rq_proof_ms (filter (\<lambda>r. rq_proof_status r = VERIFIED) rows);
          prov = positives rq_provider_ms rows;
          total = positives rq_total_ms rows;
          both = (\<lambda>vs. (percentile rt vs 50, percentile rt vs 95));
          added = added_latencies rows
      in \<lparr> sv_requests = length rows, sv_complete = length (filter (\<lambda>r. rq_status r = COMPLETE) rows),
           sv_denied = length (filter (\<lambda>r. rq_status r = DENIED) rows), sv_failed = length (filter (\<lambda>r. rq_status r = FAILED) rows),
           sv_proofsVerified = length (filter (\<lambda>r. rq_proof_status r = VERIFIED) rows),
           sv_proofsFailed = length (filter (\<lambda>r. rq_proof_status r = PROOF_FAILED) rows),
           sv_contributors = length (contributors db), sv_credentials = length (rows_where (\<lambda>c. status c = ACTIVE) (credentials db)),
           sv_latency = \<lparr> la_policy = both policy, la_proof = both prf, la_provider = both prov, la_overall = both total \<rparr>,
           sv_addedP50 = percentile rt added 50, sv_addedP95 = percentile rt added 95,
           sv_serializedP50 = percentile rt (serialized_latencies rows) 50, sv_samples = length added,
           sv_byContributor = contributor_totals sql_sum db, sv_totalCost = sql_sum (map us_estimated_cost_usd (map snd (usage db))),
           sv_totalTokens = sum_list (map tokens_of (map snd (usage db))) \<rparr>)"

definition verified_times :: "database \<Rightarrow> int list" where
  "verified_times db = positives rq_proof_ms (filter (\<lambda>r. rq_proof_status r = VERIFIED) (closed_rows db))"

section \<open>Percentiles and statistics\<close>

lemma number_order: "consistent_cmp (\<lambda>a b :: int. a - b)"
  by (auto simp: consistent_cmp_def)

lemma js_sort_numbers: "js_sort (\<lambda>a b :: int. a - b) xs = sort xs"
  using sorted_js_sort [OF number_order, of xs] by (intro properties_for_sort [symmetric]) (auto simp: sorted_wrt_iff_nth_less sorted_iff_nth_mono_less)

lemma sorted_rank:
  fixes xs :: "int list"
  assumes "sorted xs" "i < length xs"
  shows "length (filter (\<lambda>x. x < xs ! i) xs) \<le> i" "i < length (filter (\<lambda>x. x \<le> xs ! i) xs)"
proof -
  let ?v = "xs ! i"
  have split: "xs = take i xs @ drop i xs" by simp
  have "filter (\<lambda>x. x < ?v) (drop i xs) = []"
    using assms by (auto simp: filter_empty_conv in_set_conv_nth sorted_iff_nth_mono not_less)
  then have "length (filter (\<lambda>x. x < ?v) xs) = length (filter (\<lambda>x. x < ?v) (take i xs))"
    by (metis append_Nil2 filter_append split)
  also have "\<dots> \<le> i" using length_filter_le [of "\<lambda>x. x < ?v" "take i xs"] by simp
  finally show "length (filter (\<lambda>x. x < ?v) xs) \<le> i" .
  have "filter (\<lambda>x. x \<le> ?v) (take (Suc i) xs) = take (Suc i) xs"
    using assms by (auto simp: filter_id_conv in_set_conv_nth sorted_iff_nth_mono)
  moreover have "xs = take (Suc i) xs @ drop (Suc i) xs" by simp
  ultimately have "Suc i \<le> length (filter (\<lambda>x. x \<le> ?v) xs)"
    by (metis assms(2) filter_append le_add1 length_append length_take min_absorb2 Suc_leI)
  then show "i < length (filter (\<lambda>x. x \<le> ?v) xs)" by simp
qed

definition rank_index :: "runtime \<Rightarrow> int \<Rightarrow> nat \<Rightarrow> nat" where
  "rank_index rt p n = nat (min (int n - 1) \<lfloor>dbl rt (dbl rt (of_int p / 100) * of_nat n)\<rfloor>)"

definition rank_of :: "runtime \<Rightarrow> int \<Rightarrow> int list \<Rightarrow> int option \<Rightarrow> bool" where
  "rank_of rt p vals q = (case q of
     None \<Rightarrow> vals = []
   | Some v \<Rightarrow> v \<in> set vals \<and> length (filter (\<lambda>x. x < v) vals) \<le> rank_index rt p (length vals)
       \<and> rank_index rt p (length vals) < length (filter (\<lambda>x. x \<le> v) vals))"

lemma percentile_rank: "rank_of rt p vals (percentile rt vals p)"
proof (cases "vals = []")
  case True
  then show ?thesis by (simp add: rank_of_def percentile_def)
next
  case False
  let ?i = "rank_index rt p (length vals)"
  have i: "?i < length (sort vals)" using False by (cases vals) (auto simp: rank_index_def)
  have "length (filter P (sort vals)) = length (filter P vals)" for P
    by (metis mset_filter mset_sort size_mset)
  moreover have "percentile rt vals p = Some (sort vals ! ?i)"
    using False by (simp add: percentile_def Let_def js_sort_numbers rank_index_def)
  ultimately show ?thesis
    using sorted_rank [OF sorted_sort i] nth_mem [OF i] by (simp add: rank_of_def)
qed

lemma closed_partition: "length (closed_rows db) = length (filter (\<lambda>r. rq_status r = COMPLETE) (closed_rows db))
    + length (filter (\<lambda>r. rq_status r = DENIED) (closed_rows db)) + length (filter (\<lambda>r. rq_status r = FAILED) (closed_rows db))"
proof -
  have "\<forall>r \<in> set rows. rq_status r \<in> {COMPLETE, DENIED, FAILED} \<Longrightarrow> length rows = length (filter (\<lambda>r. rq_status r = COMPLETE) rows)
    + length (filter (\<lambda>r. rq_status r = DENIED) rows) + length (filter (\<lambda>r. rq_status r = FAILED) rows)" for rows :: "request_row list"
    by (induction rows) auto
  then show ?thesis unfolding closed_rows_def rows_where_def by this auto
qed

lemma positives_iff: "v \<in> set (positives key rows) \<longleftrightarrow> 0 < v \<and> (\<exists>r \<in> set rows. key r = Some v)"
  by (force simp: positives_def List.map_filter_def)

text \<open>The published figures are what they claim to be. The request counts of \<^verbatim>\<open>GET /v1/stats\<close> add up; and a published
  proof latency is the time of some finished request whose proof VERIFIED, at the stated rank among the verified
  requests: at most \<open>rank_index\<close> of them were faster and more than \<open>rank_index\<close> were no slower (\<open>rank_of\<close>). It is absent
  exactly when no finished request has a verified proof with a positive time.\<close>

theorem stats_proof_latency_honest:
  "sv_requests (getStats rt sql_sum db) = sv_complete (getStats rt sql_sum db) + sv_denied (getStats rt sql_sum db) + sv_failed (getStats rt sql_sum db)
   \<and> rank_of rt 50 (verified_times db) (fst (la_proof (sv_latency (getStats rt sql_sum db))))
   \<and> rank_of rt 95 (verified_times db) (snd (la_proof (sv_latency (getStats rt sql_sum db))))
   \<and> set (verified_times db) = {ms. 0 < ms \<and> (\<exists>r \<in> set (closed_rows db). rq_proof_status r = VERIFIED \<and> rq_proof_ms r = Some ms)}"
proof -
  have "set (verified_times db) = {ms. 0 < ms \<and> (\<exists>r \<in> set (closed_rows db). rq_proof_status r = VERIFIED \<and> rq_proof_ms r = Some ms)}"
    by (auto simp: verified_times_def positives_iff)
  moreover have "rank_of rt p (verified_times db) (percentile rt (verified_times db) p)" for p
    by (rule percentile_rank)
  ultimately show ?thesis using closed_partition [of db] by (simp add: getStats_def Let_def verified_times_def)
qed

section \<open>What listings show\<close>

lemma order_by_map: "order_by key (map g xs) = map g (order_by (\<lambda>x. key (g x)) xs)"
proof -
  have ins: "insort_cmp (\<lambda>x y. key x - key y) (g x) (map g ys) = map g (insort_cmp (\<lambda>x y. key (g x) - key (g y)) x ys)" for x ys
    by (induction ys) auto
  show ?thesis unfolding order_by_def js_sort_def by (induction xs) (auto simp: ins)
qed

text \<open>The listing of credentials does not depend on the stored ciphertexts: replacing every encrypted blob by
  anything else leaves the answer as it is, for every caller and every filter.\<close>

theorem credential_listing_hides_blobs:
  "listCredentials rt sql_sum contributorId (db\<lparr> credentials := map (\<lambda>(k, r). (k, r\<lparr> encrypted_blob := f k r \<rparr>)) (credentials db) \<rparr>)
     = listCredentials rt sql_sum contributorId db"
proof -
  let ?g = "\<lambda>(k, r). (k, r\<lparr> encrypted_blob := f k r \<rparr>)"
  let ?p = "\<lambda>(_ :: jstr, r). contributorId = None \<or> contributorId = Some [] \<or> contributorId = Some (contributor_id r)"
  have "filter ?p (map ?g xs) = map ?g (filter ?p xs)" for xs by (induction xs) auto
  moreover have "credential_view_of rt sql_sum (db\<lparr> credentials := map ?g (credentials db) \<rparr>) (?g x) = credential_view_of rt sql_sum db x" for x
    by (cases x) (simp add: credential_view_of_def)
  moreover have "(\<lambda>x. case ?g x of (_, r) \<Rightarrow> created_at r) = (\<lambda>(_, r). created_at r)" by auto
  ultimately show ?thesis by (simp add: listCredentials_def order_by_map comp_def)
qed

lemma list_requests_capped: "listRequests (Some (Fin (of_int n))) db = Some rows \<Longrightarrow> 0 \<le> n \<Longrightarrow> length rows \<le> 200"
  by (auto simp: listRequests_def sql_limit_def js_min_def min_def split: if_splits)

text \<open>A negative limit switches the cap off.\<close>

lemma negative_limit_lists_all: "listRequests (Some (Fin (- 1))) db = Some (order_by (\<lambda>(_, r). - rq_created_at r) (requests db))"
  by (simp add: listRequests_def sql_limit_def js_min_def is_integral_def min_def)

section \<open>The receipt a client can fetch\<close>

lemma receipts_emit [simp]: "compute_receipts (wrote (emit rt now ty agg payload db)) = compute_receipts db"
  by (cases "emit rt now ty agg payload db") (auto dest: emit_Inl emit_Inr)

lemma receipts_insert_usage: "insert_usage now a db = Inr d \<Longrightarrow> compute_receipts d = compute_receipts db"
  by (auto simp: insert_usage_def split: sum.splits)

lemma receipts_recorded: "recordUsage rt now a db = Inr d \<Longrightarrow> compute_receipts d = compute_receipts db"
  by (auto simp: recordUsage_def split: sum.splits dest!: receipts_insert_usage)

lemma receipts_assumed [simp]: "compute_receipts (snd (recordAssumedUsage rt now rid cid uid spend db)) = compute_receipts db"
  by (auto simp: recordAssumedUsage_def Let_def split: sum.splits dest!: receipts_insert_usage)

lemma receipts_attempt [simp]: "compute_receipts (wrote (persist_attempt rt now rid a db)) = compute_receipts db"
proof -
  obtain act d where o: "applyAttemptOutcome now (ar_credentialId a) (ar_status a) (ar_classification a) db = (act, d)" by fastforce
  then have "d = snd (applyAttemptOutcome now (ar_credentialId a) (ar_status a) (ar_classification a) db)" by simp
  then have d: "compute_receipts d = compute_receipts db" by (simp add: applyAttemptOutcome_def)
  then show ?thesis unfolding persist_attempt_def o prod.case
    by (auto simp: inserting_def book_assumed_def split: sum.splits)
qed

lemma receipts_attempts [simp]: "compute_receipts (wrote (persist_attempts rt now rid as db)) = compute_receipts db"
proof (induction as arbitrary: db)
  case (Cons a as)
  show ?case using receipts_attempt [of rt now rid a db] by (cases "persist_attempt rt now rid a db") (simp_all add: Cons.IH del: receipts_attempt)
qed simp

lemma complete_request_receipt:
  assumes "complete_request rt now ms rid mode result sel receipt db = Inr db'"
  shows "compute_receipts db' = compute_receipts db @ [(receipt_id rid, \<lparr> cp_request_id = rid, cp_receipt = scr_receipt receipt,
      cp_signature = scr_enclaveSignature receipt, cp_created_at = now \<rparr>)]"
    "\<exists>r. map_of (requests db') rid = Some (complete_row now ms mode result sel r)"
proof -
  obtain d1 d2 d3 d4 d5 where e1: "emit rt now route_selected rid (route_event rid result sel) db = Inr d1"
    and e2: "emit rt now provider_started rid (started_event rid result sel) d1 = Inr d2"
    and b: "book_served rt now rid result sel d2 = Inr d3"
    and e4: "emit rt now provider_completed rid (completed_event ms rid result sel) (update_request rid (complete_row now ms mode result sel) d3) = Inr d4"
    and st: "store_receipt now rid receipt d4 = Inr d5"
    and e6: "emit rt now receipt_created rid [(lit ''request_id'', JStr rid), (lit ''receipt_id'', JStr (receipt_id rid)),
          (lit ''commitment'', JStr (er_commitment result))] d5 = Inr db'"
    using assms by (auto simp: complete_request_def and_then_Inr)
  have "compute_receipts d3 = compute_receipts d2"
    using b receipts_recorded by (auto simp: book_served_def inserting_def split: sum.splits)
  then have "compute_receipts d4 = compute_receipts db"
    using emit_Inr [OF e1] emit_Inr [OF e2] emit_Inr [OF e4] by simp
  then show "compute_receipts db' = compute_receipts db @ [(receipt_id rid, \<lparr> cp_request_id = rid, cp_receipt = scr_receipt receipt,
      cp_signature = scr_enclaveSignature receipt, cp_created_at = now \<rparr>)]"
    using st emit_Inr [OF e6] by (auto simp: store_receipt_def inserting_def insert_row_Inr split: sum.splits)
  have "requests db' = row_update rid (complete_row now ms mode result sel) (requests d3)" "has_row rid (requests db')"
    using st emit_Inr [OF e4] emit_Inr [OF e6] by (auto simp: store_receipt_def inserting_def insert_row_Inr split: sum.splits)
  then show "\<exists>r. map_of (requests db') rid = Some (complete_row now ms mode result sel r)"
    by (auto simp: has_row_def map_of_row_update split: if_splits)
qed

lemma first_where_last: "(\<And>k v. (k, v) \<in> set t \<Longrightarrow> \<not> p v) \<Longrightarrow> p v' \<Longrightarrow> first_where p (t @ [(k', v')]) = Some (k', v')"
  unfolding first_where_def by (induction t) fastforce+

lemma execute_200:
  assumes "on_execute rt now ms rid mode gate answer db = (rep, db')" "reply_code rep = 200"
  obtains result sel receipt d where "answer = TeeOk result" "er_receipt result = Some receipt"
    "persist_attempts rt now rid (er_attempts result) db = Inr d" "complete_request rt now ms rid mode result sel receipt d = Inr db'"
    "rep = complete_reply ms rid result sel receipt"
proof -
  have no: "reply_code internal_error \<noteq> 200" by (simp add: internal_error_def)
  then obtain result where r: "answer = TeeOk result" "on_result rt now ms rid mode result db = (rep, db')"
    using assms by (cases answer) (auto simp: on_execute_def enclave_down_def closing_eq Let_def split: if_splits)
  have "reply_code (fst (dispatch_failed rt now ms rid result d)) \<noteq> 200" for d
    using no by (auto simp: dispatch_failed_def closing_eq Let_def)
  then have bad: "dispatch_failed rt now ms rid result d \<noteq> (rep, db')" for d using assms(2) by (metis fst_conv)
  obtain d where d: "persist_attempts rt now rid (er_attempts result) db = Inr d"
    using r(2) no assms(2) by (cases "persist_attempts rt now rid (er_attempts result) db") (auto simp: on_result_def)
  obtain sel receipt where e: "er_status result = EX_COMPLETE" "er_selected result = Some sel" "er_receipt result = Some receipt"
    using r(2) d bad by (cases "er_status result"; cases "er_selected result"; cases "er_receipt result") (auto simp: on_result_def)
  then show thesis using that r d no assms(2)
    by (cases "complete_request rt now ms rid mode result sel receipt d") (auto simp: on_result_def)
qed

text \<open>C32. The receipt that \<^verbatim>\<open>GET /v1/requests/:id/receipt\<close> serves is the one the client was given: when the request path answers
  200 for a request that had no receipt, the answer is the completion of an enclave result with a signed receipt, and
  from then the endpoint finds the row, shows that very receipt under the identifier the client was told, with the trust
  status of its privacy mode, and submits that receipt to the enclave's verification.\<close>

theorem receipt_endpoint_serves_reply:
  assumes x: "on_execute rt now ms rid mode gate answer db = (rep, db')" and ok: "reply_code rep = 200"
    and fresh: "\<And>k c. (k, c) \<in> set (compute_receipts db) \<Longrightarrow> cp_request_id c \<noteq> rid"
  shows "\<exists>result sel receipt v. answer = TeeOk result \<and> er_receipt result = Some receipt \<and> rep = complete_reply ms rid result sel receipt
     \<and> getReceipt verify db' rid = Some v \<and> rv_receipt_id v = Some (receipt_id rid) \<and> rv_signed_receipt v = Some receipt
     \<and> rv_trust_status v = Some (if mode = secure then CONFIDENTIAL_PROOF_PENDING else COMPATIBILITY)
     \<and> rv_verification v = ok_or_null (verify \<lparr> vb_artifact = rv_proof_artifact v, vb_receipt = Some receipt, vb_binding = rv_proof_binding v \<rparr>)"
proof -
  obtain result sel receipt d where r: "answer = TeeOk result" "er_receipt result = Some receipt"
    and p: "persist_attempts rt now rid (er_attempts result) db = Inr d" and c: "complete_request rt now ms rid mode result sel receipt d = Inr db'"
    and rep: "rep = complete_reply ms rid result sel receipt"
    by (rule execute_200 [OF x ok])
  have d: "compute_receipts d = compute_receipts db" using receipts_attempts [of rt now rid "er_attempts result" db] p by simp
  have "first_where (\<lambda>r. cp_request_id r = rid) (compute_receipts db') = Some (receipt_id rid, \<lparr> cp_request_id = rid, cp_receipt = scr_receipt receipt,
       cp_signature = scr_enclaveSignature receipt, cp_created_at = now \<rparr>)"
    unfolding complete_request_receipt(1) [OF c] d by (rule first_where_last) (use fresh in blast, simp)
  moreover obtain row where "map_of (requests db') rid = Some (complete_row now ms mode result sel row)"
    using complete_request_receipt(2) [OF c] by blast
  ultimately have "\<exists>v. getReceipt verify db' rid = Some v \<and> rv_receipt_id v = Some (receipt_id rid) \<and> rv_signed_receipt v = Some receipt
     \<and> rv_trust_status v = Some (if mode = secure then CONFIDENTIAL_PROOF_PENDING else COMPATIBILITY)
     \<and> rv_verification v = ok_or_null (verify \<lparr> vb_artifact = rv_proof_artifact v, vb_receipt = Some receipt, vb_binding = rv_proof_binding v \<rparr>)"
    by (cases receipt) (simp add: getReceipt_def complete_row_def Let_def)
  then show ?thesis using r rep by blast
qed

theorem receipt_endpoint_serves_reply_witness:
  "\<exists>d v. on_execute sample_runtime 5 9 (lit ''r1'') secure run_verdict (TeeOk run_result) sample_db = (complete_reply 9 (lit ''r1'') run_result run_selected run_receipt, d)
     \<and> getReceipt (\<lambda>_. EnclaveUnavailable) d (lit ''r1'') = Some v \<and> rv_signed_receipt v = Some run_receipt \<and> rv_verification v = None"
proof -
  have e: "er_status run_result = EX_COMPLETE" "er_attempts run_result = []" "er_selected run_result = Some run_selected" "er_receipt run_result = Some run_receipt"
    by (simp_all add: run_result_def)
  have t: "map_of (requests sample_db) (lit ''r1'') = Some sample_request_row" "map_of (usage sample_db) (usage_id (lit ''r1'')) = None"
    "map_of (compute_receipts sample_db) (receipt_id (lit ''r1'')) = None" by (simp_all add: sample_db_def empty_db_def)
  obtain d where d: "on_execute sample_runtime 5 9 (lit ''r1'') secure run_verdict (TeeOk run_result) sample_db = (complete_reply 9 (lit ''r1'') run_result run_selected run_receipt, d)"
    using execute_ok [OF sample_guard t e] by metis
  have "reply_code (complete_reply 9 (lit ''r1'') run_result run_selected run_receipt) = 200" by (simp add: complete_reply_def)
  from receipt_endpoint_serves_reply [OF d this, where verify = "\<lambda>_. EnclaveUnavailable"] d show ?thesis
    by (auto simp: sample_db_def empty_db_def run_result_def ok_or_null_def)
qed

section \<open>The serialised baseline\<close>

text \<open>The comparison figure does not separate failed proofs: a request whose proof FAILED after 3 ms lowers what proving
  first would have cost, while the proof latency beside it leaves the request out.\<close>

lemma serialized_counts_failures:
  assumes "rq_proof_status r = PROOF_FAILED" "rq_status r = COMPLETE" "rq_proof_ms r = Some 3" "rq_provider_ms r = Some 100"
  shows "verified_times (empty_db\<lparr> requests := [(k, r)] \<rparr>) = []" "serialized_latencies (closed_rows (empty_db\<lparr> requests := [(k, r)] \<rparr>)) = [103]"
  using assms by (simp_all add: verified_times_def positives_def serialized_latencies_def closed_rows_def rows_where_def List.map_filter_def)

end
