(* ===== verification/Integrity.thy ===== *)
theory Integrity
  imports Coordinator_Runs
begin

text \<open>
  The schema of the ledger (\<^verbatim>\<open>services/coordinator/src/db.ts\<close>) as a type invariant: primary keys are unique and foreign keys
  resolve in every reachable state of the coordinator. What the invariant depends on is the \<open>shape\<close> of a database, its
  keys and references; an \<open>UPDATE\<close> keeps the shape and an \<open>INSERT\<close> extends it.
\<close>

section \<open>Shape and integrity\<close>

definition refs :: "('v \<Rightarrow> jstr) \<Rightarrow> (jstr \<times> 'v) list \<Rightarrow> (jstr \<times> jstr) list" where
  "refs f t = map (\<lambda>(k, v). (k, f v)) t"

record db_shape =
  sh_contributors :: "jstr list"
  sh_credentials :: "(jstr \<times> jstr) list"
  sh_requests :: "jstr list"
  sh_attempts :: "(jstr \<times> jstr) list"
  sh_proofs :: "(jstr \<times> jstr) list"
  sh_decisions :: "jstr list"
  sh_receipts :: "(jstr \<times> jstr) list"
  sh_usage :: "(jstr \<times> jstr) list"

definition shape :: "database \<Rightarrow> db_shape" where
  "shape db = \<lparr> sh_contributors = map fst (contributors db), sh_credentials = refs contributor_id (credentials db),
     sh_requests = map fst (requests db), sh_attempts = refs pa_request_id (provider_attempts db), sh_proofs = refs pf_request_id (proofs db),
     sh_decisions = map fst (decision_receipts db), sh_receipts = refs cp_request_id (compute_receipts db), sh_usage = refs us_request_id (usage db) \<rparr>"

definition child_of :: "jstr list \<Rightarrow> (jstr \<times> jstr) list \<Rightarrow> bool" where
  "child_of parents t \<longleftrightarrow> distinct (map fst t) \<and> set (map snd t) \<subseteq> set parents"

definition shape_wf :: "db_shape \<Rightarrow> bool" where
  "shape_wf s \<longleftrightarrow> distinct (sh_contributors s) \<and> distinct (sh_requests s) \<and> child_of (sh_contributors s) (sh_credentials s)
     \<and> child_of (sh_requests s) (sh_attempts s) \<and> child_of (sh_requests s) (sh_proofs s) \<and> child_of (sh_requests s) (sh_receipts s)
     \<and> child_of (sh_requests s) (sh_usage s) \<and> distinct (sh_decisions s) \<and> set (sh_decisions s) \<subseteq> set (sh_requests s)"

definition db_wf :: "database \<Rightarrow> bool" where
  "db_wf db \<longleftrightarrow> shape_wf (shape db)"

lemma keys_refs [simp]: "map fst (refs f t) = map fst t"
  by (auto simp: refs_def)

lemma refs_append [simp]: "refs f (t @ [(k, v)]) = refs f t @ [(k, f v)]"
  by (simp add: refs_def)

lemma refs_row_update: "(\<And>r. f (g r) = f r) \<Longrightarrow> refs f (row_update k g t) = refs f t"
  by (auto simp: refs_def row_update_def)

lemma refs_update_where: "(\<And>r. f (g r) = f r) \<Longrightarrow> refs f (update_where p g t) = refs f t"
  by (auto simp: refs_def update_where_def)

section \<open>Statements\<close>

lemma shape_emit [simp]: "shape (wrote (emit rt now ty agg payload db)) = shape db"
  by (cases "emit rt now ty agg payload db") (auto simp: shape_def dest: emit_Inl emit_Inr)

lemma shape_emitEvent: "emitEvent rt now ty agg payload db = Some d \<Longrightarrow> shape d = shape db"
  using operational_tables [OF emitEvent_operational] by (auto simp: shape_def)

lemma shape_update_request [simp]: "shape (update_request k f db) = shape db"
  by (simp add: shape_def store_simps)

lemma shape_update_proof: "(\<And>r. pf_request_id (f r) = pf_request_id r) \<Longrightarrow> shape (update_proof k f db) = shape db"
  by (simp add: shape_def update_proof_def refs_update_where)

lemma shape_update_credential: "(\<And>r. contributor_id (f r) = contributor_id r) \<Longrightarrow> shape (update_credential k f db) = shape db"
  by (simp add: shape_def refs_row_update update_credential_def)

lemma child_more: "child_of ps t \<Longrightarrow> set ps \<subseteq> set qs \<Longrightarrow> child_of qs t"
  by (auto simp: child_of_def)

text \<open>An insertion that goes through found no row with its key and found the parent.\<close>

lemma insert_child:
  assumes "insert_row (has_row p parents) k v t = Inr t'" "f v = p" "child_of (map fst parents) (refs f t)"
  shows "child_of (map fst parents) (refs f t')"
proof -
  have "k \<notin> set (map fst t)" "p \<in> set (map fst parents)" "t' = t @ [(k, v)]" using assms(1) by (auto simp: insert_row_Inr has_row_iff)
  then show ?thesis using assms(2,3) by (auto simp: child_of_def)
qed

lemma insert_keys:
  assumes "insert_row b k v t = Inr t'" "distinct (map fst t)"
  shows "distinct (map fst t')" "set (map fst t) \<subseteq> set (map fst t')"
  using assms by (auto simp: insert_row_Inr has_row_iff)

lemma replace_keys:
  assumes "replace_row (has_row k parents) k v t = Inr t'" "distinct (map fst t)" "set (map fst t) \<subseteq> set (map fst parents)"
  shows "distinct (map fst t')" "set (map fst t') \<subseteq> set (map fst parents)"
proof -
  have t': "t' = map_del k t @ [(k, v)]" "k \<in> set (map fst parents)" using assms(1) by (auto simp: replace_row_def has_row_iff split: if_splits)
  have "distinct (map fst (map_del k t))" unfolding map_del_def by (rule distinct_map_filter [OF assms(2)])
  then show "distinct (map fst t')" using t' by (auto simp: map_del_def)
  show "set (map fst t') \<subseteq> set (map fst parents)" using t' assms(3) by (auto simp: map_del_def)
qed

lemma inserted:
  assumes "db_wf db"
  shows "insert_row (has_row rid (requests db)) k v (proofs db) = Inr t \<Longrightarrow> pf_request_id v = rid \<Longrightarrow> db_wf (db\<lparr> proofs := t \<rparr>)"
    "insert_row (has_row rid (requests db)) k a (provider_attempts db) = Inr ta \<Longrightarrow> pa_request_id a = rid \<Longrightarrow> db_wf (db\<lparr> provider_attempts := ta \<rparr>)"
    "insert_row (has_row rid (requests db)) k c (compute_receipts db) = Inr tc \<Longrightarrow> cp_request_id c = rid \<Longrightarrow> db_wf (db\<lparr> compute_receipts := tc \<rparr>)"
    "insert_row (has_row rid (requests db)) k u (usage db) = Inr tu \<Longrightarrow> us_request_id u = rid \<Longrightarrow> db_wf (db\<lparr> usage := tu \<rparr>)"
    "insert_row (has_row ctr (contributors db)) k cr (credentials db) = Inr tr \<Longrightarrow> contributor_id cr = ctr \<Longrightarrow> db_wf (db\<lparr> credentials := tr \<rparr>)"
  using assms by (simp_all add: db_wf_def shape_wf_def shape_def insert_child)

lemma inserted_parent:
  assumes "db_wf db"
  shows "insert_row True k q (requests db) = Inr tq \<Longrightarrow> db_wf (db\<lparr> requests := tq \<rparr>)"
    "insert_row True k ct (contributors db) = Inr tt \<Longrightarrow> db_wf (db\<lparr> contributors := tt \<rparr>)"
    "replace_row (has_row rid (requests db)) rid d (decision_receipts db) = Inr td \<Longrightarrow> db_wf (db\<lparr> decision_receipts := td \<rparr>)"
proof -
  note w = assms [unfolded db_wf_def shape_wf_def shape_def db_shape.select_convs]
  show "db_wf (db\<lparr> requests := tq \<rparr>)" if "insert_row True k q (requests db) = Inr tq"
    using w insert_keys [OF that] by (simp add: db_wf_def shape_wf_def shape_def del: set_map) (blast intro: child_more)
  show "db_wf (db\<lparr> contributors := tt \<rparr>)" if "insert_row True k ct (contributors db) = Inr tt"
    using w insert_keys [OF that] by (simp add: db_wf_def shape_wf_def shape_def del: set_map) (blast intro: child_more)
  show "db_wf (db\<lparr> decision_receipts := td \<rparr>)" if "replace_row (has_row rid (requests db)) rid d (decision_receipts db) = Inr td"
    using w replace_keys [OF that] by (simp add: db_wf_def shape_wf_def shape_def del: set_map)
qed

section \<open>Composition\<close>

lemma wf_shape: "shape a = shape b \<Longrightarrow> db_wf b \<Longrightarrow> db_wf a"
  by (simp add: db_wf_def)

lemma wf_emit [simp]: "db_wf (wrote (emit rt now ty agg payload db)) = db_wf db"
  by (simp add: db_wf_def)

lemma wf_update_request [simp]: "db_wf (update_request k f db) = db_wf db"
  by (simp add: db_wf_def)

lemma wf_then:
  assumes "db_wf (wrote r)" "\<And>d. r = Inr d \<Longrightarrow> db_wf d \<Longrightarrow> db_wf (wrote (k d))"
  shows "db_wf (wrote (and_then r k))"
  using assms by (cases r) auto

lemma wf_inserting: "db_wf db \<Longrightarrow> (\<And>t. r = Inr t \<Longrightarrow> db_wf (f t)) \<Longrightarrow> db_wf (wrote (inserting r f db))"
  by (cases r) (auto simp: inserting_def)

lemma wf_closing [simp]: "db_wf (snd (closing rt now rid upd ty payload r db)) = db_wf db"
  by (simp add: closing_eq)

section \<open>Every segment keeps the integrity\<close>

lemma wf_discover: "db_wf (snd (discoverCandidates rt now m p db)) = db_wf db"
proof -
  have "shape (snd (roll_rows now rows d)) = shape d" for rows d
    by (induction rows arbitrary: d) (auto simp: rollUsageDay_def shape_update_credential)
  then show ?thesis by (simp add: db_wf_def discoverCandidates_def Let_def case_prod_beta)
qed

lemma wf_outcome: "db_wf (snd (applyAttemptOutcome now cid st cls db)) = db_wf db"
  by (simp add: db_wf_def applyAttemptOutcome_def shape_update_credential)

lemma shape_bump [simp]: "shape (update_credential cid (bump_counters rt now cost) db) = shape db"
  by (rule shape_update_credential) (simp add: bump_counters_def)

lemma wf_insert_usage: "db_wf db \<Longrightarrow> insert_usage now a db = Inr d \<Longrightarrow> db_wf d"
  by (auto simp: insert_usage_def split: sum.splits dest: inserted(4))

lemma wf_recorded: "db_wf db \<Longrightarrow> recordUsage rt now a db = Inr d \<Longrightarrow> db_wf d"
  by (auto simp: recordUsage_def db_wf_def split: sum.splits dest!: wf_insert_usage [unfolded db_wf_def, rotated])

lemma wf_assumed: "db_wf db \<Longrightarrow> db_wf (snd (recordAssumedUsage rt now rid cid uid spend db))"
proof -
  assume "db_wf db"
  then have "db_wf (update_credential cid (bump_counters rt now c) db)" for c by (simp add: db_wf_def)
  with \<open>db_wf db\<close> show ?thesis by (auto simp: recordAssumedUsage_def Let_def split: sum.splits dest: wf_insert_usage)
qed

lemma wf_begin: "db_wf db \<Longrightarrow> db_wf (wrote (begin_request rt now env mode db))"
  unfolding begin_request_def by (intro wf_then wf_inserting inserted_parent(1)) auto

lemma wf_gate: "db_wf db \<Longrightarrow> db_wf (snd (on_gate rt now ms rid answer db))"
proof (cases answer)
  case (TeeOk g)
  assume "db_wf db"
  then have "db_wf (wrote (record_verdict now rid g db))"
    unfolding record_verdict_def Let_def by (intro wf_inserting) (auto intro: inserted_parent(3))
  then show ?thesis by (auto simp: on_gate_def TeeOk split: sum.splits)
qed (auto simp: on_gate_def gate_refused_def enclave_down_def case_prod_beta)

lemma wf_enqueue: "db_wf db \<Longrightarrow> db_wf (wrote (enqueue_proof rt now rid g db))"
  unfolding enqueue_proof_def Let_def by (intro wf_then wf_inserting) (auto intro!: inserted(1) simp: queued_proof_def)

lemma wf_act: "db_wf db \<Longrightarrow> db_wf (snd (act_on_verdict rt now ms env mode g db))"
proof -
  assume "db_wf db"
  then have e: "emit rt now ty agg pl db = Inl d \<Longrightarrow> db_wf d" "emit rt now ty agg pl db = Inr d \<Longrightarrow> db_wf d" for ty agg pl d
    using wf_emit [of rt now ty agg pl db] by simp_all
  then show ?thesis using \<open>db_wf db\<close>
    by (auto dest: e simp: act_on_verdict_def Let_def deny_request_def no_capacity_def case_prod_beta wf_discover split: sum.splits)
qed

lemma wf_attested: "db_wf db \<Longrightarrow> db_wf (snd (snd (on_attestation rt now ms env mode g att db)))"
proof -
  assume w: "db_wf db"
  have v: "db_wf (wrote (verdict_events rt now (env_requestId env) g att db))"
    unfolding verdict_events_def by (rule wf_then) (use w in \<open>auto split: option.splits\<close>)
  show ?thesis
  proof (cases "verdict_events rt now (env_requestId env) g att db")
    case (Inr d)
    with v have d: "db_wf d" by simp
    show ?thesis using wf_act [OF d] wf_enqueue [OF d, of rt now "env_requestId env" g] wf_act
      by (cases "enqueue_proof rt now (env_requestId env) g d") (auto simp: on_attestation_def Inr case_prod_beta)
  qed (use v in \<open>simp add: on_attestation_def\<close>)
qed

lemma wf_attempt: "db_wf db \<Longrightarrow> db_wf (wrote (persist_attempt rt now rid a db))"
proof -
  assume w: "db_wf db"
  obtain act d where o: "applyAttemptOutcome now (ar_credentialId a) (ar_status a) (ar_classification a) db = (act, d)" by fastforce
  then have d: "db_wf d" using wf_outcome w by (metis snd_conv)
  have "db_wf (book_assumed rt now rid a e)" if "db_wf e" for e using that by (simp add: book_assumed_def wf_assumed)
  then show ?thesis unfolding persist_attempt_def o prod.case
    by (intro wf_then wf_inserting d) (auto dest: inserted(2) [OF d] simp: attempt_row_def)
qed

lemma wf_attempts: "db_wf db \<Longrightarrow> db_wf (wrote (persist_attempts rt now rid as db))"
  by (induction as arbitrary: db) (auto intro!: wf_then wf_attempt simp del: wrote_and_then)

lemma wf_complete: "db_wf db \<Longrightarrow> db_wf (wrote (complete_request rt now ms rid mode result sel receipt db))"
  unfolding complete_request_def book_served_def store_receipt_def
  by (intro wf_then wf_inserting) (auto intro!: inserted(3) dest: wf_recorded [rotated])

lemma wf_executed: "db_wf db \<Longrightarrow> db_wf (snd (on_execute rt now ms rid mode g answer db))"
proof -
  assume w: "db_wf db"
  have f: "db_wf (snd (dispatch_failed rt now ms rid result d)) = db_wf d" for result d by (simp add: dispatch_failed_def Let_def)
  have "db_wf (snd (on_result rt now ms rid mode result db))" for result
  proof (cases "persist_attempts rt now rid (er_attempts result) db")
    case (Inl d)
    then show ?thesis using wf_attempts [OF w, of rt now rid "er_attempts result"] by (simp add: on_result_def)
  next
    case (Inr d)
    then have d: "db_wf d" using wf_attempts [OF w, of rt now rid "er_attempts result"] by simp
    have "db_wf (case complete_request rt now ms rid mode result sel receipt d of Inl e \<Rightarrow> e | Inr e \<Rightarrow> e)" for sel receipt
      using wf_complete [OF d, of rt now ms rid mode result sel receipt] by (simp add: wrote_def)
    then show ?thesis using d f
      by (auto simp: on_result_def Inr split: sum.splits option.splits execute_status.splits) (metis sum.case)+
  qed
  then show ?thesis using w
    by (auto simp: on_execute_def enclave_down_def Let_def split: tee_result.splits)
qed

lemma shape_markFailed [simp]: "shape (markFailed rt now rid err ms db) = shape db"
  by (simp add: markFailed_def Let_def shape_update_proof)

lemma shape_progress: "shape (snd (watch_progress rt now w res db)) = shape db"
proof -
  let ?d = "update_proof (wt_requestId w) (\<lambda>p. p\<lparr> pf_status := pr_status res,
     pf_receipt_digest := (case pr_artifactDigest res of Some d \<Rightarrow> Some d | None \<Rightarrow> pf_receipt_digest p) \<rparr>)
     (update_request (wt_requestId w) (\<lambda>r. r\<lparr> rq_proof_status := pr_status res \<rparr>) db)"
  have "shape (wrote (transition_event rt now w res ?d)) = shape ?d" by (simp add: transition_event_def)
  moreover have "shape ?d = shape db" by (simp add: shape_update_proof)
  ultimately show ?thesis by (auto simp: watch_progress_def Let_def split: sum.splits)
qed

lemma shape_settled: "shape (watch_settled rt now w res db) = shape db"
  by (simp add: watch_settled_def Let_def shape_update_proof)

lemma shape_watch: "shape (snd (watch_answer rt now w answer db)) = shape db"
  by (auto simp: watch_answer_def shape_progress shape_settled split: tee_result.splits)

lemma wf_cred_step: "cred_step db db' \<Longrightarrow> db_wf db \<Longrightarrow> db_wf db'"
proof (induction rule: cred_step.induct)
  case (register db rt now i nm)
  then show ?case by (auto simp: postContributors_def Let_def db_wf_def split: sum.splits option.splits
      dest!: shape_emitEvent dest: inserted_parent(2) [unfolded db_wf_def, rotated])
next
  case (store db rt now body ing)
  then show ?case by (auto simp: storeCredential_def Let_def new_credential_row_def db_wf_def split: sum.splits option.splits
      dest!: shape_emitEvent dest: inserted(5) [unfolded db_wf_def, rotated])
next
  case (patch db rt now cid body)
  have "contributor_id (patch_row body r) = contributor_id r" for r by (simp add: patch_row_def Let_def split: option.splits)
  then show ?case using patch by (auto simp: patchCredential_def Let_def db_wf_def shape_update_credential split: option.splits dest!: shape_emitEvent)
next
  case (revoke db rt now cid)
  then show ?case by (auto simp: deleteCredential_def Let_def db_wf_def shape_update_credential split: option.splits dest!: shape_emitEvent)
qed (simp_all add: wf_discover wf_outcome wf_recorded wf_assumed)

lemma wf_step: "coord_step rt answers s t \<Longrightarrow> db_wf (co_db s) \<Longrightarrow> db_wf (co_db t)"
proof (induction rule: coord_step.induct)
  case (accept mode env s now db)
  then show ?case using wf_begin [of "co_db s" rt now env mode] by simp
next
  case (accept_threw mode env s now db)
  then show ?case using wf_begin [of "co_db s" rt now env mode] by simp
next
  case (gate s fs f gs now ms answer g db)
  then show ?case using wf_gate [of "co_db s" rt now ms "flight_id f" answer] by simp
next
  case (gate_ends s fs f gs now ms answer r db)
  then show ?case using wf_gate [of "co_db s" rt now ms "flight_id f" answer] by simp
next
  case (attested s fs f gs g now ms att cands watching db)
  then show ?case using wf_attested [of "co_db s" rt now ms "fl_env f" "fl_mode f" g att] by simp
next
  case (attested_ends s fs f gs g now ms att r watching db)
  then show ?case using wf_attested [of "co_db s" rt now ms "fl_env f" "fl_mode f" g att] by simp
next
  case (executed s fs f gs g now ms answer r db)
  then show ?case using wf_executed [of "co_db s" rt now ms "flight_id f" "fl_mode f" g answer] by simp
next
  case (ceiling_hit s ws w vs now db)
  then show ?case by (auto simp: watch_tick_def db_wf_def split: if_splits)
next
  case (polled s ws w vs answer now w' db)
  then show ?case using shape_watch [of rt now w answer "co_db s"] by (simp add: db_wf_def)
next
  case (credential s db)
  then show ?case using wf_cred_step by simp
qed

interpretation ledger_schema: stable "coord_step rt answers" "\<lambda>s. db_wf (co_db s)" for rt answers
  by unfold_locales (rule wf_step)

end
