(* ===== verification/Playground.thy ===== *)
theory Playground
  imports Compat Reports Integrity
begin

text \<open>
  The request playground (\<^verbatim>\<open>apps/web/src/app/playground/page.tsx\<close>) and the proof panel it shows (\<^verbatim>\<open>components/ProofBeat.tsx\<close>): the
  state of the page, one function per stretch of \<open>send\<close> and \<open>pollProof\<close> between two \<open>await\<close>s, and the step relation that
  interleaves them. One \<open>send\<close> runs at a time (the button is disabled while it does); polling loops of earlier requests go
  on. Markup, texts, timers and durations are left out. Shown: what the page ever calls verified was verified by the enclave.
\<close>

section \<open>The proof panel\<close>

record ProofPoll =
  pp_status :: ProofStatus
  pp_verified :: bool
  pp_ms :: "int option"
  pp_error :: "jstr option"

text \<open>What \<open>api\<close> makes of the proof endpoint: an unknown request is a 404, which throws.\<close>

definition poll_answer :: "proof_view view \<Rightarrow> ProofPoll option" where
  "poll_answer v = (case v of
     Unknown_request \<Rightarrow> None
   | Not_required \<Rightarrow> Some \<lparr> pp_status = NOT_REQUIRED, pp_verified = False, pp_ms = None, pp_error = None \<rparr>
   | View p \<Rightarrow> Some \<lparr> pp_status = pw_proof_status p, pp_verified = pw_proof_verified p, pp_ms = pw_proof_ms p, pp_error = pw_error p \<rparr>)"

definition sealVerifiedByCoordinator :: "ProofPoll option \<Rightarrow> bool" where
  "sealVerifiedByCoordinator p = (case p of Some q \<Rightarrow> pp_status q = VERIFIED \<and> pp_verified q | None \<Rightarrow> False)"

datatype beat = Beat_unavailable | Beat_nothing | Beat_failed | Beat_verified | Beat_generated | Beat_proving | Beat_queued

definition ProofBeat :: "PolicyDecision option \<Rightarrow> ProofPoll option \<Rightarrow> 'f option \<Rightarrow> beat" where
  "ProofBeat decision p systemFailure =
     (if systemFailure \<noteq> None then Beat_unavailable
      else if decision = None then Beat_nothing
      else let status = (case p of Some q \<Rightarrow> pp_status q | None \<Rightarrow> QUEUED)
        in if status = PROOF_FAILED then Beat_failed
           else if sealVerifiedByCoordinator p then Beat_verified
           else if status = GENERATED then Beat_generated
           else if status = PROVING then Beat_proving
           else Beat_queued)"

section \<open>The page\<close>

datatype Stage = St_idle | St_attesting | St_encrypting | St_inflight | St_proving | St_done | St_denied | St_error

text \<open>\<open>pg_sending\<close> is the mode the running \<open>send\<close> was started with; \<open>pg_polls\<close> are the requests with a polling loop.\<close>

record page =
  pg_stage :: Stage
  pg_sending :: privacy_mode
  pg_result :: "CompletionResult option"
  pg_proof :: "ProofPoll option"
  pg_error :: "json option"
  pg_denied :: "json option"
  pg_verdict :: "PolicyDecision option"
  pg_gateWallMs :: json
  pg_systemFailure :: "(json \<times> json) option"
  pg_polls :: "jstr list"

definition fresh_page :: page where
  "fresh_page = \<lparr> pg_stage = St_idle, pg_sending = secure, pg_result = None, pg_proof = None, pg_error = None, pg_denied = None,
     pg_verdict = None, pg_gateWallMs = JUndef, pg_systemFailure = None, pg_polls = [] \<rparr>"

definition busy :: "page \<Rightarrow> bool" where
  "busy pg \<longleftrightarrow> pg_stage pg \<in> {St_attesting, St_encrypting, St_inflight}"

definition page_send :: "privacy_mode \<Rightarrow> page \<Rightarrow> page" where
  "page_send mode pg = pg\<lparr> pg_stage := St_attesting, pg_sending := mode, pg_result := None, pg_proof := None, pg_error := None, pg_denied := None,
     pg_verdict := None, pg_gateWallMs := JUndef, pg_systemFailure := None \<rparr>"

definition page_failed :: "json \<Rightarrow> page \<Rightarrow> page" where
  "page_failed msg pg = pg\<lparr> pg_error := Some msg, pg_stage := St_error \<rparr>"

definition page_attested :: "bool \<Rightarrow> page \<Rightarrow> page" where
  "page_attested valid pg = (if valid then pg\<lparr> pg_stage := St_encrypting \<rparr>
     else page_failed (JStr (lit ''attestation failed verification'' @ [32, 8212] @ lit '' refusing to send the prompt'')) pg)"

definition pollProof :: "jstr \<Rightarrow> page \<Rightarrow> page" where
  "pollProof requestId pg = pg\<lparr> pg_polls := requestId # pg_polls pg \<rparr>"

text \<open>A falsy request id is not polled.\<close>

definition handleDenial :: "json \<Rightarrow> json \<Rightarrow> page \<Rightarrow> page" where
  "handleDenial requestId commitment pg =
     (let pg1 = pg\<lparr> pg_denied := Some commitment, pg_verdict := Some DENY, pg_stage := St_denied \<rparr>
      in (case requestId of JStr (c # rid) \<Rightarrow> pollProof (c # rid) pg1 | _ \<Rightarrow> pg1))"

definition page_unavailable :: "json \<Rightarrow> json \<Rightarrow> page \<Rightarrow> page" where
  "page_unavailable code msg pg = pg\<lparr> pg_systemFailure := Some (code, msg), pg_stage := St_error \<rparr>"

definition page_completed :: "CompletionResult \<Rightarrow> json \<Rightarrow> page \<Rightarrow> page" where
  "page_completed c wall pg = pollProof (cs_requestId c)
     (pg\<lparr> pg_result := Some c, pg_verdict := Some ALLOW, pg_gateWallMs := wall, pg_stage := St_proving \<rparr>)"

definition error_text :: "client_error \<Rightarrow> json" where
  "error_text e = (case e of CtnApiError _ msg _ \<Rightarrow> msg | _ \<Rightarrow> JStr (lit ''request failed''))"

text \<open>The secure path: what \<open>client.completion\<close> returned or threw. The texts of errors without one of ours are left out.\<close>

definition secure_end :: "client_error + CompletionResult \<Rightarrow> page \<Rightarrow> page" where
  "secure_end out pg = (case out of
     Inr c \<Rightarrow> page_completed c (Client.or_else (opt_prop (cs_timings c) ''gateWallMs'') JUndef) pg
   | Inl e \<Rightarrow> (case e of
       PolicyDeniedError _ requestId commitment \<Rightarrow> handleDenial (JStr requestId) commitment pg
     | CtnApiError code msg _ \<Rightarrow> if code = JStr (lit ''CTN_PROVER_UNAVAILABLE'') then page_unavailable code msg pg else page_failed msg pg
     | _ \<Rightarrow> page_failed (error_text e) pg))"

text \<open>The compatibility path: status and body of the answer, a 200 read at its declared type.\<close>

definition compat_result :: "json \<Rightarrow> CompletionResult option" where
  "compat_result body = (let ctn = opt_prop body ''ctn'' in
     case opt_prop ctn ''request_id'' of
       JStr rid \<Rightarrow> Some \<lparr> cs_requestId = rid, cs_content = opt_prop (opt_prop (opt_first (opt_prop body ''choices'')) ''message'') ''content'',
          cs_model = opt_prop body ''model'',
          cs_usage = JObj [(lit ''inputTokens'', opt_prop (opt_prop body ''usage'') ''prompt_tokens''), (lit ''outputTokens'', opt_prop (opt_prop body ''usage'') ''completion_tokens'')],
          cs_commitment = Client.or_else (opt_prop (opt_prop ctn ''receipt'') ''request_commitment'') (JStr []), cs_receipt = JNull,
          cs_receiptId = Client.or_else (opt_prop (opt_prop ctn ''receipt'') ''receipt_id'') JNull, cs_route = opt_prop ctn ''route'',
          cs_timings = JObj [], cs_trustStatus = JStr (lit ''COMPATIBILITY'') \<rparr>
     | _ \<Rightarrow> None)"

definition compat_end :: "int \<Rightarrow> json \<Rightarrow> page \<Rightarrow> page" where
  "compat_end st body pg =
     (if 200 \<le> st \<and> st < 300
      then (case compat_result body of
              Some c \<Rightarrow> page_completed c (pg_gateWallMs pg) pg
            | None \<Rightarrow> page_failed (JStr (lit ''request failed'')) pg)
      else (let err = opt_prop body ''error''; code = opt_prop err ''code'' in
        if code = JStr (lit ''CTN_POLICY_DENIED'') then handleDenial (opt_prop body ''request_id'') (opt_prop body ''request_commitment'') pg
        else if code = JStr (lit ''CTN_PROVER_UNAVAILABLE'') then page_unavailable code (opt_prop err ''message'') pg
        else page_failed (Client.or_else (opt_prop err ''message'') (JStr (lit ''request failed''))) pg))"

definition loadGateWall :: "int option \<Rightarrow> page \<Rightarrow> page" where
  "loadGateWall policyMs pg = (case policyMs of Some p \<Rightarrow> if 0 < p then pg\<lparr> pg_gateWallMs := JInt p \<rparr> else pg | None \<Rightarrow> pg)"

definition end_poll :: "jstr \<Rightarrow> page \<Rightarrow> page" where
  "end_poll requestId pg = pg\<lparr> pg_polls := remove1 requestId (pg_polls pg), pg_stage := (if pg_stage pg = St_proving then St_done else pg_stage pg) \<rparr>"

definition on_poll :: "jstr \<Rightarrow> ProofPoll \<Rightarrow> page \<Rightarrow> page" where
  "on_poll requestId res pg = (let pg1 = pg\<lparr> pg_proof := Some res \<rparr> in
     if pp_status res \<in> {VERIFIED, PROOF_FAILED, NOT_REQUIRED} then end_poll requestId pg1 else pg1)"

text \<open>\<open>polled rid a\<close>: the proof endpoint may answer \<open>a\<close> for \<open>rid\<close>; \<open>None\<close> ends the loop by an exception.\<close>

inductive page_step :: "(jstr \<Rightarrow> ProofPoll option \<Rightarrow> bool) \<Rightarrow> page \<Rightarrow> page \<Rightarrow> bool" for polled where
  sends: "\<not> busy pg \<Longrightarrow> page_step polled pg (page_send mode pg)"
| attested: "pg_stage pg = St_attesting \<Longrightarrow> page_step polled pg (page_attested valid pg)"
| threw: "busy pg \<Longrightarrow> page_step polled pg (page_failed msg pg)"
| sealed: "pg_stage pg = St_encrypting \<Longrightarrow> page_step polled pg (pg\<lparr> pg_stage := St_inflight \<rparr>)"
| answered_secure: "pg_stage pg = St_inflight \<Longrightarrow> pg_sending pg = secure \<Longrightarrow> page_step polled pg (secure_end out pg)"
| answered_compat: "pg_stage pg = St_inflight \<Longrightarrow> pg_sending pg = compatibility \<Longrightarrow> page_step polled pg (compat_end st body pg)"
| wall: "page_step polled pg (loadGateWall policyMs pg)"
| poll: "rid \<in> set (pg_polls pg) \<Longrightarrow> polled rid (Some res) \<Longrightarrow> page_step polled pg (on_poll rid res pg)"
| poll_threw: "rid \<in> set (pg_polls pg) \<Longrightarrow> polled rid None \<Longrightarrow> page_step polled pg (end_poll rid pg)"

section \<open>The phase list\<close>

datatype PhaseState = Ph_idle | Ph_active | Ph_done | Ph_failed | Ph_skipped

definition after_send :: "Stage \<Rightarrow> bool" where
  "after_send s \<longleftrightarrow> s \<in> {St_inflight, St_proving, St_done, St_denied}"

definition proof_phase :: "Stage \<Rightarrow> ProofStatus option \<Rightarrow> PhaseState" where
  "proof_phase s st =
     (if st = Some VERIFIED then Ph_done
      else if st = Some PROOF_FAILED then Ph_failed
      else if st \<in> {Some QUEUED, Some PROVING, Some GENERATED} then Ph_active
      else if s \<in> {St_proving, St_denied} \<or> s = St_done \<and> st = None then Ph_active
      else if s = St_done then Ph_done else Ph_idle)"

definition served_phase :: "Stage \<Rightarrow> PhaseState" where
  "served_phase s = (if s = St_denied then Ph_skipped else if s \<in> {St_done, St_proving} then Ph_done else if s = St_inflight then Ph_active else Ph_idle)"

definition phases :: "page \<Rightarrow> (string \<times> PhaseState) list" where
  "phases pg = (let s = pg_stage pg in
     [(''attest'', if s = St_attesting then Ph_active else if s = St_idle then Ph_idle else Ph_done),
      (''encrypt'', if s = St_encrypting then Ph_active else if after_send s \<or> s = St_error then Ph_done else Ph_idle),
      (''policy'', if s = St_denied then Ph_failed else if after_send s then Ph_done else if s = St_inflight then Ph_active else Ph_idle),
      (''proof'', proof_phase s (map_option pp_status (pg_proof pg))),
      (''route'', served_phase s), (''provider'', served_phase s),
      (''receipt'', if s = St_denied then Ph_skipped
         else if (case pg_result pg of Some c \<Rightarrow> truthy (cs_receipt c) | None \<Rightarrow> False) then Ph_done
         else if s \<in> {St_done, St_proving} then Ph_done else Ph_idle)])"

section \<open>What the page shows\<close>

text \<open>A verdict is never shown beside a system failure, a completion only with ALLOW, a denial only with DENY; and the proof
  shown is an answer of the proof endpoint.\<close>

fun page_shape :: "Stage \<Rightarrow> PolicyDecision option \<Rightarrow> bool \<Rightarrow> bool \<Rightarrow> bool" where
  "page_shape St_error v res fail = (v = None \<and> \<not> res)"
| "page_shape St_denied v res fail = (v = Some DENY \<and> \<not> res \<and> \<not> fail)"
| "page_shape St_proving v res fail = (v = Some ALLOW \<and> res \<and> \<not> fail)"
| "page_shape St_done v res fail = (v = Some ALLOW \<and> res \<and> \<not> fail)"
| "page_shape _ v res fail = (v = None \<and> \<not> res \<and> \<not> fail)"

definition shaped :: "page \<Rightarrow> bool" where
  "shaped pg = page_shape (pg_stage pg) (pg_verdict pg) (pg_result pg \<noteq> None) (pg_systemFailure pg \<noteq> None)"

definition page_ok :: "(jstr \<Rightarrow> ProofPoll option \<Rightarrow> bool) \<Rightarrow> page \<Rightarrow> bool" where
  "page_ok polled pg \<longleftrightarrow> shaped pg \<and> (case pg_proof pg of None \<Rightarrow> True | Some q \<Rightarrow> (\<exists>rid. polled rid (Some q)))"

lemma ends_ok:
  assumes "page_ok polled pg" "pg_stage pg = St_inflight"
  shows "page_ok polled (handleDenial rid com pg)" "page_ok polled (page_unavailable code msg pg)" "page_ok polled (page_completed c wl pg)"
  using assms by (simp_all add: page_ok_def shaped_def handleDenial_def page_unavailable_def page_completed_def pollProof_def Let_def split: json.split list.split)

lemma failed_ok: "page_ok polled pg \<Longrightarrow> busy pg \<Longrightarrow> page_ok polled (page_failed msg pg)"
  by (cases "pg_stage pg") (simp_all add: page_ok_def shaped_def busy_def page_failed_def)

lemma turns_ok:
  assumes "page_ok polled pg"
  shows "page_ok polled (page_send mode pg)" "page_ok polled (loadGateWall ms pg)" "page_ok polled (end_poll rid pg)"
    "pg_stage pg = St_encrypting \<Longrightarrow> page_ok polled (pg\<lparr> pg_stage := St_inflight \<rparr>)"
    "pg_stage pg = St_attesting \<Longrightarrow> page_ok polled (pg\<lparr> pg_stage := St_encrypting \<rparr>)"
proof -
  show "page_ok polled (page_send mode pg)" by (simp add: page_ok_def shaped_def page_send_def)
  show "page_ok polled (loadGateWall ms pg)" using assms by (cases ms; cases "pg_proof pg"; simp add: page_ok_def shaped_def loadGateWall_def)
  show "page_ok polled (end_poll rid pg)" using assms by (cases "pg_stage pg") (simp_all add: page_ok_def shaped_def end_poll_def)
qed (use assms in \<open>simp_all add: page_ok_def shaped_def\<close>)

lemma poll_ok: "page_ok polled pg \<Longrightarrow> polled rid (Some res) \<Longrightarrow> page_ok polled (on_poll rid res pg)"
proof -
  assume "page_ok polled pg" "polled rid (Some res)"
  then have "page_ok polled (pg\<lparr> pg_proof := Some res \<rparr>)" unfolding page_ok_def shaped_def by (simp add: exI [of _ rid])
  then show ?thesis by (simp add: on_poll_def Let_def turns_ok)
qed

lemma page_keeps: "page_step polled pg pg' \<Longrightarrow> page_ok polled pg \<Longrightarrow> page_ok polled pg'"
proof (induction rule: page_step.induct)
  case (answered_secure pg out)
  then show ?case unfolding secure_end_def by (auto intro!: ends_ok failed_ok simp: busy_def split: sum.split client_error.split)
next
  case (answered_compat pg st body)
  then show ?case unfolding compat_end_def Let_def by (auto intro!: ends_ok failed_ok simp: busy_def split: option.split)
next
  case (attested pg valid)
  then show ?case by (simp add: page_attested_def turns_ok failed_ok busy_def)
qed (auto intro: turns_ok poll_ok failed_ok)

interpretation playground: stable "page_step polled" "page_ok polled" for polled
  by unfold_locales (rule page_keeps)

lemma fresh_page_ok: "page_ok polled fresh_page"
  by (simp add: page_ok_def shaped_def fresh_page_def)

lemma proof_row_found:
  assumes "db_wf db" "first_where (\<lambda>p. pf_request_id p = rid) (proofs db) = Some (k, p)"
  shows "map_of (proofs db) k = Some p" "pf_request_id p = rid"
proof -
  have "(k, p) \<in> set (proofs db)" "pf_request_id p = rid" using assms(2) by (auto simp: first_where_def find_Some_iff in_set_conv_nth)
  moreover have "distinct (map fst (proofs db))" using assms(1) by (simp add: db_wf_def shape_wf_def shape_def child_of_def)
  ultimately show "map_of (proofs db) k = Some p" "pf_request_id p = rid" by (simp_all add: map_of_is_SomeI)
qed

text \<open>The answers of the proof endpoint while a coordinator runs; the network may fail.\<close>

definition endpoint_answers :: "runtime \<Rightarrow> (jstr \<Rightarrow> ProofResponse tee_result \<Rightarrow> bool) \<Rightarrow> database \<Rightarrow> jstr \<Rightarrow> ProofPoll option \<Rightarrow> bool" where
  "endpoint_answers rt answers db0 rid a \<longleftrightarrow> a = None
     \<or> (\<exists>s verify. (coord_step rt answers)\<^sup>*\<^sup>* (coordinator_boot db0) s \<and> a = poll_answer (getRequestProof verify (co_db s) rid))"

lemma sealed_answer:
  assumes "requests db0 = []" "proofs db0 = []" "db_wf db0" "endpoint_answers rt answers db0 rid (Some q)" "sealVerifiedByCoordinator (Some q)"
  shows "\<exists>res. answers rid (TeeOk res) \<and> pr_status res = VERIFIED \<and> pr_proofVerified res"
proof -
  obtain s verify where s: "(coord_step rt answers)\<^sup>*\<^sup>* (coordinator_boot db0) s" "poll_answer (getRequestProof verify (co_db s) rid) = Some q"
    using assms(4) by (auto simp: endpoint_answers_def)
  have i: "coord_inv answers s" by (rule coordinator_states.reachable_keeps [OF s(1) boot_coord_inv [OF assms(1,2)]])
  have wf: "db_wf (co_db s)" using ledger_schema.reachable_keeps [OF s(1)] assms(3) by (simp add: coordinator_boot_def)
  obtain k p where p: "first_where (\<lambda>p. pf_request_id p = rid) (proofs (co_db s)) = Some (k, p)" "pf_verified p"
    using s(2) assms(5) by (auto simp: getRequestProof_def poll_answer_def sealVerifiedByCoordinator_def Let_def split: option.splits)
  note row = proof_row_found [OF wf p(1)]
  have "k = proof_id rid" using i row by (auto simp: coord_inv_def)
  then have "reported answers p" using i row(1) p(2) by (auto simp: coord_inv_def id_ok_def rid_ok_def)
  with row(2) show ?thesis by (auto simp: reported_def)
qed

text \<open>C39. The page calls a proof verified only when the enclave did. Whatever is sent, answered and polled in whatever order, and
  whatever the coordinator behind the proof endpoint went through: when the proof panel reads VERIFIED, the enclave had
  answered VERIFIED with a passed verification of the reference verifier for the request whose proof answer is shown; the
  panel then shows a verdict and no system failure.\<close>

theorem playground_verified_sound:
  assumes "requests db0 = []" "proofs db0 = []" "db_wf db0"
    and "(page_step (endpoint_answers rt answers db0))\<^sup>*\<^sup>* fresh_page pg"
    and "ProofBeat (pg_verdict pg) (pg_proof pg) (pg_systemFailure pg) = Beat_verified"
  shows "pg_verdict pg \<noteq> None \<and> pg_systemFailure pg = None \<and> (\<exists>rid q res. pg_proof pg = Some q \<and> endpoint_answers rt answers db0 rid (Some q)
     \<and> answers rid (TeeOk res) \<and> pr_status res = VERIFIED \<and> pr_proofVerified res)"
proof -
  have ok: "page_ok (endpoint_answers rt answers db0) pg" by (rule playground.reachable_keeps [OF assms(4) fresh_page_ok])
  have b: "pg_verdict pg \<noteq> None" "pg_systemFailure pg = None" "sealVerifiedByCoordinator (pg_proof pg)"
    using assms(5) by (cases "pg_systemFailure pg"; auto simp: ProofBeat_def Let_def split: if_splits)+
  then obtain q where q: "pg_proof pg = Some q" by (auto simp: sealVerifiedByCoordinator_def split: option.splits)
  with ok obtain rid where r: "endpoint_answers rt answers db0 rid (Some q)" by (auto simp only: page_ok_def option.case)
  from sealed_answer [OF assms(1-3) r] b r q show ?thesis by auto
qed

text \<open>Conversely, a request with the badge is served as verified.\<close>

lemma badge_served:
  assumes "coord_inv answers s" "db_wf (co_db s)" "map_of (requests (co_db s)) rid = Some r" "rq_trust_status r = Some CONFIDENTIAL_VERIFIED"
  obtains q where "poll_answer (getRequestProof verify (co_db s) rid) = Some q" "pp_status q = VERIFIED" "pp_verified q"
proof -
  obtain p where p: "map_of (proofs (co_db s)) (proof_id rid) = Some p" "pf_verified p"
    using assms(1,3,4) unfolding coord_inv_def id_ok_def rid_ok_def by metis
  then have rep: "reported answers p" using assms(1) unfolding coord_inv_def id_ok_def rid_ok_def by metis
  have rq: "pf_request_id p = rid" by (rule proof_keyed [OF assms(1) p(1)])
  obtain k p' where f: "first_where (\<lambda>p. pf_request_id p = rid) (proofs (co_db s)) = Some (k, p')"
    using map_of_SomeD [OF p(1)] rq by (cases "first_where (\<lambda>p. pf_request_id p = rid) (proofs (co_db s))") (auto simp: first_where_def find_None_iff)
  note row = proof_row_found [OF assms(2) f]
  have "k = proof_id rid" using assms(1) row by (auto simp: coord_inv_def)
  with row p have "p' = p" by simp
  with f rep assms(3) p(2) show thesis by (intro that [of "\<lparr> pp_status = pf_status p, pp_verified = pf_verified p, pp_ms = pf_proof_ms p, pp_error = pf_error p \<rparr>"])
    (auto simp: getRequestProof_def poll_answer_def Let_def reported_def)
qed

lemma page_sends:
  "(page_step polled)\<^sup>*\<^sup>* pg (page_completed c wl ((page_send secure pg)\<lparr> pg_stage := St_inflight \<rparr>))"
  if "\<not> busy pg" "wl = Client.or_else (opt_prop (cs_timings c) ''gateWallMs'') JUndef"
proof -
  let ?p1 = "page_send secure pg"
  have "page_step polled pg ?p1" by (rule page_step.sends [OF that(1)])
  moreover have "page_step polled ?p1 (?p1\<lparr> pg_stage := St_encrypting \<rparr>)"
    using page_step.attested [of ?p1 polled True] by (simp add: page_attested_def page_send_def)
  moreover have "page_step polled (?p1\<lparr> pg_stage := St_encrypting \<rparr>) (?p1\<lparr> pg_stage := St_inflight \<rparr>)"
    using page_step.sealed [of "?p1\<lparr> pg_stage := St_encrypting \<rparr>" polled] by simp
  moreover have "page_step polled (?p1\<lparr> pg_stage := St_inflight \<rparr>) (page_completed c wl (?p1\<lparr> pg_stage := St_inflight \<rparr>))"
    using page_step.answered_secure [of "?p1\<lparr> pg_stage := St_inflight \<rparr>" polled "Inr c"] that(2) by (simp add: secure_end_def page_send_def)
  ultimately show ?thesis by (meson converse_rtranclp_into_rtranclp rtranclp.rtrancl_refl)
qed

definition done_as :: "jstr \<Rightarrow> CompletionResult" where
  "done_as rid = \<lparr> cs_requestId = rid, cs_content = JNull, cs_model = JNull, cs_usage = JNull, cs_commitment = JNull, cs_receipt = JNull, cs_receiptId = JNull,
     cs_route = JNull, cs_timings = JObj [], cs_trustStatus = JNull \<rparr>"

theorem playground_verified_sound_witness:
  "\<exists>pg. (page_step (endpoint_answers sample_runtime run_answers run_db))\<^sup>*\<^sup>* fresh_page pg
     \<and> ProofBeat (pg_verdict pg) (pg_proof pg) (pg_systemFailure pg) = Beat_verified \<and> (\<exists>rid res. run_answers rid (TeeOk res) \<and> pr_proofVerified res)"
proof -
  have db: "requests run_db = []" "proofs run_db = []" "db_wf run_db"
    by (simp_all add: db_wf_def shape_wf_def shape_def refs_def child_of_def run_db_def sample_db_def empty_db_def sample_cred_def)
  obtain s r where s: "(coord_step sample_runtime run_answers)\<^sup>*\<^sup>* (coordinator_boot run_db) s" "map_of (requests (co_db s)) (lit ''req_1'') = Some r"
    "rq_trust_status r = Some CONFIDENTIAL_VERIFIED" by (rule run_badge)
  have i: "coord_inv run_answers s" by (rule coordinator_states.reachable_keeps [OF s(1) boot_coord_inv [OF db(1,2)]])
  have wf: "db_wf (co_db s)" using ledger_schema.reachable_keeps [OF s(1)] db(3) by (simp add: coordinator_boot_def)
  obtain q where q: "poll_answer (getRequestProof (\<lambda>_. EnclaveUnavailable) (co_db s) (lit ''req_1'')) = Some q" "pp_status q = VERIFIED" "pp_verified q"
    by (rule badge_served [OF i wf s(2,3)])
  let ?pl = "endpoint_answers sample_runtime run_answers run_db"
  have a: "?pl (lit ''req_1'') (Some q)" using s(1) q(1) unfolding endpoint_answers_def by metis
  let ?p = "page_completed (done_as (lit ''req_1'')) JUndef ((page_send secure fresh_page)\<lparr> pg_stage := St_inflight \<rparr>)"
  have "(page_step ?pl)\<^sup>*\<^sup>* fresh_page ?p"
    by (rule page_sends) (simp_all add: busy_def fresh_page_def done_as_def opt_prop_def Client.or_else_def nullish_def)
  moreover have "page_step ?pl ?p (on_poll (lit ''req_1'') q ?p)"
    by (rule page_step.poll) (simp_all add: a page_completed_def pollProof_def done_as_def)
  ultimately have r: "(page_step ?pl)\<^sup>*\<^sup>* fresh_page (on_poll (lit ''req_1'') q ?p)" by (rule rtranclp.rtrancl_into_rtrancl)
  moreover have b: "ProofBeat (pg_verdict (on_poll (lit ''req_1'') q ?p)) (pg_proof (on_poll (lit ''req_1'') q ?p)) (pg_systemFailure (on_poll (lit ''req_1'') q ?p)) = Beat_verified"
    using q by (simp add: on_poll_def end_poll_def page_completed_def pollProof_def page_send_def ProofBeat_def sealVerifiedByCoordinator_def Let_def)
  ultimately show ?thesis using playground_verified_sound [OF db r b] by blast
qed

section \<open>What the page gets wrong\<close>

text \<open>The polling loop of an earlier request goes on after a new \<open>send\<close> and writes its answer into the same state: the panel of the
  second request reads VERIFIED although the endpoint never said so of it.\<close>

lemma stale_proof_shown:
  assumes "polled (lit ''a'') (Some q)" "pp_status q = VERIFIED" "pp_verified q"
  shows "\<exists>pg c. (page_step polled)\<^sup>*\<^sup>* fresh_page pg \<and> pg_result pg = Some c \<and> cs_requestId c = lit ''b''
     \<and> ProofBeat (pg_verdict pg) (pg_proof pg) (pg_systemFailure pg) = Beat_verified"
proof -
  let ?go = "\<lambda>rid pg. page_completed (done_as rid) JUndef ((page_send secure pg)\<lparr> pg_stage := St_inflight \<rparr>)"
  have wl: "JUndef = Client.or_else (opt_prop (cs_timings (done_as rid)) ''gateWallMs'') JUndef" for rid
    by (simp add: done_as_def opt_prop_def Client.or_else_def nullish_def)
  define p1 where "p1 = ?go (lit ''a'') fresh_page"
  define p2 where "p2 = ?go (lit ''b'') p1"
  have 1: "(page_step polled)\<^sup>*\<^sup>* fresh_page p1" unfolding p1_def by (rule page_sends [OF _ wl]) (simp add: busy_def fresh_page_def)
  have "\<not> busy p1" by (simp add: p1_def busy_def page_completed_def pollProof_def)
  then have 2: "(page_step polled)\<^sup>*\<^sup>* p1 p2" unfolding p2_def by (rule page_sends [OF _ wl])
  have polls: "lit ''a'' \<in> set (pg_polls p2)" by (simp add: p2_def p1_def page_completed_def pollProof_def page_send_def done_as_def)
  have 3: "page_step polled p2 (on_poll (lit ''a'') q p2)" by (rule page_step.poll [OF polls]) (rule assms(1))
  have reach: "(page_step polled)\<^sup>*\<^sup>* fresh_page (on_poll (lit ''a'') q p2)"
    by (rule rtranclp.rtrancl_into_rtrancl [OF rtranclp_trans [OF 1 2] 3])
  have "pg_result p2 = Some (done_as (lit ''b''))" "pg_verdict p2 = Some ALLOW" "pg_systemFailure p2 = None"
    by (simp_all add: p2_def page_completed_def pollProof_def page_send_def)
  then have "pg_result (on_poll (lit ''a'') q p2) = Some (done_as (lit ''b''))" "ProofBeat (pg_verdict (on_poll (lit ''a'') q p2)) (pg_proof (on_poll (lit ''a'') q p2)) (pg_systemFailure (on_poll (lit ''a'') q p2)) = Beat_verified"
    using assms(2,3) by (simp_all add: on_poll_def end_poll_def ProofBeat_def sealVerifiedByCoordinator_def Let_def)
  moreover have "cs_requestId (done_as (lit ''b'')) = lit ''b''" by (simp add: done_as_def)
  ultimately show ?thesis using reach by blast
qed

text \<open>While the request is in flight the policy phase already reads done, with the text ALLOW; and a send refused for its attestation
  marks the encryption as done.\<close>

lemma phases_run_ahead:
  "pg_stage pg = St_inflight \<Longrightarrow> map_of (phases pg) ''policy'' = Some Ph_done"
  "map_of (phases (page_attested False pg)) ''encrypt'' = Some Ph_done"
  by (simp_all add: phases_def Let_def after_send_def page_attested_def page_failed_def)

text \<open>A denial puts its request id under \<open>error\<close>, and the compatibility path looks for it at the top: the proof of the denial is
  never polled.\<close>

lemma compat_denial_not_polled:
  assumes "deny_request rt now ms rid compatibility gate db = (r, db')" "reply_code r = 403"
  shows "pg_polls (compat_end (reply_code r) (reply_body r) pg) = pg_polls pg \<and> pg_stage (compat_end (reply_code r) (reply_body r) pg) = St_denied"
proof -
  have "r = error_reply 403 (lit ''CTN_POLICY_DENIED'') (lit ''Request was not eligible under Safety Policy v1.'') rid
          [(lit ''policy_id'', JStr (gr_policyId gate))] [(lit ''request_commitment'', JStr (gr_commitment gate))]"
    using assms by (auto simp: deny_request_def closing_def internal_error_def split: sum.splits)
  then show ?thesis by (simp add: error_reply_def compat_end_def handleDenial_def opt_prop_def Let_def)
qed

end
