(* ===== verification/Contribute.thy ===== *)
theory Contribute
  imports Client
begin

text \<open>
  The contributor's onboarding page (\<^verbatim>\<open>apps/web/src/app/contribute/page.tsx\<close>): the state of the form, one function per handler or
  stretch of a handler between two \<open>await\<close>s, and the step relation that interleaves them with the polled catalog. A handler
  works on the values of the render it was created in, so a submission keeps the form as it was at the click. Markup is
  left out; number fields hold whole numbers or are empty. Shown: a key is asked for only after a fresh attestation verified, and
  what leaves the browser is sealed to the attested key.
\<close>

section \<open>The form\<close>

datatype Step = Sp_capability | Sp_attest | Sp_key | Sp_done

datatype form_error = Check_failed string | Not_verified | Owner_refused | Call_failed client_error

text \<open>What \<open>submit\<close> holds on to.\<close>

record submission =
  sb_contribution :: contribution
  sb_displayName :: jstr
  sb_attestation :: AttestationBundle

record form =
  fm_step :: Step
  fm_catalog :: "(jstr \<times> jstr list) list"
  fm_displayName :: jstr
  fm_contributorId :: jstr
  fm_label :: jstr
  fm_provider :: jstr
  fm_allowedModels :: "jstr list"
  fm_dailyUsd :: "int option"
  fm_dailyRequests :: "int option"
  fm_weight :: "int option"
  fm_attestation :: "AttestationBundle option"
  fm_attestationNonce :: "jstr option"
  fm_apiKey :: jstr
  fm_busy :: bool
  fm_error :: "form_error option"
  fm_created :: "json option"
  fm_submitting :: "submission option"
  fm_sent :: "(submission \<times> contribution_body) list"

text \<open>\<open>fm_sent\<close> is no state of the page: it records what was posted to \<^verbatim>\<open>/v1/credentials\<close>.\<close>

definition empty_form :: form where
  "empty_form = \<lparr> fm_step = Sp_capability, fm_catalog = [], fm_displayName = [], fm_contributorId = [], fm_label = [], fm_provider = [],
     fm_allowedModels = [], fm_dailyUsd = Some 5, fm_dailyRequests = Some 100, fm_weight = Some 1, fm_attestation = None, fm_attestationNonce = None,
     fm_apiKey = [], fm_busy = False, fm_error = None, fm_created = None, fm_submitting = None, fm_sent = [] \<rparr>"

definition activeProvider :: "form \<Rightarrow> jstr" where
  "activeProvider fm =
     (if fm_provider fm \<noteq> [] then fm_provider fm
      else if lit ''mock'' \<in> set (map fst (fm_catalog fm)) then lit ''mock''
      else (case fm_catalog fm of (p, _) # _ \<Rightarrow> p | [] \<Rightarrow> []))"

definition catalogModels :: "form \<Rightarrow> jstr list" where
  "catalogModels fm = (case find (\<lambda>(p, _). p = activeProvider fm) (fm_catalog fm) of Some (_, ms) \<Rightarrow> ms | None \<Rightarrow> [])"

text \<open>The effect on \<open>catalogModels\<close>. Every answer of the poll is a new array, also one with the same models, so the effect runs for it.\<close>

definition reset_models :: "form \<Rightarrow> form" where
  "reset_models fm = fm\<lparr> fm_allowedModels := (case catalogModels fm of m # _ \<Rightarrow> [m] | [] \<Rightarrow> []) \<rparr>"

definition catalog_polled :: "(jstr \<times> jstr list) list \<Rightarrow> form \<Rightarrow> form" where
  "catalog_polled cat fm = reset_models (fm\<lparr> fm_catalog := cat \<rparr>)"

definition choose_provider :: "jstr \<Rightarrow> form \<Rightarrow> form" where
  "choose_provider p fm = (if p = activeProvider fm then fm else reset_models (fm\<lparr> fm_provider := p \<rparr>))"

definition toggle_model :: "jstr \<Rightarrow> form \<Rightarrow> form" where
  "toggle_model m fm = fm\<lparr> fm_allowedModels :=
     (if m \<in> set (fm_allowedModels fm) then filter (\<lambda>x. x \<noteq> m) (fm_allowedModels fm) else fm_allowedModels fm @ [m]) \<rparr>"

definition bundle_verifies :: "runtime \<Rightarrow> AttestationBundle option \<Rightarrow> jstr option \<Rightarrow> bool" where
  "bundle_verifies rt att nonce = (case att of
     None \<Rightarrow> False
   | Some b \<Rightarrow> (case verifyAttestationBundle rt b nonce of Some v \<Rightarrow> bv_valid v | None \<Rightarrow> False))"

definition attestationVerified :: "runtime \<Rightarrow> form \<Rightarrow> bool" where
  "attestationVerified rt fm = bundle_verifies rt (fm_attestation fm) (fm_attestationNonce fm)"

section \<open>Handlers\<close>

definition verify_begin :: "form \<Rightarrow> form" where
  "verify_begin fm = fm\<lparr> fm_busy := True, fm_error := None \<rparr>"

definition verifyEnclave :: "runtime \<Rightarrow> jstr \<Rightarrow> client_error + AttestationBundle \<Rightarrow> form \<Rightarrow> form" where
  "verifyEnclave rt nonce fetched fm = (case fetched of
     Inl e \<Rightarrow> fm\<lparr> fm_error := Some (Call_failed e), fm_busy := False \<rparr>
   | Inr b \<Rightarrow> (let fm1 = fm\<lparr> fm_attestation := Some b, fm_attestationNonce := Some nonce, fm_busy := False \<rparr>
       in (case verifyAttestationBundle rt b (Some nonce) of
             None \<Rightarrow> fm1\<lparr> fm_error := Some (Call_failed ClientThrew) \<rparr>
           | Some v \<Rightarrow> if bv_valid v then fm1\<lparr> fm_step := Sp_key \<rparr>
               else fm1\<lparr> fm_error := Some (Check_failed (case find (\<lambda>c. \<not> ck_pass c \<and> ck_name c \<noteq> HARDWARE) (bv_checks v) of Some c \<Rightarrow> ck_name c | None \<Rightarrow> ''unknown check'')) \<rparr>)))"

definition or_text :: "jstr \<Rightarrow> string \<Rightarrow> jstr" where
  "or_text s d = (if s = [] then lit d else s)"

definition form_contribution :: "form \<Rightarrow> contribution" where
  "form_contribution fm = \<lparr> ct_contributorId = fm_contributorId fm, ct_label = or_text (trim (fm_label fm)) ''Contributed capacity'',
     ct_provider = activeProvider fm, ct_apiKey = trim (fm_apiKey fm), ct_allowedModels = fm_allowedModels fm,
     ct_weight = Some (case fm_weight fm of Some w \<Rightarrow> if w = 0 then 1 else w | None \<Rightarrow> 1),
     ct_operationalLimits = JObj [(lit ''dailyUsd'', case fm_dailyUsd fm of Some n \<Rightarrow> JInt n | None \<Rightarrow> JUndef),
       (lit ''dailyRequests'', case fm_dailyRequests fm of Some n \<Rightarrow> JInt n | None \<Rightarrow> JUndef)] \<rparr>"

definition submit :: "runtime \<Rightarrow> form \<Rightarrow> form" where
  "submit rt fm = (case fm_attestation fm of
     Some b \<Rightarrow> if attestationVerified rt fm
       then fm\<lparr> fm_busy := True, fm_error := None, fm_submitting := Some \<lparr> sb_contribution = form_contribution fm, sb_displayName = or_text (trim (fm_displayName fm)) ''Anonymous contributor'', sb_attestation = b \<rparr> \<rparr>
       else fm\<lparr> fm_error := Some Not_verified \<rparr>
   | None \<Rightarrow> fm\<lparr> fm_error := Some Not_verified \<rparr>)"

text \<open>The answer of \<^verbatim>\<open>POST /v1/contributors\<close>, asked only without an owner.\<close>

definition owner_answered :: "jstr option \<Rightarrow> form \<Rightarrow> form" where
  "owner_answered owner fm = (case owner of
     None \<Rightarrow> fm\<lparr> fm_error := Some Owner_refused, fm_busy := False, fm_submitting := None \<rparr>
   | Some cid \<Rightarrow> fm\<lparr> fm_submitting := map_option (\<lambda>sb. sb\<lparr> sb_contribution := (sb_contribution sb)\<lparr> ct_contributorId := cid \<rparr> \<rparr>) (fm_submitting fm) \<rparr>)"

definition contributed :: "runtime \<Rightarrow> crypto_lib \<Rightarrow> byte list \<Rightarrow> byte list \<Rightarrow> (contribution_body \<Rightarrow> http_outcome) \<Rightarrow> submission \<Rightarrow> form \<Rightarrow> form" where
  "contributed rt lib idBytes nonceBytes post sb fm =
     (case contributeCredential rt lib idBytes nonceBytes (Inr (sb_attestation sb)) post (sb_contribution sb) of (bodies, res) \<Rightarrow>
        let fm1 = fm\<lparr> fm_sent := fm_sent fm @ map (Pair sb) bodies, fm_busy := False, fm_submitting := None \<rparr>
        in (case res of
              Inl e \<Rightarrow> fm1\<lparr> fm_error := Some (Call_failed e) \<rparr>
            | Inr result \<Rightarrow> fm1\<lparr> fm_apiKey := [], fm_created := Some result, fm_step := Sp_done \<rparr>))"

definition another :: "form \<Rightarrow> form" where
  "another fm = fm\<lparr> fm_step := Sp_capability, fm_created := None, fm_label := [], fm_contributorId := [], fm_displayName := [] \<rparr>"

definition edit_fields :: "jstr \<Rightarrow> jstr \<Rightarrow> jstr \<Rightarrow> int option \<Rightarrow> int option \<Rightarrow> int option \<Rightarrow> form \<Rightarrow> form" where
  "edit_fields name owner lbl usd reqs w fm = fm\<lparr> fm_displayName := name, fm_contributorId := owner, fm_label := lbl, fm_dailyUsd := usd, fm_dailyRequests := reqs, fm_weight := w \<rparr>"

text \<open>Buttons are there in their step only, and dead while \<open>busy\<close>.\<close>

inductive form_step :: "runtime \<Rightarrow> crypto_lib \<Rightarrow> form \<Rightarrow> form \<Rightarrow> bool" for rt :: runtime and lib :: crypto_lib where
  polled: "form_step rt lib fm (catalog_polled cat fm)"
| provided: "form_step rt lib fm (choose_provider p fm)"
| toggled: "form_step rt lib fm (toggle_model m fm)"
| edited: "form_step rt lib fm (edit_fields name owner lbl usd reqs w fm)"
| continued: "fm_step fm = Sp_capability \<Longrightarrow> fm_allowedModels fm \<noteq> [] \<Longrightarrow> form_step rt lib fm (fm\<lparr> fm_step := Sp_attest \<rparr>)"
| verifying: "fm_step fm = Sp_attest \<Longrightarrow> \<not> fm_busy fm \<Longrightarrow> form_step rt lib fm (verify_begin fm)"
| verified: "fm_step fm = Sp_attest \<Longrightarrow> fm_busy fm \<Longrightarrow> form_step rt lib fm (verifyEnclave rt nonce fetched fm)"
| typed: "fm_step fm = Sp_key \<Longrightarrow> form_step rt lib fm (fm\<lparr> fm_apiKey := key \<rparr>)"
| submitted: "fm_step fm = Sp_key \<Longrightarrow> \<not> fm_busy fm \<Longrightarrow> 8 \<le> length (trim (fm_apiKey fm)) \<Longrightarrow> form_step rt lib fm (submit rt fm)"
| owned: "fm_submitting fm = Some sb \<Longrightarrow> ct_contributorId (sb_contribution sb) = [] \<Longrightarrow> form_step rt lib fm (owner_answered owner fm)"
| posted: "fm_submitting fm = Some sb \<Longrightarrow> ct_contributorId (sb_contribution sb) \<noteq> [] \<Longrightarrow> form_step rt lib fm (contributed rt lib idBytes nonceBytes post sb fm)"
| again: "fm_step fm = Sp_done \<Longrightarrow> form_step rt lib fm (another fm)"

section \<open>The key is sealed to an attested enclave\<close>

definition fresh_bundle :: "runtime \<Rightarrow> AttestationBundle \<Rightarrow> jstr \<Rightarrow> bool" where
  "fresh_bundle rt b nonce \<longleftrightarrow> attested_signature rt b \<and> presented_keys_attested b \<and> ab_nonce b = Some nonce"

definition sealed_for :: "runtime \<Rightarrow> crypto_lib \<Rightarrow> submission \<Rightarrow> contribution_body \<Rightarrow> bool" where
  "sealed_for rt lib sb body \<longleftrightarrow> (\<exists>idBytes nonceBytes t box.
     canonicalJson rt (intent_json (contribution_intent (sb_contribution sb) idBytes nonceBytes)) = Some t
     \<and> hpkeSeal lib (ab_ingressPublicKey (sb_attestation sb)) (utf8 t) None = Some box
     \<and> ib_enc body = resp_enc box \<and> ib_encryptedSecret body = resp_ciphertext box)"

definition form_ok :: "runtime \<Rightarrow> crypto_lib \<Rightarrow> form \<Rightarrow> bool" where
  "form_ok rt lib fm \<longleftrightarrow>
     (fm_attestation fm \<noteq> None \<longrightarrow> fm_attestationNonce fm \<noteq> None)
     \<and> (fm_step fm \<in> {Sp_key, Sp_done} \<longrightarrow> attestationVerified rt fm)
     \<and> (\<forall>sb. fm_submitting fm = Some sb \<longrightarrow> fm_step fm = Sp_key \<and> fm_busy fm \<and> (\<exists>n. fresh_bundle rt (sb_attestation sb) n))
     \<and> (\<forall>(sb, body) \<in> set (fm_sent fm). (\<exists>n. fresh_bundle rt (sb_attestation sb) n) \<and> sealed_for rt lib sb body)"

lemmas quiet_defs = catalog_polled_def reset_models_def choose_provider_def toggle_model_def edit_fields_def another_def verify_begin_def

lemma verified_bundle:
  assumes "attestationVerified rt fm" "fm_attestation fm = Some b" "fm_attestationNonce fm = Some n"
  shows "fresh_bundle rt b n"
  using assms bundle_verdict_exact [of rt b "Some n"] by (auto simp: attestationVerified_def bundle_verifies_def fresh_bundle_def attested_signature_def split: option.splits)

lemma verifyEnclave_ok:
  assumes "form_ok rt lib fm" "fm_step fm = Sp_attest"
  shows "form_ok rt lib (verifyEnclave rt nonce fetched fm)"
proof -
  have "fm_submitting fm = None" using assms by (cases "fm_submitting fm") (auto simp: form_ok_def)
  with assms show ?thesis by (auto simp: form_ok_def verifyEnclave_def attestationVerified_def bundle_verifies_def Let_def split: sum.splits option.splits)
qed

lemma submit_ok:
  assumes "form_ok rt lib fm" "fm_step fm = Sp_key"
  shows "form_ok rt lib (submit rt fm)"
proof -
  have a: "attestationVerified rt fm" using assms by (simp add: form_ok_def)
  then obtain b n where b: "fm_attestation fm = Some b" "fm_attestationNonce fm = Some n"
    using assms(1) by (cases "fm_attestation fm") (auto simp: attestationVerified_def bundle_verifies_def form_ok_def)
  have "attestationVerified rt (submit rt fm)" using a b by (simp add: submit_def attestationVerified_def)
  with verified_bundle [OF a b] assms a b show ?thesis unfolding form_ok_def by (auto simp: submit_def)
qed

lemma contributed_ok:
  assumes ok: "form_ok rt lib fm" and sb: "fm_submitting fm = Some sb"
  shows "form_ok rt lib (contributed rt lib idBytes nonceBytes post sb fm)"
proof -
  obtain bodies res where c: "contributeCredential rt lib idBytes nonceBytes (Inr (sb_attestation sb)) post (sb_contribution sb) = (bodies, res)" by fastforce
  have fresh: "\<exists>n. fresh_bundle rt (sb_attestation sb) n" and v: "attestationVerified rt fm" using ok sb by (auto simp: form_ok_def)
  have "sealed_for rt lib sb body" if "body \<in> set bodies" for body
    using c that by (auto simp: contributeCredential_def Let_def bind_eq_Some_conv split: option.splits if_splits simp del: canonicalJson.simps)
      (force simp: sealed_for_def)+
  moreover have "attestationVerified rt (contributed rt lib idBytes nonceBytes post sb fm)"
    using v by (simp add: contributed_def c attestationVerified_def Let_def split: sum.splits)
  ultimately show ?thesis using ok fresh c unfolding form_ok_def by (auto simp: contributed_def Let_def split: sum.splits)
qed

lemma owner_ok: "form_ok rt lib fm \<Longrightarrow> fm_submitting fm = Some sb \<Longrightarrow> form_ok rt lib (owner_answered owner fm)"
  by (auto simp: form_ok_def owner_answered_def attestationVerified_def split: option.splits)

lemma form_keeps: "form_step rt lib fm fm' \<Longrightarrow> form_ok rt lib fm \<Longrightarrow> form_ok rt lib fm'"
proof (induction rule: form_step.induct)
  case (submitted fm)
  then show ?case using submit_ok by blast
next
  case (posted fm sb)
  then show ?case using contributed_ok by blast
qed (auto intro: verifyEnclave_ok owner_ok, auto simp: form_ok_def quiet_defs attestationVerified_def)

interpretation contribute_page: stable "form_step rt lib" "form_ok rt lib" for rt lib
  by unfold_locales (rule form_keeps)

lemma empty_form_ok: "form_ok rt lib empty_form"
  by (simp add: form_ok_def empty_form_def)

text \<open>C40. A contributor's key goes to an attested enclave only. Whatever is clicked, typed, polled and answered in whatever order: the
  key field is there only while the attestation on the page verifies, for the nonce of this session; and everything posted is
  the canonical intent of a submission, sealed to the ingress key of a bundle whose document is signed, contains the presented
  keys and carries the nonce the page chose.\<close>

theorem key_sealed_to_attested:
  assumes "(form_step rt lib)\<^sup>*\<^sup>* empty_form fm"
  shows "(fm_step fm = Sp_key \<longrightarrow> (\<exists>b n. fm_attestation fm = Some b \<and> fm_attestationNonce fm = Some n \<and> fresh_bundle rt b n))
    \<and> (\<forall>(sb, body) \<in> set (fm_sent fm). (\<exists>n. fresh_bundle rt (sb_attestation sb) n) \<and> sealed_for rt lib sb body)"
proof -
  have ok: "form_ok rt lib fm" by (rule contribute_page.reachable_keeps [OF assms empty_form_ok])
  have "\<exists>b n. fm_attestation fm = Some b \<and> fm_attestationNonce fm = Some n \<and> fresh_bundle rt b n" if "fm_step fm = Sp_key"
  proof -
    have a: "attestationVerified rt fm" using ok that by (simp add: form_ok_def)
    then obtain b n where b: "fm_attestation fm = Some b" "fm_attestationNonce fm = Some n"
      using ok by (cases "fm_attestation fm") (auto simp: attestationVerified_def bundle_verifies_def form_ok_def)
    with verified_bundle [OF a b] show ?thesis by blast
  qed
  with ok show ?thesis unfolding form_ok_def by blast
qed

section \<open>A run\<close>

lemma own_bundle_fresh:
  assumes "signer rt tee" "attestation rt tee now (Some n) = Some b"
  shows "\<exists>v. verifyAttestationBundle rt b (Some n) = Some v \<and> bv_valid v"
proof -
  obtain v where v: "verifyAttestationBundle rt b None = Some v" "bv_valid v" using own_bundle_accepted [OF assms] by blast
  have "ab_nonce b = Some n" using assms(2) by (auto simp: attestation_def Let_def)
  moreover obtain w where "verifyAttestationBundle rt b (Some n) = Some w" using v(1) by (auto simp only: verifyAttestationBundle_def map_option_eq_Some)
  ultimately show ?thesis using v bundle_verdict_exact [of rt b None v] bundle_verdict_exact [of rt b "Some n" w] by simp
qed

lemma sample_session: obtains b where "attestation sample_runtime sample_tee 1 (Some (lit ''n'')) = Some b"
proof -
  have "serialisable (unsigned_document_json (attestation_document sample_tee 1) (Some (lit ''n'')))"
    using one_safe by (auto simp: unsigned_document_json_def pcrs_json_def user_data_json_def attestation_document_def list_all_iff simp del: isSafeInteger.simps)
  then obtain t where "signReceipt sample_runtime sample_tee (unsigned_document_json (attestation_document sample_tee 1) (Some (lit ''n''))) = Some t"
    using signReceipt_defined by blast
  then show ?thesis using that by (simp add: attestation_def Let_def signReceipt_def)
qed

text \<open>The form up to the key step, with two models chosen out of the catalog.\<close>

definition sample_catalog :: "(jstr \<times> jstr list) list" where
  "sample_catalog = [(lit ''mock'', [lit ''a'', lit ''b''])]"

definition typed_form :: "AttestationBundle \<Rightarrow> form" where
  "typed_form b = empty_form\<lparr> fm_step := Sp_key, fm_catalog := sample_catalog, fm_contributorId := lit ''alice'', fm_allowedModels := [lit ''b''],
     fm_attestation := Some b, fm_attestationNonce := Some (lit ''n''), fm_apiKey := lit ''sk-0123456'' \<rparr>"

lemma reaches_typed:
  assumes "verifyAttestationBundle rt b (Some (lit ''n'')) = Some v" "bv_valid v"
  shows "(form_step rt lib)\<^sup>*\<^sup>* empty_form (typed_form b)"
proof -
  define f1 where "f1 = catalog_polled sample_catalog empty_form"
  define f2 where "f2 = toggle_model (lit ''a'') (toggle_model (lit ''b'') f1)"
  define f3 where "f3 = edit_fields [] (lit ''alice'') [] (Some 5) (Some 100) (Some 1) f2"
  define f4 where "f4 = verify_begin (f3\<lparr> fm_step := Sp_attest \<rparr>)"
  define f5 where "f5 = verifyEnclave rt (lit ''n'') (Inr b) f4"
  note d = f1_def f2_def f3_def f4_def f5_def quiet_defs empty_form_def sample_catalog_def catalogModels_def activeProvider_def
  have e: "form_step rt lib empty_form f1" "form_step rt lib f1 (toggle_model (lit ''b'') f1)" "form_step rt lib (toggle_model (lit ''b'') f1) f2" "form_step rt lib f2 f3"
    unfolding f1_def f2_def f3_def by (rule form_step.intros)+
  have c: "form_step rt lib f3 (f3\<lparr> fm_step := Sp_attest \<rparr>)" by (rule form_step.continued) (simp_all add: d)
  have v: "form_step rt lib (f3\<lparr> fm_step := Sp_attest \<rparr>) f4" unfolding f4_def by (rule form_step.verifying) (simp_all add: d)
  have w: "form_step rt lib f4 f5" unfolding f5_def by (rule form_step.verified) (simp_all add: f4_def verify_begin_def)
  have t: "f5\<lparr> fm_apiKey := lit ''sk-0123456'' \<rparr> = typed_form b" using assms by (simp add: d verifyEnclave_def typed_form_def)
  have k: "form_step rt lib f5 (typed_form b)" unfolding t [symmetric]
    by (rule form_step.typed) (use arg_cong [OF t, of fm_step] in \<open>simp add: typed_form_def\<close>)
  note into = rtranclp.rtrancl_into_rtrancl [of "form_step rt lib" empty_form]
  show ?thesis by (rule into [OF into [OF into [OF into [OF into [OF into [OF into [OF r_into_rtranclp [of "form_step rt lib", OF e(1)] e(2)] e(3)] e(4)] c] v] w] k])
qed

theorem key_sealed_to_attested_witness:
  "\<exists>fm sb body. (form_step sample_runtime sample_lib)\<^sup>*\<^sup>* empty_form fm \<and> fm_sent fm = [(sb, body)] \<and> ct_apiKey (sb_contribution sb) = lit ''sk-0123456''
     \<and> (\<exists>n. fresh_bundle sample_runtime (sb_attestation sb) n) \<and> sealed_for sample_runtime sample_lib sb body"
proof -
  obtain b where b: "attestation sample_runtime sample_tee 1 (Some (lit ''n'')) = Some b" by (rule sample_session)
  obtain v where v: "verifyAttestationBundle sample_runtime b (Some (lit ''n'')) = Some v" "bv_valid v" using own_bundle_fresh [OF sample_signer b] by blast
  obtain v0 where v0: "verifyAttestationBundle sample_runtime b None = Some v0" "bv_valid v0" using own_bundle_accepted [OF sample_signer b] by blast
  define sb where "sb = \<lparr> sb_contribution = form_contribution (typed_form b), sb_displayName = or_text (trim (fm_displayName (typed_form b))) ''Anonymous contributor'', sb_attestation = b \<rparr>"
  have key: "trim (fm_apiKey (typed_form b)) = lit ''sk-0123456''" by (simp add: typed_form_def trim_def js_space_def lit_def)
  have sub: "fm_submitting (submit sample_runtime (typed_form b)) = Some sb" "fm_sent (submit sample_runtime (typed_form b)) = []"
    using v by (simp_all add: submit_def attestationVerified_def bundle_verifies_def typed_form_def empty_form_def) (simp add: sb_def typed_form_def empty_form_def)
  have c: "ct_contributorId (sb_contribution sb) = lit ''alice''" "ct_apiKey (sb_contribution sb) = lit ''sk-0123456''"
    using key by (simp_all add: sb_def form_contribution_def) (simp add: typed_form_def)
  have "serialisable (intent_json (contribution_intent (sb_contribution sb) [] []))"
    using one_safe by (simp add: intent_json_def del: isSafeInteger.simps)
  then obtain t where t: "canonicalJson sample_runtime (intent_json (contribution_intent (sb_contribution sb) [] [])) = Some t" using canonicalJson_Some by blast
  define fm where "fm = contributed sample_runtime sample_lib [] [] (\<lambda>_. Unreachable) sb (submit sample_runtime (typed_form b))"
  have "(form_step sample_runtime sample_lib)\<^sup>*\<^sup>* empty_form (typed_form b)" by (rule reaches_typed [OF v])
  moreover have "form_step sample_runtime sample_lib (typed_form b) (submit sample_runtime (typed_form b))"
    by (rule form_step.submitted) (simp_all add: key, simp_all add: typed_form_def empty_form_def lit_def)
  moreover have "form_step sample_runtime sample_lib (submit sample_runtime (typed_form b)) fm"
    unfolding fm_def by (rule form_step.posted [OF sub(1)]) (simp add: c(1) lit_def)
  ultimately have r: "(form_step sample_runtime sample_lib)\<^sup>*\<^sup>* empty_form fm" by (meson rtranclp.rtrancl_into_rtrancl)
  have "sb_attestation sb = b" by (simp add: sb_def)
  then obtain body where s: "fm_sent fm = [(sb, body)]" using v0 t sub(2)
    by (auto simp: fm_def contributed_def contributeCredential_def Let_def hpkeSeal_def sample_lib_def read_json_def simp del: canonicalJson.simps)
  with key_sealed_to_attested [OF r] r c(2) show ?thesis by auto
qed

section \<open>What the page gets wrong\<close>

text \<open>The contributor allowed only model \<open>b\<close>. A poll of the catalog that changes nothing selects \<open>a\<close> in its place, at whatever step the form is,
  and the capability sealed at the next click allows \<open>a\<close>.\<close>

lemma poll_discards_choice:
  assumes "verifyAttestationBundle rt b (Some (lit ''n'')) = Some v" "bv_valid v"
  shows "(form_step rt lib)\<^sup>*\<^sup>* empty_form (typed_form b)" "fm_catalog (typed_form b) = sample_catalog" "fm_allowedModels (typed_form b) = [lit ''b'']"
    "map_option (ct_allowedModels \<circ> sb_contribution) (fm_submitting (submit rt (catalog_polled sample_catalog (typed_form b)))) = Some [lit ''a'']"
  using assms reaches_typed [OF assms]
  by (simp_all add: submit_def attestationVerified_def bundle_verifies_def typed_form_def empty_form_def catalog_polled_def reset_models_def catalogModels_def
      activeProvider_def sample_catalog_def form_contribution_def)

end
