(* ===== verification/Enclave_Log.thy ===== *)
theory Enclave_Log
  imports Safe_Log
begin

text \<open>
  The logger inside the enclave (\<^verbatim>\<open>services/tee-sim/src/enclave-log.ts\<close>). It shares three recognisers with the coordinator's
  logger and has its own cap and markers. Shown: what is printed of a string is a prefix that matches none of the secret
  patterns, at most 160 units long.
\<close>

definition ENCLAVE_PATTERNS :: "(jstr \<Rightarrow> bool) list" where
  "ENCLAVE_PATTERNS = [sk_pattern, bearer_pattern, mock_key_pattern]"

definition MAX_LENGTH :: nat where
  "MAX_LENGTH = 160"

definition enclave_secret :: "jstr \<Rightarrow> bool" where
  "enclave_secret s \<longleftrightarrow> list_ex (\<lambda>p. at_boundary p False s) ENCLAVE_PATTERNS"

definition enclave_note :: "nat \<Rightarrow> jstr" where
  "enclave_note n = [8230] @ lit '' [truncated-by-enclaveSafe] ('' @ nat_digits n @ lit '' chars)''"

definition ENCLAVE_REDACTED :: jstr where
  "ENCLAVE_REDACTED = lit ''[redacted-by-enclaveSafe]''"

definition enclaveSafe :: "jstr \<Rightarrow> jstr" where
  "enclaveSafe s = (if enclave_secret s then ENCLAVE_REDACTED
     else if MAX_LENGTH < length s then take 64 s @ enclave_note (length s)
     else s)"

datatype log_value = LogStr jstr | LogNum jsnum | LogBool bool

definition log_text :: "runtime \<Rightarrow> log_value \<Rightarrow> jstr" where
  "log_text rt v = (case v of LogStr s \<Rightarrow> enclaveSafe s
     | LogNum n \<Rightarrow> (case n of Fin q \<Rightarrow> num_str rt q | NaN \<Rightarrow> lit ''NaN'' | PosInf \<Rightarrow> lit ''Infinity'' | NegInf \<Rightarrow> lit ''-Infinity'')
     | LogBool b \<Rightarrow> lit (if b then ''true'' else ''false''))"

text \<open>The printed line; no space follows the event when there are no fields.\<close>

definition enclaveLog :: "runtime \<Rightarrow> jstr \<Rightarrow> (jstr \<times> log_value) list \<Rightarrow> jstr" where
  "enclaveLog rt event flds =
     lit ''[tee-sim] '' @ event @ concat (map (\<lambda>(k, v). lit '' '' @ k @ lit ''='' @ log_text rt v) flds)"

section \<open>A cut never uncovers a secret\<close>

text \<open>A pattern that is never broken by what follows the matched text.\<close>

definition extends :: "(jstr \<Rightarrow> bool) \<Rightarrow> bool" where
  "extends p \<longleftrightarrow> (\<forall>u v. p u \<longrightarrow> p (u @ v))"

lemma at_boundary_append: "extends p \<Longrightarrow> at_boundary p w u \<Longrightarrow> at_boundary p w (u @ v)"
proof (induction u arbitrary: w)
  case (Cons a u)
  have "p (a # u) \<Longrightarrow> p (a # u @ v)" using Cons.prems(1) unfolding extends_def by (metis append_Cons)
  with Cons show ?case by auto
qed simp

lemma at_least_append: "at_least n cls u \<Longrightarrow> at_least n cls (u @ v)"
proof -
  have "length (takeWhile cls u) \<le> length (takeWhile cls (u @ v))" by (induction u) auto
  then show "at_least n cls u \<Longrightarrow> at_least n cls (u @ v)" by (simp add: at_least_def)
qed

lemma prefixed_extends: "extends p \<Longrightarrow> extends (prefixed pre p)"
  by (auto simp: extends_def prefixed_def starts_with_def)

lemma at_least_extends: "extends (at_least n cls)"
  by (simp add: extends_def at_least_append)

lemma bearer_extends: "extends bearer_pattern"
  unfolding extends_def
proof (intro allI impI)
  fix u v assume b: "bearer_pattern u"
  then have l: "6 \<le> length u" by (auto simp: bearer_pattern_def lit_def dest!: arg_cong [where f = length])
  have "at_least 1 js_space (drop 6 u @ v)" using b by (intro at_least_append) (simp add: bearer_pattern_def)
  moreover have "dropWhile js_space (drop 6 u @ v) \<noteq> []" using b by (auto simp: bearer_pattern_def dropWhile_append dropWhile_eq_Nil_conv)
  ultimately show "bearer_pattern (u @ v)" using b l by (simp add: bearer_pattern_def)
qed

lemma enclave_secret_prefix: "enclave_secret u \<Longrightarrow> enclave_secret (u @ v)"
  using at_boundary_append [OF prefixed_extends [OF at_least_extends]] at_boundary_append [OF bearer_extends]
  by (auto simp: enclave_secret_def ENCLAVE_PATTERNS_def sk_pattern_def mock_key_pattern_def)

text \<open>What the enclave prints of a string: the marker, or a part of the string from its start that is at most 160 units
  long and matches no secret pattern, followed at most by the truncation note. A cut cannot uncover a match the
  whole string did not have.\<close>

theorem enclave_prints_no_secret:
  "enclaveSafe s = ENCLAVE_REDACTED \<or>
   (\<exists>u rest. s = u @ rest \<and> length u \<le> MAX_LENGTH \<and> \<not> enclave_secret u \<and> enclaveSafe s = u @ (if rest = [] then [] else enclave_note (length s)))"
proof (cases "enclave_secret s")
  case False
  show ?thesis
  proof (cases "MAX_LENGTH < length s")
    case True
    moreover have "\<not> enclave_secret (take 64 s)" using False enclave_secret_prefix [of "take 64 s" "drop 64 s"] by auto
    ultimately show ?thesis using False
      by (intro disjI2 exI [of _ "take 64 s"] exI [of _ "drop 64 s"]) (simp add: enclaveSafe_def MAX_LENGTH_def)
  next
    case short: False
    then show ?thesis using False by (intro disjI2 exI [of _ s] exI [of _ "[]"]) (simp add: enclaveSafe_def)
  qed
qed (simp add: enclaveSafe_def)

end
