(* ===== verification/Policy_Package.thy ===== *)
theory Policy_Package
  imports Json_Text Policy_Engine
begin

text \<open>
  Loading the policy (\<^verbatim>\<open>packages/policy/src/index.ts\<close>): the canonical text of the manifest, the guest image identifier, the
  policy identifier and the module cache. The two files are the texts read from a directory. Shown: the policy identifier
  names one canonical manifest and one sequence of rule bytes.
\<close>

section \<open>The canonical text of a manifest\<close>

text \<open>Unlike \<open>canonicalJson\<close>, any number is printed, by \<open>String\<close>.\<close>

definition number_text :: "runtime \<Rightarrow> jsnum \<Rightarrow> jstr" where
  "number_text rt x = (case x of Fin q \<Rightarrow> num_str rt q | NaN \<Rightarrow> lit ''NaN'' | PosInf \<Rightarrow> lit ''Infinity'' | NegInf \<Rightarrow> lit ''-Infinity'')"

function (sequential) policy_canonical :: "runtime \<Rightarrow> json \<Rightarrow> jstr option" where
  "policy_canonical rt JNull = Some (lit ''null'')"
| "policy_canonical rt (JBool b) = Some (if b then lit ''true'' else lit ''false'')"
| "policy_canonical rt (JNum x) = Some (number_text rt x)"
| "policy_canonical rt (JStr s) = Some (quote (nfc rt s))"
| "policy_canonical rt (JArr vs) =
     map_option (\<lambda>parts. 91 # join [44] parts @ [93]) (those (map (policy_canonical rt) vs))"
| "policy_canonical rt (JObj kvs) =
     map_option (\<lambda>parts. 123 # join [44] parts @ [125])
       (those (map (\<lambda>(k, v). map_option (\<lambda>t. quote k @ [58] @ t) (policy_canonical rt v))
         (filter (\<lambda>(k, v). v \<noteq> JUndef) (sort_key fst kvs))))"
| "policy_canonical rt JUndef = None"
  by pat_completeness auto
termination
  by (relation "measure (size \<circ> snd)") (auto dest: size_json_obj elim: size_list_estimation' intro: le_imp_less_Suc)

section \<open>The package\<close>

record PolicyPackage =
  pk_manifest :: json
  pk_rules :: json
  pk_rulesBytes :: "byte list"
  pk_guestImageId :: jstr
  pk_policyId :: jstr

definition GUEST_PREFIX :: "byte list" where
  "GUEST_PREFIX = utf8 (lit ''ctn-policy-v1-guest'' @ [0])"

definition guest_image_of :: "runtime \<Rightarrow> byte list \<Rightarrow> jstr" where
  "guest_image_of rt rulesBytes = lit ''0x'' @ toHex (sha256 rt (GUEST_PREFIX @ rulesBytes))"

definition policy_id_of :: "runtime \<Rightarrow> byte list \<Rightarrow> byte list \<Rightarrow> jstr" where
  "policy_id_of rt canonManifest rulesBytes =
     lit ''0x'' @ toHex (sha256 rt (canonManifest @ rulesBytes @ utf8 (guest_image_of rt rulesBytes)))"

definition read_package :: "runtime \<Rightarrow> jstr \<Rightarrow> jstr \<Rightarrow> PolicyPackage option" where
  "read_package rt manifestRaw rulesRaw =
     Option.bind (json_parse rt manifestRaw) (\<lambda>manifest.
     Option.bind (json_parse rt rulesRaw) (\<lambda>rules.
     Option.bind (policy_canonical rt manifest) (\<lambda>canon.
       (let rulesBytes = utf8 rulesRaw in
        Some \<lparr> pk_manifest = manifest, pk_rules = rules, pk_rulesBytes = rulesBytes,
          pk_guestImageId = guest_image_of rt rulesBytes, pk_policyId = policy_id_of rt (utf8 canon) rulesBytes \<rparr>))))"

text \<open>\<open>files\<close> gives the texts of the manifest and the rules in a directory; only the default directory is cached, and a
  load that throws leaves the cache as it was.\<close>

definition loadPolicyPackage ::
  "runtime \<Rightarrow> jstr \<Rightarrow> (jstr \<Rightarrow> (jstr \<times> jstr) option) \<Rightarrow> jstr \<Rightarrow> PolicyPackage option \<Rightarrow> PolicyPackage option \<times> PolicyPackage option" where
  "loadPolicyPackage rt POLICY_DIR files d cached =
     (if cached \<noteq> None \<and> d = POLICY_DIR then (cached, cached)
      else (case Option.bind (files d) (\<lambda>(m, r). read_package rt m r) of
              None \<Rightarrow> (None, cached)
            | Some pkg \<Rightarrow> (Some pkg, if d = POLICY_DIR then Some pkg else cached)))"

section \<open>What the identifiers name\<close>

lemma toHex_inject: "toHex a = toHex b \<longleftrightarrow> a = b"
  by (metis hexc.dec_enc option.inject)

lemma length_toHex: "length (toHex bs) = 2 * length bs"
  by (induction bs) (simp_all add: toHex_def)

lemma digest_units: "\<forall>c \<in> set (lit ''0x'' @ toHex bs). c < 128"
proof -
  have "unat (y :: byte) div 16 < 16" for y using byte_lt [of y] by (simp add: less_mult_imp_div_less)
  then have d: "unat (y :: byte) div 16 < 41" for y by (rule less_trans) simp
  show ?thesis using d by (auto simp: lit_def toHex_def digit_def)
qed

lemma length_digest: "length (utf8 (lit ''0x'' @ toHex bs)) = 2 + 2 * length bs"
  using digest_units [of bs] by (simp only: utf8_ascii length_map) (simp add: length_toHex)

lemma digest_bytes_inject: "utf8 (lit ''0x'' @ toHex a) = utf8 (lit ''0x'' @ toHex b) \<longleftrightarrow> a = b"
proof
  assume "utf8 (lit ''0x'' @ toHex a) = utf8 (lit ''0x'' @ toHex b)"
  then have "map (of_nat :: nat \<Rightarrow> byte) (lit ''0x'' @ toHex a) = map of_nat (lit ''0x'' @ toHex b)"
    using digest_units [of a] digest_units [of b] by (simp only: utf8_ascii)
  moreover have "inj_on (of_nat :: nat \<Rightarrow> byte) (set (lit ''0x'' @ toHex a) \<union> set (lit ''0x'' @ toHex b))"
  proof (rule inj_onI)
    fix x y assume "x \<in> set (lit ''0x'' @ toHex a) \<union> set (lit ''0x'' @ toHex b)" "y \<in> set (lit ''0x'' @ toHex a) \<union> set (lit ''0x'' @ toHex b)"
      and e: "(of_nat x :: byte) = of_nat y"
    then have "x < 256" "y < 256" using digest_units [of a] digest_units [of b] by (auto simp del: set_append)
    then show "x = y" using arg_cong [OF e, of unat] by (simp add: unat_of_nat)
  qed
  ultimately have "lit ''0x'' @ toHex a = lit ''0x'' @ toHex b" by (simp only: inj_on_map_eq_map)
  then show "a = b" by (simp add: toHex_inject)
qed simp

lemma read_package_Some:
  assumes "read_package rt m r = Some p"
  obtains v t where "json_parse rt m = Some v" "policy_canonical rt v = Some t" "pk_manifest p = v" "pk_rulesBytes p = utf8 r"
    "pk_guestImageId p = guest_image_of rt (utf8 r)" "pk_policyId p = policy_id_of rt (utf8 t) (utf8 r)"
  using assms by (auto simp: read_package_def Let_def bind_eq_Some_conv)

text \<open>C35. The policy identifier is an identifier: for two packages that load, with a hash of fixed length that does not
  collide on the four texts hashed for them, the identifiers agree exactly when the rule files agree byte for byte and
  the manifests have the same canonical text; then the guest image identifiers agree too. The concatenation in the hash
  is not ambiguous.\<close>

theorem policy_id_names_policy:
  assumes p: "read_package rt m1 r1 = Some p1" "read_package rt m2 r2 = Some p2"
    and len: "\<And>bs. length (sha256 rt bs) = 32"
    and guest: "inj_on (sha256 rt) {GUEST_PREFIX @ pk_rulesBytes p1, GUEST_PREFIX @ pk_rulesBytes p2}"
    and policy: "inj_on (sha256 rt) {utf8 (the (policy_canonical rt (pk_manifest p1))) @ pk_rulesBytes p1 @ utf8 (pk_guestImageId p1),
       utf8 (the (policy_canonical rt (pk_manifest p2))) @ pk_rulesBytes p2 @ utf8 (pk_guestImageId p2)}"
  shows "pk_policyId p1 = pk_policyId p2 \<longleftrightarrow> pk_rulesBytes p1 = pk_rulesBytes p2
     \<and> map_option utf8 (policy_canonical rt (pk_manifest p1)) = map_option utf8 (policy_canonical rt (pk_manifest p2))"
proof -
  obtain v1 t1 where 1: "policy_canonical rt v1 = Some t1" "pk_manifest p1 = v1" "pk_rulesBytes p1 = utf8 r1"
    "pk_guestImageId p1 = guest_image_of rt (utf8 r1)" "pk_policyId p1 = policy_id_of rt (utf8 t1) (utf8 r1)"
    using p(1) by (rule read_package_Some)
  obtain v2 t2 where 2: "policy_canonical rt v2 = Some t2" "pk_manifest p2 = v2" "pk_rulesBytes p2 = utf8 r2"
    "pk_guestImageId p2 = guest_image_of rt (utf8 r2)" "pk_policyId p2 = policy_id_of rt (utf8 t2) (utf8 r2)"
    using p(2) by (rule read_package_Some)
  have "utf8 r1 = utf8 r2 \<and> utf8 t1 = utf8 t2" if same: "policy_id_of rt (utf8 t1) (utf8 r1) = policy_id_of rt (utf8 t2) (utf8 r2)"
  proof -
    have "sha256 rt (utf8 t1 @ utf8 r1 @ utf8 (guest_image_of rt (utf8 r1))) = sha256 rt (utf8 t2 @ utf8 r2 @ utf8 (guest_image_of rt (utf8 r2)))"
      using same by (simp add: policy_id_of_def toHex_inject)
    then have cat: "utf8 t1 @ utf8 r1 @ utf8 (guest_image_of rt (utf8 r1)) = utf8 t2 @ utf8 r2 @ utf8 (guest_image_of rt (utf8 r2))"
      using policy unfolding 1 2 option.sel by (auto dest: inj_onD)
    have "length (utf8 (guest_image_of rt (utf8 r1))) = length (utf8 (guest_image_of rt (utf8 r2)))"
      unfolding guest_image_of_def length_digest by (simp add: len)
    with cat have a: "utf8 (guest_image_of rt (utf8 r1)) = utf8 (guest_image_of rt (utf8 r2))" "utf8 t1 @ utf8 r1 = utf8 t2 @ utf8 r2"
      using append_eq_append_conv [of "utf8 t1 @ utf8 r1" "utf8 t2 @ utf8 r2" "utf8 (guest_image_of rt (utf8 r1))" "utf8 (guest_image_of rt (utf8 r2))"] by simp_all
    then have "sha256 rt (GUEST_PREFIX @ utf8 r1) = sha256 rt (GUEST_PREFIX @ utf8 r2)"
      by (simp only: guest_image_of_def digest_bytes_inject)
    then have "GUEST_PREFIX @ utf8 r1 = GUEST_PREFIX @ utf8 r2" using guest unfolding 1 2 by (auto dest: inj_onD)
    with a show ?thesis by simp
  qed
  then show ?thesis using 1 2 by auto
qed

definition length_hash :: "byte list \<Rightarrow> byte list" where
  "length_hash bs = replicate 31 0 @ [of_nat (length bs)]"

theorem policy_id_names_policy_witness:
  "\<exists>p1 p2. read_package (sample_runtime\<lparr> sha256 := length_hash \<rparr>) (lit ''{}'') (lit ''[]'') = Some p1
     \<and> read_package (sample_runtime\<lparr> sha256 := length_hash \<rparr>) (lit ''{}'') (lit ''[ ]'') = Some p2 \<and> pk_policyId p1 \<noteq> pk_policyId p2"
proof -
  let ?rt = "sample_runtime\<lparr> sha256 := length_hash \<rparr>"
  have j: "json_parse ?rt (lit ''{}'') = Some (JObj [])" "json_parse ?rt (lit ''[]'') = Some (JArr [])" "json_parse ?rt (lit ''[ ]'') = Some (JArr [])"
    by (simp_all add: json_parse_def skip_ws_def lit_def starts_with_def)
  obtain p1 where 1: "read_package ?rt (lit ''{}'') (lit ''[]'') = Some p1" "pk_rulesBytes p1 = utf8 (lit ''[]'')" "pk_manifest p1 = JObj []"
     "pk_guestImageId p1 = guest_image_of ?rt (utf8 (lit ''[]''))"
    by (simp add: read_package_def j Let_def)
  obtain p2 where 2: "read_package ?rt (lit ''{}'') (lit ''[ ]'') = Some p2" "pk_rulesBytes p2 = utf8 (lit ''[ ]'')" "pk_manifest p2 = JObj []"
     "pk_guestImageId p2 = guest_image_of ?rt (utf8 (lit ''[ ]''))"
    by (simp add: read_package_def j Let_def)
  have u: "utf8 (lit ''[]'') = [0x5b, 0x5d]" "utf8 (lit ''[ ]'') = [0x5b, 0x20, 0x5d]" "length GUEST_PREFIX = 20"
    by (simp_all add: utf8_ascii lit_def GUEST_PREFIX_def)
  have len: "length (sha256 ?rt bs) = 32" for bs by (simp add: length_hash_def)
  have g: "length (utf8 (guest_image_of ?rt bs)) = 66" for bs unfolding guest_image_of_def length_digest by (simp add: length_hash_def)
  have c: "the (policy_canonical ?rt (JObj [])) = lit ''{}''" "length (utf8 (lit ''{}'')) = 2" by (simp_all add: lit_def utf8_ascii)
  have "inj_on (sha256 ?rt) {GUEST_PREFIX @ pk_rulesBytes p1, GUEST_PREFIX @ pk_rulesBytes p2}"
    unfolding 1 2 u by (auto simp: inj_on_def length_hash_def u(3))
  moreover have "inj_on (sha256 ?rt) {utf8 (the (policy_canonical ?rt (pk_manifest p1))) @ pk_rulesBytes p1 @ utf8 (pk_guestImageId p1),
       utf8 (the (policy_canonical ?rt (pk_manifest p2))) @ pk_rulesBytes p2 @ utf8 (pk_guestImageId p2)}"
    unfolding 1 2 c u(1,2) by (auto simp: inj_on_def length_hash_def g c(2))
  ultimately have "pk_policyId p1 = pk_policyId p2 \<longleftrightarrow> pk_rulesBytes p1 = pk_rulesBytes p2
     \<and> map_option utf8 (policy_canonical ?rt (pk_manifest p1)) = map_option utf8 (policy_canonical ?rt (pk_manifest p2))"
    by (rule policy_id_names_policy [OF 1(1) 2(1) len])
  with 1 2 u show ?thesis by simp
qed

text \<open>A cached package is served whatever the files say now.\<close>

lemma cached_policy_is_final: "loadPolicyPackage rt d files d (Some p) = (Some p, Some p)"
  by (simp add: loadPolicyPackage_def)

end
