(* ===== verification/Endpoints.thy ===== *)
theory Endpoints
  imports Reports Enclave_Log Policy_Package
begin

text \<open>
  The endpoints without state and the error handlers of both servers (\<^verbatim>\<open>services/coordinator/src/index.ts\<close> and
  \<^verbatim>\<open>services/tee-sim/src/index.ts\<close>): health, the build manifest and its relay, the published policy, the model list, and what an
  uncaught exception is turned into. Shown: an exception leaves the enclave only as scrubbed text, and the relay of a
  build manifest keeps every claim the enclave made.
\<close>

section \<open>Error handlers\<close>

text \<open>The enclave: the line on the console and the answer.\<close>

definition enclave_error_handler :: "jstr \<Rightarrow> jstr \<Rightarrow> jstr \<Rightarrow> jstr \<times> reply" where
  "enclave_error_handler meth url msg =
     (lit ''[tee-sim] error on '' @ meth @ lit '' '' @ url @ lit '': '' @ enclaveSafe msg,
      Reply 500 (JObj [(lit ''error'', JObj [(lit ''code'', JStr (lit ''CTN_INTERNAL'')), (lit ''message'', JStr (lit ''enclave error: '' @ enclaveSafe msg))])]))"

text \<open>The coordinator: the log line is scrubbed, the answer carries the message as it is.\<close>

definition coordinator_error_handler :: "runtime \<Rightarrow> int \<Rightarrow> jstr \<Rightarrow> jstr \<Rightarrow> jstr \<Rightarrow> (LogLevel \<times> json) \<times> reply" where
  "coordinator_error_handler rt now meth url msg =
     (safeLog rt now Error_level (lit ''coordinator.unhandled_error'') [(lit ''method'', JStr meth), (lit ''url'', JStr url), (lit ''message'', JStr msg)],
      Reply 500 (JObj [(lit ''error'', JObj [(lit ''code'', JStr (lit ''CTN_INTERNAL'')), (lit ''message'', JStr msg)])]))"

section \<open>Health, manifest, policy\<close>

definition enclave_health :: json where
  "enclave_health = JObj [(lit ''ok'', JBool True), (lit ''service'', JStr (lit ''tee-sim'')), (lit ''mode'', JStr tee_mode)]"

definition coordinator_health :: "jstr \<Rightarrow> json" where
  "coordinator_health env = JObj [(lit ''ok'', JBool True), (lit ''service'', JStr (lit ''coordinator'')), (lit ''env'', JStr env)]"

text \<open>\<open>None\<close>: the attestation could not be signed, or the rules have no canonical text.\<close>

definition build_manifest :: "runtime \<Rightarrow> SimulatedTEE \<Rightarrow> PolicyPackage \<Rightarrow> int \<Rightarrow> json option" where
  "build_manifest rt tee pkg now =
     Option.bind (attestation rt tee now None) (\<lambda>b. map_option (\<lambda>h.
       JObj [(lit ''enclaveMode'', JStr tee_mode), (lit ''enclaveBuildId'', JStr (tee_buildId tee)), (lit ''pcrs'', pcrs_json (ab_document b)),
         (lit ''policyId'', JStr (pk_policyId pkg)), (lit ''zkGuestImageId'', JStr (pk_guestImageId pkg)), (lit ''proofSystem'', JStr (lit ''risc0'')),
         (lit ''policyRulesSha256'', JStr (lit ''0x'' @ h)), (lit ''warning'', JStr SIMULATION_WARNING)]) (canonicalHash rt (pk_rules pkg)))"

definition getBuildManifest :: "jstr \<Rightarrow> PolicyPackage \<Rightarrow> (jstr \<times> json) list tee_result \<Rightarrow> reply" where
  "getBuildManifest env pkg r = (case r of
     TeeOk manifest \<Rightarrow> Reply 200 (JObj (spread [(lit ''env'', JStr env), (lit ''coordinatorPolicyId'', JStr (pk_policyId pkg))] manifest))
   | _ \<Rightarrow> enclave_unavailable)"

definition POLICY_DISCLAIMER :: jstr where
  "POLICY_DISCLAIMER = lit ''Safety Policy v1 is a small deterministic integer-scoring engine chosen because it is auditable and provable. '' @
     lit ''It is not a production moderation model and can produce false positives and false negatives.''"

definition category_view :: "jstr \<times> json \<Rightarrow> json" where
  "category_view e = JObj [(lit ''id'', JStr (fst e)), (lit ''name'', opt_prop (snd e) ''name''), (lit ''threshold'', opt_prop (snd e) ''threshold'')]"

text \<open>\<open>None\<close>: rules without an object of categories.\<close>

definition getPolicy :: "PolicyPackage \<Rightarrow> json option" where
  "getPolicy pkg = (case opt_prop (pk_rules pkg) ''categories'' of
     JObj cats \<Rightarrow> Some (JObj [(lit ''policyId'', JStr (pk_policyId pkg)), (lit ''guestImageId'', JStr (pk_guestImageId pkg)),
       (lit ''name'', opt_prop (pk_manifest pkg) ''name''), (lit ''version'', opt_prop (pk_manifest pkg) ''version''), (lit ''engine'', opt_prop (pk_manifest pkg) ''engine''),
       (lit ''normalizer'', opt_prop (pk_rules pkg) ''normalizer''), (lit ''categories'', JArr (map category_view cats)), (lit ''disclaimer'', JStr POLICY_DISCLAIMER)])
   | _ \<Rightarrow> None)"

section \<open>The model list\<close>

definition MODEL_META :: "(jstr \<times> jstr \<times> jstr) list" where
  "MODEL_META = map (\<lambda>(i, l, t). (lit i, lit l, lit t))
     [(''ctn/demo-model-a'', ''Demo Model A'', ''standard''), (''ctn/demo-model-b'', ''Demo Model B'', ''frontier''),
      (''ctn/demo-model-fast'', ''Demo Model Fast'', ''fast''), (''claude-haiku-4-5-20251001'', ''Claude Haiku 4.5'', ''fast''),
      (''claude-sonnet-4-5-20250929'', ''Claude Sonnet 4.5'', ''frontier''), (''gpt-4o-mini-2024-07-18'', ''GPT-4o mini'', ''fast''),
      (''gpt-4o-2024-08-06'', ''GPT-4o'', ''frontier'')]"

definition model_view :: "jstr \<times> int \<Rightarrow> json" where
  "model_view e = (let (label, tier) = (case map_of MODEL_META (fst e) of Some m \<Rightarrow> m | None \<Rightarrow> (fst e, lit ''standard''))
     in JObj [(lit ''id'', JStr (fst e)), (lit ''object'', JStr (lit ''model'')), (lit ''label'', JStr label), (lit ''tier'', JStr tier),
        (lit ''providers_available'', JInt (snd e)), (lit ''trust_policy'', JStr (lit ''safety-v1''))])"

definition model_list :: "jstr list tee_result \<Rightarrow> database \<Rightarrow> json" where
  "model_list catalog db = JObj [(lit ''object'', JStr (lit ''list'')), (lit ''data'', JArr (map model_view (getModels catalog db)))]"

section \<open>What they disclose\<close>

text \<open>The message of an answer.\<close>

definition reply_message :: "reply \<Rightarrow> json" where
  "reply_message r = opt_prop (opt_prop (reply_body r) ''error'') ''message''"

text \<open>What an uncaught exception lets out of the enclave, in the answer and on the console: the marker, or a part of the message from its
  start that is at most 160 units long and matches no secret pattern.\<close>

theorem enclave_error_discloses:
  "\<exists>shown. reply_message (snd (enclave_error_handler meth url msg)) = JStr (lit ''enclave error: '' @ shown)
     \<and> fst (enclave_error_handler meth url msg) = lit ''[tee-sim] error on '' @ meth @ lit '' '' @ url @ lit '': '' @ shown
     \<and> (shown = ENCLAVE_REDACTED \<or> (\<exists>u rest. msg = u @ rest \<and> length u \<le> MAX_LENGTH \<and> \<not> enclave_secret u
          \<and> shown = u @ (if rest = [] then [] else enclave_note (length msg))))"
  using enclave_prints_no_secret [of msg] by (intro exI [of _ "enclaveSafe msg"]) (simp add: enclave_error_handler_def reply_message_def opt_prop_def)

text \<open>The coordinator scrubs the same text in its log and answers with it as it is.\<close>

lemma coordinator_error_echoes: "reply_message (snd (coordinator_error_handler rt now meth url msg)) = JStr msg"
  by (simp add: coordinator_error_handler_def reply_message_def opt_prop_def)

text \<open>The relay of a build manifest keeps every claim of the enclave; the coordinator adds its environment and the policy it loaded.\<close>

theorem manifest_relay_keeps:
  assumes "k \<notin> {lit ''env'', lit ''coordinatorPolicyId''}" "getBuildManifest env pkg (TeeOk manifest) = Reply c (JObj relayed)"
  shows "c = 200 \<and> map_of relayed k = map_of manifest k"
  using assms by (auto simp: getBuildManifest_def spread_def store_simps)

text \<open>The manifest of the enclave states its measurement and the hash of the rules it loaded.\<close>

theorem manifest_states_measurement:
  assumes "build_manifest rt tee pkg now = Some (JObj kvs)"
  shows "map_of kvs (lit ''pcrs'') = Some (JObj (map (\<lambda>(k, v). (k, JStr v)) (tee_pcrs tee)))
    \<and> map_of kvs (lit ''enclaveBuildId'') = Some (JStr (tee_buildId tee))
    \<and> (\<exists>h. canonicalHash rt (pk_rules pkg) = Some h \<and> map_of kvs (lit ''policyRulesSha256'') = Some (JStr (lit ''0x'' @ h)))"
  using assms by (auto simp: build_manifest_def bind_eq_Some_conv attestation_def attestation_document_def pcrs_json_def Let_def)

text \<open>The model list never tells whose capacity it counts: it depends on the ledger only through which models each active credential
  allows, not on identifiers, contributors, keys, limits or usage.\<close>

definition offered_models :: "database \<Rightarrow> (bool \<times> jstr list) list" where
  "offered_models db = map (\<lambda>(_, r). (status r = ACTIVE, cap_allowedModels (capability r))) (credentials db)"

lemma availableModels_offered: "availableModels db = fold count_model (concat (map snd (filter fst (offered_models db)))) []"
  by (simp add: availableModels_def offered_models_def filter_map o_def case_prod_unfold)

theorem model_list_anonymous:
  "offered_models db = offered_models db' \<Longrightarrow> model_list catalog db = model_list catalog db'"
  by (simp add: model_list_def getModels_def availableModels_offered)

end
