(* ===== verification/Live_Graph.thy ===== *)
theory Live_Graph
  imports Events
begin

text \<open>
  The live graph: what the projector puts on the bus (\<^verbatim>\<open>services/coordinator/src/events.ts\<close>), the event stream that forwards it
  (\<^verbatim>\<open>GET /v1/graph/events\<close>) and the hook that follows it in the browser (\<open>useLiveGraph\<close> of \<^verbatim>\<open>apps/web/src/lib/api.ts\<close>). A
  message is modelled at its declared type; \<open>Event_Stream\<close> has the text of the stream. Shown: a view that
  starts from a snapshot and receives every message shows the coordinator's graph.
\<close>

section \<open>Messages of the projector\<close>

record GraphNode =
  nd_type :: GraphNodeType
  nd_label :: jstr
  nd_status :: "jstr option"
  nd_meta :: "(jstr \<times> json) list"
  nd_createdAt :: int

definition node_view :: "graph_node_row \<Rightarrow> GraphNode" where
  "node_view r = \<lparr> nd_type = gn_type r, nd_label = gn_label r, nd_status = gn_status r, nd_meta = gn_meta r, nd_createdAt = gn_created_at r \<rparr>"

definition readNode :: "jstr \<Rightarrow> database \<Rightarrow> GraphNode option" where
  "readNode nid db = map_option node_view (map_of (graph_nodes db) nid)"

datatype graph_message = NodeCreated jstr GraphNode | NodeUpdated jstr GraphNode | LinkCreated jstr graph_link_row

text \<open>One call of \<open>upsertNode\<close> or \<open>upsertLink\<close>: what it does to the tables and what it puts on the bus.\<close>

datatype graph_call =
    NodeCall jstr GraphNodeType jstr "jstr option" "(jstr \<times> json) list"
  | LinkCall jstr jstr string

fun call_db :: "int \<Rightarrow> graph_call \<Rightarrow> database \<Rightarrow> database" where
  "call_db now (NodeCall nid ty lbl st meta) db = upsertNode now nid ty lbl st meta db"
| "call_db now (LinkCall a b ty) db = upsertLink now a b ty db"

fun broadcast :: "int \<Rightarrow> graph_call \<Rightarrow> database \<Rightarrow> graph_message list" where
  "broadcast now (NodeCall nid ty lbl st meta) db =
     (case readNode nid (upsertNode now nid ty lbl st meta db) of
        None \<Rightarrow> []
      | Some full \<Rightarrow> [if has_row nid (graph_nodes db) then NodeUpdated nid full else NodeCreated nid full])"
| "broadcast now (LinkCall a b ty) db =
     (if has_row (link_id a b (lit ty)) (graph_links db) then []
      else [LinkCreated (link_id a b (lit ty)) \<lparr> gl_source = a, gl_target = b, gl_type = lit ty, gl_created_at = now \<rparr>])"

fun broadcasts :: "int \<Rightarrow> graph_call list \<Rightarrow> database \<Rightarrow> graph_message list" where
  "broadcasts now [] db = []"
| "broadcasts now (c # cs) db = broadcast now c db @ broadcasts now cs (call_db now c db)"

section \<open>The calls of a projection\<close>

text \<open>The calls an event makes, in order; they do not depend on the tables. A projection that throws stops where it throws.\<close>

definition credential_calls :: "runtime \<Rightarrow> json \<Rightarrow> graph_call list" where
  "credential_calls rt p =
     (if p_str p ''label'' = None \<and> p_str p ''credential_id'' = None then [] else
      let cred = node_ref ''cred:'' (p_str p ''credential_id''); prov = node_ref ''provider:'' (p_str p ''provider'')
      in NodeCall cred N_Credential (or_else (p_str p ''label'') (lit ''Credential '' @ shortId (tpl (p_str p ''credential_id'')))) (Some (lit ''ACTIVE''))
           [meta_str p ''provider'' ''provider'', (lit ''allowedModels'', JStr (joined_models p)), meta_str p ''policyId'' ''policy_id'',
            meta_str p ''keyFingerprint'' ''key_fingerprint'',
            (lit ''rawCredential'', JStr (lit ''INACCESSIBLE'' @ [32, 8212] @ lit '' held only inside the enclave vault''))]
         # (case p_str p ''provider'' of
              None \<Rightarrow> []
            | Some name \<Rightarrow>
                [NodeCall prov N_Provider (to_upper rt name) None [],
                 LinkCall (node_ref ''contrib:'' (p_str p ''contributor_id'')) cred ''CONTRIBUTED'', LinkCall cred prov ''CONNECTS_TO'']
                @ concat (map (\<lambda>m. [NodeCall (lit ''model:'' @ m) N_Model (modelLabel m) None [], LinkCall prov (lit ''model:'' @ m) ''SERVES''])
                    (or_else (p_strs p ''allowed_models'') []))))"

definition request_calls :: "json \<Rightarrow> graph_call list" where
  "request_calls p =
     NodeCall (req_ref p) N_Request (req_label p) (Some (lit ''RECEIVED''))
       [meta_str p ''privacyMode'' ''privacy_mode'', meta_str p ''model'' ''model'',
        (lit ''prompt'', JStr (lit ''PRIVATE'' @ [32, 8212] @ lit '' encrypted to the enclave ingress key''))]
     # (case p_str p ''model'' of
          None \<Rightarrow> []
        | Some m \<Rightarrow> if m = [] then []
            else [NodeCall (lit ''model:'' @ m) N_Model (modelLabel m) None [], LinkCall (req_ref p) (lit ''model:'' @ m) ''REQUESTED_MODEL''])"

definition proof_call :: "json \<Rightarrow> string \<Rightarrow> (jstr \<times> json) list \<Rightarrow> graph_call" where
  "proof_call p st meta = NodeCall (proof_ref p) N_Proof (lit ''Policy Proof'') (Some (lit st)) meta"

definition pending_calls :: "json \<Rightarrow> string \<Rightarrow> graph_call list" where
  "pending_calls p st = [proof_call p st [meta_str p ''proofSystem'' ''proof_system'', meta_str p ''policyId'' ''policy_id''],
     LinkCall (req_ref p) (proof_ref p) ''HAS_PROOF'']"

definition verdict_calls :: "json \<Rightarrow> string \<Rightarrow> string \<Rightarrow> graph_call list" where
  "verdict_calls p st verdict = [NodeCall (req_ref p) N_Request (lit ''Request '' @ shortHash (p_str p ''commitment'')) (Some (lit st))
     [meta_str p ''commitment'' ''commitment'', (lit ''policyResult'', JStr (lit verdict)), meta_num p ''policyMs'' ''policy_ms'' 0]]"

definition attempt_calls :: "json \<Rightarrow> graph_call list" where
  "attempt_calls p = [LinkCall (req_ref p) (attempt_ref p) ''HAS_ATTEMPT'', LinkCall (attempt_ref p) (node_ref ''cred:'' (p_str p ''credential_id'')) ''USED'']"

fun project_calls :: "runtime \<Rightarrow> CtnEventType \<Rightarrow> json \<Rightarrow> graph_call list" where
  "project_calls rt contributor_created p = [NodeCall (node_ref ''contrib:'' (p_str p ''contributor_id'')) N_Contributor
     (or_else (p_str p ''display_name'') (lit ''Contributor'')) (Some (lit ''ACTIVE'')) []]"
| "project_calls rt credential_created p = credential_calls rt p"
| "project_calls rt credential_updated p = (if p_str p ''label'' = None \<and> p_str p ''credential_id'' = None then [] else
     [NodeCall (node_ref ''cred:'' (p_str p ''credential_id'')) N_Credential
        (or_else (p_str p ''label'') (lit ''Credential '' @ shortId (tpl (p_str p ''credential_id''))))
        (p_str p ''status'') [(lit ''allowedModels'', JStr (joined_models p))]])"
| "project_calls rt request_received p = request_calls p"
| "project_calls rt tee_verified p = [NodeCall (node_ref ''tee:'' (p_str p ''build_id'')) N_TEEWorker
        (lit ''TEE '' @ take 6 (or_else (p_str p ''build_id'') []))
        (Some (if p_str p ''mode'' = Some (lit ''nitro'') then lit ''NITRO_VERIFIED'' else lit ''SIMULATED''))
        [meta_str p ''buildId'' ''build_id'', meta_str p ''attestationDigest'' ''attestation_digest'', meta_str p ''mode'' ''mode'', (lit ''verified'', JBool True)],
      LinkCall (req_ref p) (node_ref ''tee:'' (p_str p ''build_id'')) ''EXECUTED_IN'']"
| "project_calls rt policy_started p = [NodeCall (node_ref ''policy:'' (p_str p ''policy_id'')) N_Policy (lit ''Safety v1'') (Some (lit ''ACTIVE''))
        [meta_str p ''policyId'' ''policy_id'', (lit ''version'', JStr (lit ''1.0.0''))],
      LinkCall (req_ref p) (node_ref ''policy:'' (p_str p ''policy_id'')) ''EVALUATED_UNDER'']"
| "project_calls rt policy_allowed p = verdict_calls p ''AUTHORIZED'' ''ALLOW''"
| "project_calls rt policy_denied p = verdict_calls p ''DENIED'' ''DENY''"
| "project_calls rt request_failed p = [NodeCall (req_ref p) N_Request (req_label p) (Some (lit ''FAILED''))
        [meta_str p ''errorCode'' ''error_code'', meta_num p ''attempts'' ''attempts'' 0, meta_num p ''totalLatencyMs'' ''total_ms'' 0]]"
| "project_calls rt proof_queued p = pending_calls p ''QUEUED''"
| "project_calls rt proof_started p = pending_calls p ''PROVING''"
| "project_calls rt proof_generated p = [proof_call p ''GENERATED'' [meta_str p ''proofSystem'' ''proof_system'', (lit ''verified'', JBool False),
        meta_str p ''guestImageId'' ''guest_image_id'', meta_str p ''artifactDigest'' ''artifact_digest'']]"
| "project_calls rt proof_completed p = [proof_call p (if p_bool p ''verified'' then ''VERIFIED'' else ''GENERATED'')
        [meta_str p ''proofSystem'' ''proof_system'', (lit ''verified'', JBool (p_bool p ''verified'')), meta_num p ''durationMs'' ''proof_ms'' 0,
         meta_str p ''guestImageId'' ''guest_image_id'', meta_str p ''artifactDigest'' ''artifact_digest'',
         meta_str p ''decisionReceiptDigest'' ''decision_receipt_digest'']]"
| "project_calls rt proof_failed p = [proof_call p ''FAILED'' [(lit ''verified'', JBool False), meta_str p ''error'' ''error'', meta_num p ''durationMs'' ''proof_ms'' 0]]"
| "project_calls rt route_selected p = [LinkCall (req_ref p) (node_ref ''cred:'' (p_str p ''credential_id'')) ''ROUTED_THROUGH'',
      LinkCall (node_ref ''cred:'' (p_str p ''credential_id'')) (node_ref ''provider:'' (p_str p ''provider'')) ''CONNECTS_TO'',
      NodeCall (req_ref p) N_Request (req_label p) (Some (lit ''ROUTING''))
        [meta_str p ''contributorId'' ''contributor_id'', meta_str p ''credentialId'' ''credential_id'']]"
| "project_calls rt provider_started p = [NodeCall (req_ref p) N_Request (req_label p) (Some (lit ''PROVIDER_RUNNING'')) [],
      LinkCall (req_ref p) (node_ref ''provider:'' (p_str p ''provider'')) ''CALLED'']"
| "project_calls rt provider_failed p = NodeCall (attempt_ref p) N_ProviderAttempt
        (lit ''Attempt '' @ num_tpl (p_num p ''attempt_number'') @ [32, 183, 32] @ or_else (p_str p ''classification'') (lit ''failed'')) (Some (lit ''FAILED''))
        [meta_num p ''httpStatus'' ''http_status'' 0, meta_str p ''classification'' ''classification'', meta_num p ''latencyMs'' ''latency_ms'' 0, meta_str p ''action'' ''action'']
      # attempt_calls p"
| "project_calls rt provider_completed p = NodeCall (attempt_ref p) N_ProviderAttempt
        (lit ''Attempt '' @ num_tpl (p_num p ''attempt_number'') @ [32, 183] @ lit '' ok'') (Some (lit ''SUCCESS''))
        [meta_num p ''httpStatus'' ''http_status'' 200, meta_num p ''latencyMs'' ''latency_ms'' 0]
      # attempt_calls p
      @ [NodeCall (node_ref ''resp:'' (p_str p ''request_id'')) N_Response (lit ''Response'') (Some (lit ''COMPLETE''))
           [meta_num p ''inputTokens'' ''input_tokens'' 0, meta_num p ''outputTokens'' ''output_tokens'' 0, meta_num p ''providerMs'' ''latency_ms'' 0,
            (lit ''body'', JStr (lit ''PRIVATE'' @ [32, 8212] @ lit '' sealed to the client'' @ [39] @ lit ''s ephemeral key''))],
         LinkCall (req_ref p) (node_ref ''resp:'' (p_str p ''request_id'')) ''PRODUCED'',
         NodeCall (req_ref p) N_Request (req_label p) (Some (lit ''COMPLETE'')) [meta_num p ''totalLatencyMs'' ''total_ms'' 0]]"
| "project_calls rt receipt_created p = [NodeCall (node_ref ''receipt:'' (p_str p ''request_id'')) N_ComputeReceipt (lit ''Compute Receipt'') (Some (lit ''SIGNED''))
        [meta_str p ''receiptId'' ''receipt_id'', meta_str p ''commitment'' ''commitment'', (lit ''signatureVerified'', JBool True)],
      LinkCall (req_ref p) (node_ref ''receipt:'' (p_str p ''request_id'')) ''HAS_RECEIPT'']"

lemma fold_calls_pairs: "fold (call_db now) (concat (map (\<lambda>m. [f m, g m]) ms)) db = fold (\<lambda>m d. call_db now (g m) (call_db now (f m) d)) ms db"
  by (induction ms arbitrary: db) auto

lemmas call_defs = credential_calls_def request_calls_def proof_call_def pending_calls_def verdict_calls_def attempt_calls_def

lemma project_is_calls: "project rt now ty p db = fold (call_db now) (project_calls rt ty p) db"
  by (cases ty) (simp_all add: proj_defs call_defs Let_def fold_calls_pairs split: option.splits)

text \<open>One pass of the projector puts the messages of every row it takes on the bus. Marking a row changes no graph table.\<close>

fun drain_messages :: "runtime \<Rightarrow> int \<Rightarrow> (nat \<times> outbox_row) list \<Rightarrow> database \<Rightarrow> graph_message list" where
  "drain_messages rt now [] db = []"
| "drain_messages rt now (e # es) db =
     broadcasts now (project_calls rt (ob_event_type (snd e)) (ob_payload (snd e))) db @ drain_messages rt now es (drain_step rt now e db)"

definition outbox_messages :: "runtime \<Rightarrow> int \<Rightarrow> nat \<Rightarrow> database \<Rightarrow> graph_message list" where
  "outbox_messages rt now limit db = drain_messages rt now (take limit (pending_events db)) db"

section \<open>The view in the browser\<close>

text \<open>\<open>recent\<close> holds, for each identifier, the instant at which its timer drops it; a new mark replaces the timer.\<close>

record LiveGraph =
  lv_nodes :: "(jstr \<times> GraphNode) list"
  lv_links :: "(jstr \<times> graph_link_row) list"
  lv_connected :: bool
  lv_recent :: "(jstr \<times> int) list"

definition blank :: LiveGraph where
  "blank = \<lparr> lv_nodes = [], lv_links = [], lv_connected = False, lv_recent = [] \<rparr>"

definition markRecent :: "int \<Rightarrow> jstr \<Rightarrow> LiveGraph \<Rightarrow> LiveGraph" where
  "markRecent now x v = v\<lparr> lv_recent := map_put x (now + 2600) (lv_recent v) \<rparr>"

definition recent_at :: "int \<Rightarrow> LiveGraph \<Rightarrow> jstr list" where
  "recent_at now v = map fst (filter (\<lambda>(_, drop_at). now < drop_at) (lv_recent v))"

text \<open>A failed snapshot is not fatal: the maps stay as they are.\<close>

definition new_map :: "('k \<times> 'v) list \<Rightarrow> ('k \<times> 'v) list" where
  "new_map kvs = fold (\<lambda>(k, x) m. map_put k x m) kvs []"

definition snapshot_nodes :: "database \<Rightarrow> (jstr \<times> GraphNode) list \<times> (jstr \<times> graph_link_row) list" where
  "snapshot_nodes db = map_prod (map (\<lambda>(k, r). (k, node_view r))) id (graphSnapshot db)"

definition load_snapshot :: "((jstr \<times> GraphNode) list \<times> (jstr \<times> graph_link_row) list) option \<Rightarrow> LiveGraph \<Rightarrow> LiveGraph" where
  "load_snapshot snapshot v = (case snapshot of None \<Rightarrow> v | Some (ns, ls) \<Rightarrow> v\<lparr> lv_nodes := new_map ns, lv_links := new_map ls \<rparr>)"

fun on_message :: "int \<Rightarrow> graph_message \<Rightarrow> LiveGraph \<Rightarrow> LiveGraph" where
  "on_message now (NodeCreated k n) v = markRecent now k (v\<lparr> lv_nodes := map_put k n (lv_nodes v) \<rparr>)"
| "on_message now (NodeUpdated k n) v = v\<lparr> lv_nodes := map_put k n (lv_nodes v) \<rparr>"
| "on_message now (LinkCreated k l) v = markRecent now k (v\<lparr> lv_links := map_put k l (lv_links v) \<rparr>)"

text \<open>A subscribed browser and the coordinator: a pass of the projector, whose messages arrive in order at \<open>seen\<close>, any statement
  on other tables, or a change of the connection flag.\<close>

inductive live_step :: "runtime \<Rightarrow> database \<times> LiveGraph \<Rightarrow> database \<times> LiveGraph \<Rightarrow> bool" for rt :: runtime where
  drained: "live_step rt (db, v) (fst (drainOutbox rt now limit db), fold (on_message seen) (outbox_messages rt now limit db) v)"
| written: "graph_nodes db' = graph_nodes db \<Longrightarrow> graph_links db' = graph_links db \<Longrightarrow> live_step rt (db, v) (db', v)"
| flagged: "live_step rt (db, v) (db, v\<lparr> lv_connected := b \<rparr>)"

section \<open>The view follows the coordinator\<close>

definition in_sync :: "database \<Rightarrow> LiveGraph \<Rightarrow> bool" where
  "in_sync db v \<longleftrightarrow> map_of (lv_nodes v) = map_option node_view \<circ> map_of (graph_nodes db) \<and> map_of (lv_links v) = map_of (graph_links db)"

lemma sync_mark [simp]: "in_sync db (markRecent now k v) = in_sync db v"
  by (simp add: in_sync_def markRecent_def)

lemma call_in_sync: "in_sync db v \<Longrightarrow> in_sync (call_db now c db) (fold (on_message seen) (broadcast now c db) v)"
proof (cases c)
  case (NodeCall nid ty lbl st meta)
  assume "in_sync db v"
  then show ?thesis unfolding NodeCall
    by (cases "map_of (graph_nodes db) nid")
      (auto simp: in_sync_def upsertNode_def readNode_def store_simps map_add_def markRecent_def fun_eq_iff split: option.splits)
next
  case (LinkCall a b ty)
  assume "in_sync db v"
  moreover have "map_of (graph_links db) (link_id a b (lit ty)) = None" if "\<not> has_row (link_id a b (lit ty)) (graph_links db)"
    using that by (simp add: has_row_iff map_of_eq_None_iff)
  ultimately show ?thesis unfolding LinkCall
    by (cases "has_row (link_id a b (lit ty)) (graph_links db)")
      (auto simp: in_sync_def upsertLink_def markRecent_def store_simps map_add_def fun_eq_iff split: option.splits)
qed

lemma calls_in_sync: "in_sync db v \<Longrightarrow> in_sync (fold (call_db now) cs db) (fold (on_message seen) (broadcasts now cs db) v)"
  by (induction cs arbitrary: db v) (auto dest: call_in_sync)

lemma sync_mark_processed [simp]: "in_sync (mark_processed now i db) v = in_sync db v"
  by (simp add: in_sync_def mark_processed_def)

lemma drain_in_sync: "in_sync db v \<Longrightarrow> in_sync (fold (drain_step rt now) es db) (fold (on_message seen) (drain_messages rt now es db) v)"
proof (induction es arbitrary: db v)
  case (Cons e es)
  have "in_sync (drain_step rt now e db) (fold (on_message seen) (broadcasts now (project_calls rt (ob_event_type (snd e)) (ob_payload (snd e))) db) v)"
    unfolding drain_step_def project_is_calls using calls_in_sync [OF Cons.prems] by simp
  from Cons.IH [OF this] show ?case by simp
qed simp

lemma live_keeps: "live_step rt s t \<Longrightarrow> in_sync (fst s) (snd s) \<Longrightarrow> in_sync (fst t) (snd t)"
proof (induction rule: live_step.induct)
  case (drained db v now limit seen)
  then show ?case unfolding drainOutbox_def outbox_messages_def Let_def fst_conv snd_conv by (intro drain_in_sync)
qed (simp_all add: in_sync_def)

interpretation live: stable "live_step rt" "\<lambda>s. in_sync (fst s) (snd s)" for rt
  by unfold_locales (rule live_keeps)

lemma map_of_new_map: "distinct (map fst kvs) \<Longrightarrow> map_of (new_map kvs) = map_of kvs"
proof -
  have "map_of (fold (\<lambda>(k, x) m. map_put k x m) kvs m) = map_of m ++ map_of kvs" if "distinct (map fst kvs)" for m
    using that
  proof (induction kvs arbitrary: m)
    case (Cons kv kvs)
    then have "map_of kvs (fst kv) = None" by (simp add: map_of_eq_None_iff)
    with Cons show ?case by (cases kv) (auto simp: store_simps map_add_def fun_eq_iff split: option.splits)
  qed simp
  then show "distinct (map fst kvs) \<Longrightarrow> map_of (new_map kvs) = map_of kvs" by (simp add: new_map_def)
qed

lemma snapshot_in_sync:
  assumes "map_wf (graph_nodes db)" "map_wf (graph_links db)"
  shows "in_sync db (load_snapshot (Some (snapshot_nodes db)) v)"
proof -
  have srt: "map_of (sort_key f m) = map_of m" if "map_wf m" for f :: "_ \<Rightarrow> int" and m :: "(jstr \<times> 'v) list"
    using that by (intro map_of_inject_set [THEN iffD2]) (auto simp: map_wf_def distinct_map)
  have view: "map_of (map (\<lambda>(k, r). (k, node_view r)) m) = map_option node_view \<circ> map_of m" for m
    by (simp add: map_of_map)
  let ?ns = "map (\<lambda>(k, r). (k, node_view r)) (sort_key (gn_created_at \<circ> snd) (graph_nodes db))"
  have "distinct (map fst ?ns)" "distinct (map fst (sort_key (gl_created_at \<circ> snd) (graph_links db)))"
    using assms by (simp_all add: map_wf_def distinct_map o_def case_prod_unfold)
  then show ?thesis using assms
    by (simp add: in_sync_def load_snapshot_def snapshot_nodes_def graphSnapshot_def map_of_new_map srt view)
qed

text \<open>C38. The live graph follows the coordinator. A browser that loads a snapshot and from then on receives every message shows,
  after any passes of the projector and any other writes, exactly the coordinator's graph: a node for every row with
  its type, label, status, metadata and creation time, a link for every row, and nothing else.\<close>

theorem live_graph_follows:
  assumes "map_wf (graph_nodes db0)" "map_wf (graph_links db0)" "(live_step rt)\<^sup>*\<^sup>* (db0, load_snapshot (Some (snapshot_nodes db0)) v0) (db, v)"
  shows "map_of (lv_nodes v) k = readNode k db \<and> map_of (lv_links v) = map_of (graph_links db)"
  using live.reachable_keeps [OF assms(3)] snapshot_in_sync [OF assms(1,2)] by (simp add: in_sync_def readNode_def)

theorem live_graph_follows_witness:
  "\<exists>v. (live_step sample_runtime)\<^sup>*\<^sup>* (sample_outbox, load_snapshot (Some (snapshot_nodes sample_outbox)) blank) (fst (drainOutbox sample_runtime 7 500 sample_outbox), v)
     \<and> map_option nd_status (map_of (lv_nodes v) (lit ''req:r1'')) = Some (Some (lit ''FAILED''))"
proof -
  let ?v0 = "load_snapshot (Some (snapshot_nodes sample_outbox)) blank" and ?db = "fst (drainOutbox sample_runtime 7 500 sample_outbox)"
  have r: "(live_step sample_runtime)\<^sup>*\<^sup>* (sample_outbox, ?v0) (?db, fold (on_message 8) (outbox_messages sample_runtime 7 500 sample_outbox) ?v0)"
    by (rule r_into_rtranclp, rule live_step.drained)
  have "map_wf (graph_nodes sample_outbox)" "map_wf (graph_links sample_outbox)" by (simp_all add: sample_outbox_def append_outbox_def empty_db_def)
  from live_graph_follows [OF this r]
  have "map_of (lv_nodes (fold (on_message 8) (outbox_messages sample_runtime 7 500 sample_outbox) ?v0)) (lit ''req:r1'') = readNode (lit ''req:r1'') ?db" by blast
  moreover have "map_option nd_status (readNode (lit ''req:r1'') ?db) = Some (Some (lit ''FAILED''))"
    by (simp add: drainOutbox_def pending_events_def sample_outbox_def append_outbox_def outbox_entry_def empty_db_def drain_step_def proj_request_failed_def
        readNode_def node_view_def upsertNode_def req_ref_def node_ref_def tpl_def or_else_def p_str_def mark_processed_def Let_def) (simp add: lit_def)
  ultimately show ?thesis using r by metis
qed

text \<open>What is projected between the snapshot and the subscription is never delivered: the view of an idle network then lacks it.\<close>

lemma missed_in_the_gap:
  "lv_nodes (load_snapshot (Some (snapshot_nodes empty_db)) blank) = []
   \<and> map_of (graph_nodes (project sample_runtime 7 contributor_created (JObj [(lit ''contributor_id'', JStr (lit ''c''))]) empty_db)) (lit ''contrib:c'') \<noteq> None"
  by (simp add: load_snapshot_def snapshot_nodes_def graphSnapshot_def new_map_def blank_def empty_db_def proj_contributor_created_def upsertNode_def
      node_ref_def tpl_def or_else_def p_str_def) (simp add: lit_def)

end
