(* ===== verification/Event_Stream.thy ===== *)
theory Event_Stream
  imports Live_Graph Providers
begin

text \<open>
  The text between the projector and the live graph: \<^verbatim>\<open>GET /v1/graph/events\<close> of \<^verbatim>\<open>services/coordinator/src/index.ts\<close> writes every
  message of the bus as a frame, with a heartbeat in between; the browser's \<open>EventSource\<close> takes the frames apart (as the
  HTML standard says) and the listeners of \<open>useLiveGraph\<close> parse their data. \<open>stamp\<close> is the text of an instant and \<open>instant\<close>
  reads it. Shown: the text carries exactly the messages, in order.
\<close>

section \<open>What the coordinator writes\<close>

fun node_type_name :: "GraphNodeType \<Rightarrow> string" where
  "node_type_name N_Contributor = ''Contributor''"
| "node_type_name N_Credential = ''Credential''"
| "node_type_name N_Request = ''Request''"
| "node_type_name N_Policy = ''Policy''"
| "node_type_name N_Proof = ''Proof''"
| "node_type_name N_TEEWorker = ''TEEWorker''"
| "node_type_name N_Provider = ''Provider''"
| "node_type_name N_Model = ''Model''"
| "node_type_name N_ProviderAttempt = ''ProviderAttempt''"
| "node_type_name N_Response = ''Response''"
| "node_type_name N_ComputeReceipt = ''ComputeReceipt''"

definition node_types :: "GraphNodeType list" where
  "node_types = [N_Contributor, N_Credential, N_Request, N_Policy, N_Proof, N_TEEWorker, N_Provider, N_Model, N_ProviderAttempt, N_Response, N_ComputeReceipt]"

definition node_json :: "(int \<Rightarrow> jstr) \<Rightarrow> jstr \<Rightarrow> GraphNode \<Rightarrow> json" where
  "node_json stamp nid n = JObj [(lit ''id'', JStr nid), (lit ''type'', JStr (lit (node_type_name (nd_type n)))), (lit ''label'', JStr (nd_label n)),
     (lit ''status'', case nd_status n of None \<Rightarrow> JUndef | Some s \<Rightarrow> JStr s), (lit ''meta'', JObj (nd_meta n)), (lit ''createdAt'', JStr (stamp (nd_createdAt n)))]"

definition link_json :: "(int \<Rightarrow> jstr) \<Rightarrow> jstr \<Rightarrow> graph_link_row \<Rightarrow> json" where
  "link_json stamp lid l = JObj [(lit ''id'', JStr lid), (lit ''source'', JStr (gl_source l)), (lit ''target'', JStr (gl_target l)), (lit ''type'', JStr (gl_type l)),
     (lit ''createdAt'', JStr (stamp (gl_created_at l)))]"

fun message_kind :: "graph_message \<Rightarrow> jstr" where
  "message_kind (NodeCreated _ _) = lit ''node.created''"
| "message_kind (NodeUpdated _ _) = lit ''node.updated''"
| "message_kind (LinkCreated _ _) = lit ''link.created''"

fun message_body :: "(int \<Rightarrow> jstr) \<Rightarrow> graph_message \<Rightarrow> jstr \<times> json" where
  "message_body stamp (NodeCreated k n) = (lit ''node'', node_json stamp k n)"
| "message_body stamp (NodeUpdated k n) = (lit ''node'', node_json stamp k n)"
| "message_body stamp (LinkCreated k l) = (lit ''link'', link_json stamp k l)"

definition bus_json :: "(int \<Rightarrow> jstr) \<Rightarrow> graph_message \<Rightarrow> json" where
  "bus_json stamp m = JObj [(lit ''kind'', JStr (message_kind m)), message_body stamp m]"

datatype written = Sent graph_message | Heartbeat

fun stream_write :: "runtime \<Rightarrow> (int \<Rightarrow> jstr) \<Rightarrow> written \<Rightarrow> jstr" where
  "stream_write rt stamp (Sent m) = lit ''event: '' @ message_kind m @ [10] @ lit ''data: '' @ stringify rt (bus_json stamp m) @ [10, 10]"
| "stream_write rt stamp Heartbeat = lit '': ping'' @ [10, 10]"

definition stream_text :: "runtime \<Rightarrow> (int \<Rightarrow> jstr) \<Rightarrow> written list \<Rightarrow> jstr" where
  "stream_text rt stamp ws = lit ''retry: 1000'' @ [10, 10] @ concat (map (stream_write rt stamp) ws)"

fun sent :: "written list \<Rightarrow> graph_message list" where
  "sent [] = []"
| "sent (Sent m # ws) = m # sent ws"
| "sent (Heartbeat # ws) = sent ws"

section \<open>What the browser reads\<close>

text \<open>Lines end with LF, CR or both; what follows the last line end waits for more text.\<close>

fun event_lines :: "jstr \<Rightarrow> jstr \<Rightarrow> jstr list" where
  "event_lines acc [] = []"
| "event_lines acc (c # s) =
     (if c = 10 then rev acc # event_lines [] s
      else if c = 13 then (case s of d # t \<Rightarrow> if d = 10 then rev acc # event_lines [] t else rev acc # event_lines [] s | [] \<Rightarrow> [rev acc])
      else event_lines (c # acc) s)"

record event_source =
  es_type :: jstr
  es_data :: jstr
  es_events :: "(jstr \<times> jstr) list"

definition event_field :: "jstr \<Rightarrow> jstr \<Rightarrow> event_source \<Rightarrow> event_source" where
  "event_field name val es =
     (if name = lit ''event'' then es\<lparr> es_type := val \<rparr>
      else if name = lit ''data'' then es\<lparr> es_data := es_data es @ val @ [10] \<rparr>
      else es)"

definition event_line :: "jstr \<Rightarrow> event_source \<Rightarrow> event_source" where
  "event_line l es =
     (if l = [] then
        (if es_data es = [] then es\<lparr> es_type := [] \<rparr>
         else \<lparr> es_type = [], es_data = [], es_events = es_events es @ [(if es_type es = [] then lit ''message'' else es_type es, butlast (es_data es))] \<rparr>)
      else if hd l = 58 then es
      else (let name = takeWhile (\<lambda>c. c \<noteq> 58) l; rest = drop (length name + 1) l
            in event_field name (if rest \<noteq> [] \<and> hd rest = 32 then tl rest else rest) es))"

definition events_of :: "jstr \<Rightarrow> (jstr \<times> jstr) list" where
  "events_of s = es_events (fold event_line (event_lines [] s) \<lparr> es_type = [], es_data = [], es_events = [] \<rparr>)"

text \<open>The listeners; a payload is read at its declared type, anything else leaves the view alone.\<close>

definition read_node :: "(jstr \<Rightarrow> int option) \<Rightarrow> json \<Rightarrow> (jstr \<times> GraphNode) option" where
  "read_node instant v = (case (opt_prop v ''id'', opt_prop v ''type'', opt_prop v ''label'', opt_prop v ''meta'', opt_prop v ''createdAt'') of
     (JStr nid, JStr ty, JStr lbl, JObj meta, JStr made) \<Rightarrow>
       Option.bind (find (\<lambda>t. lit (node_type_name t) = ty) node_types) (\<lambda>t. map_option (\<lambda>tm.
         (nid, \<lparr> nd_type = t, nd_label = lbl, nd_status = as_str (opt_prop v ''status''), nd_meta = meta, nd_createdAt = tm \<rparr>)) (instant made))
   | _ \<Rightarrow> None)"

definition read_link :: "(jstr \<Rightarrow> int option) \<Rightarrow> json \<Rightarrow> (jstr \<times> graph_link_row) option" where
  "read_link instant v = (case (opt_prop v ''id'', opt_prop v ''source'', opt_prop v ''target'', opt_prop v ''type'', opt_prop v ''createdAt'') of
     (JStr lid, JStr a, JStr b, JStr ty, JStr made) \<Rightarrow>
       map_option (\<lambda>tm. (lid, \<lparr> gl_source = a, gl_target = b, gl_type = ty, gl_created_at = tm \<rparr>)) (instant made)
   | _ \<Rightarrow> None)"

definition onNode :: "runtime \<Rightarrow> (jstr \<Rightarrow> int option) \<Rightarrow> int \<Rightarrow> jstr \<Rightarrow> LiveGraph \<Rightarrow> LiveGraph" where
  "onNode rt instant now d v = (case json_parse rt d of
     None \<Rightarrow> v
   | Some payload \<Rightarrow> (case read_node instant (opt_prop payload ''node'') of
       None \<Rightarrow> v
     | Some (k, n) \<Rightarrow>
         (let v1 = v\<lparr> lv_nodes := map_put k n (lv_nodes v) \<rparr>
          in if opt_prop payload ''kind'' = JStr (lit ''node.created'') then markRecent now k v1 else v1)))"

definition onLink :: "runtime \<Rightarrow> (jstr \<Rightarrow> int option) \<Rightarrow> int \<Rightarrow> jstr \<Rightarrow> LiveGraph \<Rightarrow> LiveGraph" where
  "onLink rt instant now d v = (case json_parse rt d of
     None \<Rightarrow> v
   | Some payload \<Rightarrow> (case read_link instant (opt_prop payload ''link'') of
       None \<Rightarrow> v
     | Some (k, l) \<Rightarrow> markRecent now k (v\<lparr> lv_links := map_put k l (lv_links v) \<rparr>)))"

definition on_event :: "runtime \<Rightarrow> (jstr \<Rightarrow> int option) \<Rightarrow> int \<Rightarrow> jstr \<times> jstr \<Rightarrow> LiveGraph \<Rightarrow> LiveGraph" where
  "on_event rt instant now e v =
     (if fst e \<in> {lit ''node.created'', lit ''node.updated''} then onNode rt instant now (snd e) v
      else if fst e = lit ''link.created'' then onLink rt instant now (snd e) v
      else v)"

section \<open>Frames are taken apart where they were put together\<close>

definition one_line :: "jstr \<Rightarrow> bool" where
  "one_line s \<longleftrightarrow> 10 \<notin> set s \<and> 13 \<notin> set s"

lemma event_lines_line: "one_line l \<Longrightarrow> event_lines acc (l @ 10 # s) = (rev acc @ l) # event_lines [] s"
  by (induction l arbitrary: acc) (auto simp: one_line_def)

lemma one_line_app [simp]: "one_line (a @ b) = (one_line a \<and> one_line b)" "one_line (c # b) = (c \<noteq> 10 \<and> c \<noteq> 13 \<and> one_line b)" "one_line []"
  by (auto simp: one_line_def)

lemma one_line_join: "one_line sep \<Longrightarrow> \<forall>p \<in> set ps. one_line p \<Longrightarrow> one_line (join sep ps)"
  by (induction sep ps rule: join.induct) auto

lemma one_line_quote: "one_line (quote s)"
proof -
  have u: "one_line (u_escape c)" for c by (simp add: u_escape_def digit_def)
  have e: "one_line (escape_unit c)" for c using u by (simp add: escape_unit_def)
  have "one_line (escape_str s)"
    by (induction s rule: escape_str.induct) (use u e in \<open>auto simp: high_surrogate_def low_surrogate_def\<close>)
  then show ?thesis by (simp add: quote_def)
qed

lemma one_line_int: "one_line (int_digits n)"
proof -
  have "one_line (nat_digits m)" for m using nat_digits_all [of m] by (auto simp: one_line_def is_digit_def)
  then show ?thesis by (simp add: int_digits_def)
qed

lemma one_line_stringify: "ints_print rt \<Longrightarrow> plain_json v \<Longrightarrow> one_line (stringify rt v)"
proof (induction v rule: plain_json.induct)
  case (1 vs)
  then show ?case by (auto intro!: one_line_join)
next
  case (2 kvs)
  then show ?case by (auto intro!: one_line_join simp: one_line_quote)
next
  case (3 x)
  then show ?case using plain_int one_line_int by metis
qed (auto simp: one_line_quote, simp_all add: lit_def)

text \<open>\<open>JSON.stringify\<close> leaves an undefined status out.\<close>

fun defined_part :: "json \<Rightarrow> json" where
  "defined_part (JObj kvs) = JObj (filter (\<lambda>(k, v). v \<noteq> JUndef) kvs)"
| "defined_part v = v"

definition message_text :: "(int \<Rightarrow> jstr) \<Rightarrow> graph_message \<Rightarrow> json" where
  "message_text stamp m = JObj [(lit ''kind'', JStr (message_kind m)), map_prod id defined_part (message_body stamp m)]"

lemma stringify_defined: "stringify rt (defined_part v) = stringify rt v"
  by (cases v) simp_all

lemma stringify_message: "stringify rt (bus_json stamp m) = stringify rt (message_text stamp m)"
  by (cases m) (simp_all add: bus_json_def message_text_def stringify_defined node_json_def link_json_def)

definition sendable :: "(int \<Rightarrow> jstr) \<Rightarrow> graph_message \<Rightarrow> bool" where
  "sendable stamp m \<longleftrightarrow> plain_json (message_text stamp m)"

lemma names_differ: "node_type_name t = node_type_name u \<longleftrightarrow> t = u"
  by (cases t; cases u) simp_all

lemma type_found: "find (\<lambda>t. node_type_name t = node_type_name ty) node_types = Some ty"
  unfolding names_differ by (cases ty) (simp_all add: node_types_def)

lemma read_node_back: "instant (stamp (nd_createdAt n)) = Some (nd_createdAt n) \<Longrightarrow> read_node instant (defined_part (node_json stamp k n)) = Some (k, n)"
  by (cases "nd_status n") (simp_all add: read_node_def node_json_def opt_prop_def type_found)

lemma read_link_back: "instant (stamp (gl_created_at l)) = Some (gl_created_at l) \<Longrightarrow> read_link instant (defined_part (link_json stamp k l)) = Some (k, l)"
  by (simp add: read_link_def link_json_def opt_prop_def)

lemma handled_as_sent:
  assumes "ints_exact rt" "ints_print rt" "sendable stamp m" "\<And>t. instant (stamp t) = Some t"
  shows "on_event rt instant now (message_kind m, stringify rt (bus_json stamp m)) v = on_message now m v"
proof -
  have p: "json_parse rt (stringify rt (bus_json stamp m)) = Some (message_text stamp m)"
    unfolding stringify_message using text_reads_parse [OF stringify_reads [OF assms(1,2)]] assms(3) by (simp add: sendable_def)
  have k: "lit ''link.created'' \<noteq> lit ''node.created''" "lit ''link.created'' \<noteq> lit ''node.updated''" "lit ''node.updated'' \<noteq> lit ''node.created''"
    "lit ''kind'' \<noteq> lit ''node''" "lit ''kind'' \<noteq> lit ''link''" by (simp_all add: lit_def)
  show ?thesis using p k read_node_back [of instant stamp, OF assms(4)] read_link_back [of instant stamp, OF assms(4)]
    by (cases m) (simp_all add: on_event_def onNode_def onLink_def message_text_def opt_prop_def Let_def)
qed

definition idle_source :: "(jstr \<times> jstr) list \<Rightarrow> event_source" where
  "idle_source es = \<lparr> es_type = [], es_data = [], es_events = es \<rparr>"

lemma frame_read:
  assumes "one_line k" "one_line d" "k \<noteq> []"
  shows "fold event_line (event_lines [] (lit ''event: '' @ k @ [10] @ lit ''data: '' @ d @ [10, 10] @ s)) (idle_source es)
    = fold event_line (event_lines [] s) (idle_source (es @ [(k, d)]))"
proof -
  have l: "event_lines [] (lit ''event: '' @ k @ [10] @ lit ''data: '' @ d @ [10, 10] @ s) = (lit ''event: '' @ k) # (lit ''data: '' @ d) # [] # event_lines [] s"
    using event_lines_line [of "lit ''event: '' @ k" "[]" "lit ''data: '' @ d @ 10 # 10 # s"]
      event_lines_line [of "lit ''data: '' @ d" "[]" "10 # s"] assms by (simp add: lit_def)
  show ?thesis unfolding l using assms(3) by (simp add: event_line_def event_field_def idle_source_def lit_def Let_def)
qed

lemma comment_read: "fold event_line (event_lines [] (lit '': ping'' @ [10, 10] @ s)) (idle_source es) = fold event_line (event_lines [] s) (idle_source es)"
  by (simp add: event_line_def idle_source_def lit_def)

lemma writes_read:
  assumes "ints_print rt" "\<forall>m \<in> set (sent ws). sendable stamp m"
  shows "es_events (fold event_line (event_lines [] (concat (map (stream_write rt stamp) ws))) (idle_source es))
    = es @ map (\<lambda>m. (message_kind m, stringify rt (bus_json stamp m))) (sent ws)"
  using assms(2)
proof (induction ws arbitrary: es rule: sent.induct)
  case (2 m ws)
  have d: "one_line (stringify rt (bus_json stamp m))" unfolding stringify_message
    using one_line_stringify [OF assms(1)] 2(2) by (simp add: sendable_def)
  have k: "one_line (message_kind m)" "message_kind m \<noteq> []" by (cases m; simp add: lit_def)+
  show ?case using 2 frame_read [OF k(1) d k(2)] by simp
next
  case (3 ws)
  then show ?case using comment_read by simp
qed (simp add: idle_source_def)

lemma stream_decodes:
  assumes "ints_print rt" "\<forall>m \<in> set (sent ws). sendable stamp m"
  shows "text_decode (utf8 (stream_text rt stamp ws)) = stream_text rt stamp ws"
proof (rule text_decode_utf8)
  have small: "wf16 [10]" "wf16 [10, 10]" by (simp_all add: high_surrogate_def low_surrogate_def)
  have k: "wf16 (message_kind m)" for m by (cases m) (simp_all add: wf16_lit)
  have "wf16 (concat (map (stream_write rt stamp) ws))" using assms(2)
  proof (induction ws rule: sent.induct)
    case (2 m ws)
    have "wf16 (stringify rt (bus_json stamp m))" unfolding stringify_message
      using stringify_wf16 [OF assms(1)] 2(2) by (simp add: sendable_def)
    with 2 k small show ?case by (simp only: list.map concat.simps stream_write.simps) (intro wf16_append wf16_lit; simp)
  next
    case (3 ws)
    with small show ?case by (simp only: list.map concat.simps stream_write.simps) (intro wf16_append wf16_lit; simp)
  qed simp
  then show "wf16 (stream_text rt stamp ws)" unfolding stream_text_def by (intro wf16_append wf16_lit small)
  show "lead_ok (stream_text rt stamp ws)" by (simp add: stream_text_def lead_ok_def lit_def)
qed

section \<open>The stream delivers the bus\<close>

text \<open>The event stream delivers the bus. Whatever messages the bus carried while the stream was open, with heartbeats anywhere
  between them: the bytes the coordinator writes, decoded and taken apart by the browser, make its listeners do exactly what the
  messages say, in order.\<close>

theorem stream_delivers:
  assumes "ints_exact rt" "ints_print rt" "\<And>t. instant (stamp t) = Some t" "\<forall>m \<in> set (sent ws). sendable stamp m"
  shows "fold (on_event rt instant now) (events_of (text_decode (utf8 (stream_text rt stamp ws)))) v = fold (on_message now) (sent ws) v"
proof -
  have head: "event_lines [] (stream_text rt stamp ws) = lit ''retry: 1000'' # [] # event_lines [] (concat (map (stream_write rt stamp) ws))"
    by (simp add: stream_text_def lit_def)
  have "events_of (stream_text rt stamp ws) = map (\<lambda>m. (message_kind m, stringify rt (bus_json stamp m))) (sent ws)"
    using writes_read [OF assms(2,4), of "[]"] unfolding events_of_def head
    by (simp add: event_line_def event_field_def idle_source_def lit_def Let_def)
  moreover have "fold (on_event rt instant now) (map (\<lambda>m. (message_kind m, stringify rt (bus_json stamp m))) ms) v = fold (on_message now) ms v"
    if "\<forall>m \<in> set ms. sendable stamp m" for ms v
    using that by (induction ms arbitrary: v) (simp_all add: handled_as_sent [OF assms(1,2) _ assms(3)])
  ultimately show ?thesis using assms(4) by (simp add: stream_decodes [OF assms(2,4)])
qed

definition sample_stamp :: "int \<Rightarrow> jstr" where
  "sample_stamp t = (if t < 0 then replicate (nat (- t)) 45 else replicate (nat t) 43)"

definition sample_instant :: "jstr \<Rightarrow> int option" where
  "sample_instant s = Some (if starts_with [45] s then - int (length s) else int (length s))"

theorem stream_delivers_witness:
  "fold (on_event sample_runtime sample_instant 9) (events_of (text_decode (utf8 (stream_text sample_runtime sample_stamp
       [Sent (NodeCreated (lit ''req:a'') \<lparr> nd_type = N_Request, nd_label = [10, 34], nd_status = None, nd_meta = [(lit ''ms'', JInt 7)], nd_createdAt = 3 \<rparr>), Heartbeat,
        Sent (LinkCreated (lit ''l'') \<lparr> gl_source = lit ''req:a'', gl_target = lit ''b'', gl_type = lit ''CALLED'', gl_created_at = 4 \<rparr>)])))) blank
   = \<lparr> lv_nodes = [(lit ''req:a'', \<lparr> nd_type = N_Request, nd_label = [10, 34], nd_status = None, nd_meta = [(lit ''ms'', JInt 7)], nd_createdAt = 3 \<rparr>)],
       lv_links = [(lit ''l'', \<lparr> gl_source = lit ''req:a'', gl_target = lit ''b'', gl_type = lit ''CALLED'', gl_created_at = 4 \<rparr>)],
       lv_connected = False, lv_recent = [(lit ''req:a'', 2609), (lit ''l'', 2609)] \<rparr>"
proof -
  have s: "sample_instant (sample_stamp t) = Some t" for t
    by (cases "nat t"; cases "nat (- t)") (auto simp: sample_instant_def sample_stamp_def starts_with_def)
  have rt: "ints_exact sample_runtime" "ints_print sample_runtime" by (simp_all add: ints_exact_def ints_print_def)
  show ?thesis
    by (subst stream_delivers [OF rt, of sample_instant sample_stamp, OF s])
      (auto simp: sendable_def message_text_def node_json_def link_json_def sample_stamp_def is_integral_def MAX_SAFE_def blank_def markRecent_def lit_def)
qed

end
