(* ===== verification/Graph_View.thy ===== *)
theory Graph_View
  imports Events
begin

text \<open>
  What the dashboard shows of the graph (\<^verbatim>\<open>apps/web/src/components/graph/window.ts\<close> and \<^verbatim>\<open>path.ts\<close>): the window over recent
  requests and the path of a selected request. A node or link carries its identifier and its row; \<open>Date.parse\<close> of a
  stored timestamp is the instant.
\<close>

type_synonym graph_node = "jstr \<times> graph_node_row"
type_synonym graph_link = "jstr \<times> graph_link_row"

section \<open>The window\<close>

definition WINDOW_HUB_TYPES :: "GraphNodeType list" where
  "WINDOW_HUB_TYPES = [N_Contributor, N_Credential, N_TEEWorker, N_Policy, N_Provider, N_Model]"

record WindowedGraph =
  wg_nodes :: "graph_node list"
  wg_links :: "graph_link list"
  wg_totalRequests :: nat
  wg_hiddenRequests :: nat

definition requests_newest_first :: "graph_node list \<Rightarrow> graph_node list" where
  "requests_newest_first nodes = js_sort (\<lambda>a b. gn_created_at (snd b) - gn_created_at (snd a)) (filter (\<lambda>n. gn_type (snd n) = N_Request) nodes)"

text \<open>\<open>ownerOf\<close>: the last link from a request to a node that is no request.\<close>

definition ownerOf :: "jstr set \<Rightarrow> graph_link list \<Rightarrow> (jstr \<times> jstr) list" where
  "ownerOf requestIds links = fold (\<lambda>(_, l) m. if gl_source l \<in> requestIds \<and> gl_target l \<notin> requestIds
     then map_put (gl_target l) (gl_source l) m else m) links []"

definition keep_node :: "jstr set \<Rightarrow> (jstr \<times> jstr) list \<Rightarrow> graph_node \<Rightarrow> bool" where
  "keep_node keptRequests owners n =
     (if gn_type (snd n) \<in> set WINDOW_HUB_TYPES then True
      else if gn_type (snd n) = N_Request then fst n \<in> keptRequests
      else (case map_of owners (fst n) of None \<Rightarrow> True | Some owner \<Rightarrow> owner \<in> keptRequests))"

definition windowGraph :: "graph_node list \<Rightarrow> graph_link list \<Rightarrow> nat option \<Rightarrow> WindowedGraph" where
  "windowGraph nodes links limit =
     (let requests = requests_newest_first nodes in
      case limit of
        None \<Rightarrow> \<lparr> wg_nodes = nodes, wg_links = links, wg_totalRequests = length requests, wg_hiddenRequests = 0 \<rparr>
      | Some n \<Rightarrow>
          if length requests \<le> n then \<lparr> wg_nodes = nodes, wg_links = links, wg_totalRequests = length requests, wg_hiddenRequests = 0 \<rparr>
          else (let keptRequests = set (map fst (take n requests));
                    owners = ownerOf (set (map fst requests)) links;
                    keep = set (map fst (filter (keep_node keptRequests owners) nodes))
                in \<lparr> wg_nodes = filter (\<lambda>x. fst x \<in> keep) nodes,
                     wg_links = filter (\<lambda>(_, l). gl_source l \<in> keep \<and> gl_target l \<in> keep) links,
                     wg_totalRequests = length requests, wg_hiddenRequests = length requests - card keptRequests \<rparr>))"

section \<open>The path of a request\<close>

definition PATH_HUB_TYPES :: "GraphNodeType list" where
  "PATH_HUB_TYPES = [N_TEEWorker, N_Policy, N_Provider, N_Model]"

definition connect :: "jstr \<Rightarrow> jstr \<Rightarrow> (jstr \<times> jstr list) list \<Rightarrow> (jstr \<times> jstr list) list" where
  "connect a b adjacency = (case map_of adjacency a of Some l \<Rightarrow> map_put a (l @ [b]) adjacency | None \<Rightarrow> map_put a [b] adjacency)"

definition adjacency :: "graph_link list \<Rightarrow> (jstr \<times> jstr list) list" where
  "adjacency links = fold (\<lambda>(_, l) m. connect (gl_target l) (gl_source l) (connect (gl_source l) (gl_target l) m)) links []"

definition neighbours :: "(jstr \<times> jstr list) list \<Rightarrow> jstr \<Rightarrow> jstr list" where
  "neighbours adj x = (case map_of adj x of Some l \<Rightarrow> l | None \<Rightarrow> [])"

text \<open>\<open>new Map\<close> over the nodes: a later node replaces an earlier one with its identifier. An unknown node counts as a request.\<close>

definition path_leaf :: "graph_node list \<Rightarrow> jstr \<Rightarrow> bool" where
  "path_leaf nodes x = (case map_of (rev nodes) x of Some n \<Rightarrow> gn_type n \<in> set PATH_HUB_TYPES | None \<Rightarrow> False)"

fun visit :: "jstr list \<Rightarrow> jstr list \<times> jstr list \<Rightarrow> jstr list \<times> jstr list" where
  "visit [] pn = pn"
| "visit (y # ys) (path, next_ids) = visit ys (if y \<in> set path then (path, next_ids) else (path @ [y], next_ids @ [y]))"

fun expand :: "(jstr \<Rightarrow> bool) \<Rightarrow> (jstr \<times> jstr list) list \<Rightarrow> jstr list \<Rightarrow> jstr list \<times> jstr list \<Rightarrow> jstr list \<times> jstr list" where
  "expand stop adj [] pn = pn"
| "expand stop adj (x # frontier) pn = expand stop adj frontier (if stop x then pn else visit (neighbours adj x) pn)"

fun levels :: "(jstr \<Rightarrow> bool) \<Rightarrow> (jstr \<times> jstr list) list \<Rightarrow> nat \<Rightarrow> jstr list \<Rightarrow> jstr list \<Rightarrow> jstr list" where
  "levels stop adj 0 path frontier = path"
| "levels stop adj (Suc depth) path frontier =
     (if frontier = [] then path
      else (case expand stop adj frontier (path, []) of (path', next_ids) \<Rightarrow> levels stop adj depth path' next_ids))"

definition requestPath :: "jstr \<Rightarrow> graph_node list \<Rightarrow> graph_link list \<Rightarrow> jstr list option" where
  "requestPath rootId nodes links =
     (if rootId \<notin> set (map fst nodes) then None
      else Some (levels (\<lambda>x. x \<noteq> rootId \<and> path_leaf nodes x) (adjacency links) 4 [rootId] [rootId]))"

section \<open>The path is the bounded neighbourhood that stops at hubs\<close>

text \<open>\<open>reaches nodes links from_id n x\<close>: \<open>x\<close> is \<open>n\<close> links away from the root, over nodes that are not hubs (the root may be one).\<close>

definition linked :: "graph_link list \<Rightarrow> jstr \<Rightarrow> jstr \<Rightarrow> bool" where
  "linked links x y \<longleftrightarrow> (\<exists>(_, l) \<in> set links. gl_source l = x \<and> gl_target l = y \<or> gl_target l = x \<and> gl_source l = y)"

inductive reaches :: "(jstr \<Rightarrow> bool) \<Rightarrow> graph_link list \<Rightarrow> jstr \<Rightarrow> nat \<Rightarrow> jstr \<Rightarrow> bool" for stop links from_id where
  start: "reaches stop links from_id 0 from_id"
| hop: "reaches stop links from_id n x \<Longrightarrow> \<not> stop x \<Longrightarrow> linked links x y \<Longrightarrow> reaches stop links from_id (Suc n) y"

inductive_simps reaches_0: "reaches stop links from_id 0 x"
inductive_simps reaches_Suc: "reaches stop links from_id (Suc n) x"

lemma neighbours_connect: "neighbours (connect a b adj) x = neighbours adj x @ (if x = a then [b] else [])"
proof -
  have "map_of (connect a b adj) = (map_of adj)(a \<mapsto> neighbours adj a @ [b])"
    by (cases "map_of adj a") (simp_all add: connect_def neighbours_def map_of_put)
  then show ?thesis by (simp add: neighbours_def)
qed

lemma linked_Nil: "linked [] x = (\<lambda>_. False)"
  by (rule ext) (simp add: linked_def)

lemma neighbours_fold:
  "set (neighbours (fold (\<lambda>(_, l) m. connect (gl_target l) (gl_source l) (connect (gl_source l) (gl_target l) m)) links m) x) = set (neighbours m x) \<union> {y. linked links x y}"
proof (induction links arbitrary: m)
  case (Cons p links)
  obtain k l where p: "p = (k, l)" by fastforce
  have "linked (p # links) x y \<longleftrightarrow> gl_source l = x \<and> gl_target l = y \<or> gl_target l = x \<and> gl_source l = y \<or> linked links x y" for y
    by (auto simp: linked_def p)
  then have "{y. linked (p # links) x y} = (if gl_source l = x then {gl_target l} else {}) \<union> (if gl_target l = x then {gl_source l} else {}) \<union> {y. linked links x y}"
    by (auto split: if_splits)
  then show ?case
    by (cases "gl_source l = x"; cases "gl_target l = x") (simp_all add: p Cons.IH neighbours_connect insert_commute)
qed (simp add: linked_Nil)

lemma neighbours_linked: "set (neighbours (adjacency links) x) = {y. linked links x y}"
  by (simp add: adjacency_def neighbours_fold) (simp add: neighbours_def)

lemma visit_sets:
  "visit ys (path, next_ids) = (path', next') \<Longrightarrow> set path' = set path \<union> set ys \<and> set next' = set next_ids \<union> (set ys - set path)"
  by (induction ys arbitrary: path next_ids) (auto split: if_splits)

lemma expand_sets:
  "expand stop adj frontier (path, next_ids) = (path', next') \<Longrightarrow>
     set path' = set path \<union> (\<Union>x \<in> {x \<in> set frontier. \<not> stop x}. set (neighbours adj x))
     \<and> set next' = set next_ids \<union> ((\<Union>x \<in> {x \<in> set frontier. \<not> stop x}. set (neighbours adj x)) - set path)"
proof (induction frontier arbitrary: path next_ids)
  case (Cons x frontier)
  obtain p n where v: "(if stop x then (path, next_ids) else visit (neighbours adj x) (path, next_ids)) = (p, n)" by fastforce
  then have "set p = set path \<union> (if stop x then {} else set (neighbours adj x))" "set n = set next_ids \<union> ((if stop x then {} else set (neighbours adj x)) - set path)"
    using visit_sets [of "neighbours adj x" path next_ids p n] by (auto split: if_splits)
  with Cons.IH [of p n] Cons.prems v show ?case by (auto split: if_splits)
qed simp

text \<open>The invariant of the search: the path is what is at most \<open>d\<close> links, and the frontier is what is new at distance \<open>d\<close>.\<close>

definition searched :: "(jstr \<Rightarrow> bool) \<Rightarrow> graph_link list \<Rightarrow> jstr \<Rightarrow> nat \<Rightarrow> jstr list \<Rightarrow> jstr list \<Rightarrow> bool" where
  "searched stop links from_id d path frontier \<longleftrightarrow>
     set path = {x. \<exists>n \<le> d. reaches stop links from_id n x} \<and> set frontier = {x. reaches stop links from_id d x \<and> \<not> (\<exists>n < d. reaches stop links from_id n x)}"

lemma searched_step:
  assumes s: "searched stop links from_id d path frontier" and e: "expand stop (adjacency links) frontier (path, []) = (path', next')"
  shows "searched stop links from_id (Suc d) path' next'"
proof -
  let ?W = "reaches stop links from_id"
  have x: "set path' = set path \<union> {y. \<exists>x \<in> set frontier. \<not> stop x \<and> linked links x y}"
    "set next' = {y. \<exists>x \<in> set frontier. \<not> stop x \<and> linked links x y} - set path"
    using expand_sets [OF e] by (auto simp: neighbours_linked)
  have new: "y \<in> set path \<or> (\<exists>x \<in> set frontier. \<not> stop x \<and> linked links x y)" if y: "?W (Suc d) y" for y
  proof -
    obtain x where x: "?W d x" "\<not> stop x" "linked links x y" using y by (auto simp: reaches_Suc)
    show ?thesis
    proof (cases "\<exists>n < d. ?W n x")
      case True
      then obtain n where "n < d" "?W n x" by blast
      with x reaches.hop [of stop links from_id n x y] show ?thesis using s by (auto simp: searched_def intro!: exI [of _ "Suc n"])
    qed (use x s in \<open>auto simp: searched_def\<close>)
  qed
  have old: "?W (Suc d) y" if "x \<in> set frontier" "\<not> stop x" "linked links x y" for x y
    using that s reaches.hop [of stop links from_id d x y] by (auto simp: searched_def)
  have p: "set path = {x. \<exists>n \<le> d. ?W n x}" using s by (simp add: searched_def)
  have le: "(\<exists>n \<le> Suc d. ?W n y) \<longleftrightarrow> (\<exists>n \<le> d. ?W n y) \<or> ?W (Suc d) y" and lt: "(\<exists>n < Suc d. ?W n y) \<longleftrightarrow> (\<exists>n \<le> d. ?W n y)" for y
    using le_Suc_eq less_Suc_eq_le by auto
  have "set path' = {x. \<exists>n \<le> Suc d. ?W n x}" unfolding le x(1) p using new [unfolded p] old by blast
  moreover have "set next' = {x. ?W (Suc d) x \<and> \<not> (\<exists>n < Suc d. ?W n x)}" unfolding lt x(2) p using new [unfolded p] old by blast
  ultimately show ?thesis by (simp add: searched_def)
qed

lemma reaches_stuck: "(\<And>x. \<not> (reaches stop links from_id d x \<and> \<not> (\<exists>n < d. reaches stop links from_id n x))) \<Longrightarrow> reaches stop links from_id m x \<Longrightarrow> \<exists>n < d. reaches stop links from_id n x"
proof (induction m arbitrary: x)
  case 0
  then show ?case by (cases "d = 0") auto
next
  case (Suc m)
  then obtain w where w: "reaches stop links from_id m w" "\<not> stop w" "linked links w x" by (auto simp: reaches_Suc)
  from Suc.IH [OF Suc.prems(1) w(1)] obtain n where "n < d" "reaches stop links from_id n w" by blast
  then have "reaches stop links from_id (Suc n) x" "Suc n \<le> d" using w reaches.hop by auto
  then show ?case using Suc.prems(1) [of x] by (metis le_neq_implies_less)
qed

lemma levels_searched:
  "searched stop links from_id d path frontier \<Longrightarrow> set (levels stop (adjacency links) k path frontier) = {x. \<exists>n \<le> d + k. reaches stop links from_id n x}"
proof (induction k arbitrary: d path frontier)
  case (Suc k)
  show ?case
  proof (cases "frontier = []")
    case True
    then have "\<And>x. \<not> (reaches stop links from_id d x \<and> \<not> (\<exists>n < d. reaches stop links from_id n x))" using Suc.prems by (auto simp: searched_def)
    then have "\<exists>n \<le> d. reaches stop links from_id n x" if "reaches stop links from_id m x" for m x using reaches_stuck [OF _ that] less_imp_le by blast
    then have "{x. \<exists>n \<le> d. reaches stop links from_id n x} = {x. \<exists>n \<le> d + Suc k. reaches stop links from_id n x}"
      using le_trans [OF _ le_add1] by blast
    then show ?thesis using Suc.prems True unfolding searched_def by simp
  next
    case False
    obtain p n where e: "expand stop (adjacency links) frontier (path, []) = (p, n)" by fastforce
    from Suc.IH [OF searched_step [OF Suc.prems e]] False e show ?thesis by simp
  qed
qed (simp add: searched_def)

text \<open>C34. The highlighted path of a node is exactly its neighbourhood of at most four links in either direction that does not
  continue through a TEE worker, a policy, a provider or a model; there is no path for a node that is not shown.\<close>

theorem request_path_exact:
  "(requestPath rootId nodes links = None \<longleftrightarrow> rootId \<notin> set (map fst nodes))
   \<and> ((\<exists>path. requestPath rootId nodes links = Some path \<and> x \<in> set path) \<longleftrightarrow>
        rootId \<in> set (map fst nodes) \<and> (\<exists>n \<le> 4. reaches (\<lambda>x. x \<noteq> rootId \<and> path_leaf nodes x) links rootId n x))"
proof -
  let ?stop = "\<lambda>x. x \<noteq> rootId \<and> path_leaf nodes x"
  have "searched ?stop links rootId 0 [rootId] [rootId]" by (auto simp: searched_def reaches_0)
  from levels_searched [OF this, of 4] show ?thesis by (auto simp: requestPath_def)
qed

text \<open>Credentials are not among the types the search stops at: two requests served by one credential are on each other's path.\<close>

lemma shared_credential_joins_paths:
  assumes "gl_source l1 = lit ''req:a''" "gl_target l1 = lit ''cred:c''" "gl_source l2 = lit ''req:b''" "gl_target l2 = lit ''cred:c''"
    "gn_type na = N_Request" "gn_type nb = N_Request" "gn_type nc = N_Credential"
  shows "requestPath (lit ''req:a'') [(lit ''req:a'', na), (lit ''req:b'', nb), (lit ''cred:c'', nc)] [(k1, l1), (k2, l2)] = Some [lit ''req:a'', lit ''cred:c'', lit ''req:b'']"
  using assms by (simp add: requestPath_def adjacency_def connect_def neighbours_def path_leaf_def PATH_HUB_TYPES_def numeral_eq_Suc)

section \<open>What the window keeps\<close>

lemma requests_sorted: "sorted_wrt (\<lambda>a b. gn_created_at (snd b) \<le> gn_created_at (snd a)) (requests_newest_first nodes)"
proof -
  have "consistent_cmp (\<lambda>a b :: graph_node. gn_created_at (snd b) - gn_created_at (snd a))" by (auto simp: consistent_cmp_def)
  from sorted_js_sort [OF this] show ?thesis by (simp add: requests_newest_first_def)
qed

lemma set_requests: "set (requests_newest_first nodes) = {n \<in> set nodes. gn_type (snd n) = N_Request}"
  by (auto simp: requests_newest_first_def)

lemma distinct_requests: "distinct (map fst nodes) \<Longrightarrow> distinct (map fst (requests_newest_first nodes))"
  by (simp add: requests_newest_first_def distinct_map_js_sort distinct_map_filter)

lemma same_node: "distinct (map fst nodes) \<Longrightarrow> a \<in> set nodes \<Longrightarrow> b \<in> set nodes \<Longrightarrow> fst a = fst b \<Longrightarrow> a = b"
  by (metis eq_key_imp_eq_value prod.collapse)

text \<open>What the windowed view shows, when there are more requests than the window holds and identifiers are distinct:
  every landmark; exactly as many requests as the window allows, each at least as recent as every hidden one; a link
  exactly when both its ends are shown, so none dangles; and the hidden count is what is missing.\<close>

theorem window_exact:
  assumes ids: "distinct (map fst nodes)" and more: "n < length (requests_newest_first nodes)"
  shows "let w = windowGraph nodes links (Some n); shown = (\<lambda>x. x \<in> set (wg_nodes w)); req = (\<lambda>x. x \<in> set nodes \<and> gn_type (snd x) = N_Request) in
     set (wg_nodes w) \<subseteq> set nodes
     \<and> (\<forall>x \<in> set nodes. gn_type (snd x) \<in> set WINDOW_HUB_TYPES \<longrightarrow> shown x)
     \<and> card {x. req x \<and> shown x} = n \<and> wg_hiddenRequests w = card {x. req x \<and> \<not> shown x} \<and> wg_totalRequests w = card {x. req x}
     \<and> (\<forall>x y. req x \<and> shown x \<and> req y \<and> \<not> shown y \<longrightarrow> gn_created_at (snd y) \<le> gn_created_at (snd x))
     \<and> set (wg_links w) = {l \<in> set links. \<exists>x y. shown x \<and> shown y \<and> fst x = gl_source (snd l) \<and> fst y = gl_target (snd l)}"
proof -
  let ?rs = "requests_newest_first nodes"
  let ?kept = "set (map fst (take n ?rs))" and ?own = "ownerOf (set (map fst ?rs)) links"
  let ?w = "windowGraph nodes links (Some n)"
  let ?keep = "set (map fst (filter (keep_node ?kept ?own) nodes))"
  have w: "wg_nodes ?w = filter (\<lambda>x. fst x \<in> ?keep) nodes" "wg_links ?w = filter (\<lambda>(_, l). gl_source l \<in> ?keep \<and> gl_target l \<in> ?keep) links"
    "wg_totalRequests ?w = length ?rs" "wg_hiddenRequests ?w = length ?rs - card ?kept"
    using more by (simp_all add: windowGraph_def Let_def)
  have shown: "x \<in> set (wg_nodes ?w) \<longleftrightarrow> x \<in> set nodes \<and> keep_node ?kept ?own x" for x
  proof -
    have "keep_node ?kept ?own x" if "x \<in> set nodes" "y \<in> set nodes" "keep_node ?kept ?own y" "fst x = fst y" for y
      using same_node [OF ids that(1,2,4)] that(3) by simp
    then show ?thesis unfolding w(1) by auto
  qed
  have ids_shown: "k \<in> ?keep \<longleftrightarrow> (\<exists>x. x \<in> set (wg_nodes ?w) \<and> fst x = k)" for k unfolding shown by force
  have d: "distinct (map fst ?rs)" by (rule distinct_requests [OF ids])
  have reqs: "{x. x \<in> set nodes \<and> gn_type (snd x) = N_Request} = set ?rs" by (auto simp: set_requests)
  have hub: "N_Request \<notin> set WINDOW_HUB_TYPES" by (simp add: WINDOW_HUB_TYPES_def)
  have tk: "x \<in> set (take n ?rs)" if "x \<in> set ?rs" "y \<in> set (take n ?rs)" "fst x = fst y" for x y
    using same_node [OF d that(1) in_set_takeD [OF that(2)] that(3)] that(2) by simp
  have ts: "x \<in> set (take n ?rs) \<longleftrightarrow> x \<in> set ?rs \<and> fst x \<in> ?kept" for x
  proof
    assume "x \<in> set ?rs \<and> fst x \<in> ?kept"
    then obtain y where "x \<in> set ?rs" "y \<in> set (take n ?rs)" "fst x = fst y" unfolding set_map by blast
    then show "x \<in> set (take n ?rs)" by (rule tk)
  qed (auto dest: in_set_takeD)
  have rk: "keep_node ?kept ?own x \<longleftrightarrow> fst x \<in> ?kept" if "gn_type (snd x) = N_Request" for x
    using that hub by (simp add: keep_node_def)
  have sr: "{x. (x \<in> set nodes \<and> gn_type (snd x) = N_Request) \<and> x \<in> set (wg_nodes ?w)} = set (take n ?rs)"
    by (intro set_eqI, unfold mem_Collect_eq shown ts set_requests) (use rk in blast)
  have split: "set ?rs = set (take n ?rs) \<union> set (drop n ?rs)" by (metis append_take_drop_id set_append)
  have dr: "distinct ?rs" using d by (simp add: distinct_map)
  then have disj: "set (take n ?rs) \<inter> set (drop n ?rs) = {}" by (simp add: set_take_disj_set_drop_if_distinct)
  then have hr: "{x. (x \<in> set nodes \<and> gn_type (snd x) = N_Request) \<and> x \<notin> set (wg_nodes ?w)} = set (drop n ?rs)"
    using sr reqs split by blast
  have "sorted_wrt (\<lambda>a b. gn_created_at (snd b) \<le> gn_created_at (snd a)) (take n ?rs @ drop n ?rs)" using requests_sorted by simp
  then have newer: "gn_created_at (snd y) \<le> gn_created_at (snd x)" if "x \<in> set (take n ?rs)" "y \<in> set (drop n ?rs)" for x y
    using that by (simp only: sorted_wrt_append)
  have rec: "gn_created_at (snd y) \<le> gn_created_at (snd x)"
    if "(x \<in> set nodes \<and> gn_type (snd x) = N_Request) \<and> x \<in> set (wg_nodes ?w) \<and> (y \<in> set nodes \<and> gn_type (snd y) = N_Request) \<and> y \<notin> set (wg_nodes ?w)" for x y
    using that newer [of x y] sr hr by blast
  have "card ?kept = n" using distinct_card [OF distinct_take [OF d, of n]] more by (simp add: take_map)
  moreover have "card (set (take n ?rs)) = n" "card (set (drop n ?rs)) = length ?rs - n" "card (set ?rs) = length ?rs"
    using dr more by (simp_all add: distinct_card)
  moreover have "set (wg_links ?w) = {l \<in> set links. \<exists>x y. x \<in> set (wg_nodes ?w) \<and> y \<in> set (wg_nodes ?w) \<and> fst x = gl_source (snd l) \<and> fst y = gl_target (snd l)}"
    unfolding w(2) using ids_shown by (auto simp: case_prod_beta)
  moreover have "set (wg_nodes ?w) \<subseteq> set nodes" "\<And>x. x \<in> set nodes \<Longrightarrow> gn_type (snd x) \<in> set WINDOW_HUB_TYPES \<Longrightarrow> x \<in> set (wg_nodes ?w)"
    by (auto simp: shown keep_node_def)
  ultimately show ?thesis unfolding Let_def sr hr reqs w(3,4) using rec by (intro conjI ballI allI impI) simp_all
qed

definition sample_node :: "GraphNodeType \<Rightarrow> int \<Rightarrow> graph_node_row" where
  "sample_node ty t = \<lparr> gn_type = ty, gn_label = [], gn_status = None, gn_meta = [], gn_created_at = t, gn_updated_at = t \<rparr>"

definition sample_graph :: "graph_node list" where
  "sample_graph = [(lit ''a'', sample_node N_Request 1), (lit ''b'', sample_node N_Request 2), (lit ''m'', sample_node N_Model 0)]"

theorem window_exact_witness:
  "wg_hiddenRequests (windowGraph sample_graph [] (Some 1)) = 1 \<and> (lit ''m'', sample_node N_Model 0) \<in> set (wg_nodes (windowGraph sample_graph [] (Some 1)))"
proof -
  have d: "distinct (map fst sample_graph)" "1 < length (requests_newest_first sample_graph)"
    by (simp_all add: sample_graph_def requests_newest_first_def sample_node_def)
  have "(lit ''m'', sample_node N_Model 0) \<in> set sample_graph" "gn_type (snd (lit ''m'', sample_node N_Model 0)) \<in> set WINDOW_HUB_TYPES"
    by (simp_all add: sample_graph_def sample_node_def WINDOW_HUB_TYPES_def)
  then have m: "(lit ''m'', sample_node N_Model 0) \<in> set (wg_nodes (windowGraph sample_graph [] (Some 1)))"
    using window_exact [OF d, of "[]"] unfolding Let_def by blast
  have "wg_hiddenRequests (windowGraph sample_graph [] (Some 1)) = 1"
    by (simp add: windowGraph_def Let_def sample_graph_def requests_newest_first_def sample_node_def js_sort_def)
  with m show ?thesis by simp
qed

end
