(* ===== verification/Mock_Provider.thy ===== *)
theory Mock_Provider
  imports Providers
begin

text \<open>
  The demo upstream (\<^verbatim>\<open>services/mock-provider/src/index.ts\<close>), composed with the adapter that calls it. A key suffix or a word
  of the prompt selects the behaviour. The body is read at its declared type; the random part of the identifier, the clock,
  the jitter and whether the canary log could be written are arguments. Shown: what the enclave makes of each behaviour.
\<close>

section \<open>The service\<close>

definition ends_with :: "jstr \<Rightarrow> jstr \<Rightarrow> bool" where
  "ends_with n s \<longleftrightarrow> starts_with (rev n) (rev s)"

definition countTokens :: "nat \<Rightarrow> int" where
  "countTokens len = max 1 ((int len + 3) div 4)"

text \<open>\<open>replace(/\s+/g, " ")\<close>\<close>

function collapse_spaces :: "jstr \<Rightarrow> jstr" where
  "collapse_spaces [] = []"
| "collapse_spaces (c # s) = (if js_space c then 32 # collapse_spaces (dropWhile js_space s) else c # collapse_spaces s)"
  by pat_completeness auto
termination
  by (relation "measure length") (auto simp: length_dropWhile_le le_imp_less_Suc)

definition mock_reply :: "jstr \<Rightarrow> jstr list \<Rightarrow> jstr" where
  "mock_reply model contents =
     (let topic = trim (collapse_spaces (take 60 (if contents = [] then [] else last contents)))
      in join [10] [lit ''[mock-provider/'' @ model @ lit ''] Acknowledged your request'' @ (if topic = [] then [] else lit '' about '' @ [34] @ topic @ [34]) @ lit ''.'', [],
         lit ''This response was produced by the local mock upstream provider so the'',
         lit ''Compute Trust Network can be demonstrated end to end without spending'',
         lit ''real provider credits. The routing, TEE custody, Safety Policy v1'',
         lit ''evaluation, proof generation and signed compute receipt around this call'',
         lit ''are all real.''])"

definition mock_key :: "jstr option \<Rightarrow> jstr" where
  "mock_key auth = (case auth of Some h \<Rightarrow> if starts_with (lit ''Bearer '') h then drop 7 h else [] | None \<Rightarrow> [])"

definition mock_error :: "string \<Rightarrow> string \<Rightarrow> json" where
  "mock_error msg ty = JObj [(lit ''error'', JObj [(lit ''message'', JStr (lit msg)), (lit ''type'', JStr (lit ty))])]"

text \<open>The model and the contents of the messages, when they are strings.\<close>

definition read_chat :: "json \<Rightarrow> (jstr \<times> jstr list) option" where
  "read_chat body = (case (opt_prop body ''model'', opt_prop body ''messages'') of
     (JStr m, JArr ms) \<Rightarrow> map_option (Pair m) (those (map (\<lambda>v. as_str (opt_prop v ''content'')) ms))
   | _ \<Rightarrow> None)"

definition chat_complete :: "json \<Rightarrow> bool" where
  "chat_complete body \<longleftrightarrow> truthy (opt_prop body ''model'') \<and> (case opt_prop body ''messages'' of JArr _ \<Rightarrow> True | _ \<Rightarrow> False)"

record mock_world =
  mw_id :: jstr
  mw_now :: int
  mw_jitter :: int
  mw_log_ok :: bool
  mw_framework_error :: json

definition mock_completion :: "mock_world \<Rightarrow> jstr \<Rightarrow> jstr list \<Rightarrow> json" where
  "mock_completion w model contents =
     (let content = mock_reply model contents; promptTokens = countTokens (length (join [10] contents)); completionTokens = countTokens (length content)
      in JObj [(lit ''id'', JStr (lit ''chatcmpl-mock-'' @ mw_id w)), (lit ''object'', JStr (lit ''chat.completion'')), (lit ''created'', JInt (mw_now w div 1000)),
         (lit ''model'', JStr model),
         (lit ''choices'', JArr [JObj [(lit ''index'', JInt 0), (lit ''message'', JObj [(lit ''role'', JStr (lit ''assistant'')), (lit ''content'', JStr content)]),
            (lit ''finish_reason'', JStr (lit ''stop''))]]),
         (lit ''usage'', JObj [(lit ''prompt_tokens'', JInt promptTokens), (lit ''completion_tokens'', JInt completionTokens),
            (lit ''total_tokens'', JInt (promptTokens + completionTokens))])])"

definition hangs :: "jstr list \<Rightarrow> bool" where
  "hangs contents \<longleftrightarrow> list_ex (includes_str (lit ''-HANG'')) contents"

text \<open>The milliseconds until the answer, its status and its body; \<open>None\<close> for a body that is not of the declared type. A log
  that cannot be written throws, which the framework answers with 500.\<close>

definition mock_post :: "mock_world \<Rightarrow> jstr option \<Rightarrow> json \<Rightarrow> (int \<times> int \<times> json) option" where
  "mock_post w auth body = (let key = mock_key auth in
     if \<not> starts_with (lit ''mock-provider-key-'') key then Some (0, 401, mock_error ''Incorrect API key provided.'' ''invalid_request_error'')
     else if ends_with (lit ''AUTH'') key then Some (0, 401, mock_error ''Incorrect API key provided.'' ''invalid_request_error'')
     else if ends_with (lit ''RATE'') key then Some (0, 429, mock_error ''Rate limit reached.'' ''rate_limit_error'')
     else if ends_with (lit ''FAIL'') key then Some (0, 500, mock_error ''The server had an error.'' ''server_error'')
     else if \<not> chat_complete body then Some (0, 400, mock_error ''model and messages are required'' ''invalid_request_error'')
     else map_option (\<lambda>(model, contents).
            (let stall = (if hangs contents then 25000 else 0)
             in if mw_log_ok w then (stall + 220 + mw_jitter w, 200, mock_completion w model contents)
                else (stall, 500, mw_framework_error w))) (read_chat body))"

text \<open>The network to it, as the adapter sees it: \<open>wire\<close> milliseconds of transport, the abort timer at \<open>limit\<close>. The last case is
  not reached from the adapter.\<close>

definition mock_net :: "runtime \<Rightarrow> mock_world \<Rightarrow> int \<Rightarrow> int \<Rightarrow> outbound \<Rightarrow> fetch_result" where
  "mock_net rt w wire limit out = (case json_parse rt (text_decode (utf8 (out_body out))) of
     None \<Rightarrow> Responded 400 wire (Body (mw_framework_error w))
   | Some body \<Rightarrow> (case mock_post w (map_of (out_headers out) (lit ''authorization'')) body of
       Some (delay, st, js) \<Rightarrow> if limit < wire + delay then Rejected True limit else Responded st (wire + delay) (Body js)
     | None \<Rightarrow> Rejected False wire))"

section \<open>What the enclave makes of it\<close>

lemma read_chat_openai: "read_chat (openai_body rt r) = Some (req_model r, map msg_content (req_messages r))"
proof -
  have "those (map (\<lambda>v. as_str (opt_prop v ''content'')) (map wire_message ms)) = Some (map msg_content ms)" for ms
    by (induction ms) (simp_all add: wire_message_def opt_prop_def lit_def)
  then show ?thesis by (simp add: read_chat_def openai_body_def opt_prop_def)
qed

lemma chat_complete_openai: "req_model r \<noteq> [] \<Longrightarrow> chat_complete (openai_body rt r)"
  by (cases "req_model r") (simp_all add: chat_complete_def openai_body_def opt_prop_def)

lemma mock_key_bearer: "mock_key (Some (lit ''Bearer '' @ k)) = k"
  by (simp add: mock_key_def starts_with_def lit_def)

definition mock_env :: "runtime \<Rightarrow> mock_world \<Rightarrow> int \<Rightarrow> int \<Rightarrow> jstr \<Rightarrow> call_env" where
  "mock_env rt w wire preMs allow = \<lparr> ce_allow = allow, ce_preMs = preMs, ce_net = mock_net rt w wire 20000 \<rparr>"

text \<open>The adapter against the mock: the fetch it sees, when its body reads back.\<close>

lemma mock_fetch:
  assumes "json_parse rt (text_decode (utf8 (stringify rt (openai_body rt (aq_request a))))) = Some (openai_body rt (aq_request a))"
    and "assertPriced (req_model (aq_request a)) \<noteq> None" "assertEgressAllowed rt allow (baseUrl @ lit ''/v1/chat/completions'')"
  obtains h where "snd (complete_openai rt (mock_env rt w wire preMs allow) baseUrl a c) =
    after_fetch rt a h read_openai (case mock_post w (Some (lit ''Bearer '' @ ac_secret c)) (openai_body rt (aq_request a)) of
       Some (delay, st, js) \<Rightarrow> if 20000 < wire + delay then Rejected True 20000 else Responded st (wire + delay) (Body js)
     | None \<Rightarrow> Rejected False wire)"
proof -
  have "map_of [(lit ''content-type'', t), (lit ''authorization'', k)] (lit ''authorization'') = Some k" for t k :: jstr by (simp add: lit_def)
  with assms that show thesis by (simp add: complete_openai_def mock_env_def mock_net_def Let_def)
qed

lemma read_completion_mock:
  assumes "validUsage (JInt (countTokens (length (join [10] contents)))) = Some i" "validUsage (JInt (countTokens (length (mock_reply model contents)))) = Some j"
  shows "read_openai (mock_completion w model contents) = Read (mock_reply model contents) i j"
  using assms by (simp add: read_openai_def mock_completion_def opt_prop_def read_fields_def Let_def del: validUsage.simps)

lemma tokens_valid: "int n \<le> MAX_SAFE \<Longrightarrow> validUsage (JInt (countTokens n)) = Some (countTokens n)"
  by (auto simp: countTokens_def is_integral_def MAX_SAFE_def)

text \<open>What the enclave reports of a call to the mock with a key, when the model is priced, the host is allowed and the answer
  is on the wire in time: a bad key is an authentication failure, the suffixes RATE and FAIL a rate limit and a server
  error, each known to have cost nothing; a prompt with \<open>-HANG\<close> is a timeout of unknown outcome at the worst-case spend,
  whatever the credential; otherwise the mock's text with its token counts is the answer.\<close>

theorem mock_outcomes:
  assumes rd: "json_parse rt (text_decode (utf8 (stringify rt (openai_body rt (aq_request a))))) = Some (openai_body rt (aq_request a))"
    and ok: "assertPriced (req_model (aq_request a)) \<noteq> None" "assertEgressAllowed rt allow (baseUrl @ lit ''/v1/chat/completions'')"
    and named: "req_model (aq_request a) \<noteq> []" and w: "mw_log_ok w" "0 \<le> mw_jitter w" "mw_jitter w < 380" "0 \<le> wire" "wire \<le> 1000"
    and size: "int (length (join [10] (map msg_content (req_messages (aq_request a))))) \<le> MAX_SAFE"
      "int (length (mock_reply (req_model (aq_request a)) (map msg_content (req_messages (aq_request a))))) \<le> MAX_SAFE"
  shows "let key = ac_secret c; contents = map msg_content (req_messages (aq_request a));
             out = snd (complete_openai rt (mock_env rt w wire preMs allow) baseUrl a c)
     in (if \<not> starts_with (lit ''mock-provider-key-'') key \<or> ends_with (lit ''AUTH'') key then out = known_failure 401 wire auth_failed
         else if ends_with (lit ''RATE'') key then out = known_failure 429 wire rate_limited
         else if ends_with (lit ''FAIL'') key then out = known_failure 500 wire server_error
         else if hangs contents then out = unknownOutcome rt a 20000 timeout
         else \<exists>r. out = Completed r \<and> rp_content r = mock_reply (req_model (aq_request a)) contents
                \<and> rp_inputTokens r = countTokens (length (join [10] contents)) \<and> rp_outputTokens r = countTokens (length (rp_content r)))"
proof -
  let ?cs = "map msg_content (req_messages (aq_request a))" and ?m = "req_model (aq_request a)"
  obtain h where h: "snd (complete_openai rt (mock_env rt w wire preMs allow) baseUrl a c) =
    after_fetch rt a h read_openai (case mock_post w (Some (lit ''Bearer '' @ ac_secret c)) (openai_body rt (aq_request a)) of
       Some (delay, st, js) \<Rightarrow> if 20000 < wire + delay then Rejected True 20000 else Responded st (wire + delay) (Body js)
     | None \<Rightarrow> Rejected False wire)" by (rule mock_fetch [OF rd ok])
  note post = mock_post_def Let_def mock_key_bearer chat_complete_openai [OF named] read_chat_openai
  consider "\<not> starts_with (lit ''mock-provider-key-'') (ac_secret c) \<or> ends_with (lit ''AUTH'') (ac_secret c) \<or> ends_with (lit ''RATE'') (ac_secret c) \<or> ends_with (lit ''FAIL'') (ac_secret c)"
    | "starts_with (lit ''mock-provider-key-'') (ac_secret c)" "\<not> ends_with (lit ''AUTH'') (ac_secret c)" "\<not> ends_with (lit ''RATE'') (ac_secret c)" "\<not> ends_with (lit ''FAIL'') (ac_secret c)" by blast
  then show ?thesis
  proof cases
    case 1
    then show ?thesis unfolding Let_def h using w by (auto simp: post http_failure_def)
  next
    case 2
    have rdm: "read_openai (mock_completion w ?m ?cs) = Read (mock_reply ?m ?cs) (countTokens (length (join [10] ?cs))) (countTokens (length (mock_reply ?m ?cs)))"
      by (intro read_completion_mock tokens_valid size)
    obtain cost where cost: "estimateCostMicroUsd rt ?m (countTokens (length (join [10] ?cs))) (countTokens (length (mock_reply ?m ?cs))) = Some cost"
      using ok(1) by (auto simp: estimateCostMicroUsd_def assertPriced_def)
    have "serialisable (response_json (mock_reply ?m ?cs) (countTokens (length (join [10] ?cs))) (countTokens (length (mock_reply ?m ?cs))))"
      using tokens_valid [OF size(1)] tokens_valid [OF size(2)] by (simp add: response_json_def split: if_splits)
    then obtain t where t: "canonicalJson rt (response_json (mock_reply ?m ?cs) (countTokens (length (join [10] ?cs))) (countTokens (length (mock_reply ?m ?cs)))) = Some t"
      using canonicalJson_Some by blast
    show ?thesis unfolding Let_def h using 2 w by (auto simp: post rdm cost t canonicalHash_def simp del: canonicalJson.simps)
  qed
qed

definition mock_authorized :: AuthorizedRequest where
  "mock_authorized = sample_authorized\<lparr> aq_request := (aq_request sample_authorized)\<lparr> temperature_millis := 0 \<rparr> \<rparr>"

definition sample_mock :: mock_world where
  "sample_mock = \<lparr> mw_id = lit ''x'', mw_now = 1, mw_jitter = 5, mw_log_ok = True, mw_framework_error = JNull \<rparr>"

theorem mock_outcomes_witness:
  "snd (complete_openai sample_runtime (mock_env sample_runtime sample_mock 1 0 []) (lit ''https://api.openai.com'') mock_authorized
      (sample_credential\<lparr> ac_secret := lit ''mock-provider-key-1-RATE'' \<rparr>)) = known_failure 429 1 rate_limited"
proof -
  have "plain_json (openai_body sample_runtime (aq_request mock_authorized))"
    by (simp add: openai_body_def mock_authorized_def sample_authorized_def sample_request_def wire_message_def is_integral_def MAX_SAFE_def) (simp add: lit_def)
  then have rd: "json_parse sample_runtime (text_decode (utf8 (stringify sample_runtime (openai_body sample_runtime (aq_request mock_authorized))))) = Some (openai_body sample_runtime (aq_request mock_authorized))"
    by (intro stringify_bytes_back) (simp_all add: ints_exact_def ints_print_def)
  have e: "assertPriced (req_model (aq_request mock_authorized)) \<noteq> None" "assertEgressAllowed sample_runtime [] (lit ''https://api.openai.com'' @ lit ''/v1/chat/completions'')"
    by (simp_all add: mock_authorized_def sample_authorized_def assertPriced_def price_def PRICING_TABLE_def assertEgressAllowed_def allowlist_def sample_parse_url_def) (simp_all add: lit_def starts_with_def)
  have n: "req_model (aq_request mock_authorized) \<noteq> []" "mw_log_ok sample_mock" "0 \<le> mw_jitter sample_mock" "mw_jitter sample_mock < 380" "(0::int) \<le> 1" "(1::int) \<le> 1000"
    by (simp_all add: mock_authorized_def sample_authorized_def sample_mock_def lit_def)
  have sz: "int (length (join [10] (map msg_content (req_messages (aq_request mock_authorized))))) \<le> MAX_SAFE"
    "int (length (mock_reply (req_model (aq_request mock_authorized)) (map msg_content (req_messages (aq_request mock_authorized))))) \<le> MAX_SAFE"
    by (simp_all add: mock_authorized_def sample_authorized_def sample_request_def MAX_SAFE_def mock_reply_def Let_def) (simp add: lit_def trim_def js_space_def)
  have "starts_with (lit ''mock-provider-key-'') (lit ''mock-provider-key-1-RATE'')" "\<not> ends_with (lit ''AUTH'') (lit ''mock-provider-key-1-RATE'')" "ends_with (lit ''RATE'') (lit ''mock-provider-key-1-RATE'')"
    by (simp_all add: ends_with_def starts_with_def lit_def)
  with mock_outcomes [OF rd e n sz, where c = "sample_credential\<lparr> ac_secret := lit ''mock-provider-key-1-RATE'' \<rparr>" and preMs = 0] show ?thesis unfolding Let_def by simp
qed

end
