(* ===== verification/Verify_Cli.thy ===== *)
theory Verify_Cli
  imports Artifact_Verify
begin

text \<open>
  The terminal verifier (\<^verbatim>\<open>scripts/verify-receipt.ts\<close>): it recomputes the receipt checks from what the coordinator hands out,
  runs the local checks of \<^verbatim>\<open>packages/verify\<close> and delegates the seal to the reference binary. What is printed is left out,
  except that each printed check counts when it fails; an exception ends the program with status 1. The bundle and the
  attestation are read at their declared types (so the version check holds by the type), the files and the binary are
  arguments.
\<close>

section \<open>Inputs\<close>

record cli_bundle =
  bn_signed_receipt :: "SignedComputeReceipt option"
  bn_proof_artifact :: "ProofArtifactWireV1 option"
  bn_proof_binding :: "SignedProofBindingV2 option"
  bn_proof_status :: ProofStatus

record cli_keys =
  ck_enclaveSigningPublicKey :: jstr
  ck_policyId :: jstr
  ck_guestImageId :: jstr

text \<open>\<open>loadKeys\<close>: the answer of \<^verbatim>\<open>GET /v1/attestation\<close> is a status with the presented key, the attested key, the policy and the image.\<close>

definition loadKeys :: "(int \<times> jstr \<times> jstr \<times> jstr \<times> jstr) option \<Rightarrow> cli_keys option" where
  "loadKeys h = (case h of
     None \<Rightarrow> None
   | Some (st, presented, attested, policyId, guestImageId) \<Rightarrow>
       if \<not> (200 \<le> st \<and> st < 300) \<or> attested \<noteq> presented then None
       else Some \<lparr> ck_enclaveSigningPublicKey = presented, ck_policyId = policyId, ck_guestImageId = guestImageId \<rparr>)"

section \<open>The reference verifier\<close>

record cli_env =
  cl_release :: jstr
  cl_policyDir :: jstr
  cl_tmp :: jstr

text \<open>The binary, if it is built: from the arguments and the bytes written to the receipt file, whether it exited with 0
  and what it printed.\<close>

type_synonym prover_binary = "(jstr list \<Rightarrow> byte list \<Rightarrow> bool \<times> jstr) option"

definition cli_args :: "cli_env \<Rightarrow> VerifyExpect option \<Rightarrow> jstr list" where
  "cli_args env expect =
     [lit ''--receipt'', cl_tmp env @ lit ''/receipt.bin'', lit ''--release'', cl_release env, lit ''--policy-dir'', cl_policyDir env]
     @ (case expect of None \<Rightarrow> [] | Some e \<Rightarrow>
          (case ve_commitment e of Some c \<Rightarrow> if c = [] then [] else [lit ''--expect-commitment'', c] | None \<Rightarrow> [])
          @ (case ve_decision e of Some d \<Rightarrow> [lit ''--expect-decision'', decision_str d] | None \<Rightarrow> [])
          @ (case ve_proofNonce e of Some n \<Rightarrow> if n = [] then [] else [lit ''--expect-proof-nonce'', n] | None \<Rightarrow> []))"

record prover_report =
  pv_available :: bool
  pv_ok :: bool
  pv_firstFailure :: "jstr option"

definition first_failure :: "jstr \<Rightarrow> jstr option" where
  "first_failure stdout = map_option (\<lambda>line. takeWhile (\<lambda>c. \<not> js_space c) (trim (drop 6 line))) (find (starts_with (lit ''[FAIL]'')) (split_on 10 stdout))"

definition runProverVerify :: "cli_env \<Rightarrow> prover_binary \<Rightarrow> byte list \<Rightarrow> VerifyExpect option \<Rightarrow> prover_report" where
  "runProverVerify env bin receiptBytes expect = (case bin of
     None \<Rightarrow> \<lparr> pv_available = False, pv_ok = False, pv_firstFailure = None \<rparr>
   | Some exec \<Rightarrow> (case exec (cli_args env expect) receiptBytes of
       (ok, stdout) \<Rightarrow> \<lparr> pv_available = True, pv_ok = ok, pv_firstFailure = first_failure stdout \<rparr>))"

section \<open>Counting failures\<close>

definition fails :: "bool list \<Rightarrow> nat" where
  "fails cs = length (filter Not cs)"

text \<open>A delegated check is announced and not counted; a seal nobody confirmed counts twice.\<close>

definition proof_failures :: "runtime \<Rightarrow> cli_env \<Rightarrow> prover_binary \<Rightarrow> byte list \<Rightarrow> VerifyManifest \<Rightarrow> VerifyExpect option \<Rightarrow> nat" where
  "proof_failures rt env bin receiptBytes m expect =
     (let pv = runProverVerify env bin receiptBytes expect in
      fails (map vc_ok (filter (\<lambda>c. \<not> vc_delegated c) (vr_checks (verifyReceipt rt receiptBytes m expect))))
      + (if \<not> pv_available pv then 1 + fails [False] else fails [pv_ok pv]))"

definition verifyProofArtifact :: "runtime \<Rightarrow> cli_env \<Rightarrow> prover_binary \<Rightarrow> ProofArtifactWireV1 \<Rightarrow> VerifyManifest \<Rightarrow> VerifyExpect \<Rightarrow> nat" where
  "verifyProofArtifact rt env bin artifact m expect = proof_failures rt env bin (fromB64 (wire_receiptB64 artifact)) m (Some expect)"

definition verifyRawReceipt :: "runtime \<Rightarrow> cli_env \<Rightarrow> prover_binary \<Rightarrow> VerifyManifest \<Rightarrow> byte list \<Rightarrow> int" where
  "verifyRawReceipt rt env bin m receiptBytes =
     (if proof_failures rt env bin receiptBytes m None = 0 \<and> vr_ok (verifyReceipt rt receiptBytes m None) then 0 else 1)"

section \<open>The receipt of a request\<close>

definition journal_value :: "PolicyJournal \<Rightarrow> json" where
  "journal_value j = JObj [(lit ''protocolVersion'', JInt (jr_protocolVersion j)), (lit ''requestCommitment'', JStr (jr_requestCommitment j)),
     (lit ''policyId'', JStr (jr_policyId j)), (lit ''decision'', JStr (decision_str (jr_decision j))), (lit ''proofNonce'', JStr (jr_proofNonce j))]"

definition wire_value :: "ProofArtifactWireV1 \<Rightarrow> json" where
  "wire_value a = JObj [(lit ''proofSystem'', JStr (lit ''risc0'')), (lit ''risc0Version'', JStr (wire_risc0Version a)), (lit ''receiptCodec'', JStr (lit ''bincode-v1'')),
     (lit ''receiptB64'', JStr (wire_receiptB64 a)), (lit ''imageId'', JStr (wire_imageId a)), (lit ''journalVersion'', JInt (wire_journalVersion a)),
     (lit ''decodedJournal'', journal_value (wire_decodedJournal a))]"

definition published_text :: "runtime \<Rightarrow> SignedComputeReceipt \<Rightarrow> cli_bundle \<Rightarrow> jstr" where
  "published_text rt signed_rc b = to_lower rt (stringify rt (JObj
     [(lit ''receipt'', JObj [(lit ''receipt'', compute_receipt_json (scr_receipt signed_rc)), (lit ''enclaveSignature'', JStr (scr_enclaveSignature signed_rc))]),
      (lit ''proof_artifact'', opt_json wire_value (bn_proof_artifact b)),
      (lit ''proof_binding'', opt_json (\<lambda>s. JObj [(lit ''binding'', binding_json (sb_binding s)), (lit ''enclaveSignature'', JStr (sb_enclaveSignature s))]) (bn_proof_binding b))]))"

definition FORBIDDEN_TEXT :: "jstr list" where
  "FORBIDDEN_TEXT = map lit [''prompt'', ''messages'', ''content'', ''sk-'', ''mock-provider-key'', ''bearer'']"

definition receipt_failures :: "runtime \<Rightarrow> cli_keys \<Rightarrow> SignedComputeReceipt \<Rightarrow> nat option" where
  "receipt_failures rt keys signed_rc =
     map_option (\<lambda>sigOk. (let rc = scr_receipt signed_rc in
         fails [sigOk, True, cr_decision rc = ALLOW, cr_policyId rc = ck_policyId keys, is0xSha256 (JStr (cr_requestCommitment rc))]))
       (verifyCanonical rt (compute_receipt_json (scr_receipt signed_rc)) (scr_enclaveSignature signed_rc) (ck_enclaveSigningPublicKey keys))"

text \<open>Without an artifact, and without a binding, only a note is printed. The expected decision and nonce are the ones the
  artifact itself states; the expected commitment is the receipt's.\<close>

definition binding_failures :: "runtime \<Rightarrow> cli_keys \<Rightarrow> SignedComputeReceipt \<Rightarrow> ProofArtifactWireV1 \<Rightarrow> SignedProofBindingV2 option \<Rightarrow> nat option" where
  "binding_failures rt keys signed_rc artifact binding = (case binding of
     None \<Rightarrow> Some 0
   | Some sb \<Rightarrow> map_option (\<lambda>sigOk. fails [sigOk, bind_artifactDigest (sb_binding sb) = zkArtifactDigest rt (fromB64 (wire_receiptB64 artifact)),
         bind_policyId (sb_binding sb) = cr_policyId (scr_receipt signed_rc), bind_proofVerified (sb_binding sb)])
       (verifyCanonical rt (binding_json (sb_binding sb)) (sb_enclaveSignature sb) (ck_enclaveSigningPublicKey keys)))"

definition artifact_failures ::
  "runtime \<Rightarrow> cli_env \<Rightarrow> prover_binary \<Rightarrow> VerifyManifest \<Rightarrow> cli_keys \<Rightarrow> SignedComputeReceipt \<Rightarrow> cli_bundle \<Rightarrow> nat option" where
  "artifact_failures rt env bin m keys signed_rc b = (case bn_proof_artifact b of
     None \<Rightarrow> Some 0
   | Some a \<Rightarrow> map_option (\<lambda>n. verifyProofArtifact rt env bin a m
           \<lparr> ve_commitment = Some (cr_requestCommitment (scr_receipt signed_rc)), ve_decision = Some (jr_decision (wire_decodedJournal a)),
              ve_proofNonce = Some (jr_proofNonce (wire_decodedJournal a)) \<rparr> + n)
       (binding_failures rt keys signed_rc a (bn_proof_binding b)))"

definition content_failures :: "runtime \<Rightarrow> SignedComputeReceipt \<Rightarrow> cli_bundle \<Rightarrow> nat" where
  "content_failures rt signed_rc b = (let rc = scr_receipt signed_rc in
     fails [cr_credentialId rc \<noteq> [], cr_contributorId rc \<noteq> [], 1 \<le> cr_attempt rc]
     + fails (map (\<lambda>needle. \<not> includes_str needle (published_text rt signed_rc b)) FORBIDDEN_TEXT))"

definition verify_bundle :: "runtime \<Rightarrow> cli_env \<Rightarrow> prover_binary \<Rightarrow> VerifyManifest \<Rightarrow> cli_keys \<Rightarrow> cli_bundle \<Rightarrow> int" where
  "verify_bundle rt env bin m keys b = (case bn_signed_receipt b of
     None \<Rightarrow> 1
   | Some signed_rc \<Rightarrow>
       (case (receipt_failures rt keys signed_rc, artifact_failures rt env bin m keys signed_rc b) of
          (Some r, Some a) \<Rightarrow> if r + a + content_failures rt signed_rc b = 0 then 0 else 1
        | _ \<Rightarrow> 1))"

text \<open>The command line: \<open>--receipt\<close> wins, then \<open>--file\<close>, then a request id. \<open>read\<close> reads a file as bytes, \<open>bundle_of\<close> parses one,
  \<open>fetched\<close> is the coordinator's answer for a request id.\<close>

definition index_of :: "jstr \<Rightarrow> jstr list \<Rightarrow> nat option" where
  "index_of x xs = (case takeWhile (\<lambda>y. y \<noteq> x) xs of ys \<Rightarrow> if length ys < length xs then Some (length ys) else None)"

definition arg_after :: "string \<Rightarrow> jstr list \<Rightarrow> jstr option option" where
  "arg_after flag args = map_option (\<lambda>i. if Suc i < length args \<and> args ! Suc i \<noteq> [] then Some (args ! Suc i) else None) (index_of (lit flag) args)"

definition cli_main ::
  "runtime \<Rightarrow> cli_env \<Rightarrow> prover_binary \<Rightarrow> VerifyManifest option \<Rightarrow> cli_keys option \<Rightarrow> (jstr \<Rightarrow> byte list option)
   \<Rightarrow> (jstr \<Rightarrow> cli_bundle option) \<Rightarrow> (jstr \<Rightarrow> cli_bundle option) \<Rightarrow> jstr list \<Rightarrow> int" where
  "cli_main rt env bin manifest keys read bundle_of fetched args =
     (case arg_after ''--receipt'' args of
        Some None \<Rightarrow> 1
      | Some (Some path) \<Rightarrow>
          (case (manifest, read path) of (Some m, Some bytes) \<Rightarrow> verifyRawReceipt rt env bin m bytes | _ \<Rightarrow> 1)
      | None \<Rightarrow>
          if arg_after ''--file'' args = None \<and> (args = [] \<or> hd args = []) then 2
          else (let bundle = (case arg_after ''--file'' args of
                      Some None \<Rightarrow> None
                    | Some (Some path) \<Rightarrow> bundle_of path
                    | None \<Rightarrow> fetched (hd args))
                in (case (bundle, keys, manifest) of
                      (Some b, Some k, Some m) \<Rightarrow> verify_bundle rt env bin m k b
                    | _ \<Rightarrow> 1)))"

section \<open>What status 0 means\<close>

lemma fails_0: "fails cs = 0 \<longleftrightarrow> list_all (\<lambda>c. c) cs"
  by (induction cs) (auto simp: fails_def)

lemma proof_failures_0:
  "proof_failures rt env bin bytes m expect = 0 \<longleftrightarrow>
     vr_ok (verifyReceipt rt bytes m expect) \<and> (\<exists>exec out. bin = Some exec \<and> exec (cli_args env expect) bytes = (True, out))"
proof -
  have "fails (map vc_ok (filter (\<lambda>c. \<not> vc_delegated c) (vr_checks (verifyReceipt rt bytes m expect)))) = 0 \<longleftrightarrow> vr_ok (verifyReceipt rt bytes m expect)"
    unfolding fails_0 verdict_all_checks by (induction "vr_checks (verifyReceipt rt bytes m expect)") (auto simp: list_all_iff)
  then show ?thesis
    by (cases bin) (auto simp: proof_failures_def Let_def runProverVerify_def fails_def split: prod.splits)
qed

text \<open>What a bundle must hold. The arguments of the reference binary are written out here as the script passes them; the
  two optional ones are always present, as a journal that decodes has a commitment and a nonce.\<close>

definition receipt_backed :: "runtime \<Rightarrow> cli_keys \<Rightarrow> SignedComputeReceipt \<Rightarrow> bool" where
  "receipt_backed rt keys s \<longleftrightarrow>
     verifyCanonical rt (compute_receipt_json (scr_receipt s)) (scr_enclaveSignature s) (ck_enclaveSigningPublicKey keys) = Some True
     \<and> cr_decision (scr_receipt s) = ALLOW \<and> cr_policyId (scr_receipt s) = ck_policyId keys
     \<and> is0xSha256 (JStr (cr_requestCommitment (scr_receipt s)))
     \<and> cr_credentialId (scr_receipt s) \<noteq> [] \<and> cr_contributorId (scr_receipt s) \<noteq> [] \<and> 1 \<le> cr_attempt (scr_receipt s)"

definition proof_backed :: "runtime \<Rightarrow> cli_env \<Rightarrow> prover_binary \<Rightarrow> VerifyManifest \<Rightarrow> SignedComputeReceipt \<Rightarrow> ProofArtifactWireV1 \<Rightarrow> bool" where
  "proof_backed rt env bin m s a \<longleftrightarrow> manifest_ok m \<and> codec_ok m
     \<and> (\<exists>tag j. frameJournal rt (fromB64 (wire_receiptB64 a)) = Some (tag, j) \<and> tag \<noteq> INNER_TAG_FAKE)
     \<and> (\<exists>d. decodeJournal rt (fromB64 (wire_receiptB64 a)) = Some d \<and> JStr (dj_policyId d) = vm_policyId m
          \<and> dj_requestCommitment d = cr_requestCommitment (scr_receipt s)
          \<and> dj_decision d = jr_decision (wire_decodedJournal a) \<and> dj_proofNonce d = jr_proofNonce (wire_decodedJournal a))
     \<and> (\<exists>exec out. bin = Some exec
          \<and> exec [lit ''--receipt'', cl_tmp env @ lit ''/receipt.bin'', lit ''--release'', cl_release env, lit ''--policy-dir'', cl_policyDir env,
                 lit ''--expect-commitment'', cr_requestCommitment (scr_receipt s),
                 lit ''--expect-decision'', decision_str (jr_decision (wire_decodedJournal a)),
                 lit ''--expect-proof-nonce'', jr_proofNonce (wire_decodedJournal a)]
               (fromB64 (wire_receiptB64 a)) = (True, out))"

definition binding_backed :: "runtime \<Rightarrow> cli_keys \<Rightarrow> SignedComputeReceipt \<Rightarrow> ProofArtifactWireV1 \<Rightarrow> SignedProofBindingV2 \<Rightarrow> bool" where
  "binding_backed rt keys s a sb \<longleftrightarrow>
     verifyCanonical rt (binding_json (sb_binding sb)) (sb_enclaveSignature sb) (ck_enclaveSigningPublicKey keys) = Some True
     \<and> bind_artifactDigest (sb_binding sb) = zkArtifactDigest rt (fromB64 (wire_receiptB64 a))
     \<and> bind_policyId (sb_binding sb) = cr_policyId (scr_receipt s) \<and> bind_proofVerified (sb_binding sb)"

lemma decoded_texts:
  assumes "decodeJournal rt bytes = Some d"
  shows "dj_requestCommitment d \<noteq> []" "dj_proofNonce d \<noteq> []"
proof -
  have "str_of v \<noteq> []" if "is0xSha256 v" for v using that by (cases v) (auto simp: is0xSha256_def starts_with_iff lit_def)
  moreover have "str_of v \<noteq> []" if "proof_nonce_ok v" for v
    using that by (cases v) (auto simp: proof_nonce_ok_def nonce_digits_def starts_with_iff lit_def split: if_splits)
  ultimately show "dj_requestCommitment d \<noteq> []" "dj_proofNonce d \<noteq> []"
    using assms by (auto simp: decodeJournal_def split: option.splits json.splits if_splits)
qed

lemma artifact_checked:
  "verifyProofArtifact rt env bin a m \<lparr> ve_commitment = Some (cr_requestCommitment (scr_receipt s)),
      ve_decision = Some (jr_decision (wire_decodedJournal a)), ve_proofNonce = Some (jr_proofNonce (wire_decodedJournal a)) \<rparr> = 0
   \<longleftrightarrow> proof_backed rt env bin m s a"
proof -
  let ?e = "Some \<lparr> ve_commitment = Some (cr_requestCommitment (scr_receipt s)),
      ve_decision = Some (jr_decision (wire_decodedJournal a)), ve_proofNonce = Some (jr_proofNonce (wire_decodedJournal a)) \<rparr>"
  have args: "cli_args env ?e = [lit ''--receipt'', cl_tmp env @ lit ''/receipt.bin'', lit ''--release'', cl_release env, lit ''--policy-dir'', cl_policyDir env,
                 lit ''--expect-commitment'', cr_requestCommitment (scr_receipt s),
                 lit ''--expect-decision'', decision_str (jr_decision (wire_decodedJournal a)),
                 lit ''--expect-proof-nonce'', jr_proofNonce (wire_decodedJournal a)]"
    if "decodeJournal rt (fromB64 (wire_receiptB64 a)) = Some d" "expected ?e d" for d
    using that(2) decoded_texts [OF that(1)] by (simp add: expected_def cli_args_def)
  have "verifyProofArtifact rt env bin a m (the ?e) = 0 \<longleftrightarrow> (manifest_ok m \<and> codec_ok m
     \<and> (\<exists>tag j. frameJournal rt (fromB64 (wire_receiptB64 a)) = Some (tag, j) \<and> tag \<noteq> INNER_TAG_FAKE)
     \<and> (\<exists>d. decodeJournal rt (fromB64 (wire_receiptB64 a)) = Some d \<and> JStr (dj_policyId d) = vm_policyId m \<and> expected ?e d))
     \<and> (\<exists>exec out. bin = Some exec \<and> exec (cli_args env ?e) (fromB64 (wire_receiptB64 a)) = (True, out))"
    by (simp only: verifyProofArtifact_def proof_failures_0 receipt_accepted_iff option.sel)
  also have "\<dots> \<longleftrightarrow> proof_backed rt env bin m s a"
    unfolding proof_backed_def using args by (auto simp: expected_def)
  finally show ?thesis by simp
qed

lemma receipt_checked: "receipt_failures rt keys s = Some 0 \<and> content_failures rt s b = 0 \<longleftrightarrow>
    receipt_backed rt keys s \<and> (\<forall>needle \<in> set FORBIDDEN_TEXT. \<not> includes_str needle (published_text rt s b))"
  by (auto simp: receipt_failures_def content_failures_def receipt_backed_def Let_def fails_0 list_all_iff)

lemma binding_checked: "binding_failures rt keys s a binding = Some 0 \<longleftrightarrow>
    (case binding of None \<Rightarrow> True | Some sb \<Rightarrow> binding_backed rt keys s a sb)"
  by (auto simp: binding_failures_def binding_backed_def fails_0 split: option.splits)

lemma artifact_failures_0: "artifact_failures rt env bin m keys s b = Some 0 \<longleftrightarrow>
    (case bn_proof_artifact b of None \<Rightarrow> True | Some a \<Rightarrow> proof_backed rt env bin m s a
       \<and> (case bn_proof_binding b of None \<Rightarrow> True | Some sb \<Rightarrow> binding_backed rt keys s a sb))"
  unfolding binding_checked [symmetric] artifact_checked [symmetric]
  by (auto simp: artifact_failures_def split: option.splits)

text \<open>C37. The terminal verifier ends with status 0 on a bundle exactly when every check it prints holds. There is a compute
  receipt, signed by the attested key, that ALLOWs under the attested policy, has a well-formed commitment, and names a
  credential, a contributor and an attempt. If the bundle carries a proof artifact, the manifest is well formed, the
  artifact's bytes frame a journal that is not from dev mode, for the receipt's commitment, under the pinned policy, with
  the decision and nonce the artifact states, and the reference binary exits with 0 on those very bytes, called with the
  pinned release, the policy directory and these three expectations. If it carries a binding too, the binding is signed by
  the attested key, is for those bytes and the receipt's policy and reports a verified proof. None of the forbidden words
  occurs in what is published. (The version check holds by the type of a receipt.)\<close>

theorem cli_zero_iff_verified:
  "verify_bundle rt env bin m keys b = 0 \<longleftrightarrow>
     (\<exists>s. bn_signed_receipt b = Some s \<and> receipt_backed rt keys s
        \<and> (\<forall>needle \<in> set FORBIDDEN_TEXT. \<not> includes_str needle (published_text rt s b))
        \<and> (case bn_proof_artifact b of None \<Rightarrow> True | Some a \<Rightarrow> proof_backed rt env bin m s a
             \<and> (case bn_proof_binding b of None \<Rightarrow> True | Some sb \<Rightarrow> binding_backed rt keys s a sb)))"
proof (cases "bn_signed_receipt b")
  case (Some s)
  have "verify_bundle rt env bin m keys b = 0 \<longleftrightarrow>
      (receipt_failures rt keys s = Some 0 \<and> content_failures rt s b = 0) \<and> artifact_failures rt env bin m keys s b = Some 0"
    using Some by (auto simp: verify_bundle_def split: option.splits if_splits)
  then show ?thesis using Some by (simp only: receipt_checked artifact_failures_0) auto
qed (simp add: verify_bundle_def)

text \<open>A request whose proof never came passes as well: status 0 says nothing about a missing artifact.\<close>

lemma cli_passes_without_proof:
  assumes "bn_signed_receipt b = Some s" "bn_proof_artifact b = None" "receipt_failures rt keys s = Some 0" "content_failures rt s b = 0"
  shows "verify_bundle rt env bin m keys b = 0"
  using assms by (simp add: verify_bundle_def artifact_failures_def)

definition cli_runtime :: runtime where
  "cli_runtime = sample_runtime\<lparr> sha256 := (\<lambda>_. []) \<rparr>"

definition cli_receipt :: SignedComputeReceipt where
  "cli_receipt = \<lparr> scr_receipt = \<lparr> cr_requestId = lit ''r1'', cr_requestCommitment = dj_requestCommitment sample_decoded, cr_teeMode = lit ''simulated'',
     cr_buildId = lit ''b'', cr_attestationDigest = lit ''d'', cr_policyId = dj_policyId sample_decoded, cr_decision = ALLOW, cr_zkReceiptDigest = lit ''z'',
     cr_provider = lit ''openai'', cr_model = lit ''gpt'', cr_credentialId = lit ''c1'', cr_contributorId = lit ''u1'', cr_attempt = 1,
     cr_inputTokens = Some 3, cr_outputTokens = None, cr_estimatedCostMicroUsd = None, cr_pricingTableDigest = None,
     cr_receivedAt = lit ''t'', cr_policyMs = 1, cr_proofMs = None, cr_providerTotalMs = 2, cr_upstreamRequestHash = lit ''h'',
     cr_upstreamResponseHash = lit ''k'' \<rparr>, scr_enclaveSignature = lit ''01'' \<rparr>"

definition cli_journal :: string where
  \<open>cli_journal = ''{"decision":"ALLOW","policyId":"0x0000000000000000000000000000000000000000000000000000000000000000",'' @
     ''"proofNonce":"ab","protocolVersion":1,"requestCommitment":"0x000000000000000000000000000000000000000'' @
     ''0000000000000000000000000"}''\<close>

definition cli_receipt_text :: string where
  \<open>cli_receipt_text = ''AAAAAOMAAAAAAAAAeyJkZWNpc2lvbiI6IkFMTE9XIiwicG9saWN5SWQiOiIweDAwMDAwMDAwMDAwMDAwMDAwMDAwMDAwMDAwMDAw'' @
     ''MDAwMDAwMDAwMDAwMDAwMDAwMDAwMDAwMDAwMDAwMDAwMDAiLCJwcm9vZk5vbmNlIjoiYWIiLCJwcm90b2NvbFZlcnNpb24iOjEs'' @
     ''InJlcXVlc3RDb21taXRtZW50IjoiMHgwMDAwMDAwMDAwMDAwMDAwMDAwMDAwMDAwMDAwMDAwMDAwMDAwMDAwMDAwMDAwMDAwMDAw'' @
     ''MDAwMDAwMDAwMDAwIn0JCQkJCQkJCQkJCQkJCQkJCQkJCQkJCQkJCQkJCQkJCQ==''\<close>

definition cli_artifact :: ProofArtifactWireV1 where
  "cli_artifact = \<lparr> wire_risc0Version = lit ''3'', wire_receiptB64 = lit cli_receipt_text, wire_imageId = lit ''i'', wire_journalVersion = 1,
     wire_decodedJournal = \<lparr> jr_protocolVersion = 1, jr_requestCommitment = dj_requestCommitment sample_decoded, jr_policyId = dj_policyId sample_decoded,
       jr_decision = ALLOW, jr_proofNonce = lit ''ab'' \<rparr> \<rparr>"

definition cli_binding :: SignedProofBindingV2 where
  "cli_binding = \<lparr> sb_binding = \<lparr> bind_decisionReceiptDigest = lit ''r'', bind_artifactDigest = lit ''0x'', bind_imageId = lit ''i'',
     bind_policyId = dj_policyId sample_decoded, bind_decision = ALLOW, bind_proofVerified = True \<rparr>, sb_enclaveSignature = lit ''01'' \<rparr>"

definition cli_sample :: cli_bundle where
  "cli_sample = \<lparr> bn_signed_receipt = Some cli_receipt, bn_proof_artifact = Some cli_artifact, bn_proof_binding = Some cli_binding, bn_proof_status = VERIFIED \<rparr>"

definition cli_sample_env :: cli_env where
  "cli_sample_env = \<lparr> cl_release = lit ''release.json'', cl_policyDir = lit ''policy'', cl_tmp = lit ''tmp'' \<rparr>"

text \<open>A binary that accepts one receipt, under one release and with these expectations only.\<close>

definition cli_binary :: prover_binary where
  "cli_binary = Some (\<lambda>args bytes. (args = [lit ''--receipt'', lit ''tmp'' @ lit ''/receipt.bin'', lit ''--release'', lit ''release.json'', lit ''--policy-dir'', lit ''policy'',
       lit ''--expect-commitment'', dj_requestCommitment sample_decoded, lit ''--expect-decision'', lit ''ALLOW'', lit ''--expect-proof-nonce'', lit ''ab'']
     \<and> bytes = fromB64 (lit cli_receipt_text), []))"

definition cli_sample_keys :: cli_keys where
  "cli_sample_keys = \<lparr> ck_enclaveSigningPublicKey = lit ''01'', ck_policyId = dj_policyId sample_decoded, ck_guestImageId = lit ''i'' \<rparr>"

lemma quote_plain: "list_all (\<lambda>c. 35 \<le> c \<and> c < 128 \<and> c \<noteq> 92) s \<Longrightarrow> quote s = 34 # s @ [34]"
  by (simp add: quote_def escape_plain)

lemma small_digits: "int_digits 1 = [49]" "int_digits 2 = [50]" "int_digits 3 = [51]"
  by (simp_all add: int_digits_def digit_def nat_digits.simps [of "Suc 0"] nat_digits.simps [of 2] nat_digits.simps [of 3])

lemma starts_with_Cons: "starts_with (a # n) (b # s) \<longleftrightarrow> a = b \<and> starts_with n s" "starts_with [] s" "\<not> starts_with (a # n) []"
  by (auto simp: starts_with_def)

lemma zeros_listed: "replicate 64 (48::nat) = concat (replicate 8 [48, 48, 48, 48, 48, 48, 48, 48])"
  by code_simp

lemma eights: "concat (replicate 8 xs) = xs @ xs @ xs @ xs @ xs @ xs @ xs @ xs"
  by (simp add: numeral_eq_Suc)

definition cli_published :: string where
  \<open>cli_published = ''{"receipt":{"receipt":{"version":"ctn-receipt-1","requestid":"r1","requestcommitment":"0x00000000000'' @
     ''00000000000000000000000000000000000000000000000000000","tee":{"mode":"simulated","buildid":"b","atte'' @
     ''stationdigest":"d"},"policy":{"policyid":"0x00000000000000000000000000000000000000000000000000000000'' @
     ''00000000","decision":"allow","zkreceiptdigest":"z"},"route":{"provider":"openai","model":"gpt","cred'' @
     ''entialid":"c1","contributorid":"u1","attempt":1},"usage":{"inputtokens":3},"timing":{"receivedat":"t'' @
     ''","policyms":1,"providertotalms":2},"upstreamrequesthash":"h","upstreamresponsehash":"k"},"enclavesi'' @
     ''gnature":"01"},"proof_artifact":{"proofsystem":"risc0","risc0version":"3","receiptcodec":"bincode-v1'' @
     ''","receiptb64":"aaaaaomaaaaaaaaaeyjkzwnpc2lvbii6ikfmte9xiiwicg9sawn5swqioiiwedawmdawmdawmdawmdawmdaw'' @
     ''mdawmdawmdawmdawmdawmdawmdawmdawmdawmdawmdawmdawmdawmdawmdawmdailcjwcm9vzk5vbmnlijoiywiilcjwcm90b2nv'' @
     ''bfzlcnnpb24iojesinjlcxvlc3rdb21taxrtzw50ijoimhgwmdawmdawmdawmdawmdawmdawmdawmdawmdawmdawmdawmdawmdaw'' @
     ''mdawmdawmdawmdawmdawmdawmdawmdawin0jcqkjcqkjcqkjcqkjcqkjcqkjcqkjcqkjcqkjcqkjcq==","imageid":"i","jou'' @
     ''rnalversion":1,"decodedjournal":{"protocolversion":1,"requestcommitment":"0x000000000000000000000000'' @
     ''0000000000000000000000000000000000000000","policyid":"0x00000000000000000000000000000000000000000000'' @
     ''00000000000000000000","decision":"allow","proofnonce":"ab"}},"proof_binding":{"binding":{"decisionre'' @
     ''ceiptdigest":"r","artifactdigest":"0x","imageid":"i","policyid":"0x000000000000000000000000000000000'' @
     ''0000000000000000000000000000000","decision":"allow","proofverified":true},"enclavesignature":"01"}}''\<close>

lemma cli_sample_published: "published_text cli_runtime cli_receipt cli_sample = lit cli_published"
  by (simp add: published_text_def cli_sample_def cli_receipt_def cli_runtime_def compute_receipt_json_def opt_json_def sample_decoded_def
      cli_artifact_def wire_value_def journal_value_def cli_binding_def binding_json_def cli_receipt_text_def
      sample_zeros_def zeros_listed eights small_digits)
    (simp add: quote_plain lit_def ascii_lower_def cli_published_def)

lemma includes_lit: "includes_str (lit n) (lit s) \<longleftrightarrow> includes_str n s"
proof -
  have sw: "starts_with (lit n) (lit u) \<longleftrightarrow> starts_with n u" for u
    by (simp add: starts_with_def lit_def take_map inj_map_eq_map [OF inj_of_char])
  show ?thesis
  proof (induction s)
    case (Cons x s)
    with sw [of "x # s"] show ?case by (simp add: lit_def)
  qed (simp add: lit_def)
qed

lemma cli_published_clean: "\<not> includes_str ''prompt'' cli_published" "\<not> includes_str ''messages'' cli_published"
  "\<not> includes_str ''content'' cli_published" "\<not> includes_str ''sk-'' cli_published" "\<not> includes_str ''mock-provider-key'' cli_published"
  "\<not> includes_str ''bearer'' cli_published"
  unfolding cli_published_def by (simp_all add: starts_with_Cons)

lemma cli_sample_content: "content_failures cli_runtime cli_receipt cli_sample = 0"
proof -
  have "\<not> includes_str n (lit cli_published)" if "n \<in> set FORBIDDEN_TEXT" for n
    using that cli_published_clean unfolding FORBIDDEN_TEXT_def list.map set_simps insert_iff empty_iff by (auto simp only: includes_lit)
  moreover have "cr_credentialId (scr_receipt cli_receipt) \<noteq> []" "cr_contributorId (scr_receipt cli_receipt) \<noteq> []" "1 \<le> cr_attempt (scr_receipt cli_receipt)"
    by (simp_all add: cli_receipt_def lit_def)
  ultimately show ?thesis unfolding content_failures_def Let_def cli_sample_published add_is_0 fails_0 list_all_iff by auto
qed

lemma cli_sample_receipt: "receipt_failures cli_runtime cli_sample_keys cli_receipt = Some 0"
proof -
  have "serialisable (compute_receipt_json (scr_receipt cli_receipt))"
    by (simp add: cli_receipt_def compute_receipt_json_def opt_json_def is_integral_def MAX_SAFE_def)
  then obtain t where t: "canonicalJson cli_runtime (compute_receipt_json (scr_receipt cli_receipt)) = Some t" using canonicalJson_Some by blast
  have h: "fromHex (lit ''01'') = Some [1]" by code_simp
  have "verifyCanonical cli_runtime (compute_receipt_json (scr_receipt cli_receipt)) (scr_enclaveSignature cli_receipt) (ck_enclaveSigningPublicKey cli_sample_keys) = Some True"
    unfolding verifyCanonical_def canonicalHash_def t
    by (simp add: sha256Hex_def verifyDigestHex_def hexc.dec_enc cli_runtime_def cli_receipt_def cli_sample_keys_def h)
  moreover have "is0xSha256 (JStr (dj_requestCommitment sample_decoded))" using sample_shapes(2) by (simp add: journal_shape_def)
  ultimately show ?thesis
    unfolding receipt_failures_def by (simp add: fails_def Let_def) (simp add: cli_receipt_def cli_sample_keys_def)
qed

text \<open>The receipt bytes of the sample: base 64 is computed on numbers.\<close>

fun b64_nats :: "nat list \<Rightarrow> jstr" where
  "b64_nats [] = []"
| "b64_nats [a] = [b64_char (a div 4), b64_char (a mod 4 * 16), 61, 61]"
| "b64_nats [a, b] = [b64_char (a div 4), b64_char (a mod 4 * 16 + b div 16), b64_char (b mod 16 * 4), 61]"
| "b64_nats (a # b # c # ns) = b64_char (a div 4) # b64_char (a mod 4 * 16 + b div 16) # b64_char (b mod 16 * 4 + c div 64) # b64_char (c mod 64) # b64_nats ns"

lemma toB64_nats: "\<forall>n \<in> set ns. n < 256 \<Longrightarrow> toB64 (map of_nat ns) = b64_nats ns"
  by (induction ns rule: b64_nats.induct) (simp_all add: unat_byte)

definition cli_frame :: "nat list" where
  "cli_frame = [0, 0, 0, 0, 227, 0, 0, 0, 0, 0, 0, 0] @ lit cli_journal @ replicate 32 9"

lemma cli_frame_text: "b64_nats cli_frame = lit cli_receipt_text"
proof -
  have nines: "replicate 32 (9 :: nat) = concat (replicate 8 [9, 9, 9, 9])" by code_simp
  show ?thesis
    unfolding cli_frame_def cli_journal_def cli_receipt_text_def nines eights by (simp add: lit_def b64_char_def)
qed

lemma cli_journal_text: "canonicalJson cli_runtime (JObj (journal_members sample_decoded)) = Some (lit cli_journal)"
proof -
  have srt: "sort_key fst (journal_members sample_decoded) = journal_members sample_decoded"
    by (rule sort_key_id_if_sorted) (simp add: journal_members_def lit_def)
  have one: "canonicalJson cli_runtime (JInt 1) = Some [49]"
    using one_safe by (simp add: int_digits_def digit_def nat_digits.simps [of "Suc 0"] del: isSafeInteger.simps)
  show ?thesis unfolding canonicalJson.simps(6) srt
    by (simp add: journal_members_def one sample_decoded_def sample_zeros_def zeros_listed eights cli_runtime_def del: isSafeInteger.simps)
       (simp add: quote_plain lit_def cli_journal_def small_digits)
qed

lemma cli_sample_frame:
  "fromB64 (lit cli_receipt_text) = [0, 0, 0, 0] @ u64le (length (utf8 (lit cli_journal))) @ utf8 (lit cli_journal) @ replicate 32 9"
proof -
  have u: "utf8 (lit cli_journal) = map of_nat (lit cli_journal)" by (rule utf8_ascii) (simp add: cli_journal_def lit_def)
  have l: "length cli_journal = 227" by (simp add: cli_journal_def)
  have small: "\<forall>n \<in> set cli_frame. n < 256"
    by (auto simp: cli_frame_def lit_def intro: less_trans [OF nat_of_char_less_256])
  have "fromB64 (lit cli_receipt_text) = map of_nat cli_frame"
    using cli_frame_text toB64_nats [OF small] fromB64_toB64 by metis
  then show ?thesis by (simp add: u l cli_frame_def u64le_def)
qed

lemma cli_sample_proof: "proof_backed cli_runtime cli_sample_env cli_binary sample_verify_manifest cli_receipt cli_artifact"
proof -
  have rt: "ints_exact cli_runtime" "ascii_normal cli_runtime" by (simp_all add: ints_exact_def ascii_normal_def cli_runtime_def)
  have "length (utf8 (lit cli_journal)) \<le> 65536"
    by (subst utf8_ascii) (simp_all add: cli_journal_def lit_def)
  from receipt_reads_back [OF rt sample_shapes(2) cli_journal_text this _ _ sample_shapes(3,4), of "[0, 0, 0, 0]" "replicate 32 9"]
  have "vr_ok (verifyReceipt cli_runtime (fromB64 (lit cli_receipt_text)) sample_verify_manifest
      (Some \<lparr> ve_commitment = Some (dj_requestCommitment sample_decoded), ve_decision = Some (dj_decision sample_decoded),
         ve_proofNonce = Some (dj_proofNonce sample_decoded) \<rparr>))"
    unfolding cli_sample_frame by (simp add: META_LEN_def sample_verify_manifest_def sample_decoded_def readU32LE_def INNER_TAG_FAKE_def)
  then show ?thesis unfolding receipt_accepted_iff expected_def
    by (auto simp: proof_backed_def cli_artifact_def cli_receipt_def cli_binary_def cli_sample_env_def sample_decoded_def)
qed

lemma cli_sample_binding: "binding_backed cli_runtime cli_sample_keys cli_receipt cli_artifact cli_binding"
proof -
  have "serialisable (binding_json (sb_binding cli_binding))" by (simp add: binding_json_def)
  then obtain t where t: "canonicalJson cli_runtime (binding_json (sb_binding cli_binding)) = Some t" using canonicalJson_Some by blast
  have h: "fromHex (lit ''01'') = Some [1]" by code_simp
  have "verifyCanonical cli_runtime (binding_json (sb_binding cli_binding)) (sb_enclaveSignature cli_binding) (ck_enclaveSigningPublicKey cli_sample_keys) = Some True"
    unfolding verifyCanonical_def canonicalHash_def t
    by (simp add: sha256Hex_def verifyDigestHex_def hexc.dec_enc cli_runtime_def cli_binding_def cli_sample_keys_def h)
  then show ?thesis
    by (simp add: binding_backed_def) (simp add: cli_binding_def cli_receipt_def zkArtifactDigest_def domain_digest_def cli_runtime_def toHex_def)
qed

theorem cli_zero_iff_verified_witness:
  "verify_bundle cli_runtime cli_sample_env cli_binary sample_verify_manifest cli_sample_keys cli_sample = 0
   \<and> bn_proof_artifact cli_sample = Some cli_artifact \<and> proof_backed cli_runtime cli_sample_env cli_binary sample_verify_manifest cli_receipt cli_artifact"
proof -
  have "receipt_backed cli_runtime cli_sample_keys cli_receipt
      \<and> (\<forall>needle \<in> set FORBIDDEN_TEXT. \<not> includes_str needle (published_text cli_runtime cli_receipt cli_sample))"
    using cli_sample_receipt cli_sample_content receipt_checked by blast
  then show ?thesis
    using cli_zero_iff_verified [of cli_runtime cli_sample_env cli_binary sample_verify_manifest cli_sample_keys cli_sample]
      cli_sample_proof cli_sample_binding by (simp add: cli_sample_def)
qed

end
