(* ===== verification/Spec2Isabelle.thy ===== *)
theory Spec2Isabelle
  imports Backing Playground Contribute Endpoints Event_Stream Graph_View Mock_Provider Verify_Cli
begin

text \<open>
  \<^bold>\<open>The Compute Trust Network: a verification development.\<close>

  \<^bold>\<open>The program.\<close> Contributors lend API keys to a network; clients send prompts that the operator of the network
  must not read. Three processes cooperate. The \<^emph>\<open>client\<close> (\<^verbatim>\<open>packages/client\<close>) checks an attestation, canonicalises a
  request and seals it to the enclave. The \<^emph>\<open>coordinator\<close> (\<^verbatim>\<open>services/coordinator\<close>) is untrusted with content: it
  relays envelopes, keeps a ledger in SQLite, chooses candidate credentials, books usage, watches proofs and projects
  events into a graph. The \<^emph>\<open>enclave\<close> (\<^verbatim>\<open>services/tee-sim\<close>) opens envelopes, asks a proving daemon to execute the
  policy guest on them (the gate), parks an ALLOW, and on \<^verbatim>\<open>POST /execute\<close> releases one contributed key for one
  upstream call, signs receipts, seals the answer, and has the verdict proved and re-verified. Third parties check
  receipts with \<^verbatim>\<open>packages/verify\<close>. Rules and canonical forms shared by all are in \<^verbatim>\<open>packages/policy\<close> and
  \<^verbatim>\<open>packages/protocol\<close>.

  \<^bold>\<open>Which theory models what.\<close>

  \<^item> \<open>CTN_Prelude\<close>: JavaScript strings (UTF-16 code units), byte arrays, insertion-ordered maps (locale \<open>key_store\<close>),
    stable sort, invariants of step relations (locale \<open>stable\<close>), and the \<open>runtime\<close> record of engine and library functions.
  \<^item> \<open>Canonical\<close>, \<open>Json_Text\<close>, \<open>Protocol_Types\<close>: \<^verbatim>\<open>packages/protocol/src/{canonical,crypto,types}.ts\<close>. Canonical requests,
    canonical JSON, hex and base64 (locale \<open>codec\<close>), commitments and domain-separated digests, signatures; a JSON parser and
    printer and UTF-8; the wire records. Shown: canonical text parses back, a commitment names one request, wire
    artifacts round-trip, a canonical request is a fixed point.
  \<^item> \<open>Policy_Engine\<close>: \<^verbatim>\<open>packages/policy/src\<close>. Normaliser, corpus, phrase matcher, integer scoring. Shown: when exactly
    a request is denied, what suppressors do, and that respacing does not hide long phrases.
  \<^item> \<open>Policy_Package\<close>: \<open>loadPolicyPackage\<close> of \<^verbatim>\<open>packages/policy/src/index.ts\<close>, the texts of the policy files being arguments. Shown: a
    policy identifier names one rule file and one manifest.
  \<^item> \<open>Tee\<close>: \<^verbatim>\<open>tee.ts\<close> and \<^verbatim>\<open>hpke.ts\<close>. Boot, measurements, key vault, sealing, attestation documents. Shown: the vault key
    is released exactly to the measurement it was sealed for.
  \<^item> \<open>Pricing\<close>, \<open>Providers\<close>: \<^verbatim>\<open>catalog.ts\<close>, \<^verbatim>\<open>pricing.ts\<close>, \<^verbatim>\<open>providers.ts\<close>. Prices with every floating-point rounding,
    egress allowlist, both adapters (locale \<open>provider_adapter\<close>, interpreted on each and on the registry). Shown: the
    assumed spend covers any bill, and every call is accounted: nothing left the enclave exactly when the class is a
    pre-dispatch one, and which class each other outcome gets.
  \<^item> \<open>Intent\<close>, \<open>Authorize\<close>: \<^verbatim>\<open>intent.ts\<close>, \<^verbatim>\<open>authorize.ts\<close>, \<^verbatim>\<open>POST /credentials/ingest\<close>. Shown: a capability is exactly what
    the contributor sealed, a consumed intent is refused, a key is released only within its owner's consent. What the
    enclave ever signed is a history of \<open>signing\<close>s; the hypotheses concern Ed25519 and SHA-256 on that history only, and two
    records with one canonical text agree up to Unicode normalisation, which is what the conclusion states.
  \<^item> \<open>Pending_Gates\<close>: \<^verbatim>\<open>pending-gates.ts\<close> and the nonce store (locale \<open>bounded_store\<close>). Shown: both stores stay
    bounded, a replay is refused, parked plaintext is fresh when it is used.
  \<^item> \<open>Prover_Client\<close>, \<open>Prover\<close>: \<^verbatim>\<open>prover-client.ts\<close>, \<^verbatim>\<open>prover.ts\<close>, \<^verbatim>\<open>proof-verify.ts\<close>. The five-state machine with its
    polling loop, interleaved runs as a step relation. Shown: VERIFIED means the reference verifier accepted, a started
    proof settles within the ceiling, and a run fails as non-deterministic exactly when the TypeScript engine, run again on
    the witness, disagrees with the recorded gate verdict (\<open>determinism_check_exact\<close>).
  \<^item> \<open>Insights\<close>: \<^verbatim>\<open>insights/*.ts\<close>. Classifier, accumulator, suppression, signed bulletins. Shown: the bulletin refines the
    per-facet counts.
  \<^item> \<open>Gate\<close>, \<open>Dispatch\<close>, \<open>Enclave\<close>: \<^verbatim>\<open>services/tee-sim/src/index.ts\<close>. The gate, the dispatch loop, receipts, and every
    handler interleaved at its \<open>await\<close>s as a step relation. Shown: the gate's outcome is the guest's verdict, it fails
    closed, one dispatch sends at most one request and its reply reports exactly the adapter calls made (\<open>calls_made\<close>, the
    specification of the loop), receipts state what was sent, and in every reachable state whatever left the enclave was
    allowed, for that very request and commitment, by an answer of the guest in the history \<open>sys_answers\<close>, at most once per
    admission.
  \<^item> \<open>Enclave_Log\<close>: \<^verbatim>\<open>enclave-log.ts\<close>. Shown: what the enclave prints of a string matches no secret pattern.
  \<^item> \<open>Receipts\<close>, \<open>Artifact_Verify\<close>: \<^verbatim>\<open>packages/verify/src/verify.ts\<close> and \<^verbatim>\<open>services/tee-sim/src/verify.ts\<close>. Shown: what exactly
    each verifier accepts, that it never claims the seal or hardware, and that what the enclave issued verifies.
  \<^item> \<open>Verify_Cli\<close>: \<^verbatim>\<open>scripts/verify-receipt.ts\<close>, the verdict of the terminal verifier. Shown: exit status 0 is given exactly
    when every printed check holds, the arguments of the reference binary written out, and that a missing proof passes.
  \<^item> \<open>Coordinator_Db\<close>, \<open>Safe_Log\<close>, \<open>Events\<close>, \<open>Routing\<close>, \<open>Tee_Client\<close>, \<open>Credentials\<close>: \<^verbatim>\<open>db.ts\<close>, \<^verbatim>\<open>safe-log.ts\<close>, \<^verbatim>\<open>events.ts\<close>,
    \<^verbatim>\<open>routing.ts\<close>, \<^verbatim>\<open>tee-client.ts\<close> and the contributor endpoints of \<^verbatim>\<open>services/coordinator/src/index.ts\<close>. Shown: no secret
    reaches a log line, the event guard is exact, a drain projects the first waiting events up to its limit once each in
    id order and leaves the others waiting, discovery offers exactly the eligible
    credentials, usage is booked once and atomically, revocation is final.
  \<^item> \<open>Coordinator\<close>, \<open>Coordinator_System\<close>, \<open>Coordinator_Runs\<close>: \<open>runSecureRequest\<close> and \<open>watchProof\<close>, cut at their \<open>await\<close>s, all
    requests and watchers interleaved as a step relation, and concrete runs of it. Shown: the verified badge is
    earned, and the ledger agrees with what clients were told.
  \<^item> \<open>Backing\<close>: the rows behind the replies. Shown: a request past its gate has its verdict on record, and a reply of 200 is
    backed by the stored receipt it carries and by the usage row of the route it names.
  \<^item> \<open>Integrity\<close>: the schema of \<^verbatim>\<open>db.ts\<close> as a typing of the ledger, a lemma for the pages: keys stay unique and references
    resolve, because SQLite refuses every row that would break them.
  \<^item> \<open>Graph_View\<close>: \<^verbatim>\<open>apps/web/src/components/graph/{window,path}.ts\<close>. Shown: which nodes the window and the path of a
    request hold.
  \<^item> \<open>Reports\<close>: the read side of \<^verbatim>\<open>services/coordinator/src/index.ts\<close>. Views, listings, relays, statistics. Shown: the receipt
    endpoint serves the receipt the client was given, and published latencies are honest ranks over verified proofs.
  \<^item> \<open>Client\<close>: \<^verbatim>\<open>packages/client/src/index.ts\<close>. Attestation check, sealing, completion, policy test, contribution, proof
    polling. Shown: what the client seals is what the enclave admits, what the enclave seals is what the client reads,
    plaintext is sealed only to an attested key, a contribution is signed as meant, polling ends.
  \<^item> \<open>Compat\<close>: \<^verbatim>\<open>compat.ts\<close> and \<^verbatim>\<open>POST /v1/chat/completions\<close>. Shown: it seals and answers as the client would have.
  \<^item> \<open>Live_Graph\<close>: the messages of \<^verbatim>\<open>events.ts\<close> and \<open>useLiveGraph\<close> of \<^verbatim>\<open>apps/web/src/lib/api.ts\<close>. Shown: a subscribed browser that
    starts from a snapshot shows the coordinator's graph; what falls between snapshot and subscription is lost.
  \<^item> \<open>Event_Stream\<close>: the text of \<^verbatim>\<open>GET /v1/graph/events\<close>, the \<open>EventSource\<close> that takes it apart and the listeners. Shown: the text
    carries exactly the messages of the bus.
  \<^item> \<open>Playground\<close>: \<^verbatim>\<open>apps/web/src/app/playground/page.tsx\<close> and \<^verbatim>\<open>components/ProofBeat.tsx\<close>, the page as a step relation over
    the coordinator's proof endpoint. Shown: whatever the panel calls verified the enclave reported as verified; and where the
    page shows the proof of an earlier request, runs ahead of the verdict, or never polls the proof of a denial.
  \<^item> \<open>Contribute\<close>: \<^verbatim>\<open>apps/web/src/app/contribute/page.tsx\<close> as a step relation over the client. Shown: a key is asked for and sealed only
    under a fresh verified attestation; and that a poll of the catalog discards the models the contributor chose.
  \<^item> \<open>Endpoints\<close>: the endpoints without state and the error handlers of both servers. Shown: an exception leaves the enclave as scrubbed
    text only, the relayed manifest keeps the enclave's claims, the model list tells nothing of contributors.
  \<^item> \<open>Mock_Provider\<close>: \<^verbatim>\<open>services/mock-provider/src/index.ts\<close> composed with the adapter. Shown: what the enclave makes of each of
    its behaviours.

  \<^bold>\<open>Conventions.\<close> A table is an association list keyed by its primary key; a statement that may throw returns
  \<open>Inl\<close> with the database as it was left; an exception that only becomes a 500 is \<open>None\<close> or \<open>internal_error\<close>. Clocks,
  random values and answers of other processes are arguments. One asynchronous handler is a sequence of functions, one
  per stretch between two \<open>await\<close>s, so that the step relations interleave where the event loop may, with two exceptions:
  \<open>gate_finish\<close> takes the answer of \<open>getGuestHealth\<close> together with that of the gate, and \<open>run\<close> of the prover records a failed
  re-execution in the step that finds it. \<open>internal_error\<close> leaves the text of the message open (the real handler is
  \<open>coordinator_error_handler\<close> in \<open>Endpoints\<close>). \<open>coord_step\<close> has no restart of the process: a run starts with no handler and no watcher
  in flight, on a fresh ledger where a theorem says so. \<open>env_aad\<close> has the three fields the code builds. The nonce \<open>verifyEnclave\<close>
  sends is any value, so its freshness is the page's comparison only; numeric form fields are whole or empty.

  \<^bold>\<open>Parameters and hypotheses.\<close> Unicode tables, IEEE rounding, SHA-256, Ed25519, AES-GCM and HPKE are fields of
  \<open>runtime\<close> and \<open>crypto_lib\<close>; the daemon, the providers and the reference verifier binary are arguments. Laws they are
  documented to obey (a signature verifies, decryption inverts encryption, no hash collision on the values at hand,
  rounding is monotone) are named hypotheses of the theorems that need them, each with a witness on concrete functions.

  \<^bold>\<open>Bounds and fuel.\<close> The prover's polling loop consumes the list of its polls; a run that has neither an answer nor a
  passed ceiling is reported as still polling, and a started proof is shown to settle once the clock passes the
  15-minute ceiling. The JSON parser is fuelled by the length of its input and is shown never to run out on canonical
  text. Store bounds and times to live are the constants of the sources.

  \<^bold>\<open>Not modelled.\<close> React markup and the pages other than the playground and the contribution page, which only format what the read
  side serves; the geometry of the graph; \<open>usePolled\<close>; seeding and test scripts (drivers of a running stack); the file
  system (texts read from disk are arguments); console output; SQLite itself beyond keys, foreign keys and transactions.
\<close>

end
